(* ===== verification/Prelude.thy ===== *)
theory Prelude
  imports Complex_Main "HOL-Library.Code_Target_Nat"
begin

text \<open>
  Shared vocabulary of the development: JavaScript's insertion-ordered \<open>Map\<close> and
  \<open>Set\<close> (the client keeps its records, pending ticks and listeners in them), thrown errors
  as values, and the fact collections the component theories use.

  A \<open>Map\<close> is an association list in insertion order: \<open>set\<close> on a present key keeps the
  key's place, \<open>set\<close> on a new key appends, \<open>delete\<close> removes. A \<open>Set\<close> is a list in
  insertion order without repeats.
\<close>

named_theorems jmap_simps \<open>lookup after an update of an insertion-ordered map\<close>
named_theorems exn_simps \<open>the error monad\<close>

section \<open>Errors\<close>

text \<open>The constructors of the exceptions the client throws, with their messages.\<close>

datatype js_error = RangeError string | TypeError string | SyntaxError string | PlainError string

type_synonym 'a exn = "js_error + 'a"

definition bindE :: "'a exn \<Rightarrow> ('a \<Rightarrow> 'b exn) \<Rightarrow> 'b exn" where
  "bindE m f = (case m of Inl e \<Rightarrow> Inl e | Inr x \<Rightarrow> f x)"

lemma bindE_simps [simp, exn_simps]:
  "bindE (Inl e) f = Inl e"
  "bindE (Inr x) f = f x"
  by (simp_all add: bindE_def)

lemma bindE_Inr_iff [exn_simps]: "bindE m f = Inr y \<longleftrightarrow> (\<exists>x. m = Inr x \<and> f x = Inr y)"
  by (cases m) auto

lemma bindE_Inl_iff [exn_simps]:
  "bindE m f = Inl e \<longleftrightarrow> m = Inl e \<or> (\<exists>x. m = Inr x \<and> f x = Inl e)"
  by (cases m) auto

fun mapE :: "('a \<Rightarrow> 'b exn) \<Rightarrow> 'a list \<Rightarrow> 'b list exn" where
  "mapE f [] = Inr []"
| "mapE f (x # xs) = bindE (f x) (\<lambda>y. bindE (mapE f xs) (\<lambda>ys. Inr (y # ys)))"

lemma mapE_Inr_iff: "mapE f xs = Inr ys \<longleftrightarrow> list_all2 (\<lambda>x y. f x = Inr y) xs ys"
  by (induction xs arbitrary: ys) (auto simp: exn_simps list_all2_Cons1)

section \<open>Insertion-ordered maps\<close>

type_synonym ('k, 'v) jmap = "('k \<times> 'v) list"

definition jget :: "('k, 'v) jmap \<Rightarrow> 'k \<Rightarrow> 'v option" where
  "jget m k = map_of m k"

fun jset :: "'k \<Rightarrow> 'v \<Rightarrow> ('k, 'v) jmap \<Rightarrow> ('k, 'v) jmap" where
  "jset k v [] = [(k, v)]"
| "jset k v (p # ps) = (if fst p = k then (k, v) # ps else p # jset k v ps)"

definition jdelete :: "'k \<Rightarrow> ('k, 'v) jmap \<Rightarrow> ('k, 'v) jmap" where
  "jdelete k m = filter (\<lambda>p. fst p \<noteq> k) m"

definition jkeys :: "('k, 'v) jmap \<Rightarrow> 'k list" where
  "jkeys m = map fst m"

definition jvalues :: "('k, 'v) jmap \<Rightarrow> 'v list" where
  "jvalues m = map snd m"

definition jmap_ok :: "('k, 'v) jmap \<Rightarrow> bool" where
  "jmap_ok m = distinct (jkeys m)"

lemma jget_Nil [simp, jmap_simps]: "jget [] k = None"
  by (simp add: jget_def)

lemma jget_Cons: "jget ((k', v) # m) k = (if k = k' then Some v else jget m k)"
  by (simp add: jget_def)

lemma jget_jset [simp, jmap_simps]: "jget (jset k v m) k' = (if k' = k then Some v else jget m k')"
  by (induction m) (auto simp: jget_def)

lemma jget_jdelete [simp, jmap_simps]:
  "jget (jdelete k m) k' = (if k' = k then None else jget m k')"
  by (induction m) (auto simp: jget_def jdelete_def)

lemma jkeys_Nil [simp]: "jkeys [] = []"
  by (simp add: jkeys_def)

lemma jkeys_Cons [simp]: "jkeys (p # m) = fst p # jkeys m"
  by (simp add: jkeys_def)

lemma jget_None_iff: "jget m k = None \<longleftrightarrow> k \<notin> set (jkeys m)"
  by (simp add: jget_def jkeys_def map_of_eq_None_iff)

lemma jget_Some_key: "jget m k = Some v \<Longrightarrow> k \<in> set (jkeys m)"
  by (metis jget_None_iff option.distinct(1))

lemma jget_Some_in: "jget m k = Some v \<Longrightarrow> (k, v) \<in> set m"
  by (simp add: jget_def map_of_SomeD)

lemma jmap_ok_jget: "jmap_ok m \<Longrightarrow> (k, v) \<in> set m \<Longrightarrow> jget m k = Some v"
  by (simp add: jmap_ok_def jkeys_def jget_def)

lemma set_jkeys_jset [simp]: "set (jkeys (jset k v m)) = insert k (set (jkeys m))"
  by (induction m) auto

lemma jkeys_jset_present: "k \<in> set (jkeys m) \<Longrightarrow> jkeys (jset k v m) = jkeys m"
  by (induction m) auto

lemma jkeys_jset_new: "k \<notin> set (jkeys m) \<Longrightarrow> jkeys (jset k v m) = jkeys m @ [k]"
  by (induction m) auto

lemma jmap_ok_Nil [simp]: "jmap_ok []"
  by (simp add: jmap_ok_def)

lemma jmap_ok_jset [simp]: "jmap_ok m \<Longrightarrow> jmap_ok (jset k v m)"
  unfolding jmap_ok_def by (induction m) auto

lemma jmap_ok_jdelete [simp]: "jmap_ok m \<Longrightarrow> jmap_ok (jdelete k m)"
  unfolding jmap_ok_def jkeys_def jdelete_def
  by (induction m) auto

lemma set_jdelete: "set (jdelete k m) = {p \<in> set m. fst p \<noteq> k}"
  by (auto simp: jdelete_def)

text \<open>Updating every value in place, as a loop over the entries that \<open>set\<close>s each key.\<close>

definition jmap_values :: "('k \<Rightarrow> 'v \<Rightarrow> 'w) \<Rightarrow> ('k, 'v) jmap \<Rightarrow> ('k, 'w) jmap" where
  "jmap_values f m = map (\<lambda>(k, v). (k, f k v)) m"

lemma jget_jmap_values [simp, jmap_simps]: "jget (jmap_values f m) k = map_option (f k) (jget m k)"
  by (induction m) (auto simp: jget_def jmap_values_def)

lemma jkeys_jmap_values [simp]: "jkeys (jmap_values f m) = jkeys m"
  by (simp add: jkeys_def jmap_values_def case_prod_unfold)

lemma jmap_ok_jmap_values [simp]: "jmap_ok (jmap_values f m) = jmap_ok m"
  by (simp add: jmap_ok_def)

section \<open>Insertion-ordered sets\<close>

type_synonym 'a jset = "'a list"

definition sadd :: "'a \<Rightarrow> 'a jset \<Rightarrow> 'a jset" where
  "sadd x s = (if x \<in> set s then s else s @ [x])"

definition sdelete :: "'a \<Rightarrow> 'a jset \<Rightarrow> 'a jset" where
  "sdelete x s = filter (\<lambda>y. y \<noteq> x) s"

lemma set_sadd [simp]: "set (sadd x s) = insert x (set s)"
  by (auto simp: sadd_def)

lemma set_sdelete [simp]: "set (sdelete x s) = set s - {x}"
  by (auto simp: sdelete_def)

lemma distinct_sadd [simp]: "distinct s \<Longrightarrow> distinct (sadd x s)"
  by (simp add: sadd_def)

lemma distinct_sdelete [simp]: "distinct s \<Longrightarrow> distinct (sdelete x s)"
  by (simp add: sdelete_def)

lemma sdelete_absent [simp]: "x \<notin> set s \<Longrightarrow> sdelete x s = s"
  by (auto simp: sdelete_def filter_id_conv)

section \<open>Folds that preserve a property\<close>

lemma foldl_invariant:
  assumes "P s" and "\<And>s x. P s \<Longrightarrow> x \<in> set xs \<Longrightarrow> P (f s x)"
  shows "P (foldl f s xs)"
  using assms by (induction xs arbitrary: s) auto

lemma foldl_frame:
  assumes "\<And>s x. x \<in> set xs \<Longrightarrow> g (f s x) = g s"
  shows "g (foldl f s xs) = g s"
  using assms by (induction xs arbitrary: s) auto

end
