(* ===== verification/Js_Number.thy ===== *)
theory Js_Number
  imports Prelude
begin

text \<open>
  JavaScript's \<open>number\<close>. A finite double is a rational of the form m * 2^e, so a double
  operation is the exact rational operation followed by \<open>fl\<close>, the rounding to the nearest double
  (ties to even, subnormals included). \<open>to_number\<close> adds overflow to an infinity, and \<open>number\<close>
  is the type of values: a finite double, an infinity, or NaN. The sign of zero is not kept.
\<close>

section \<open>Rounding to the nearest double\<close>

fun ilog2 :: "nat \<Rightarrow> nat" where
  "ilog2 n = (if n < 2 then 0 else Suc (ilog2 (n div 2)))"

declare ilog2.simps [simp del]

lemma ilog2_bounds: "0 < n \<Longrightarrow> 2 ^ ilog2 n \<le> n \<and> n < 2 ^ Suc (ilog2 n)"
proof (induction n rule: ilog2.induct)
  case (1 n)
  show ?case
  proof (cases "n < 2")
    case True
    with 1 show ?thesis by (simp add: ilog2.simps [of n])
  next
    case False
    with 1 have "2 ^ ilog2 (n div 2) \<le> n div 2 \<and> n div 2 < 2 ^ Suc (ilog2 (n div 2))" by simp
    then have "2 * 2 ^ ilog2 (n div 2) \<le> n" "n < 4 * 2 ^ ilog2 (n div 2)" by auto
    with False show ?thesis by (simp add: ilog2.simps [of n])
  qed
qed

text \<open>Evaluation reads the logarithm off the binary numeral.\<close>

fun num_log2 :: "num \<Rightarrow> nat" where
  "num_log2 num.One = 0"
| "num_log2 (num.Bit0 k) = num_log2 k + 1"
| "num_log2 (num.Bit1 k) = num_log2 k + 1"

lemma ilog2_numeral: "ilog2 (numeral k) = num_log2 k"
proof (induction k)
  case (Bit0 k)
  have "numeral (num.Bit0 k) div 2 = (numeral k :: nat)" "\<not> numeral (num.Bit0 k) < (2::nat)" by simp_all
  then show ?case using Bit0 by (subst ilog2.simps) (simp only: if_False num_log2.simps Suc_eq_plus1)
next
  case (Bit1 k)
  have "numeral (num.Bit1 k) div 2 = (numeral k :: nat)" "\<not> numeral (num.Bit1 k) < (2::nat)" by simp_all
  then show ?case using Bit1 by (subst ilog2.simps) (simp only: if_False num_log2.simps Suc_eq_plus1)
next
  case One
  show ?case by (subst ilog2.simps) simp
qed

definition integer_log2 :: "integer \<Rightarrow> nat" where
  "integer_log2 k = ilog2 (nat_of_integer k)"

lemma integer_log2_code [code]:
  "integer_log2 0 = 0"
  "integer_log2 (Code_Numeral.Pos k) = num_log2 k"
  "integer_log2 (Code_Numeral.Neg k) = 0"
proof -
  have "ilog2 0 = 0" by (subst ilog2.simps) simp
  then show "integer_log2 0 = 0" by (simp add: integer_log2_def)
  have "nat_of_integer (Code_Numeral.Pos k) = numeral k" by (simp add: Code_Numeral.Pos_def)
  then show "integer_log2 (Code_Numeral.Pos k) = num_log2 k" by (simp add: integer_log2_def ilog2_numeral)
  have "nat_of_integer (Code_Numeral.Neg k) = 0" by (simp add: Code_Numeral.Neg_def nat_of_integer.rep_eq)
  then show "integer_log2 (Code_Numeral.Neg k) = 0" using \<open>ilog2 0 = 0\<close> by (simp add: integer_log2_def)
qed

lemma ilog2_code [code]: "ilog2 n = integer_log2 (integer_of_nat n)"
  by (simp add: integer_log2_def)

text \<open>Two to a signed power, and the binary exponent of a positive rational.\<close>

definition pow2 :: "int \<Rightarrow> rat" where
  "pow2 e = (if 0 \<le> e then 2 ^ nat e else 1 / 2 ^ nat (- e))"

definition rat_expo :: "rat \<Rightarrow> int" where
  "rat_expo x = (let (p, q) = quotient_of x;
                     a = int (ilog2 (nat p)) - int (ilog2 (nat q))
                 in if pow2 a \<le> x then a else a - 1)"

text \<open>Rounding to the nearest integer, ties to even.\<close>

definition rne :: "rat \<Rightarrow> int" where
  "rne y = (let f = \<lfloor>y\<rfloor>; d = y - of_int f
            in if d < 1/2 then f else if 1/2 < d then f + 1 else if even f then f else f + 1)"

text \<open>The exponent of the last place of the double nearest to \<open>x\<close>: 53 significant bits, and
  never below the subnormal spacing 2^-1074.\<close>

definition ulp_expo :: "rat \<Rightarrow> int" where
  "ulp_expo x = max (rat_expo \<bar>x\<bar>) (- 1022) - 52"

definition fl :: "rat \<Rightarrow> rat" where
  "fl x = (if x = 0 then 0 else of_int (rne (x / pow2 (ulp_expo x))) * pow2 (ulp_expo x))"

text \<open>The same functions with every intermediate result an argument, so that evaluation computes
  it once.\<close>

definition rne_at :: "int \<Rightarrow> rat \<Rightarrow> int" where
  "rne_at f d = (if d < 1/2 then f else if 1/2 < d then f + 1 else if even f then f else f + 1)"

definition rne_floor :: "rat \<Rightarrow> int \<Rightarrow> int" where
  "rne_floor y f = rne_at f (y - of_int f)"

definition fl_at :: "rat \<Rightarrow> rat \<Rightarrow> rat" where
  "fl_at x u = of_int (rne_floor (x / u) \<lfloor>x / u\<rfloor>) * u"

definition rat_expo_at :: "rat \<Rightarrow> int \<Rightarrow> int" where
  "rat_expo_at x a = (if pow2 a \<le> x then a else a - 1)"

definition expo_diff :: "int \<times> int \<Rightarrow> int" where
  "expo_diff r = int (ilog2 (nat (fst r))) - int (ilog2 (nat (snd r)))"

lemma rat_expo_code [code]: "rat_expo x = rat_expo_at x (expo_diff (quotient_of x))"
  by (simp add: rat_expo_def rat_expo_at_def expo_diff_def case_prod_unfold Let_def)

lemma rne_code [code]: "rne y = rne_floor y \<lfloor>y\<rfloor>"
  by (simp add: rne_def rne_floor_def rne_at_def Let_def)

lemma fl_code [code]: "fl x = (if x = 0 then 0 else fl_at x (pow2 (ulp_expo x)))"
  by (simp add: fl_def fl_at_def flip: rne_code)

lemma pow2_pos [simp]: "0 < pow2 e"
  by (simp add: pow2_def)

lemma pow2_nonzero [simp]: "pow2 e \<noteq> 0"
  using pow2_pos [of e] by linarith

lemma abs_pow2 [simp]: "\<bar>pow2 e\<bar> = pow2 e"
  by (simp add: order_less_imp_le)

lemma pow2_0 [simp]: "pow2 0 = 1"
  by (simp add: pow2_def)

lemma pow2_Suc: "pow2 (e + 1) = 2 * pow2 e"
proof (cases "0 \<le> e")
  case True
  then have "nat (e + 1) = Suc (nat e)" by simp
  with True show ?thesis by (simp add: pow2_def)
next
  case False
  then have "nat (- e) = Suc (nat (- (e + 1)))" by simp
  with False show ?thesis by (auto simp: pow2_def)
qed

lemma pow2_add_nat: "pow2 (e + int n) = 2 ^ n * pow2 e"
proof (induction n)
  case 0
  then show ?case by simp
next
  case (Suc n)
  have "pow2 (e + int (Suc n)) = pow2 ((e + int n) + 1)" by (simp add: algebra_simps)
  then show ?case by (simp add: Suc pow2_Suc)
qed

lemma pow2_mono: "a \<le> b \<Longrightarrow> pow2 a \<le> pow2 b"
proof -
  assume "a \<le> b"
  then obtain n where "b = a + int n" using zle_iff_zadd by auto
  then have b: "pow2 b = 2 ^ n * pow2 a" by (simp add: pow2_add_nat)
  have "1 * pow2 a \<le> 2 ^ n * pow2 a"
    by (rule mult_right_mono) (simp_all add: order_less_imp_le)
  with b show ?thesis by simp
qed

lemma pow2_add: "pow2 (a + b) = pow2 a * pow2 b"
proof (cases "0 \<le> b")
  case True
  then obtain n where "b = int n" using nonneg_int_cases by blast
  then show ?thesis using pow2_add_nat [of a n] pow2_add_nat [of 0 n] by simp
next
  case False
  define n where "n = nat (- b)"
  then have b: "b = - int n" using False by simp
  have "pow2 a = pow2 ((a + b) + int n)" using b by simp
  also have "\<dots> = 2 ^ n * pow2 (a + b)" by (rule pow2_add_nat)
  finally have "pow2 a = 2 ^ n * pow2 (a + b)" .
  moreover have "pow2 b * 2 ^ n = 1"
    using b by (cases "n = 0") (simp_all add: pow2_def)
  ultimately show ?thesis by (simp add: algebra_simps)
qed

lemma pow2_less_cancel: "pow2 a < pow2 b \<Longrightarrow> a < b"
  by (meson linorder_not_le pow2_mono)

lemma rat_expo_bounds:
  assumes "0 < x"
  shows "pow2 (rat_expo x) \<le> x \<and> x < pow2 (rat_expo x + 1)"
proof -
  obtain p q where pq: "quotient_of x = (p, q)" by fastforce
  define a where "a = int (ilog2 (nat p)) - int (ilog2 (nat q))"
  have q: "0 < q" using pq by (rule quotient_of_denom_pos)
  have x: "x = of_int p / of_int q" using pq by (rule quotient_of_div)
  have p: "0 < p" using assms x q by (simp add: zero_less_divide_iff)
  let ?P = "pow2 (int (ilog2 (nat p)))" and ?Q = "pow2 (int (ilog2 (nat q)))"
  have bnd: "pow2 (int (ilog2 (nat m))) \<le> of_int m \<and> of_int m < 2 * pow2 (int (ilog2 (nat m)))"
    if "0 < m" for m
  proof -
    have "2 ^ ilog2 (nat m) \<le> nat m" "nat m < 2 ^ Suc (ilog2 (nat m))"
      using ilog2_bounds [of "nat m"] that by auto
    then have "(2::int) ^ ilog2 (nat m) \<le> m" "m < 2 * 2 ^ ilog2 (nat m)"
      using that by (auto simp: nat_less_iff le_nat_iff)
    then have "of_int ((2::int) ^ ilog2 (nat m)) \<le> (of_int m :: rat)"
      "(of_int m :: rat) < of_int (2 * 2 ^ ilog2 (nat m))"
      by (simp_all only: of_int_le_iff of_int_less_iff)
    then show ?thesis by (simp add: pow2_def)
  qed
  have P: "?P \<le> of_int p" "of_int p < 2 * ?P" using bnd [OF p] by auto
  have Q: "?Q \<le> of_int q" "of_int q < 2 * ?Q" using bnd [OF q] by auto
  have aQ: "pow2 a * ?Q = ?P" unfolding pow2_add [symmetric] a_def by simp
  have "of_int p < 2 * (pow2 a * of_int q)"
  proof -
    have "2 * ?P = 2 * (pow2 a * ?Q)" using aQ by simp
    also have "\<dots> \<le> 2 * (pow2 a * of_int q)"
      using Q(1) by (simp add: order_less_imp_le)
    finally show ?thesis using P(2) by simp
  qed
  then have up: "x < 2 * pow2 a" using x q by (simp add: divide_less_eq mult.assoc)
  have "pow2 a * of_int q < 2 * of_int p"
  proof -
    have "pow2 a * of_int q < pow2 a * (2 * ?Q)" using Q(2) by simp
    also have "\<dots> = 2 * ?P" using aQ by simp
    finally show ?thesis using P(1) by simp
  qed
  then have lo: "pow2 a < 2 * x" using x q by (simp add: less_divide_eq)
  have e: "rat_expo x = (if pow2 a \<le> x then a else a - 1)"
    by (simp add: rat_expo_def pq a_def)
  have a1: "2 * pow2 (a - 1) = pow2 a" using pow2_Suc [of "a - 1"] by simp
  show ?thesis using e up lo a1 pow2_Suc [of a] by auto
qed

lemma rat_expo_unique:
  assumes "0 < x" "pow2 e \<le> x" "x < pow2 (e + 1)"
  shows "rat_expo x = e"
proof -
  have "pow2 e < pow2 (rat_expo x + 1)" "pow2 (rat_expo x) < pow2 (e + 1)"
    using rat_expo_bounds [OF assms(1)] assms(2,3) by linarith+
  then have "e < rat_expo x + 1" "rat_expo x < e + 1" by (auto dest: pow2_less_cancel)
  then show ?thesis by simp
qed

lemma rat_expo_mono:
  assumes "0 < x" "x \<le> y"
  shows "rat_expo x \<le> rat_expo y"
proof -
  have "pow2 (rat_expo x) < pow2 (rat_expo y + 1)"
    using rat_expo_bounds [of x] rat_expo_bounds [of y] assms by linarith
  then show ?thesis using pow2_less_cancel by fastforce
qed

lemma rne_of_int [simp]: "rne (of_int n) = n"
  by (simp add: rne_def)

lemma rne_bounds: "of_int (rne y) - 1/2 \<le> y \<and> y \<le> of_int (rne y) + 1/2"
  by (auto simp: rne_def Let_def) linarith+

lemma rne_mono:
  assumes "x \<le> y"
  shows "rne x \<le> rne y"
proof (cases "\<lfloor>x\<rfloor> = \<lfloor>y\<rfloor>")
  case True
  with assms show ?thesis by (auto simp: rne_def Let_def)
next
  case False
  then have lt: "\<lfloor>x\<rfloor> + 1 \<le> \<lfloor>y\<rfloor>" using floor_mono [OF assms] by simp
  have "rne x \<le> \<lfloor>x\<rfloor> + 1" "\<lfloor>y\<rfloor> \<le> rne y" by (auto simp: rne_def Let_def)
  with lt show ?thesis by simp
qed

lemma rne_minus: "rne (- y) = - rne y"
proof (cases "y = of_int \<lfloor>y\<rfloor>")
  case True
  then show ?thesis by (metis of_int_minus rne_of_int)
next
  case False
  then have f: "\<lfloor>- y\<rfloor> = - \<lfloor>y\<rfloor> - 1"
    by (metis add.inverse_inverse ceiling_altdef ceiling_def diff_minus_eq_add
        minus_add_distrib uminus_add_conv_diff)
  show ?thesis by (auto simp: rne_def Let_def f)
qed

lemma fl_0 [simp]: "fl 0 = 0"
  by (simp add: fl_def)

lemma fl_minus: "fl (- x) = - fl x"
  by (simp add: fl_def ulp_expo_def rne_minus)

text \<open>The doubles: at most 53 significant bits above the subnormal spacing (the exponent is
  not bounded above here; overflow is \<open>to_number\<close>'s).\<close>

definition double_rep :: "rat \<Rightarrow> bool" where
  "double_rep x = (\<exists>m e. x = of_int m * pow2 e \<and> \<bar>m\<bar> \<le> 2 ^ 53 \<and> - 1074 \<le> e)"

lemma double_rep_of_int: "\<bar>n\<bar> \<le> 2 ^ 53 \<Longrightarrow> double_rep (of_int n)"
  unfolding double_rep_def by (rule exI [of _ n], rule exI [of _ 0]) simp

lemma ulp_expo_le:
  assumes "x \<noteq> 0" "\<bar>x\<bar> < pow2 (e + 53)" "- 1074 \<le> e"
  shows "ulp_expo x \<le> e"
proof -
  have "pow2 (rat_expo \<bar>x\<bar>) < pow2 (e + 53)"
    using rat_expo_bounds [of "\<bar>x\<bar>"] assms by auto
  then have "rat_expo \<bar>x\<bar> < e + 53" by (rule pow2_less_cancel)
  with assms(3) show ?thesis by (simp add: ulp_expo_def)
qed

lemma fl_multiple:
  assumes "x = of_int m * pow2 e" "x \<noteq> 0" "ulp_expo x \<le> e"
  shows "fl x = x"
proof -
  obtain n where n: "e = ulp_expo x + int n" using assms(3) zle_iff_zadd by auto
  define u where "u = ulp_expo x"
  have xu: "x = of_int (m * 2 ^ n) * pow2 u"
    using assms(1) unfolding n u_def [symmetric] pow2_add_nat by simp
  then have "x / pow2 u = of_int (m * 2 ^ n)" by simp
  then have "x / pow2 (ulp_expo x) = of_int (m * 2 ^ n)" by (simp only: u_def)
  then have "rne (x / pow2 (ulp_expo x)) = m * 2 ^ n" by (simp only: rne_of_int)
  then have "fl x = of_int (m * 2 ^ n) * pow2 u" using assms(2) by (simp add: fl_def u_def)
  then show ?thesis by (simp only: xu [symmetric])
qed

lemma fl_double_rep:
  assumes "double_rep x"
  shows "fl x = x"
proof (cases "x = 0")
  case False
  obtain m e where me: "x = of_int m * pow2 e" "\<bar>m\<bar> \<le> 2 ^ 53" "- 1074 \<le> e"
    using assms by (auto simp: double_rep_def)
  show ?thesis
  proof (cases "\<bar>m\<bar> = 2 ^ 53")
    case True
    have x: "x = of_int (sgn m) * pow2 (e + int 53)"
      unfolding pow2_add_nat me(1) using True
      by (metis abs_mult_sgn mult.assoc mult.commute of_int_mult of_int_numeral of_int_power)
    have "\<bar>x\<bar> = pow2 (e + 53)" using True x by (auto simp: abs_mult sgn_if split: if_splits)
    also have "\<dots> < pow2 ((e + 1) + 53)" using pow2_Suc [of "e + 53"] pow2_pos [of "e + 53"]
      by (simp add: algebra_simps)
    finally have "ulp_expo x \<le> e + 1" using False me(3) by (intro ulp_expo_le) auto
    then show ?thesis by (intro fl_multiple [OF x False]) simp
  next
    case neq: False
    then have "\<bar>m\<bar> < 2 ^ 53" using me(2) by simp
    then have "of_int \<bar>m\<bar> < (of_int (2 ^ 53) :: rat)" by (simp only: of_int_less_iff)
    then have "\<bar>x\<bar> < 2 ^ 53 * pow2 e" using me(1) by (simp add: abs_mult)
    then have "\<bar>x\<bar> < pow2 (e + 53)" using pow2_add_nat [of e 53] by simp
    then show ?thesis using False me by (intro fl_multiple [OF me(1) False] ulp_expo_le)
  qed
qed simp

lemma fl_of_int [simp]: "\<bar>n\<bar> \<le> 2 ^ 53 \<Longrightarrow> fl (of_int n) = of_int n"
  by (rule fl_double_rep [OF double_rep_of_int])

lemma double_rep_fl [simp]: "double_rep (fl x)"
proof (cases "x = 0")
  case True
  then show ?thesis using double_rep_of_int [of 0] by simp
next
  case False
  let ?u = "ulp_expo x" and ?e = "rat_expo \<bar>x\<bar>"
  have "\<bar>x\<bar> < pow2 (?e + 1)" using rat_expo_bounds [of "\<bar>x\<bar>"] False by simp
  also have "\<dots> \<le> pow2 (?u + 53)" by (rule pow2_mono) (simp add: ulp_expo_def)
  finally have "\<bar>x\<bar> < 2 ^ 53 * pow2 ?u" using pow2_add_nat [of ?u 53] by simp
  then have "x \<le> 2 ^ 53 * pow2 ?u" "- (2 ^ 53 * pow2 ?u) \<le> x" by linarith+
  then have "x / pow2 ?u \<le> of_int (2 ^ 53)" "of_int (- (2 ^ 53)) \<le> x / pow2 ?u"
    by (simp_all add: divide_le_eq le_divide_eq)
  then have "rne (x / pow2 ?u) \<le> 2 ^ 53" "- (2 ^ 53) \<le> rne (x / pow2 ?u)"
    using rne_mono rne_of_int by metis+
  then show ?thesis unfolding double_rep_def fl_def using False
    by (intro exI [of _ "rne (x / pow2 ?u)"] exI [of _ ?u]) (auto simp: ulp_expo_def)
qed

lemma fl_idem [simp]: "fl (fl x) = fl x"
  by (rule fl_double_rep) simp

lemma fl_nonneg: "0 \<le> x \<Longrightarrow> 0 \<le> fl x"
proof -
  assume "0 \<le> x"
  then have "of_int 0 \<le> x / pow2 (ulp_expo x)" by (simp add: order_less_imp_le)
  then have "0 \<le> rne (x / pow2 (ulp_expo x))" using rne_mono rne_of_int by metis
  then show ?thesis by (simp add: fl_def order_less_imp_le)
qed

lemma fl_mono_pos:
  assumes "0 < x" "x \<le> y"
  shows "fl x \<le> fl y"
proof (cases "ulp_expo x = ulp_expo y")
  case True
  have "x / pow2 (ulp_expo y) \<le> y / pow2 (ulp_expo y)"
    using assms(2) by (simp add: divide_right_mono order_less_imp_le)
  then have "rne (x / pow2 (ulp_expo y)) \<le> rne (y / pow2 (ulp_expo y))" by (rule rne_mono)
  then have "of_int (rne (x / pow2 (ulp_expo y))) * pow2 (ulp_expo y)
      \<le> of_int (rne (y / pow2 (ulp_expo y))) * pow2 (ulp_expo y)"
    by (intro mult_right_mono) (simp_all add: order_less_imp_le)
  then show ?thesis using assms True by (simp add: fl_def)
next
  case False
  let ?a = "rat_expo x" and ?b = "rat_expo y" and ?k = "ulp_expo x" and ?l = "ulp_expo y"
  have ab: "?a \<le> ?b" using assms by (rule rat_expo_mono)
  then have lb: "?b = ?l + 52" and kl: "?k + 53 \<le> ?l + 52"
    using False assms by (auto simp: ulp_expo_def)
  have "x < pow2 (?a + 1)" using rat_expo_bounds [OF assms(1)] by simp
  also have "\<dots> \<le> pow2 (?k + 53)" by (rule pow2_mono) (use assms in \<open>simp add: ulp_expo_def\<close>)
  finally have "x / pow2 ?k \<le> of_int (2 ^ 53)"
    using pow2_add_nat [of ?k 53] by (simp add: divide_le_eq)
  then have "rne (x / pow2 ?k) \<le> 2 ^ 53" using rne_mono rne_of_int by metis
  then have "(of_int (rne (x / pow2 ?k)) :: rat) \<le> of_int (2 ^ 53)" by (simp only: of_int_le_iff)
  then have "fl x \<le> 2 ^ 53 * pow2 ?k"
    using assms by (simp add: fl_def mult_right_mono order_less_imp_le)
  also have "\<dots> = pow2 (?k + 53)" using pow2_add_nat [of ?k 53] by simp
  also have "\<dots> \<le> pow2 (?l + 52)" using kl by (rule pow2_mono)
  also have "\<dots> \<le> fl y"
  proof -
    have "pow2 ?b \<le> y" using rat_expo_bounds [of y] assms by simp
    then have "of_int (2 ^ 52) \<le> y / pow2 ?l"
      using lb pow2_add_nat [of ?l 52] by (simp add: le_divide_eq)
    then have "2 ^ 52 \<le> rne (y / pow2 ?l)" using rne_mono rne_of_int by metis
    then have "of_int (2 ^ 52) \<le> (of_int (rne (y / pow2 ?l)) :: rat)" by (simp only: of_int_le_iff)
    then have "2 ^ 52 * pow2 ?l \<le> fl y"
      using assms by (simp add: fl_def mult_right_mono order_less_imp_le)
    then show ?thesis using pow2_add_nat [of ?l 52] by simp
  qed
  finally show ?thesis .
qed

lemma fl_mono: "x \<le> y \<Longrightarrow> fl x \<le> fl y"
proof -
  assume le: "x \<le> y"
  consider "0 < x" | "y < 0" | "x \<le> 0" "0 \<le> y" by linarith
  then show ?thesis
  proof cases
    case 1
    then show ?thesis using le by (rule fl_mono_pos)
  next
    case 2
    then have "fl (- y) \<le> fl (- x)" using le by (intro fl_mono_pos) auto
    then show ?thesis by (simp add: fl_minus)
  next
    case 3
    then have "0 \<le> fl (- x)" "0 \<le> fl y" by (simp_all add: fl_nonneg)
    then show ?thesis by (simp add: fl_minus)
  qed
qed

lemma fl_le_rep: "x \<le> y \<Longrightarrow> double_rep y \<Longrightarrow> fl x \<le> y"
  using fl_mono fl_double_rep by metis

lemma fl_ge_rep: "y \<le> x \<Longrightarrow> double_rep y \<Longrightarrow> y \<le> fl x"
  using fl_mono fl_double_rep by metis

section \<open>Values of type number\<close>

datatype number = Fin rat | PInf | NInf | NaN

definition to_number :: "rat \<Rightarrow> number" where
  "to_number x = (let y = fl x in if 2 ^ 1024 \<le> y then PInf else if y \<le> - (2 ^ 1024) then NInf else Fin y)"

text \<open>Evaluation compares with 2^1024 only when the value is large.\<close>

lemma to_number_code [code]:
  "to_number x = (let y = fl x in if \<bar>y\<bar> < 18446744073709551616 then Fin y
     else if 2 ^ 1024 \<le> y then PInf else if y \<le> - (2 ^ 1024) then NInf else Fin y)"
proof -
  have "(18446744073709551616 :: rat) \<le> 2 ^ 1024" by simp
  then show ?thesis by (simp add: to_number_def Let_def)
qed

definition of_count :: "int \<Rightarrow> number" where
  "of_count n = Fin (of_int n)"

fun num_add :: "number \<Rightarrow> number \<Rightarrow> number" where
  "num_add (Fin a) (Fin b) = to_number (a + b)"
| "num_add NaN _ = NaN"
| "num_add _ NaN = NaN"
| "num_add PInf NInf = NaN"
| "num_add NInf PInf = NaN"
| "num_add PInf _ = PInf"
| "num_add _ PInf = PInf"
| "num_add NInf _ = NInf"
| "num_add _ NInf = NInf"

fun num_neg :: "number \<Rightarrow> number" where
  "num_neg (Fin a) = Fin (- a)"
| "num_neg PInf = NInf"
| "num_neg NInf = PInf"
| "num_neg NaN = NaN"

definition num_sub :: "number \<Rightarrow> number \<Rightarrow> number" where
  "num_sub a b = num_add a (num_neg b)"

text \<open>Comparisons: every one with a NaN is false.\<close>

fun num_less :: "number \<Rightarrow> number \<Rightarrow> bool" where
  "num_less (Fin a) (Fin b) = (a < b)"
| "num_less NaN _ = False"
| "num_less _ NaN = False"
| "num_less NInf NInf = False"
| "num_less NInf _ = True"
| "num_less _ NInf = False"
| "num_less PInf _ = False"
| "num_less _ PInf = True"

definition num_is_finite :: "number \<Rightarrow> bool" where
  "num_is_finite x = (case x of Fin _ \<Rightarrow> True | _ \<Rightarrow> False)"

text \<open>\<open>Number.isSafeInteger\<close>.\<close>

definition is_safe_integer :: "number \<Rightarrow> bool" where
  "is_safe_integer x = (case x of Fin r \<Rightarrow> r = of_int \<lfloor>r\<rfloor> \<and> \<bar>r\<bar> < 2 ^ 53 | _ \<Rightarrow> False)"

lemma to_number_of_int: "\<bar>n\<bar> \<le> 2 ^ 53 \<Longrightarrow> to_number (of_int n) = Fin (of_int n)"
proof -
  assume n: "\<bar>n\<bar> \<le> 2 ^ 53"
  then have "of_int \<bar>n\<bar> \<le> (of_int (2 ^ 53) :: rat)" by (simp only: of_int_le_iff)
  then have "\<bar>of_int n\<bar> < (2 :: rat) ^ 1024" by simp
  then show ?thesis using n by (simp add: to_number_def abs_less_iff)
qed

lemma num_add_counts:
  "\<bar>a + b\<bar> \<le> 2 ^ 53 \<Longrightarrow> num_add (of_count a) (of_count b) = of_count (a + b)"
  using to_number_of_int [of "a + b"] by (simp add: of_count_def)

lemma of_count_eq_iff [simp]: "of_count a = of_count b \<longleftrightarrow> a = b"
  by (simp add: of_count_def)

lemma is_safe_integer_iff: "is_safe_integer x \<longleftrightarrow> (\<exists>n. x = of_count n \<and> \<bar>n\<bar> < 2 ^ 53)"
proof (cases x)
  case (Fin r)
  have "\<bar>of_int n :: rat\<bar> < 2 ^ 53 \<longleftrightarrow> \<bar>n\<bar> < 2 ^ 53" for n :: int
    by (metis of_int_abs of_int_less_iff of_int_numeral of_int_power)
  then show ?thesis using Fin by (auto simp: is_safe_integer_def of_count_def)
qed (auto simp: is_safe_integer_def of_count_def)

text \<open>A quotient of small whole numbers never rounds up to the next whole number.\<close>

lemma floor_fl_nat:
  assumes "0 < b" and "b \<le> 2 ^ 20" and "a < b * 2 ^ 32"
  shows "\<lfloor>fl (of_nat a / of_nat b)\<rfloor> = int (a div b)"
proof -
  define k where "k = a div b"
  have k: "k < 2 ^ 32" unfolding k_def using assms(3) by (simp add: less_mult_imp_div_less mult.commute)
  have low: "of_nat k \<le> (of_nat a / of_nat b :: rat)" and eq: "a = k * b + a mod b" and "a mod b < b"
    using assms(1) unfolding k_def by (simp_all add: of_nat_div_le_of_nat)
  have rep: "double_rep (of_nat k)" using double_rep_of_int [of "int k"] k by simp
  define y :: rat where "y = of_int ((int k + 1) * 2 ^ 20 - 1) * pow2 (- 20)"
  have y1: "y = of_nat k + 1 - 1 / 2 ^ 20" unfolding y_def pow2_def by (simp add: field_simps)
  have "double_rep y" unfolding double_rep_def y_def
    by (rule exI [of _ "(int k + 1) * 2 ^ 20 - 1"], rule exI [of _ "- 20"]) (use k in simp)
  moreover have "of_nat a / of_nat b \<le> y"
  proof -
    obtain r where "a = k * b + r" "r < b" using eq \<open>a mod b < b\<close> by blast
    then have "a + 1 \<le> (k + 1) * b" by simp
    then have "of_nat (a + 1) \<le> (of_nat ((k + 1) * b) :: rat)" by (simp only: of_nat_le_iff)
    moreover have "of_nat b \<le> (of_nat (2 ^ 20) :: rat)" using assms(2) by (simp only: of_nat_le_iff)
    ultimately have "of_nat a \<le> y * of_nat b" unfolding y1 by (simp add: algebra_simps)
    then show ?thesis using assms(1) by (simp add: divide_le_eq)
  qed
  ultimately have "fl (of_nat a / of_nat b) \<le> y" by (rule fl_le_rep [rotated])
  moreover have "y < of_nat k + 1" by (simp add: y1)
  ultimately show ?thesis using fl_ge_rep [OF low rep] by (simp add: floor_eq_iff k_def [symmetric])
qed

end
