(* ===== verification/Js_Text.thy ===== *)
theory Js_Text
  imports Js_Number
begin

text \<open>
  The string operations of JavaScript that the client uses, on HOL's \<open>string\<close>: decimal
  digits of a natural number (\<open>BigInt.toString\<close>, \<open>BigInt(text)\<close>), \<open>padStart\<close>,
  \<open>padEnd\<close>, \<open>slice\<close> (as \<open>take\<close> and \<open>drop\<close>), \<open>indexOf\<close> of one character,
  \<open>trim\<close> and \<open>toLowerCase\<close>. A \<open>string\<close> is a list of bytes; the client's numeric,
  identifier and date texts are ASCII, where a byte is a JavaScript character.
\<close>

section \<open>Digits\<close>

definition digit_char :: "nat \<Rightarrow> char" where
  "digit_char d = char_of (48 + d)"

definition digit_val :: "char \<Rightarrow> nat" where
  "digit_val c = of_char c - 48"

definition is_digit :: "char \<Rightarrow> bool" where
  "is_digit c = (48 \<le> (of_char c :: nat) \<and> (of_char c :: nat) \<le> 57)"

fun nat_str :: "nat \<Rightarrow> string" where
  "nat_str n = (if n < 10 then [digit_char n] else nat_str (n div 10) @ [digit_char (n mod 10)])"

declare nat_str.simps [simp del]

definition int_str :: "int \<Rightarrow> string" where
  "int_str n = (if n < 0 then ''-'' @ nat_str (nat (- n)) else nat_str (nat n))"

definition str_nat :: "string \<Rightarrow> nat" where
  "str_nat s = foldl (\<lambda>a c. 10 * a + digit_val c) 0 s"

lemma of_char_digit: "d < 10 \<Longrightarrow> (of_char (digit_char d) :: nat) = 48 + d"
  by (simp add: digit_char_def)

lemma digit_val_char [simp]: "d < 10 \<Longrightarrow> digit_val (digit_char d) = d"
  by (simp add: digit_val_def of_char_digit)

lemma is_digit_char [simp]: "d < 10 \<Longrightarrow> is_digit (digit_char d)"
  by (simp add: is_digit_def of_char_digit)

lemma digit_val_less: "is_digit c \<Longrightarrow> digit_val c < 10"
  unfolding is_digit_def digit_val_def by linarith

lemma digit_char_val: "is_digit c \<Longrightarrow> digit_char (digit_val c) = c"
  by (simp add: is_digit_def digit_val_def digit_char_def)

lemma digit_zero [simp]: "is_digit (CHR ''0'')" "digit_val (CHR ''0'') = 0"
  by (simp_all add: is_digit_def digit_val_def)

lemma not_digit_punct [simp]:
  "\<not> is_digit (CHR ''-'')" "\<not> is_digit (CHR ''+'')" "\<not> is_digit (CHR ''.'')"
  "\<not> is_digit (CHR '':'')"
  by (simp_all add: is_digit_def)

lemma foldl_digits: "foldl (\<lambda>a c. 10 * a + digit_val c) a s = a * 10 ^ length s + str_nat s"
proof (induction s arbitrary: a)
  case Nil
  then show ?case by (simp add: str_nat_def)
next
  case (Cons c s)
  have "str_nat (c # s) = digit_val c * 10 ^ length s + str_nat s"
    using Cons.IH [of "digit_val c"] by (simp add: str_nat_def)
  then show ?case using Cons.IH [of "10 * a + digit_val c"] by (simp add: algebra_simps)
qed

lemma str_nat_Nil [simp]: "str_nat [] = 0"
  by (simp add: str_nat_def)

lemma str_nat_Cons [simp]: "str_nat (c # s) = digit_val c * 10 ^ length s + str_nat s"
  using foldl_digits [of "digit_val c" s] by (simp add: str_nat_def)

lemma str_nat_append [simp]: "str_nat (s @ t) = str_nat s * 10 ^ length t + str_nat t"
  using foldl_digits [of "str_nat s" t] by (simp add: str_nat_def)

lemma str_nat_zeros [simp]: "str_nat (replicate k (CHR ''0'')) = 0"
  by (induction k) simp_all

lemma str_nat_less: "\<forall>c \<in> set s. is_digit c \<Longrightarrow> str_nat s < 10 ^ length s"
proof (induction s)
  case (Cons c s)
  then have "digit_val c \<le> 9" using digit_val_less [of c] by simp
  then have "digit_val c * 10 ^ length s \<le> 9 * 10 ^ length s" by (rule mult_right_mono) simp
  moreover have "str_nat s < 10 ^ length s" using Cons by simp
  ultimately show ?case unfolding str_nat_Cons list.size power_Suc add_Suc_right add_0_right
    by linarith
qed simp

lemma str_nat_take:
  assumes "\<forall>c \<in> set s. is_digit c" "k \<le> length s"
  shows "str_nat (take k s) = str_nat s div 10 ^ (length s - k)"
    and "str_nat (drop k s) = str_nat s mod 10 ^ (length s - k)"
proof -
  have eq: "str_nat s = str_nat (take k s) * 10 ^ (length s - k) + str_nat (drop k s)"
    using str_nat_append [of "take k s" "drop k s"] by simp
  have "str_nat (drop k s) < 10 ^ (length s - k)"
    using str_nat_less [of "drop k s"] assms by (simp add: in_set_dropD)
  then show "str_nat (take k s) = str_nat s div 10 ^ (length s - k)"
    and "str_nat (drop k s) = str_nat s mod 10 ^ (length s - k)"
    unfolding eq by simp_all
qed

lemma nat_str_value [simp]: "str_nat (nat_str n) = n"
proof (induction n rule: nat_str.induct)
  case (1 n)
  then show ?case by (simp add: nat_str.simps [of n] mult.commute)
qed

lemma nat_str_digits: "c \<in> set (nat_str n) \<Longrightarrow> is_digit c"
proof (induction n rule: nat_str.induct)
  case (1 n)
  then show ?case by (auto simp: nat_str.simps [of n] split: if_splits)
qed

lemma nat_str_nonempty [simp]: "nat_str n \<noteq> []"
  by (simp add: nat_str.simps [of n])

lemma length_nat_str_pos [simp]: "0 < length (nat_str n)"
  by simp

lemma length_nat_str_le: "0 < k \<Longrightarrow> n < 10 ^ k \<Longrightarrow> length (nat_str n) \<le> k"
proof (induction n arbitrary: k rule: nat_str.induct)
  case (1 n)
  show ?case
  proof (cases "n < 10")
    case True
    with 1 show ?thesis by (simp add: nat_str.simps [of n])
  next
    case False
    then have k: "1 < k" using 1 by (cases "k = 1") auto
    then have "n < 10 * 10 ^ (k - 1)" using 1 by (simp flip: power_Suc)
    then have "n div 10 < 10 ^ (k - 1)" by (simp add: div_less_iff_less_mult mult.commute)
    then have "length (nat_str (n div 10)) \<le> k - 1" using 1 False k by simp
    then show ?thesis using False k by (simp add: nat_str.simps [of n])
  qed
qed

lemma hd_nat_str: "0 < n \<Longrightarrow> hd (nat_str n) \<noteq> CHR ''0''"
proof (induction n rule: nat_str.induct)
  case (1 n)
  show ?case
  proof (cases "n < 10")
    case True
    have "hd (nat_str n) = digit_char n" using True by (simp add: nat_str.simps [of n])
    moreover have "digit_val (digit_char n) = n" using True by simp
    ultimately show ?thesis using 1 by (metis digit_zero(2) less_numeral_extra(3))
  next
    case False
    then show ?thesis using 1 by (simp add: nat_str.simps [of n])
  qed
qed

text \<open>A digit text without a leading zero is the one \<open>nat_str\<close> prints.\<close>

lemma nat_str_str_nat:
  assumes "\<forall>c \<in> set s. is_digit c" "s \<noteq> []" "length s = 1 \<or> hd s \<noteq> CHR ''0''"
  shows "nat_str (str_nat s) = s"
  using assms
proof (induction s rule: rev_induct)
  case (snoc c s)
  have c: "is_digit c" "digit_val c < 10" using snoc.prems digit_val_less by auto
  show ?case
  proof (cases "s = []")
    case True
    then show ?thesis using c by (simp add: nat_str.simps [of "digit_val c"] digit_char_val)
  next
    case False
    then have hd: "hd s \<noteq> CHR ''0''" using snoc.prems by auto
    obtain d r where dr: "s = d # r" using False by (cases s) auto
    have "is_digit d" using snoc.prems dr by simp
    moreover have "digit_char 0 = CHR ''0''" using digit_char_val digit_zero by metis
    ultimately have "digit_val d \<noteq> 0"
      using hd dr digit_char_val [of d] by (metis list.sel(1))
    then have "0 < digit_val d * 10 ^ length r" by simp
    then have "1 \<le> str_nat s" using dr unfolding dr str_nat_Cons by linarith
    then have "10 \<le> str_nat (s @ [c])" by simp
    moreover have "nat_str (str_nat s) = s" using snoc False hd by simp
    ultimately show ?thesis using c
      by (simp add: nat_str.simps [of "str_nat s * 10 + digit_val c"] digit_char_val)
  qed
qed simp

section \<open>Padding, searching, case\<close>

definition padStart :: "nat \<Rightarrow> char \<Rightarrow> string \<Rightarrow> string" where
  "padStart n c s = replicate (n - length s) c @ s"

definition padEnd :: "nat \<Rightarrow> char \<Rightarrow> string \<Rightarrow> string" where
  "padEnd n c s = s @ replicate (n - length s) c"

lemma length_pad [simp]:
  "length (padStart n c s) = max n (length s)" "length (padEnd n c s) = max n (length s)"
  by (simp_all add: padStart_def padEnd_def)

lemma str_nat_padStart [simp]: "str_nat (padStart n (CHR ''0'') s) = str_nat s"
  by (simp add: padStart_def)

lemma str_nat_padEnd: "str_nat (padEnd n (CHR ''0'') s) = str_nat s * 10 ^ (n - length s)"
  by (simp add: padEnd_def)

lemma pad_digits:
  "(\<forall>c \<in> set s. is_digit c) \<Longrightarrow> c \<in> set (padStart n (CHR ''0'') s) \<Longrightarrow> is_digit c"
  "(\<forall>c \<in> set s. is_digit c) \<Longrightarrow> c \<in> set (padEnd n (CHR ''0'') s) \<Longrightarrow> is_digit c"
  by (auto simp: padStart_def padEnd_def)

text \<open>\<open>indexOf\<close> of one character; \<open>None\<close> is JavaScript's -1.\<close>

fun index_of :: "char \<Rightarrow> string \<Rightarrow> nat option" where
  "index_of c [] = None"
| "index_of c (x # xs) = (if x = c then Some 0 else map_option Suc (index_of c xs))"

lemma index_of_None: "index_of c s = None \<longleftrightarrow> c \<notin> set s"
  by (induction s) auto

lemma index_of_append [simp]: "c \<notin> set s \<Longrightarrow> index_of c (s @ c # t) = Some (length s)"
  by (induction s) auto

lemma index_of_absent [simp]: "c \<notin> set s \<Longrightarrow> index_of c s = None"
  by (simp add: index_of_None)

definition is_space :: "char \<Rightarrow> bool" where
  "is_space c = ((of_char c :: nat) = 32 \<or> (9 \<le> (of_char c :: nat) \<and> (of_char c :: nat) \<le> 13))"

definition trim :: "string \<Rightarrow> string" where
  "trim s = rev (dropWhile is_space (rev (dropWhile is_space s)))"

definition lower_char :: "char \<Rightarrow> char" where
  "lower_char c = (let n = (of_char c :: nat) in if 65 \<le> n \<and> n \<le> 90 then char_of (n + 32) else c)"

definition toLowerCase :: "string \<Rightarrow> string" where
  "toLowerCase s = map lower_char s"

fun starts_with :: "string \<Rightarrow> string \<Rightarrow> bool" where
  "starts_with [] s = True"
| "starts_with (p # ps) [] = False"
| "starts_with (p # ps) (c # s) = (p = c \<and> starts_with ps s)"

lemma starts_with_iff: "starts_with p s \<longleftrightarrow> (\<exists>t. s = p @ t)"
  by (induction p s rule: starts_with.induct) auto

section \<open>Quoting\<close>

text \<open>\<open>JSON.stringify\<close> of a string: quote, backslash and control characters escaped.\<close>

definition hex_char :: "nat \<Rightarrow> char" where
  "hex_char d = (if d < 10 then char_of (48 + d) else char_of (87 + d))"

definition json_escape :: "char \<Rightarrow> string" where
  "json_escape c = (let n = (of_char c :: nat) in
     if n = 34 then [CHR 0x5C, CHR 0x22]
     else if n = 92 then [CHR 0x5C, CHR 0x5C]
     else if n = 8 then CHR 0x5C # ''b''
     else if n = 9 then CHR 0x5C # ''t''
     else if n = 10 then CHR 0x5C # ''n''
     else if n = 12 then CHR 0x5C # ''f''
     else if n = 13 then CHR 0x5C # ''r''
     else if n < 32 then CHR 0x5C # ''u00'' @ [hex_char (n div 16), hex_char (n mod 16)]
     else [c])"

definition json_quote :: "string \<Rightarrow> string" where
  "json_quote s = CHR 0x22 # concat (map json_escape s) @ [CHR 0x22]"

end
