(* ===== verification/Js_Date.thy ===== *)
theory Js_Date
  imports Js_Text
begin

text \<open>
  JavaScript's dates, as far as the client uses them: the day number of a civil date in the
  proleptic Gregorian calendar and back, \<open>Date.UTC\<close>, and the civil fields of an instant. Instants
  are whole milliseconds; a day number counts days since 1970-01-01.
\<close>

definition MS_DAY :: int where
  "MS_DAY = 86400000"

section \<open>Years\<close>

definition day_from_year :: "int \<Rightarrow> int" where
  "day_from_year y = 365 * (y - 1970) + (y - 1969) div 4 - (y - 1901) div 100 + (y - 1601) div 400"

definition leap :: "int \<Rightarrow> bool" where
  "leap y = (y mod 4 = 0 \<and> (y mod 100 \<noteq> 0 \<or> y mod 400 = 0))"

definition year_of_day :: "int \<Rightarrow> int" where
  "year_of_day n =
     (let y = 1970 + n * 400 div 146097
      in if day_from_year (y + 1) \<le> n then y + 1 else if n < day_from_year y then y - 1 else y)"

lemma div_step:
  fixes y :: int and k :: int
  assumes "0 < k"
  shows "(y + 1) div k = y div k + (if (y + 1) mod k = 0 then 1 else 0)"
proof -
  have y: "y = k * (y div k) + y mod k" "0 \<le> y mod k" "y mod k < k" using assms by simp_all
  show ?thesis
  proof (cases "y mod k + 1 = k")
    case True
    then have e: "y + 1 = k * (y div k + 1)" using y(1) unfolding distrib_left by linarith
    then have "(y + 1) mod k = 0" "(y + 1) div k = y div k + 1" using assms by (simp_all only: mod_mult_self1_is_0) simp
    then show ?thesis by simp
  next
    case False
    have r: "(y + 1) mod k = y mod k + 1"
      using False y(2,3) by (subst mod_add_left_eq [symmetric]) (simp add: mod_pos_pos_trivial)
    have "k * ((y + 1) div k) + (y + 1) mod k = k * (y div k) + y mod k + 1"
      using y(1) by (metis mult_div_mod_eq)
    then have "k * ((y + 1) div k) = k * (y div k)" using r by linarith
    then have "(y + 1) div k = y div k" using assms by simp
    then show ?thesis using r y(2) by simp
  qed
qed

lemma mod_shift: "(y - k * c) mod k = (y :: int) mod k"
  using mod_mult_self2 [of y k "- c"] by simp

lemma div_year:
  fixes y k c :: int
  assumes "0 < k"
  shows "(y + 1 - (k * c + 1)) div k = (y - (k * c + 1)) div k + (if y mod k = 0 then 1 else 0)"
proof -
  have "y - (k * c + 1) + 1 = y - k * c" "y + 1 - (k * c + 1) = y - k * c" by linarith+
  then show ?thesis using div_step [OF assms, of "y - (k * c + 1)"] mod_shift [of y k c] by (simp only:)
qed

lemma day_from_year_Suc: "day_from_year (y + 1) = day_from_year y + (if leap y then 366 else 365)"
proof -
  have d: "(y + 1 - 1969) div 4 = (y - 1969) div 4 + (if y mod 4 = 0 then 1 else 0)"
    "(y + 1 - 1901) div 100 = (y - 1901) div 100 + (if y mod 100 = 0 then 1 else 0)"
    "(y + 1 - 1601) div 400 = (y - 1601) div 400 + (if y mod 400 = 0 then 1 else 0)"
  proof -
    have n: "4 * 492 + 1 = (1969::int)" "100 * 19 + 1 = (1901::int)" "400 * 4 + 1 = (1601::int)"
      and p: "0 < (4::int)" "0 < (100::int)" "0 < (400::int)" by simp_all
    show "(y + 1 - 1969) div 4 = (y - 1969) div 4 + (if y mod 4 = 0 then 1 else 0)"
      using div_year [OF p(1), of y 492] unfolding n .
    show "(y + 1 - 1901) div 100 = (y - 1901) div 100 + (if y mod 100 = 0 then 1 else 0)"
      using div_year [OF p(2), of y 19] unfolding n .
    show "(y + 1 - 1601) div 400 = (y - 1601) div 400 + (if y mod 400 = 0 then 1 else 0)"
      using div_year [OF p(3), of y 4] unfolding n .
  qed
  have m: "y mod 400 = 0 \<Longrightarrow> y mod 100 = 0" "y mod 100 = 0 \<Longrightarrow> y mod 4 = 0"
  proof -
    have "y mod 400 mod 100 = y mod 100" by (rule mod_mod_cancel) simp
    then show "y mod 400 = 0 \<Longrightarrow> y mod 100 = 0" by (metis mod_0)
    have "y mod 100 mod 4 = y mod 4" by (rule mod_mod_cancel) simp
    then show "y mod 100 = 0 \<Longrightarrow> y mod 4 = 0" by (metis mod_0)
  qed
  have e: "365 * (y + 1 - 1970) = 365 * (y - 1970) + 365" by simp
  have count: "X + 365 + (A + (if p then 1 else 0)) - (B + (if q then 1 else 0)) + (C + (if r then 1 else 0)) =
      X + A - B + C + (if p \<and> (\<not> q \<or> r) then 366 else 365)" if "r \<Longrightarrow> q" "q \<Longrightarrow> p" for X A B C :: int and p q r
    using that by (cases p; cases q; cases r) simp_all
  show ?thesis
    unfolding day_from_year_def d e leap_def by (rule count [OF m])
qed

lemma day_from_year_mono: "y \<le> z \<Longrightarrow> day_from_year y \<le> day_from_year z"
proof (induction z rule: int_ge_induct)
  case (step i)
  then show ?case using day_from_year_Suc [of i] by (auto split: if_splits)
qed simp

lemma div_bounds:
  fixes z k :: int
  assumes "0 < k"
  shows "k * (z div k) \<le> z" and "z < k * (z div k) + k"
  using assms pos_mod_bound [of k z] pos_mod_sign [of k z] mult_div_mod_eq [of k z] by linarith+

text \<open>The estimate of the year is off by at most one.\<close>

lemma day_from_year_bounds:
  "400 * day_from_year y \<le> 146097 * (y - 1970) + 600" "146097 * (y - 1970) - 600 \<le> 400 * day_from_year y"
proof -
  define a where "a = (y - 1969) div 4"
  define b where "b = (y - 1901) div 100"
  define c where "c = (y - 1601) div 400"
  note qs = div_bounds [of 4 "y - 1969"] div_bounds [of 100 "y - 1901"] div_bounds [of 400 "y - 1601"]
  have a: "4 * a \<le> y - 1969" "y - 1969 < 4 * a + 4" and b: "100 * b \<le> y - 1901" "y - 1901 < 100 * b + 100"
    and c: "400 * c \<le> y - 1601" "y - 1601 < 400 * c + 400"
    using qs by (simp_all add: a_def b_def c_def)
  have e: "day_from_year y = 365 * (y - 1970) + a - b + c" by (simp add: day_from_year_def a_def b_def c_def)
  show "400 * day_from_year y \<le> 146097 * (y - 1970) + 600" unfolding e using a b c by (simp only: distrib_left right_diff_distrib)
  show "146097 * (y - 1970) - 600 \<le> 400 * day_from_year y" unfolding e using a b c by (simp only: distrib_left right_diff_distrib)
qed

lemma year_of_day_correct: "day_from_year (year_of_day n) \<le> n" "n < day_from_year (year_of_day n + 1)"
proof -
  define y where "y = 1970 + n * 400 div 146097"
  have q: "146097 * (y - 1970) \<le> n * 400" "n * 400 < 146097 * (y - 1970) + 146097"
    using div_bounds [of 146097 "n * 400"] by (simp_all add: y_def)
  have up: "n < day_from_year (y + 2)" using day_from_year_bounds(2) [of "y + 2"] q by (simp add: distrib_left right_diff_distrib)
  have down: "day_from_year (y - 1) \<le> n" using day_from_year_bounds(1) [of "y - 1"] q by (simp add: distrib_left right_diff_distrib)
  show "day_from_year (year_of_day n) \<le> n" "n < day_from_year (year_of_day n + 1)"
    using up down unfolding year_of_day_def y_def [symmetric] Let_def by (auto simp: algebra_simps)
qed

lemma year_of_day_unique:
  assumes "day_from_year y \<le> n" "n < day_from_year (y + 1)"
  shows "year_of_day n = y"
proof (rule ccontr)
  assume "year_of_day n \<noteq> y"
  then consider "year_of_day n + 1 \<le> y" | "y + 1 \<le> year_of_day n" by linarith
  then show False
    using assms year_of_day_correct [of n] day_from_year_mono
    by cases (meson leD order_trans)+
qed

section \<open>Months and days\<close>

definition days_before :: "bool \<Rightarrow> int \<Rightarrow> int" where
  "days_before lp m =
     (let l = (if lp then 1 else 0)
      in if m \<le> 1 then 0 else if m = 2 then 31 else if m = 3 then 59 + l else if m = 4 then 90 + l
         else if m = 5 then 120 + l else if m = 6 then 151 + l else if m = 7 then 181 + l
         else if m = 8 then 212 + l else if m = 9 then 243 + l else if m = 10 then 273 + l
         else if m = 11 then 304 + l else 334 + l)"

definition month_in_year :: "bool \<Rightarrow> int \<Rightarrow> int" where
  "month_in_year lp n =
     (let l = (if lp then 1 else 0)
      in if n < 31 then 1 else if n < 59 + l then 2 else if n < 90 + l then 3 else if n < 120 + l then 4
         else if n < 151 + l then 5 else if n < 181 + l then 6 else if n < 212 + l then 7
         else if n < 243 + l then 8 else if n < 273 + l then 9 else if n < 304 + l then 10
         else if n < 334 + l then 11 else 12)"

text \<open>The civil date of a day number, and the day number of a civil date.\<close>

definition civil :: "int \<Rightarrow> int \<times> int \<times> int" where
  "civil n =
     (let y = year_of_day n; k = n - day_from_year y; m = month_in_year (leap y) k
      in (y, m, k - days_before (leap y) m + 1))"

definition day_number :: "int \<Rightarrow> int \<Rightarrow> int \<Rightarrow> int" where
  "day_number y m d = day_from_year y + days_before (leap y) m + (d - 1)"

lemma month_in_year_props:
  assumes "0 \<le> n" "n < (if lp then 366 else 365)"
  shows "1 \<le> month_in_year lp n" "month_in_year lp n \<le> 12"
    "days_before lp (month_in_year lp n) \<le> n" "n \<le> days_before lp (month_in_year lp n) + 30"
proof -
  have "1 \<le> month_in_year lp n \<and> month_in_year lp n \<le> 12 \<and> days_before lp (month_in_year lp n) \<le> n \<and>
     n \<le> days_before lp (month_in_year lp n) + 30"
    using assms unfolding month_in_year_def Let_def
    by (cases lp; simp only: if_True if_False; split if_split; intro conjI impI; (simp add: days_before_def; fail)?)
  then show "1 \<le> month_in_year lp n" "month_in_year lp n \<le> 12"
    "days_before lp (month_in_year lp n) \<le> n" "n \<le> days_before lp (month_in_year lp n) + 30" by simp_all
qed

lemma civil_props:
  assumes "civil n = (y, m, d)"
  shows "day_number y m d = n" "1 \<le> m" "m \<le> 12" "1 \<le> d" "d \<le> 31" "y = year_of_day n"
proof -
  have y: "y = year_of_day n" using assms by (simp add: civil_def Let_def)
  define k where "k = n - day_from_year y"
  have k: "0 \<le> k" "k < (if leap y then 366 else 365)"
    using year_of_day_correct [of n] day_from_year_Suc [of y] unfolding k_def y by auto
  have m: "m = month_in_year (leap y) k" "d = k - days_before (leap y) m + 1"
    using assms y by (auto simp: civil_def Let_def k_def)
  note mp = month_in_year_props [OF k]
  show "day_number y m d = n" using m by (simp add: day_number_def k_def)
  show "1 \<le> m" "m \<le> 12" "1 \<le> d" "d \<le> 31" using mp m by auto
  show "y = year_of_day n" by (rule y)
qed

section \<open>Instants\<close>

text \<open>\<open>Date.UTC\<close> of a date with a month between 1 and 12: a year below 100 is of the 20th century.\<close>

definition date_utc :: "int \<Rightarrow> int \<Rightarrow> int \<Rightarrow> int \<Rightarrow> int \<Rightarrow> int \<Rightarrow> int" where
  "date_utc y m d h mi s =
     (let yr = (if 0 \<le> y \<and> y \<le> 99 then 1900 + y else y)
      in day_number yr m d * MS_DAY + h * 3600000 + mi * 60000 + s * 1000)"

lemma date_utc_civil:
  assumes "civil n = (y, m, d)" and "99 < y"
  shows "date_utc y m d h mi s = n * MS_DAY + h * 3600000 + mi * 60000 + s * 1000"
  using civil_props(1) [OF assms(1)] assms(2) by (simp add: date_utc_def)

lemma year_after_epoch: "- 3650 \<le> n \<Longrightarrow> 99 < year_of_day n"
proof -
  assume n: "- 3650 \<le> n"
  have "\<not> year_of_day n + 1 \<le> 101"
  proof
    assume "year_of_day n + 1 \<le> 101"
    then have "day_from_year (year_of_day n + 1) \<le> day_from_year 101" by (rule day_from_year_mono)
    moreover have "day_from_year 101 < - 600000" by code_simp
    ultimately show False using year_of_day_correct(2) [of n] n by simp
  qed
  then show ?thesis by simp
qed

text \<open>\<open>toISOString\<close>: four digits of year from 0 to 9999, a sign and six digits outside.\<close>

definition iso_year :: "int \<Rightarrow> string" where
  "iso_year y =
     (if 0 \<le> y \<and> y \<le> 9999 then padStart 4 (CHR ''0'') (nat_str (nat y))
      else (if y < 0 then ''-'' else ''+'') @ padStart 6 (CHR ''0'') (nat_str (nat \<bar>y\<bar>)))"

definition two_digits :: "int \<Rightarrow> string" where
  "two_digits n = padStart 2 (CHR ''0'') (nat_str (nat n))"

definition toISOString :: "int \<Rightarrow> string" where
  "toISOString ms =
     (let (y, m, d) = civil (ms div MS_DAY); t = ms mod MS_DAY
      in iso_year y @ ''-'' @ two_digits m @ ''-'' @ two_digits d @ ''T'' @ two_digits (t div 3600000) @ '':'' @
         two_digits (t div 60000 mod 60) @ '':'' @ two_digits (t div 1000 mod 60) @ ''.'' @
         padStart 3 (CHR ''0'') (nat_str (nat (t mod 1000))) @ ''Z'')"

end
