(* ===== verification/Calendar.thy ===== *)
theory Calendar
  imports Js_Date Prelude
begin

text \<open>
  data/marketCalendar.ts: EGX's trading calendar and its Cairo-time texts. The engine's time zone
  database (\<open>Intl.DateTimeFormat\<close>) is not code of the repository: it is the parameter \<open>off\<close>, the
  Cairo-minus-UTC offset in ms at a UTC instant. Instants are whole milliseconds.

  The lemmas hold for every \<open>off\<close> with \<open>cairo_zone off D\<close>: Egypt's offset is two or three hours, and
  on a civil day d it is \<open>D d\<close> from 02:00 to 22:00 (the clock changes at midnight). They show that
  the two-step correction of \<open>cairoEpochFor\<close> converges, that the search for a trading day never
  throws, and that the status brackets now between two consecutive sessions.
\<close>

section \<open>Constants and Cairo fields\<close>

definition HOUR_MS :: int where
  "HOUR_MS = 3600000"

definition MINUTE_MS :: int where
  "MINUTE_MS = 60000"

text \<open>Hour and minute.\<close>

definition MARKET_OPEN :: "int \<times> int" where
  "MARKET_OPEN = (10, 0)"

definition MARKET_CLOSE :: "int \<times> int" where
  "MARKET_CLOSE = (14, 30)"

definition PRE_OPEN_AUCTION_MS :: int where
  "PRE_OPEN_AUCTION_MS = 30 * 60 * 1000"

definition CAIRO_WEEKDAY_SHORT_NAMES :: "string list" where
  "CAIRO_WEEKDAY_SHORT_NAMES = [''Sun'', ''Mon'', ''Tue'', ''Wed'', ''Thu'', ''Fri'', ''Sat'']"

record CairoParts =
  cp_year :: int
  cp_month :: int
  cp_day :: int
  cp_weekday :: int
  cp_hour :: int
  cp_minute :: int
  cp_second :: int

definition getCairoParts :: "(int \<Rightarrow> int) \<Rightarrow> int \<Rightarrow> CairoParts" where
  "getCairoParts off epochMs =
     (let l = epochMs + off epochMs; n = l div MS_DAY; t = l mod MS_DAY; (y, m, d) = civil n
      in \<lparr>cp_year = y, cp_month = m, cp_day = d, cp_weekday = (n + 4) mod 7,
          cp_hour = (t div HOUR_MS) mod 24, cp_minute = t mod HOUR_MS div MINUTE_MS, cp_second = t mod MINUTE_MS div 1000\<rparr>)"

definition pad2 :: "int \<Rightarrow> string" where
  "pad2 v = padStart 2 (CHR ''0'') (int_str v)"

definition cairoDateKey :: "(int \<Rightarrow> int) \<Rightarrow> int \<Rightarrow> string" where
  "cairoDateKey off epochMs =
     (let p = getCairoParts off epochMs
      in int_str (cp_year p) @ ''-'' @ pad2 (cp_month p) @ ''-'' @ pad2 (cp_day p))"

definition cairoOffsetMsAt :: "(int \<Rightarrow> int) \<Rightarrow> int \<Rightarrow> int" where
  "cairoOffsetMsAt off epochMs =
     (let p = getCairoParts off epochMs;
          asIfUtc = date_utc (cp_year p) (cp_month p) (cp_day p) (cp_hour p) (cp_minute p) (cp_second p)
      in asIfUtc - epochMs)"

text \<open>The three numbers of a date key, which is always one that \<open>cairoDateKey\<close> wrote.\<close>

fun split_on :: "char \<Rightarrow> string \<Rightarrow> string list" where
  "split_on c [] = [[]]"
| "split_on c (x # xs) = (if x = c then [] # split_on c xs
     else case split_on c xs of [] \<Rightarrow> [[x]] | w # ws \<Rightarrow> (x # w) # ws)"

definition key_fields :: "string \<Rightarrow> int \<times> int \<times> int" where
  "key_fields dateKey =
     (case split_on (CHR ''-'') dateKey of
        [y, m, d] \<Rightarrow> (int (str_nat y), int (str_nat m), int (str_nat d))
      | _ \<Rightarrow> (0, 0, 0))"

definition cairoEpochFor :: "(int \<Rightarrow> int) \<Rightarrow> string \<Rightarrow> int \<Rightarrow> int \<Rightarrow> int" where
  "cairoEpochFor off dateKey hour minute =
     (let (year, month, day) = key_fields dateKey;
          targetWallAsUtc = date_utc year month day hour minute 0;
          epoch1 = targetWallAsUtc - cairoOffsetMsAt off targetWallAsUtc
      in targetWallAsUtc - cairoOffsetMsAt off epoch1)"

definition isTradingDay :: "int \<Rightarrow> bool" where
  "isTradingDay weekday = (weekday \<ge> 0 \<and> weekday \<le> 4)"

definition weekdayOfDateKey :: "(int \<Rightarrow> int) \<Rightarrow> string \<Rightarrow> int" where
  "weekdayOfDateKey off dateKey = cp_weekday (getCairoParts off (cairoEpochFor off dateKey 12 0))"

definition shiftDateKey :: "(int \<Rightarrow> int) \<Rightarrow> string \<Rightarrow> int \<Rightarrow> string" where
  "shiftDateKey off dateKey deltaDays =
     (let anchorEpoch = cairoEpochFor off dateKey 12 0
      in cairoDateKey off (anchorEpoch + deltaDays * 24 * 60 * 60 * 1000))"

text \<open>The loop of both searches; the last argument counts the iterations left.\<close>

fun search_trading :: "(int \<Rightarrow> int) \<Rightarrow> int \<Rightarrow> string \<Rightarrow> nat \<Rightarrow> string option" where
  "search_trading off delta candidate 0 = None"
| "search_trading off delta candidate (Suc left) =
     (let c = shiftDateKey off candidate delta
      in if isTradingDay (weekdayOfDateKey off c) then Some c else search_trading off delta c left)"

definition previousTradingDateKey :: "(int \<Rightarrow> int) \<Rightarrow> string \<Rightarrow> string exn" where
  "previousTradingDateKey off dateKey =
     (case search_trading off (- 1) dateKey 7 of
        Some k \<Rightarrow> Inr k
      | None \<Rightarrow> Inl (PlainError (''marketCalendar: no trading day found within 7 days before '' @ dateKey)))"

definition nextTradingDateKey :: "(int \<Rightarrow> int) \<Rightarrow> string \<Rightarrow> string exn" where
  "nextTradingDateKey off dateKey =
     (case search_trading off 1 dateKey 7 of
        Some k \<Rightarrow> Inr k
      | None \<Rightarrow> Inl (PlainError (''marketCalendar: no trading day found within 7 days after '' @ dateKey)))"

section \<open>The market's status\<close>

text \<open>Session date key, open and close instants and, when closed, the next open.\<close>

datatype MarketStatus = Open string int int | Closed string int int int

definition open_at :: "(int \<Rightarrow> int) \<Rightarrow> string \<Rightarrow> int" where
  "open_at off k = cairoEpochFor off k (fst MARKET_OPEN) (snd MARKET_OPEN)"

definition close_at :: "(int \<Rightarrow> int) \<Rightarrow> string \<Rightarrow> int" where
  "close_at off k = cairoEpochFor off k (fst MARKET_CLOSE) (snd MARKET_CLOSE)"

definition getMarketStatus :: "(int \<Rightarrow> int) \<Rightarrow> int \<Rightarrow> MarketStatus exn" where
  "getMarketStatus off nowMs =
     (let today = cairoDateKey off nowMs;
          parts = getCairoParts off nowMs;
          openAtToday = open_at off today;
          closeAtToday = close_at off today
      in if isTradingDay (cp_weekday parts) \<and> nowMs \<ge> openAtToday \<and> nowMs < closeAtToday then
           Inr (Open today openAtToday closeAtToday)
         else if isTradingDay (cp_weekday parts) \<and> nowMs < openAtToday then
           bindE (previousTradingDateKey off today) (\<lambda>prevKey.
             Inr (Closed prevKey (open_at off prevKey) (close_at off prevKey) openAtToday))
         else if isTradingDay (cp_weekday parts) \<and> nowMs \<ge> closeAtToday then
           bindE (nextTradingDateKey off today) (\<lambda>nextKey.
             Inr (Closed today openAtToday closeAtToday (open_at off nextKey)))
         else
           bindE (previousTradingDateKey off today) (\<lambda>prevKey.
           bindE (nextTradingDateKey off today) (\<lambda>nextKey.
             Inr (Closed prevKey (open_at off prevKey) (close_at off prevKey) (open_at off nextKey)))))"

section \<open>Texts\<close>

definition twelveHour :: "int \<Rightarrow> int \<times> string" where
  "twelveHour hour = (if hour mod 12 = 0 then 12 else hour mod 12, if hour < 12 then ''AM'' else ''PM'')"

definition formatCairoClock :: "(int \<Rightarrow> int) \<Rightarrow> int \<Rightarrow> string" where
  "formatCairoClock off epochMs =
     (let p = getCairoParts off epochMs; (h, period) = twelveHour (cp_hour p)
      in int_str h @ '':'' @ pad2 (cp_minute p) @ '':'' @ pad2 (cp_second p) @ '' '' @ period)"

definition MONTH_SHORT_NAMES :: "string list" where
  "MONTH_SHORT_NAMES = [''Jan'', ''Feb'', ''Mar'', ''Apr'', ''May'', ''Jun'', ''Jul'', ''Aug'', ''Sep'', ''Oct'', ''Nov'', ''Dec'']"

definition formatCairoDateShort :: "(int \<Rightarrow> int) \<Rightarrow> int \<Rightarrow> string" where
  "formatCairoDateShort off epochMs =
     (let p = getCairoParts off epochMs
      in CAIRO_WEEKDAY_SHORT_NAMES ! nat (cp_weekday p) @ '' '' @ int_str (cp_day p) @ '' '' @
         MONTH_SHORT_NAMES ! nat (cp_month p - 1))"

definition formatCairoTimeShort :: "(int \<Rightarrow> int) \<Rightarrow> int \<Rightarrow> string" where
  "formatCairoTimeShort off epochMs =
     (let p = getCairoParts off epochMs; (h, period) = twelveHour (cp_hour p)
      in int_str h @ '':'' @ pad2 (cp_minute p) @ '' '' @ period)"

definition sameDay :: "CairoParts \<Rightarrow> CairoParts \<Rightarrow> bool" where
  "sameDay a b = (cp_year a = cp_year b \<and> cp_month a = cp_month b \<and> cp_day a = cp_day b)"

text \<open>\<open>formatNextOpen\<close> takes the next open of a closed status.\<close>

definition formatNextOpen :: "(int \<Rightarrow> int) \<Rightarrow> int \<Rightarrow> int option \<Rightarrow> string" where
  "formatNextOpen off nextOpenAt nowMs =
     (let time = formatCairoTimeShort off nextOpenAt; opn = getCairoParts off nextOpenAt;
          weekday = CAIRO_WEEKDAY_SHORT_NAMES ! nat (cp_weekday opn) @ '' '' @ time
      in case nowMs of
           None \<Rightarrow> weekday
         | Some now \<Rightarrow>
             if sameDay opn (getCairoParts off now) then ''today '' @ time
             else if sameDay opn (getCairoParts off (now + 24 * 60 * 60 * 1000)) then ''tomorrow '' @ time
             else weekday)"

definition isPreOpenAuction :: "MarketStatus \<Rightarrow> int \<Rightarrow> bool" where
  "isPreOpenAuction status nowMs =
     (case status of
        Open _ _ _ \<Rightarrow> False
      | Closed _ _ _ nextOpenAt \<Rightarrow>
          (let untilOpen = nextOpenAt - nowMs in untilOpen > 0 \<and> untilOpen \<le> PRE_OPEN_AUCTION_MS))"

section \<open>Date keys\<close>

definition key_of :: "int \<Rightarrow> string" where
  "key_of n = (let (y, m, d) = civil n in int_str y @ ''-'' @ pad2 m @ ''-'' @ pad2 d)"

lemma cairoDateKey_day: "cairoDateKey off e = key_of ((e + off e) div MS_DAY)"
  by (cases "civil ((e + off e) div MS_DAY)") (simp add: cairoDateKey_def getCairoParts_def key_of_def Let_def)

lemma split_on_last: "c \<notin> set w \<Longrightarrow> split_on c w = [w]"
  by (induction w) auto

lemma split_on_append: "c \<notin> set w \<Longrightarrow> split_on c (w @ c # s) = w # split_on c s"
  by (induction w) auto

lemma int_str_value: "0 \<le> n \<Longrightarrow> int (str_nat (int_str n)) = n"
  by (simp add: int_str_def)

lemma int_str_no_dash: "0 \<le> n \<Longrightarrow> CHR ''-'' \<notin> set (int_str n)"
  using nat_str_digits [of "CHR ''-''" "nat n"] by (auto simp: int_str_def)

lemma pad2_props: "0 \<le> n \<Longrightarrow> int (str_nat (pad2 n)) = n \<and> CHR ''-'' \<notin> set (pad2 n)"
  using int_str_value [of n] int_str_no_dash [of n] by (auto simp: pad2_def padStart_def)

lemma key_fields_key_of:
  assumes "- 3650 \<le> n"
  shows "key_fields (key_of n) = civil n"
proof -
  obtain y m d where c: "civil n = (y, m, d)" by (cases "civil n") auto
  have "99 < y" "1 \<le> m" "1 \<le> d" using civil_props [OF c] year_after_epoch [OF assms] by simp_all
  then show ?thesis
    using int_str_no_dash [of y] int_str_value [of y] pad2_props [of m] pad2_props [of d]
    by (simp add: key_of_def c key_fields_def split_on_append split_on_last)
qed

section \<open>The time zone\<close>

definition cairo_zone :: "(int \<Rightarrow> int) \<Rightarrow> (int \<Rightarrow> int) \<Rightarrow> bool" where
  "cairo_zone off D =
     ((\<forall>e. off e = 2 * HOUR_MS \<or> off e = 3 * HOUR_MS) \<and> (\<forall>d. D d = 2 * HOUR_MS \<or> D d = 3 * HOUR_MS) \<and>
      (\<forall>d w. 2 * HOUR_MS \<le> w \<and> w < 22 * HOUR_MS \<longrightarrow> off (d * MS_DAY + w - D d) = D d))"

text \<open>The instant of wall time \<open>w\<close> (ms after midnight) on day \<open>d\<close>.\<close>

definition wall :: "(int \<Rightarrow> int) \<Rightarrow> int \<Rightarrow> int \<Rightarrow> int" where
  "wall D d w = d * MS_DAY + w - D d"

lemma zone_cases: "cairo_zone off D \<Longrightarrow> off e = 7200000 \<or> off e = 10800000" "cairo_zone off D \<Longrightarrow> D d = 7200000 \<or> D d = 10800000"
  by (simp_all add: cairo_zone_def HOUR_MS_def)

lemma zone_wall: "cairo_zone off D \<Longrightarrow> 7200000 \<le> w \<Longrightarrow> w < 79200000 \<Longrightarrow> off (wall D d w) = D d"
  by (simp add: cairo_zone_def HOUR_MS_def wall_def)

lemma day_split: "0 \<le> t \<Longrightarrow> t < MS_DAY \<Longrightarrow> (n * MS_DAY + t) div MS_DAY = n \<and> (n * MS_DAY + t) mod MS_DAY = t"
  by (simp add: MS_DAY_def)

lemma zone_unique:
  assumes "cairo_zone off D" and "e + off e = d * MS_DAY + w" and "10800000 \<le> w" and "w < 75600000"
  shows "off e = D d"
proof (rule ccontr)
  assume ne: "off e \<noteq> D d"
  have e: "e = wall D d (w + D d - off e)" using assms(2) by (simp add: wall_def)
  have "off (wall D d (w + D d - off e)) = D d"
    using zone_cases(1) [OF assms(1), of e] zone_cases(2) [OF assms(1), of d] assms(3,4)
    by (intro zone_wall [OF assms(1)]) auto
  then show False using e ne by simp
qed

lemma offset_at:
  assumes "cairo_zone off D" and "e + off e = n * MS_DAY + t" and "0 \<le> t" and "t < MS_DAY" and "- 3650 \<le> n" and "t mod 1000 = 0"
  shows "cairoOffsetMsAt off e = off e"
proof -
  obtain y m d where c: "civil n = (y, m, d)" by (cases "civil n") auto
  have y: "99 < y" using civil_props(6) [OF c] year_after_epoch [OF assms(5)] by simp
  have t: "t div HOUR_MS mod 24 * 3600000 + t mod HOUR_MS div MINUTE_MS * 60000 + t mod MINUTE_MS div 1000 * 1000 = t"
  proof -
    have "t div HOUR_MS < 24" "0 \<le> t div HOUR_MS" using assms(3,4) by (simp_all add: HOUR_MS_def MS_DAY_def)
    then have a: "t div HOUR_MS mod 24 = t div HOUR_MS" by simp
    have b: "t mod HOUR_MS mod MINUTE_MS = t mod MINUTE_MS"
      by (rule mod_mod_cancel) (simp add: HOUR_MS_def MINUTE_MS_def)
    have "t mod MINUTE_MS mod 1000 = t mod 1000" by (rule mod_mod_cancel) (simp add: MINUTE_MS_def)
    then have "t mod MINUTE_MS div 1000 * 1000 = t mod MINUTE_MS"
      using assms(6) div_mult_mod_eq [of "t mod MINUTE_MS" 1000] by simp
    then have s: "t mod MINUTE_MS div 1000 * 1000 = t mod HOUR_MS mod MINUTE_MS" unfolding b .
    have "t div HOUR_MS * HOUR_MS + t mod HOUR_MS div MINUTE_MS * MINUTE_MS + t mod HOUR_MS mod MINUTE_MS = t"
      unfolding add.assoc div_mult_mod_eq ..
    then show ?thesis unfolding a s unfolding HOUR_MS_def MINUTE_MS_def .
  qed
  have "cairoOffsetMsAt off e = n * MS_DAY + (t div HOUR_MS mod 24 * 3600000 + t mod HOUR_MS div MINUTE_MS * 60000 + t mod MINUTE_MS div 1000 * 1000) - e"
    unfolding cairoOffsetMsAt_def getCairoParts_def Let_def assms(2) day_split [OF assms(3,4), THEN conjunct1]
      day_split [OF assms(3,4), THEN conjunct2] c
    by (simp add: date_utc_civil [OF c y])
  then show ?thesis unfolding t using assms(2) by simp
qed

text \<open>Two corrections are enough: after the first the instant is within an hour of the wall time
  asked for, on the same day.\<close>

lemma cairoEpochFor_wall:
  assumes z: "cairo_zone off D" and n: "- 3640 \<le> n" and h: "3 \<le> h" "h < 21" and mi: "0 \<le> mi" "mi < 60"
  shows "cairoEpochFor off (key_of n) h mi = wall D n (h * 3600000 + mi * 60000)"
proof -
  obtain y m d where c: "civil n = (y, m, d)" by (cases "civil n") auto
  have y: "99 < y" using civil_props(6) [OF c] year_after_epoch [of n] n by simp
  define w where "w = h * 3600000 + mi * 60000"
  define T where "T = n * MS_DAY + w"
  have w: "10800000 \<le> w" "w < 75600000" using h mi by (simp_all add: w_def)
  have wm: "w mod 1000 = 0" by (simp add: w_def)
  have target: "date_utc y m d h mi 0 = T" by (simp add: date_utc_civil [OF c y] T_def w_def)
  have first: "cairoOffsetMsAt off T = off T"
  proof (rule offset_at [OF z, where n = n and t = "w + off T"])
    show "0 \<le> w + off T" "w + off T < MS_DAY"
      using zone_cases(1) [OF z, of T] w by (auto simp: MS_DAY_def)
    show "(w + off T) mod 1000 = 0"
      using zone_cases(1) [OF z, of T] wm by (auto simp: mod_simps)
  qed (use n in \<open>simp_all add: T_def\<close>)
  have near: "T - off T = wall D n (w + D n - off T)" by (simp add: T_def wall_def)
  have "off (T - off T) = D n"
    unfolding near using zone_cases(1) [OF z, of T] zone_cases(2) [OF z, of n] w by (intro zone_wall [OF z]) auto
  moreover have "cairoOffsetMsAt off (T - off T) = off (T - off T)"
  proof (rule offset_at [OF z, where n = n and t = "w + D n - off T"])
    show "T - off T + off (T - off T) = n * MS_DAY + (w + D n - off T)"
      unfolding \<open>off (T - off T) = D n\<close> by (simp add: T_def)
    show "0 \<le> w + D n - off T" "w + D n - off T < MS_DAY"
      using zone_cases(1) [OF z, of T] zone_cases(2) [OF z, of n] w by (auto simp: MS_DAY_def)
    show "(w + D n - off T) mod 1000 = 0"
      using zone_cases(1) [OF z, of T] zone_cases(2) [OF z, of n] wm by (auto simp: mod_simps)
  qed (use n in simp)
  moreover have k: "key_fields (key_of n) = (y, m, d)" using key_fields_key_of [of n] n c by simp
  ultimately show ?thesis
    unfolding cairoEpochFor_def Let_def k prod.case target first by (simp add: T_def wall_def w_def)
qed

lemma parts_at_wall:
  assumes z: "cairo_zone off D" and w: "7200000 \<le> w" "w < 79200000"
  shows "(wall D n w + off (wall D n w)) div MS_DAY = n" "(wall D n w + off (wall D n w)) mod MS_DAY = w"
proof -
  have "wall D n w + off (wall D n w) = n * MS_DAY + w" unfolding zone_wall [OF z w] by (simp add: wall_def)
  then show "(wall D n w + off (wall D n w)) div MS_DAY = n" "(wall D n w + off (wall D n w)) mod MS_DAY = w"
    using day_split [of w n] w by (simp_all add: MS_DAY_def)
qed

lemma noon: "cairo_zone off D \<Longrightarrow> - 3640 \<le> n \<Longrightarrow> cairoEpochFor off (key_of n) 12 0 = wall D n 43200000"
  using cairoEpochFor_wall [of off D n 12 0] by simp

lemma cp_weekday_parts: "cp_weekday (getCairoParts off e) = ((e + off e) div MS_DAY + 4) mod 7"
  by (cases "civil ((e + off e) div MS_DAY)") (simp add: getCairoParts_def Let_def)

lemma weekday_key_of: "cairo_zone off D \<Longrightarrow> - 3640 \<le> n \<Longrightarrow> weekdayOfDateKey off (key_of n) = (n + 4) mod 7"
  by (simp add: weekdayOfDateKey_def noon cp_weekday_parts parts_at_wall)

lemma shift_key_of:
  assumes z: "cairo_zone off D" and n: "- 3640 \<le> n" and d: "\<bar>delta\<bar> \<le> 1"
  shows "shiftDateKey off (key_of n) delta = key_of (n + delta)"
proof -
  define e where "e = wall D n 43200000 + delta * MS_DAY"
  have l: "e + off e = (n + delta) * MS_DAY + (43200000 + off e - D n)" by (simp add: e_def wall_def distrib_right)
  have "(e + off e) div MS_DAY = n + delta"
    unfolding l using zone_cases(1) [OF z, of e] zone_cases(2) [OF z, of n]
    by (intro day_split [THEN conjunct1]) (auto simp: MS_DAY_def)
  moreover have "delta * 24 * 60 * 60 * 1000 = delta * MS_DAY" by (simp add: MS_DAY_def)
  ultimately show ?thesis
    by (simp only: shiftDateKey_def noon [OF z n] cairoDateKey_day e_def Let_def)
qed

section \<open>Trading days\<close>

definition trading :: "int \<Rightarrow> bool" where
  "trading n = isTradingDay ((n + 4) mod 7)"

definition prev_trading :: "int \<Rightarrow> int" where
  "prev_trading n = (if trading (n - 1) then n - 1 else if trading (n - 2) then n - 2 else n - 3)"

definition next_trading :: "int \<Rightarrow> int" where
  "next_trading n = (if trading (n + 1) then n + 1 else if trading (n + 2) then n + 2 else n + 3)"

lemma trading_iff: "trading n \<longleftrightarrow> (n + 4) mod 7 \<le> 4"
  by (simp add: trading_def isTradingDay_def)

lemma prev_trading_props:
  "trading (prev_trading n)" "prev_trading n < n" "n - 3 \<le> prev_trading n"
  "prev_trading n < r \<Longrightarrow> r < n \<Longrightarrow> \<not> trading r"
  unfolding prev_trading_def trading_iff by presburger+

lemma next_trading_props:
  "trading (next_trading n)" "n < next_trading n" "next_trading n \<le> n + 3"
  "n < r \<Longrightarrow> r < next_trading n \<Longrightarrow> \<not> trading r"
  unfolding next_trading_def trading_iff by presburger+

lemma search_week:
  assumes z: "cairo_zone off D" and n: "- 3600 \<le> n" and d: "\<bar>\<delta>\<bar> \<le> 1"
    and some: "trading (n + \<delta>) \<or> trading (n + \<delta> + \<delta>) \<or> trading (n + \<delta> + \<delta> + \<delta>)"
  shows "search_trading off \<delta> (key_of n) 7 = Some (key_of (if trading (n + \<delta>) then n + \<delta>
     else if trading (n + \<delta> + \<delta>) then n + \<delta> + \<delta> else n + \<delta> + \<delta> + \<delta>))"
proof -
  have step: "search_trading off \<delta> (key_of m) (Suc k) = (if trading (m + \<delta>) then Some (key_of (m + \<delta>))
      else search_trading off \<delta> (key_of (m + \<delta>)) k)" if "- 3630 \<le> m" for m k
    using that d shift_key_of [OF z _ d, of m] weekday_key_of [OF z, of "m + \<delta>"] by (simp add: trading_def Let_def)
  have "search_trading off \<delta> (key_of n) (Suc (Suc (Suc k))) = Some (key_of (if trading (n + \<delta>) then n + \<delta>
     else if trading (n + \<delta> + \<delta>) then n + \<delta> + \<delta> else n + \<delta> + \<delta> + \<delta>))" for k
    using some n d by (auto simp: step simp del: search_trading.simps)
  from this [of 4] show ?thesis by (simp add: eval_nat_numeral)
qed

lemma previous_key:
  assumes z: "cairo_zone off D" and n: "- 3600 \<le> n"
  shows "previousTradingDateKey off (key_of n) = Inr (key_of (prev_trading n))"
proof -
  have "trading (n - 1) \<or> trading (n - 2) \<or> trading (n - 3)"
    using prev_trading_props(1) [of n] by (auto simp: prev_trading_def split: if_splits)
  then show ?thesis
    using search_week [OF z n, of "- 1"] by (simp add: previousTradingDateKey_def prev_trading_def)
qed

lemma next_key:
  assumes z: "cairo_zone off D" and n: "- 3600 \<le> n"
  shows "nextTradingDateKey off (key_of n) = Inr (key_of (next_trading n))"
proof -
  have "trading (n + 1) \<or> trading (n + 2) \<or> trading (n + 3)"
    using next_trading_props(1) [of n] by (auto simp: next_trading_def split: if_splits)
  then show ?thesis
    using search_week [OF z n, of 1] by (simp add: nextTradingDateKey_def next_trading_def add.assoc)
qed

section \<open>The status brackets now\<close>

lemma open_close_key:
  assumes "cairo_zone off D" and "- 3640 \<le> n"
  shows "open_at off (key_of n) = wall D n 36000000" "close_at off (key_of n) = wall D n 52200000"
  using cairoEpochFor_wall [OF assms, of 10 0] cairoEpochFor_wall [OF assms, of 14 30]
  by (simp_all add: open_at_def close_at_def MARKET_OPEN_def MARKET_CLOSE_def)

text \<open>Whether now is past a wall time of its own day, for wall times well inside the day.\<close>

lemma past_wall:
  assumes z: "cairo_zone off D" and now: "now + off now = n * MS_DAY + t" and w: "14400000 \<le> w" "w < 72000000"
  shows "wall D n w \<le> now \<longleftrightarrow> w \<le> t"
proof -
  have e: "wall D n w \<le> now \<longleftrightarrow> w \<le> t + D n - off now" using now by (auto simp: wall_def)
  show ?thesis
  proof (cases "10800000 \<le> t \<and> t < 75600000")
    case True
    then have "off now = D n" using zone_unique [OF z now] by simp
    then show ?thesis unfolding e by simp
  next
    case False
    then show ?thesis
      unfolding e using zone_cases(1) [OF z, of now] zone_cases(2) [OF z, of n] w by auto
  qed
qed

text \<open>Days in between are far apart compared with the offsets.\<close>

lemma wall_order:
  assumes z: "cairo_zone off D" and "m < n" and "0 \<le> w" "w < 72000000" "14400000 \<le> v"
  shows "wall D m w < wall D n v"
proof -
  have "m * MS_DAY + MS_DAY \<le> n * MS_DAY" using assms(2) by (simp add: MS_DAY_def)
  then show ?thesis
    using zone_cases(2) [OF z, of m] zone_cases(2) [OF z, of n] assms(3-5) by (auto simp: wall_def MS_DAY_def)
qed

lemma now_order:
  assumes z: "cairo_zone off D" and now: "now + off now = n * MS_DAY + t" and t: "0 \<le> t" "t < MS_DAY"
  shows "m < n \<Longrightarrow> w < 72000000 \<Longrightarrow> wall D m w \<le> now" and "n < m \<Longrightarrow> 14400000 \<le> w \<Longrightarrow> now < wall D m w"
proof -
  assume "m < n" "w < 72000000"
  moreover from \<open>m < n\<close> have "m * MS_DAY + MS_DAY \<le> n * MS_DAY" by (simp add: MS_DAY_def)
  ultimately show "wall D m w \<le> now"
    using zone_cases(1) [OF z, of now] zone_cases(2) [OF z, of m] now t by (auto simp: wall_def MS_DAY_def)
next
  assume "n < m" "14400000 \<le> w"
  moreover from \<open>n < m\<close> have "n * MS_DAY + MS_DAY \<le> m * MS_DAY" by (simp add: MS_DAY_def)
  ultimately show "now < wall D m w"
    using zone_cases(1) [OF z, of now] zone_cases(2) [OF z, of m] now t by (auto simp: wall_def MS_DAY_def)
qed

definition session_hours :: "int \<Rightarrow> bool" where
  "session_hours t = (36000000 \<le> t \<and> t < 52200000)"

text \<open>What a status must say at an instant on day \<open>n\<close>, \<open>t\<close> ms after Cairo midnight.\<close>

definition status_right :: "(int \<Rightarrow> int) \<Rightarrow> int \<Rightarrow> int \<Rightarrow> int \<Rightarrow> MarketStatus \<Rightarrow> bool" where
  "status_right D now n t st =
     (case st of
        Open k a b \<Rightarrow> trading n \<and> session_hours t \<and> k = key_of n \<and> a = wall D n 36000000 \<and> b = wall D n 52200000 \<and>
          a \<le> now \<and> now < b
      | Closed k a b nxt \<Rightarrow> \<not> (trading n \<and> session_hours t) \<and>
          (\<exists>p q. trading p \<and> trading q \<and> p < q \<and> (\<forall>r. p < r \<and> r < q \<longrightarrow> \<not> trading r) \<and>
            k = key_of p \<and> a = wall D p 36000000 \<and> b = wall D p 52200000 \<and> nxt = wall D q 36000000 \<and>
            b \<le> now \<and> now < nxt))"

lemma status_rightC:
  assumes "\<not> (trading n \<and> session_hours t)" "trading p" "trading q" "p < q" "\<And>r. p < r \<Longrightarrow> r < q \<Longrightarrow> \<not> trading r"
    "wall D p 52200000 \<le> now" "now < wall D q 36000000"
  shows "status_right D now n t (Closed (key_of p) (wall D p 36000000) (wall D p 52200000) (wall D q 36000000))"
  using assms unfolding status_right_def by (simp only: MarketStatus.case simp_thms) blast

lemma status_correct:
  assumes z: "cairo_zone off D" and now: "now + off now = n * MS_DAY + t" and t: "0 \<le> t" "t < MS_DAY" and n: "- 3000 \<le> n"
  shows "\<exists>st. getMarketStatus off now = Inr st \<and> status_right D now n t st"
proof -
  define p where "p = prev_trading n"
  define q where "q = next_trading n"
  have pq: "trading p" "p < n" "n - 3 \<le> p" "trading q" "n < q" "q \<le> n + 3"
    "\<And>r. p < r \<Longrightarrow> r < n \<Longrightarrow> \<not> trading r" "\<And>r. n < r \<Longrightarrow> r < q \<Longrightarrow> \<not> trading r"
    unfolding p_def q_def by (simp_all add: prev_trading_props next_trading_props)
  have today: "cairoDateKey off now = key_of n" unfolding cairoDateKey_day now using day_split [OF t] by simp
  have wd: "isTradingDay (cp_weekday (getCairoParts off now)) = trading n"
    unfolding cp_weekday_parts now trading_def using day_split [OF t] by simp
  have keys: "open_at off (key_of r) = wall D r 36000000" "close_at off (key_of r) = wall D r 52200000"
    if "n - 3 \<le> r" for r using open_close_key [OF z] n that by simp_all
  have prev: "previousTradingDateKey off (key_of n) = Inr (key_of p)" and nxt: "nextTradingDateKey off (key_of n) = Inr (key_of q)"
    using previous_key [OF z, of n] next_key [OF z, of n] n by (simp_all add: p_def q_def)
  have past: "wall D n 36000000 \<le> now \<longleftrightarrow> 36000000 \<le> t" "wall D n 52200000 \<le> now \<longleftrightarrow> 52200000 \<le> t"
    using past_wall [OF z now] by simp_all
  have order: "wall D p 52200000 \<le> now" "now < wall D q 36000000"
    using now_order [OF z now t] pq by simp_all
  note status = getMarketStatus_def Let_def today wd keys [of n] keys [of p] keys [of q] prev nxt
  consider (opn) "trading n" "session_hours t" | (early) "trading n" "t < 36000000"
    | (late) "trading n" "52200000 \<le> t" | (off) "\<not> trading n"
    by (force simp: session_hours_def)
  then show ?thesis
  proof cases
    case opn
    then have "getMarketStatus off now = Inr (Open (key_of n) (wall D n 36000000) (wall D n 52200000))"
      using past by (simp add: status session_hours_def not_le [symmetric])
    then show ?thesis using opn past by (simp add: status_right_def session_hours_def not_le [symmetric])
  next
    case early
    then have "getMarketStatus off now = Inr (Closed (key_of p) (wall D p 36000000) (wall D p 52200000) (wall D n 36000000))"
      using past pq by (simp add: status not_le [symmetric])
    moreover have "now < wall D n 36000000" using past early by (simp add: not_le [symmetric])
    ultimately show ?thesis
      using early order pq by (auto simp: session_hours_def intro!: status_rightC)
  next
    case late
    then have "getMarketStatus off now = Inr (Closed (key_of n) (wall D n 36000000) (wall D n 52200000) (wall D q 36000000))"
      using past pq by (simp add: status not_le [symmetric])
    moreover have "wall D n 52200000 \<le> now" using past late by simp
    ultimately show ?thesis
      using late order pq by (auto simp: session_hours_def intro!: status_rightC)
  next
    case off
    then have "getMarketStatus off now = Inr (Closed (key_of p) (wall D p 36000000) (wall D p 52200000) (wall D q 36000000))"
      using pq by (simp add: status)
    moreover have "\<not> trading r" if "p < r" "r < q" for r
      using that pq off by (cases r n rule: linorder_cases) auto
    ultimately show ?thesis
      using off order pq by (auto intro!: status_rightC)
  qed
qed

section \<open>The properties\<close>

lemma now_split: "now + off now = ((now + off now) div MS_DAY) * MS_DAY + (now + off now) mod MS_DAY"
  "0 \<le> (now + off now) mod MS_DAY" "(now + off now) mod MS_DAY < MS_DAY" for now :: int
  by (simp_all add: MS_DAY_def)

lemma now_day: "cairo_zone off D \<Longrightarrow> 0 \<le> now \<Longrightarrow> 0 \<le> (now + off now) div MS_DAY"
  using zone_cases(1) [of off D now] by (auto simp: MS_DAY_def pos_imp_zdiv_nonneg_iff)

text \<open>Egypt's clock in 2026: three hours from 24 April 00:00 to the end of 29 October, two otherwise.\<close>

definition egypt_2026 :: "int \<Rightarrow> int" where
  "egypt_2026 e = (if 1776981600000 \<le> e \<and> e < 1793307600000 then 10800000 else 7200000)"

definition egypt_2026_day :: "int \<Rightarrow> int" where
  "egypt_2026_day d = (if 20567 \<le> d \<and> d < 20756 then 10800000 else 7200000)"

lemma egypt_2026_zone: "cairo_zone egypt_2026 egypt_2026_day"
  unfolding cairo_zone_def HOUR_MS_def
proof (intro conjI allI impI)
  fix d w :: int
  assume w: "2 * 3600000 \<le> w \<and> w < 22 * 3600000"
  consider "d < 20567" | "20567 \<le> d" "d < 20756" | "20756 \<le> d" by linarith
  then show "egypt_2026 (d * MS_DAY + w - egypt_2026_day d) = egypt_2026_day d"
    using w by cases (auto simp: egypt_2026_def egypt_2026_day_def MS_DAY_def)
qed (simp_all add: egypt_2026_def egypt_2026_day_def)

lemma market_status_right:
  assumes "cairo_zone off D" and "0 \<le> now"
  shows "\<exists>st. getMarketStatus off now = Inr st \<and>
    status_right D now ((now + off now) div MS_DAY) ((now + off now) mod MS_DAY) st"
  by (rule status_correct [OF assms(1) now_split [of now off]]) (use now_day [OF assms] in simp)

text \<open>Claim C7: the market's status is right and total at every instant since 1970: it is open exactly on
  a trading day from 10:00 to 14:30 Cairo, with that day's session; otherwise it is closed and now
  lies between the close of the session it names and the next open it names, which are consecutive
  trading sessions. No search for a trading day throws, whatever the clock changes.\<close>

theorem market_status_brackets:
  assumes "cairo_zone off D" and "0 \<le> now"
  shows "\<exists>st. getMarketStatus off now = Inr st \<and>
    status_right D now ((now + off now) div MS_DAY) ((now + off now) mod MS_DAY) st"
  by (rule market_status_right [OF assms])

theorem market_status_brackets_witness:
  "cairo_zone egypt_2026 egypt_2026_day \<and>
   (\<exists>k a b nxt. getMarketStatus egypt_2026 1790000000000 = Inr (Closed k a b nxt) \<and> 1790000000000 < nxt)"
proof -
  obtain st where st: "getMarketStatus egypt_2026 1790000000000 = Inr st"
    "status_right egypt_2026_day 1790000000000 ((1790000000000 + egypt_2026 1790000000000) div MS_DAY)
      ((1790000000000 + egypt_2026 1790000000000) mod MS_DAY) st"
    using market_status_brackets [OF egypt_2026_zone, of 1790000000000] by auto
  have "\<not> session_hours ((1790000000000 + egypt_2026 1790000000000) mod MS_DAY)" by code_simp
  then show ?thesis using st egypt_2026_zone by (cases st) (auto simp: status_right_def)
qed

text \<open>Claim C40: a wall time survives the trip to an instant and back: for any instant since 1970 and any
  wall time from 03:00 to 20:59, the instant \<open>cairoEpochFor\<close> gives for that date has that date's key
  and shows that hour and minute, on days of a clock change too.\<close>

theorem cairo_epoch_roundtrip:
  assumes "cairo_zone off D" and "0 \<le> e" and "3 \<le> h" and "h < 21" and "0 \<le> mi" and "mi < 60"
  shows "cairoDateKey off (cairoEpochFor off (cairoDateKey off e) h mi) = cairoDateKey off e \<and>
    cp_hour (getCairoParts off (cairoEpochFor off (cairoDateKey off e) h mi)) = h \<and>
    cp_minute (getCairoParts off (cairoEpochFor off (cairoDateKey off e) h mi)) = mi"
proof -
  define n where "n = (e + off e) div MS_DAY"
  define w where "w = h * 3600000 + mi * 60000"
  have n: "0 \<le> n" using now_day [OF assms(1,2)] by (simp add: n_def)
  have w: "7200000 \<le> w" "w < 79200000" using assms(3-6) by (simp_all add: w_def)
  have k: "cairoDateKey off e = key_of n" by (simp add: cairoDateKey_day n_def)
  have ep: "cairoEpochFor off (key_of n) h mi = wall D n w"
    using cairoEpochFor_wall [OF assms(1) _ assms(3-6), of n] n by (simp add: w_def)
  note p = parts_at_wall [OF assms(1) w, of n]
  have "w div HOUR_MS = h" "w mod HOUR_MS = mi * 60000"
    unfolding w_def HOUR_MS_def using assms(5,6) by simp_all
  moreover have "h mod 24 = h" using assms(3,4) by simp
  ultimately have "cp_hour (getCairoParts off (wall D n w)) = h" "cp_minute (getCairoParts off (wall D n w)) = mi"
    by (cases "civil n"; simp add: getCairoParts_def Let_def p MINUTE_MS_def)+
  then show ?thesis unfolding k ep unfolding cairoDateKey_day p by simp
qed

theorem cairo_epoch_roundtrip_witness:
  "cairoDateKey egypt_2026 1776981600000 = ''2026-04-24'' \<and>
   cp_hour (getCairoParts egypt_2026 (cairoEpochFor egypt_2026 ''2026-04-24'' 10 0)) = 10"
proof -
  have k: "cairoDateKey egypt_2026 1776981600000 = ''2026-04-24''" by code_simp
  show ?thesis using cairo_epoch_roundtrip [OF egypt_2026_zone, of 1776981600000 10 0] unfolding k by simp
qed

end
