(* ===== verification/Simulated_Clock.thy ===== *)
theory Simulated_Clock
  imports Calendar
begin

text \<open>
  data/simulatedClock.ts: the development clock. A specification is a name or a Cairo time, read by
  \<open>parseCairoTime\<close>; it is resolved to an instant of the latest trading day; installing the clock
  keeps the offset between that instant and the real time, which every later reading adds. The
  page's \<open>Date\<close> is modelled by what its three uses return: now, a new date with or without
  arguments.
\<close>

record CairoTime =
  ct_hour :: int
  ct_minute :: int
  ct_second :: int

definition OPEN_AT :: CairoTime where
  "OPEN_AT = \<lparr>ct_hour = 12, ct_minute = 0, ct_second = 0\<rparr>"

definition BELL_AT :: CairoTime where
  "BELL_AT = \<lparr>ct_hour = 9, ct_minute = 59, ct_second = 45\<rparr>"

definition digits_only :: "string \<Rightarrow> bool" where
  "digits_only s = list_all is_digit s"

text \<open>The groups \<open>TIME_PATTERN\<close> captures: one or two digits, two digits, and optionally two more,
  separated by colons.\<close>

definition TIME_PATTERN :: "string \<Rightarrow> (string \<times> string \<times> string option) option" where
  "TIME_PATTERN spec =
     (case split_on (CHR '':'') spec of
        [h, m] \<Rightarrow>
          if digits_only (h @ m) \<and> (length h = 1 \<or> length h = 2) \<and> length m = 2 then Some (h, m, None) else None
      | [h, m, s] \<Rightarrow>
          if digits_only (h @ m @ s) \<and> (length h = 1 \<or> length h = 2) \<and> length m = 2 \<and> length s = 2
          then Some (h, m, Some s) else None
      | _ \<Rightarrow> None)"

definition SIMULATED_CLOCK_HELP :: string where
  "SIMULATED_CLOCK_HELP = [CHR 0x27] @ ''open'' @ [CHR 0x27] @ '' (12:00 Cairo), '' @ [CHR 0x27] @ ''bell'' @ [CHR 0x27] @
     '' (09:59:45 Cairo) or a Cairo time '' @ [CHR 0x27] @ ''HH:MM[:SS]'' @ [CHR 0x27]"

definition invalid_clock :: "string \<Rightarrow> js_error" where
  "invalid_clock spec = PlainError (''Invalid simulated market clock '' @ [CHR 0x22] @ spec @ [CHR 0x22] @
     '': expected '' @ SIMULATED_CLOCK_HELP @ ''.'')"

definition parseCairoTime :: "string \<Rightarrow> CairoTime exn" where
  "parseCairoTime spec =
     (if spec = ''open'' then Inr OPEN_AT
      else if spec = ''bell'' then Inr BELL_AT
      else case TIME_PATTERN spec of
        None \<Rightarrow> Inl (invalid_clock spec)
      | Some (h, m, s) \<Rightarrow>
          let hour = int (str_nat h); minute = int (str_nat m);
              second = (case s of None \<Rightarrow> 0 | Some x \<Rightarrow> int (str_nat x))
          in if hour < 24 \<and> minute < 60 \<and> second < 60
             then Inr \<lparr>ct_hour = hour, ct_minute = minute, ct_second = second\<rparr>
             else Inl (invalid_clock spec))"

definition resolveSimulatedClockTarget :: "(int \<Rightarrow> int) \<Rightarrow> string \<Rightarrow> int \<Rightarrow> int exn" where
  "resolveSimulatedClockTarget off spec realNowMs =
     bindE (parseCairoTime (toLowerCase (trim spec))) (\<lambda>time.
       let today = cairoDateKey off realNowMs in
       bindE (if isTradingDay (cp_weekday (getCairoParts off realNowMs)) then Inr today
              else previousTradingDateKey off today) (\<lambda>day.
         Inr (cairoEpochFor off day (ct_hour time) (ct_minute time) + ct_second time * 1000)))"

text \<open>The installed clock is its offset; \<open>None\<close> is the real clock, which the returned function puts
  back.\<close>

type_synonym page_clock = "int option"

definition installSimulatedClock :: "int \<Rightarrow> int \<Rightarrow> page_clock" where
  "installSimulatedClock targetMs realNow = Some (targetMs - realNow)"

definition restore_clock :: page_clock where
  "restore_clock = None"

definition date_now :: "page_clock \<Rightarrow> int \<Rightarrow> int" where
  "date_now c realNow = (case c of None \<Rightarrow> realNow | Some offsetMs \<Rightarrow> realNow + offsetMs)"

definition new_date :: "page_clock \<Rightarrow> int option \<Rightarrow> int \<Rightarrow> int" where
  "new_date c arg realNow = (case arg of None \<Rightarrow> date_now c realNow | Some t \<Rightarrow> t)"

section \<open>Where the clock lands\<close>

lemma parseCairoTime_range:
  assumes "parseCairoTime spec = Inr time"
  shows "0 \<le> ct_hour time" "ct_hour time < 24" "0 \<le> ct_minute time" "ct_minute time < 60"
    "0 \<le> ct_second time" "ct_second time < 60"
  using assms by (auto simp: parseCairoTime_def OPEN_AT_def BELL_AT_def Let_def split: if_splits option.splits)

lemma resolve_error:
  assumes "cairo_zone off D" and "0 \<le> now" and "resolveSimulatedClockTarget off spec now = Inl e"
  shows "e = invalid_clock (toLowerCase (trim spec))"
proof -
  have "previousTradingDateKey off (cairoDateKey off now) = Inr (key_of (prev_trading ((now + off now) div MS_DAY)))"
    using previous_key [OF assms(1)] now_day [OF assms(1,2)] by (simp add: cairoDateKey_day)
  then have "parseCairoTime (toLowerCase (trim spec)) = Inl e"
    using assms(3) by (auto simp: resolveSimulatedClockTarget_def Let_def exn_simps split: if_splits)
  then show ?thesis
    by (auto simp: parseCairoTime_def Let_def split: if_splits option.splits)
qed

text \<open>The development clock lands where it says: an accepted specification is resolved to
  that Cairo time on a trading day which is today or at most three days back (for times from 03:00
  to 20:59), a refused one is refused with the help text; and the page's clock, installed at a real
  instant, reads the target then and runs on at the real rate, leaving given dates alone.\<close>

theorem simulated_clock_lands:
  assumes "cairo_zone off D" and "0 \<le> now"
  shows "case parseCairoTime (toLowerCase (trim spec)) of
      Inl e \<Rightarrow> resolveSimulatedClockTarget off spec now = Inl (invalid_clock (toLowerCase (trim spec)))
    | Inr time \<Rightarrow> (3 \<le> ct_hour time \<and> ct_hour time < 21 \<longrightarrow>
        (\<exists>p \<le> (now + off now) div MS_DAY. trading p \<and> (now + off now) div MS_DAY - 3 \<le> p \<and>
           resolveSimulatedClockTarget off spec now =
             Inr (wall D p (ct_hour time * 3600000 + ct_minute time * 60000) + ct_second time * 1000) \<and>
           (\<forall>later given. date_now (installSimulatedClock target now) (now + later) = target + later \<and>
              new_date (installSimulatedClock target now) (Some given) (now + later) = given)))"
proof (cases "parseCairoTime (toLowerCase (trim spec))")
  case (Inl e)
  then have "resolveSimulatedClockTarget off spec now = Inl e" by (simp add: resolveSimulatedClockTarget_def)
  then show ?thesis using Inl resolve_error [OF assms] by simp
next
  case (Inr time)
  define n where "n = (now + off now) div MS_DAY"
  define p where "p = (if trading n then n else prev_trading n)"
  have n: "0 \<le> n" using now_day [OF assms] by (simp add: n_def)
  have p: "trading p" "p \<le> n" "n - 3 \<le> p"
    using prev_trading_props(1-3) [of n] by (auto simp: p_def)
  have wd: "isTradingDay (cp_weekday (getCairoParts off now)) = trading n"
    by (simp add: cp_weekday_parts trading_def n_def)
  have "(if trading n then Inr (key_of n) else previousTradingDateKey off (key_of n)) = Inr (key_of p)"
    using previous_key [OF assms(1), of n] n by (simp add: p_def)
  then have r: "resolveSimulatedClockTarget off spec now =
      Inr (cairoEpochFor off (key_of p) (ct_hour time) (ct_minute time) + ct_second time * 1000)"
    by (simp add: resolveSimulatedClockTarget_def Inr wd Let_def cairoDateKey_day flip: n_def)
  have "resolveSimulatedClockTarget off spec now =
      Inr (wall D p (ct_hour time * 3600000 + ct_minute time * 60000) + ct_second time * 1000)"
    if "3 \<le> ct_hour time" "ct_hour time < 21"
    using cairoEpochFor_wall [OF assms(1), of p "ct_hour time" "ct_minute time"] that parseCairoTime_range [OF Inr] p n r by simp
  then show ?thesis
    using p Inr by (auto simp: date_now_def new_date_def installSimulatedClock_def n_def [symmetric])
qed

theorem simulated_clock_lands_witness:
  "parseCairoTime (toLowerCase (trim '' BELL '')) = Inr BELL_AT \<and>
   (\<exists>p \<le> 20717. trading p \<and> resolveSimulatedClockTarget egypt_2026 '' BELL '' 1790000000000 =
      Inr (wall egypt_2026_day p 35940000 + 45000))"
proof -
  have b: "parseCairoTime (toLowerCase (trim '' BELL '')) = Inr BELL_AT" by code_simp
  have d: "(1790000000000 + egypt_2026 1790000000000) div MS_DAY = 20717" by code_simp
  show ?thesis
    using simulated_clock_lands [OF egypt_2026_zone, of 1790000000000 "'' BELL ''" 0] unfolding b d
    by (simp add: BELL_AT_def) blast
qed

end
