(* ===== verification/Json.thy ===== *)
theory Json
  imports Js_Text
begin

text \<open>
  The part of JavaScript's \<open>JSON\<close> object the message parsing rests on: JSON values,
  \<open>JSON.parse\<close> and \<open>JSON.stringify\<close>, and the text of a number in an error message.

  A string stands for the UTF-8 bytes of the wire text; a \<open>\u\<close> escape is decoded to the bytes
  of its code point. An object keeps its members in order and the last of two equal keys wins,
  as in JavaScript. The parser is a recursive descent over the remaining text; a recursive call
  is made only on a shorter text, which is also why it ends.

  The lemma the serializer's properties rest on is \<open>json_parse_stringify\<close>: a value without
  numbers is read back from its own text.
\<close>

datatype json = JNull | JBool bool | JNum number | JStr string | JArr "json list" | JObj "(string \<times> json) list"

section \<open>The text of a number\<close>

text \<open>\<open>Number.prototype.toString\<close>: the fewest significant digits that round to the same double.\<close>

definition pow10 :: "int \<Rightarrow> rat" where
  "pow10 e = (if 0 \<le> e then 10 ^ nat e else 1 / 10 ^ nat (- e))"

text \<open>The decimal exponent of a positive rational, as the number of digits before the point.\<close>

definition dec_expo :: "rat \<Rightarrow> int" where
  "dec_expo x = (let (p, q) = quotient_of x;
                     a = int (length (nat_str (nat p))) - int (length (nat_str (nat q)))
                 in if pow10 a \<le> x then a + 1 else a)"

fun shortest_from :: "rat \<Rightarrow> int \<Rightarrow> nat \<Rightarrow> nat \<Rightarrow> int \<times> nat" where
  "shortest_from x n k 0 = (\<lfloor>x / pow10 (n - int k)\<rfloor>, k)"
| "shortest_from x n k (Suc more) =
     (let unit = pow10 (n - int k); lo = \<lfloor>x / unit\<rfloor>; hi = lo + 1;
          near = (if x / unit - of_int lo \<le> 1/2 then [lo, hi] else [hi, lo])
      in case filter (\<lambda>s. fl (of_int s * unit) = x) near of
           [] \<Rightarrow> shortest_from x n (k + 1) more
         | s # _ \<Rightarrow> (s, k))"

definition positive_text :: "rat \<Rightarrow> string" where
  "positive_text x =
     (let n0 = dec_expo x; (s, k) = shortest_from x n0 1 16; ds = nat_str (nat s);
          n = n0 + (int (length ds) - int k); digits = takeWhile (\<lambda>c. c = CHR ''0'') (rev ds);
          d = take (length ds - length digits) ds; k' = int (length d);
          expo = (if 1 \<le> n then ''+'' else ''-'') @ nat_str (nat \<bar>n - 1\<bar>)
      in if k' \<le> n \<and> n \<le> 21 then d @ replicate (nat (n - k')) (CHR ''0'')
         else if 0 < n \<and> n \<le> 21 then take (nat n) d @ ''.'' @ drop (nat n) d
         else if -6 < n \<and> n \<le> 0 then ''0.'' @ replicate (nat (- n)) (CHR ''0'') @ d
         else if k' = 1 then d @ ''e'' @ expo
         else take 1 d @ ''.'' @ drop 1 d @ ''e'' @ expo)"

fun number_text :: "number \<Rightarrow> string" where
  "number_text (Fin x) = (if x = 0 then ''0'' else if x < 0 then ''-'' @ positive_text (- x) else positive_text x)"
| "number_text PInf = ''Infinity''"
| "number_text NInf = ''-Infinity''"
| "number_text NaN = ''NaN''"

section \<open>Serializing\<close>

fun join_with :: "string \<Rightarrow> string list \<Rightarrow> string" where
  "join_with sep [] = ''''"
| "join_with sep [x] = x"
| "join_with sep (x # y # xs) = x @ sep @ join_with sep (y # xs)"

fun json_stringify :: "json \<Rightarrow> string" where
  "json_stringify JNull = ''null''"
| "json_stringify (JBool b) = (if b then ''true'' else ''false'')"
| "json_stringify (JNum x) = (if num_is_finite x then number_text x else ''null'')"
| "json_stringify (JStr s) = json_quote s"
| "json_stringify (JArr xs) = ''['' @ join_with '','' (map json_stringify xs) @ '']''"
| "json_stringify (JObj ps) =
     ''{'' @ join_with '','' (map (\<lambda>(k, v). json_quote k @ '':'' @ json_stringify v) ps) @ ''}''"

section \<open>Parsing\<close>

definition json_error :: "'a exn" where
  "json_error = Inl (SyntaxError ''Unexpected token in JSON'')"

definition json_ws :: "char \<Rightarrow> bool" where
  "json_ws c = (c \<in> {CHR 0x20, CHR 0x09, CHR 0x0A, CHR 0x0D})"

definition skip_ws :: "string \<Rightarrow> string" where
  "skip_ws s = dropWhile json_ws s"

definition hex_val :: "char \<Rightarrow> nat option" where
  "hex_val c = (let n = (of_char c :: nat) in
     if 48 \<le> n \<and> n \<le> 57 then Some (n - 48) else if 97 \<le> n \<and> n \<le> 102 then Some (n - 87)
     else if 65 \<le> n \<and> n \<le> 70 then Some (n - 55) else None)"

fun hex4 :: "string \<Rightarrow> (nat \<times> string) option" where
  "hex4 (a # b # c # d # r) =
     (case (hex_val a, hex_val b, hex_val c, hex_val d) of
        (Some a', Some b', Some c', Some d') \<Rightarrow> Some (((a' * 16 + b') * 16 + c') * 16 + d', r)
      | _ \<Rightarrow> None)"
| "hex4 _ = None"

lemma hex4_shorter: "hex4 s = Some (n, r) \<Longrightarrow> length r < length s"
  by (induction s rule: hex4.induct) (auto split: option.splits)

definition utf8 :: "nat \<Rightarrow> string" where
  "utf8 n = map char_of
     (if n < 0x80 then [n]
      else if n < 0x800 then [0xC0 + n div 0x40, 0x80 + n mod 0x40]
      else if n < 0x10000 then [0xE0 + n div 0x1000, 0x80 + n div 0x40 mod 0x40, 0x80 + n mod 0x40]
      else [0xF0 + n div 0x40000, 0x80 + n div 0x1000 mod 0x40, 0x80 + n div 0x40 mod 0x40, 0x80 + n mod 0x40])"

definition simple_escape :: "char \<Rightarrow> char option" where
  "simple_escape c =
     (if c \<in> {CHR 0x22, CHR 0x5C, CHR ''/''} then Some c
      else if c = CHR ''b'' then Some (CHR 0x08)
      else if c = CHR ''f'' then Some (CHR 0x0C)
      else if c = CHR ''n'' then Some (CHR 0x0A)
      else if c = CHR ''r'' then Some (CHR 0x0D)
      else if c = CHR ''t'' then Some (CHR 0x09)
      else None)"

text \<open>A \<open>\u\<close> escape; a high surrogate followed by an escaped low one is one code point.\<close>

definition unicode_escape :: "string \<Rightarrow> (string \<times> string) option" where
  "unicode_escape s =
     (case hex4 s of
        None \<Rightarrow> None
      | Some (n, r) \<Rightarrow>
          (if 0xD800 \<le> n \<and> n < 0xDC00 \<and> take 2 r = [CHR 0x5C, CHR ''u''] then
             (case hex4 (drop 2 r) of
                Some (m, r') \<Rightarrow> if 0xDC00 \<le> m \<and> m < 0xE000
                  then Some (utf8 (0x10000 + (n - 0xD800) * 0x400 + (m - 0xDC00)), r') else Some (utf8 n, r)
              | None \<Rightarrow> None)
           else Some (utf8 n, r)))"

lemma unicode_escape_shorter:
  assumes "unicode_escape s = Some (u, r)"
  shows "length r < length s"
proof -
  obtain n q where q: "hex4 s = Some (n, q)"
    using assms by (auto simp: unicode_escape_def split: option.splits)
  have "length r \<le> length q"
    using assms q hex4_shorter [of "drop 2 q"]
    by (auto simp: unicode_escape_def split: option.splits if_splits prod.splits)
  with hex4_shorter [OF q] show ?thesis by simp
qed

definition before :: "string \<Rightarrow> (string \<times> string) exn \<Rightarrow> (string \<times> string) exn" where
  "before u m = (case m of Inl e \<Rightarrow> Inl e | Inr (s, r) \<Rightarrow> Inr (u @ s, r))"

text \<open>The characters after an opening quote, up to and including the closing one.\<close>

function (sequential) parse_chars :: "string \<Rightarrow> (string \<times> string) exn" where
  "parse_chars [] = json_error"
| "parse_chars (c # cs) =
     (if c = CHR 0x22 then Inr ([], cs)
      else if (of_char c :: nat) < 32 then json_error
      else if c \<noteq> CHR 0x5C then before [c] (parse_chars cs)
      else (case cs of
              [] \<Rightarrow> json_error
            | e # ds \<Rightarrow>
                (if e = CHR ''u'' then
                   (case unicode_escape ds of None \<Rightarrow> json_error | Some (u, r) \<Rightarrow> before u (parse_chars r))
                 else
                   (case simple_escape e of None \<Rightarrow> json_error | Some x \<Rightarrow> before [x] (parse_chars ds)))))"
  by pat_completeness auto
termination
  by (relation "measure length") (auto dest: unicode_escape_shorter)

definition parse_number :: "string \<Rightarrow> (number \<times> string) exn" where
  "parse_number s =
     (let neg = (take 1 s = ''-''); s1 = (if neg then drop 1 s else s);
          ip = takeWhile is_digit s1; s2 = dropWhile is_digit s1;
          dot = (take 1 s2 = ''.''); fp = (if dot then takeWhile is_digit (drop 1 s2) else []);
          s3 = (if dot then dropWhile is_digit (drop 1 s2) else s2);
          ex = (take 1 s3 = ''e'' \<or> take 1 s3 = ''E'');
          s4 = (if ex then drop 1 s3 else s3);
          eneg = (take 1 s4 = ''-''); s5 = (if ex \<and> (eneg \<or> take 1 s4 = ''+'') then drop 1 s4 else s4);
          ed = (if ex then takeWhile is_digit s5 else []); s6 = (if ex then dropWhile is_digit s5 else s5);
          e = (if eneg then - int (str_nat ed) else int (str_nat ed));
          m = of_nat (str_nat (ip @ fp)) * pow10 ((if ex then e else 0) - int (length fp))
      in if ip = [] \<or> (1 < length ip \<and> take 1 ip = ''0'') \<or> (dot \<and> fp = []) \<or> (ex \<and> ed = []) then json_error
         else Inr (to_number (if neg then - m else m), s6))"

function (sequential) parse_value :: "string \<Rightarrow> (json \<times> string) exn"
  and parse_elements :: "string \<Rightarrow> (json list \<times> string) exn"
  and parse_members :: "(string \<times> json) list \<Rightarrow> string \<Rightarrow> ((string \<times> json) list \<times> string) exn" where
  "parse_value s =
     (case skip_ws s of
        [] \<Rightarrow> json_error
      | c # cs \<Rightarrow>
          (if length s < length (c # cs) then json_error
           else if c = CHR 0x22 then
             (case parse_chars cs of Inl e \<Rightarrow> Inl e | Inr (u, r) \<Rightarrow> Inr (JStr u, r))
           else if c = CHR ''['' then
             (if take 1 (skip_ws cs) = '']'' then Inr (JArr [], drop 1 (skip_ws cs))
              else case parse_elements cs of Inl e \<Rightarrow> Inl e | Inr (vs, r) \<Rightarrow> Inr (JArr vs, r))
           else if c = CHR ''{'' then
             (if take 1 (skip_ws cs) = ''}'' then Inr (JObj [], drop 1 (skip_ws cs))
              else case parse_members [] cs of Inl e \<Rightarrow> Inl e | Inr (ps, r) \<Rightarrow> Inr (JObj ps, r))
           else if starts_with ''true'' (c # cs) then Inr (JBool True, drop 4 (c # cs))
           else if starts_with ''false'' (c # cs) then Inr (JBool False, drop 5 (c # cs))
           else if starts_with ''null'' (c # cs) then Inr (JNull, drop 4 (c # cs))
           else (case parse_number (c # cs) of Inl e \<Rightarrow> Inl e | Inr (x, r) \<Rightarrow> Inr (JNum x, r))))"
| "parse_elements s =
     (case parse_value s of
        Inl e \<Rightarrow> Inl e
      | Inr (v, r) \<Rightarrow>
          (case skip_ws r of
             [] \<Rightarrow> json_error
           | c # cs \<Rightarrow>
               (if c = CHR '']'' then Inr ([v], cs)
                else if c = CHR '','' \<and> length cs < length s then
                  (case parse_elements cs of Inl e \<Rightarrow> Inl e | Inr (vs, r') \<Rightarrow> Inr (v # vs, r'))
                else json_error)))"
| "parse_members acc s =
     (case skip_ws s of
        [] \<Rightarrow> json_error
      | q # qs \<Rightarrow>
          (if q \<noteq> CHR 0x22 then json_error
           else case parse_chars qs of
             Inl e \<Rightarrow> Inl e
           | Inr (k, r) \<Rightarrow>
               (case skip_ws r of
                  [] \<Rightarrow> json_error
                | c # cs \<Rightarrow>
                    (if c \<noteq> CHR '':'' \<or> length s \<le> length cs then json_error
                     else case parse_value cs of
                       Inl e \<Rightarrow> Inl e
                     | Inr (v, r') \<Rightarrow>
                         (case skip_ws r' of
                            [] \<Rightarrow> json_error
                          | d # ds \<Rightarrow>
                              (if d = CHR ''}'' then Inr (jset k v acc, ds)
                               else if d = CHR '','' \<and> length ds < length s then parse_members (jset k v acc) ds
                               else json_error))))))"
  by pat_completeness auto
termination
  by (relation "measure (\<lambda>x. case x of Inl s \<Rightarrow> 2 * length s | Inr (Inl s) \<Rightarrow> 2 * length s + 1
                                   | Inr (Inr p) \<Rightarrow> 2 * length (snd p) + 1)") auto

declare parse_value.simps [simp del] parse_elements.simps [simp del] parse_members.simps [simp del]

definition json_parse :: "string \<Rightarrow> json exn" where
  "json_parse s = (case parse_value s of
     Inl e \<Rightarrow> Inl e
   | Inr (v, r) \<Rightarrow> if skip_ws r = [] then Inr v else json_error)"

section \<open>Reading back what was written\<close>

lemma of_char_char: "of_char c = (n::nat) \<Longrightarrow> c = char_of n"
  by (metis char_of_char)

lemma hex_val_hex_char: "d < 16 \<Longrightarrow> hex_val (hex_char d) = Some d"
proof -
  have "\<forall>d \<in> set [0..<16]. hex_val (hex_char d) = Some d" by code_simp
  then show "d < 16 \<Longrightarrow> hex_val (hex_char d) = Some d" by simp
qed

lemma unicode_escape_control:
  assumes "n < 32"
  shows "unicode_escape (''00'' @ [hex_char (n div 16), hex_char (n mod 16)] @ s) = Some ([char_of n], s)"
proof -
  have "hex_val (CHR ''0'') = Some 0" by code_simp
  moreover have "hex_val (hex_char (n div 16)) = Some (n div 16)" "hex_val (hex_char (n mod 16)) = Some (n mod 16)"
    using assms by (simp_all add: hex_val_hex_char)
  ultimately show ?thesis using assms by (simp add: unicode_escape_def utf8_def)
qed

lemma parse_chars_escape: "parse_chars (json_escape c @ s) = before [c] (parse_chars s)"
proof -
  define n where "n = (of_char c :: nat)"
  have c: "c = char_of n" by (simp add: n_def)
  have ch: "char_of (34::nat) = CHR 0x22" "char_of (92::nat) = CHR 0x5C" by code_simp+
  have esc: "simple_escape (CHR 0x22) = Some (CHR 0x22)" "simple_escape (CHR 0x5C) = Some (CHR 0x5C)"
    "simple_escape (CHR ''b'') = Some (char_of (8::nat))" "simple_escape (CHR ''t'') = Some (char_of (9::nat))"
    "simple_escape (CHR ''n'') = Some (char_of (10::nat))" "simple_escape (CHR ''f'') = Some (char_of (12::nat))"
    "simple_escape (CHR ''r'') = Some (char_of (13::nat))"
    by code_simp+
  have ne: "CHR 0x5C \<noteq> CHR 0x22" "\<not> (of_char (CHR 0x5C) :: nat) < 32" by simp_all
  consider "n = 34" | "n = 92" | "n = 8" | "n = 9" | "n = 10" | "n = 12" | "n = 13"
    | "n < 32" "n \<notin> {8, 9, 10, 12, 13}" | "32 \<le> n" "n \<noteq> 34" "n \<noteq> 92" by fastforce
  then show ?thesis
  proof cases
    case 8
    have u: "unicode_escape (CHR ''0'' # CHR ''0'' # hex_char (n div 16) # hex_char (n mod 16) # s) = Some ([c], s)"
      using unicode_escape_control [OF 8(1), of s] by (simp add: c)
    have e: "json_escape c = CHR 0x5C # ''u00'' @ [hex_char (n div 16), hex_char (n mod 16)]"
      using 8 by (simp add: json_escape_def Let_def flip: n_def)
    show ?thesis unfolding e using u by simp
  next
    case 9
    then have e: "json_escape c = [c]" by (simp add: json_escape_def Let_def flip: n_def)
    have "c \<noteq> CHR 0x22" "c \<noteq> CHR 0x5C" using 9(2,3) by (auto simp: n_def)
    then show ?thesis unfolding e using 9(1) by (simp flip: n_def)
  qed (use esc ne in \<open>simp_all add: json_escape_def Let_def c ch\<close>)
qed

lemma parse_chars_quoted: "parse_chars (concat (map json_escape s) @ CHR 0x22 # r) = Inr (s, r)"
proof (induction s)
  case (Cons c s)
  then show ?case using parse_chars_escape [of c "concat (map json_escape s) @ CHR 0x22 # r"]
    by (simp add: before_def)
qed simp

lemma skip_ws_Cons [simp]: "\<not> json_ws c \<Longrightarrow> skip_ws (c # s) = c # s"
  by (simp add: skip_ws_def)

lemma json_ws_punct [simp]:
  "\<not> json_ws (CHR 0x22)" "\<not> json_ws (CHR ''['')" "\<not> json_ws (CHR '']'')" "\<not> json_ws (CHR ''{'')"
  "\<not> json_ws (CHR ''}'')" "\<not> json_ws (CHR '','')" "\<not> json_ws (CHR '':'')" "\<not> json_ws (CHR ''t'')"
  "\<not> json_ws (CHR ''f'')" "\<not> json_ws (CHR ''n'')"
  by code_simp+

lemma parse_value_quote: "parse_value (json_quote s @ r) = Inr (JStr s, r)"
  by (simp add: parse_value.simps json_quote_def parse_chars_quoted)

text \<open>Values without numbers, whose objects have no repeated key.\<close>

fun number_free :: "json \<Rightarrow> bool" where
  "number_free (JNum x) = False"
| "number_free (JArr xs) = list_all number_free xs"
| "number_free (JObj ps) = (distinct (map fst ps) \<and> list_all (\<lambda>(k, v). number_free v) ps)"
| "number_free _ = True"

definition member_text :: "string \<times> json \<Rightarrow> string" where
  "member_text p = json_quote (fst p) @ '':'' @ json_stringify (snd p)"

lemma json_stringify_obj: "json_stringify (JObj ps) = ''{'' @ join_with '','' (map member_text ps) @ ''}''"
  by (simp add: member_text_def [abs_def] case_prod_unfold)

lemma join_with_Cons: "join_with sep (x # xs) = x @ (if xs = [] then [] else sep @ join_with sep xs)"
  by (cases xs) simp_all

lemma parse_elements_text:
  assumes "xs \<noteq> []" and "\<And>x r. x \<in> set xs \<Longrightarrow> parse_value (json_stringify x @ r) = Inr (x, r)"
  shows "parse_elements (join_with '','' (map json_stringify xs) @ CHR '']'' # r) = Inr (xs, r)"
  using assms
proof (induction xs)
  case (Cons x xs)
  then show ?case
    by (subst parse_elements.simps) (auto simp: join_with_Cons)
qed simp

lemma parse_members_text:
  assumes "ps \<noteq> []" and "\<And>k v r. (k, v) \<in> set ps \<Longrightarrow> parse_value (json_stringify v @ r) = Inr (v, r)"
    and "distinct (map fst (acc @ ps))"
  shows "parse_members acc (join_with '','' (map member_text ps) @ CHR ''}'' # r) = Inr (acc @ ps, r)"
  using assms
proof (induction ps arbitrary: acc)
  case (Cons p ps)
  obtain k v where p: "p = (k, v)" by force
  have new: "jset k v acc = acc @ [(k, v)]" using Cons.prems(3) unfolding p by (induction acc) auto
  have head: "parse_value (json_stringify v @ t) = Inr (v, t)" for t
    by (rule Cons.prems(2) [of k]) (simp add: p)
  have m: "member_text (k, v) @ t = CHR 0x22 # concat (map json_escape k) @ CHR 0x22 # CHR '':'' # json_stringify v @ t" for t
    by (simp add: member_text_def json_quote_def)
  have tail: "parse_members (acc @ [(k, v)]) (join_with '','' (map member_text ps) @ CHR ''}'' # r) = Inr (acc @ p # ps, r)"
    if "ps \<noteq> []"
    using Cons.IH [of "acc @ [(k, v)]", OF that] Cons.prems(2,3) p by fastforce
  show ?case
    using tail head
    by (subst parse_members.simps) (auto simp: join_with_Cons p m parse_chars_quoted new)
qed simp

lemma json_stringify_head:
  "number_free j \<Longrightarrow> \<exists>c s. json_stringify j = c # s \<and>
     c \<in> {CHR ''n'', CHR ''t'', CHR ''f'', CHR 0x22, CHR ''['', CHR ''{''}"
  by (cases j) (auto simp: json_quote_def)

lemma parse_value_stringify: "number_free j \<Longrightarrow> parse_value (json_stringify j @ r) = Inr (j, r)"
proof (induction j arbitrary: r)
  case (JBool b)
  show ?case by (cases b) (simp_all add: parse_value.simps)
next
  case (JStr s)
  show ?case by (simp add: parse_value_quote)
next
  case (JArr xs)
  show ?case
  proof (cases xs)
    case (Cons x ys)
    have body: "parse_elements (join_with '','' (map json_stringify xs) @ CHR '']'' # r) = Inr (xs, r)"
      using JArr Cons by (intro parse_elements_text) (auto simp: list_all_iff)
    obtain c s where "json_stringify x = c # s"
      "c \<in> {CHR ''n'', CHR ''t'', CHR ''f'', CHR 0x22, CHR ''['', CHR ''{''}"
      using json_stringify_head [of x] JArr.prems Cons by auto
    then have "take 1 (skip_ws (join_with '','' (map json_stringify xs) @ CHR '']'' # r)) \<noteq> '']''"
      unfolding Cons by (auto simp: join_with_Cons)
    with body show ?thesis by (simp add: parse_value.simps)
  qed (simp add: parse_value.simps)
next
  case (JObj ps)
  show ?case
  proof (cases ps)
    case (Cons p qs)
    have each: "parse_value (json_stringify v @ r) = Inr (v, r)" if "(k, v) \<in> set ps" for k v r
      using JObj.IH [OF that, of v r] JObj.prems that by (auto simp: list_all_iff)
    have body: "parse_members [] (join_with '','' (map member_text ps) @ CHR ''}'' # r) = Inr (ps, r)"
      using parse_members_text [of ps "[]" r] each JObj.prems Cons by simp
    have "take 1 (skip_ws (join_with '','' (map member_text ps) @ CHR ''}'' # r)) \<noteq> ''}''"
      unfolding Cons by (simp add: join_with_Cons member_text_def json_quote_def)
    with body show ?thesis by (simp add: parse_value.simps json_stringify_obj del: json_stringify.simps(6))
  qed (simp add: parse_value.simps)
qed (simp_all add: parse_value.simps)

theorem json_parse_stringify: "number_free j \<Longrightarrow> json_parse (json_stringify j) = Inr j"
  using parse_value_stringify [of j "[]"] by (simp add: json_parse_def skip_ws_def)

end
