(* ===== verification/Config.thy ===== *)
theory Config
  imports Simulated_Clock Json
begin

text \<open>
  data/config.ts, the configuration: reading the environment, the overrides, and the guards that
  keep simulated prices out of a production build. The build's environment (\<open>import.meta.env\<close>) is
  a parameter: the string variables as a function and the \<open>PROD\<close> flag as a boolean. The shared
  source of the same file is in Shared_Source.
\<close>

section \<open>The number a string coerces to\<close>

text \<open>JavaScript's unary plus on a string: white space is trimmed, an empty text is 0, hexadecimal,
  octal and binary prefixes, \<open>Infinity\<close>, and decimal literals; anything else is NaN.\<close>

definition radix_digits :: "nat \<Rightarrow> string \<Rightarrow> nat option" where
  "radix_digits radix s =
     foldl (\<lambda>acc c. case (acc, hex_val c) of (Some a, Some d) \<Rightarrow> if d < radix then Some (a * radix + d) else None | _ \<Rightarrow> None)
       (if s = [] then None else Some 0) s"

definition decimal_literal :: "string \<Rightarrow> rat option" where
  "decimal_literal s =
     (let ip = takeWhile is_digit s; s2 = dropWhile is_digit s;
          dot = (take 1 s2 = ''.''); fp = (if dot then takeWhile is_digit (drop 1 s2) else []);
          s3 = (if dot then dropWhile is_digit (drop 1 s2) else s2);
          ex = (take 1 s3 = ''e'' \<or> take 1 s3 = ''E'');
          s4 = (if ex then drop 1 s3 else s3);
          eneg = (take 1 s4 = ''-''); s5 = (if ex \<and> (eneg \<or> take 1 s4 = ''+'') then drop 1 s4 else s4);
          ed = (if ex then takeWhile is_digit s5 else []); s6 = (if ex then dropWhile is_digit s5 else s5);
          e = (if eneg then - int (str_nat ed) else int (str_nat ed))
      in if s6 \<noteq> [] \<or> (ip = [] \<and> fp = []) \<or> (ex \<and> ed = []) then None
         else Some (of_nat (str_nat (ip @ fp)) * pow10 ((if ex then e else 0) - int (length fp))))"

definition string_number :: "string \<Rightarrow> number" where
  "string_number raw =
     (let s = trim raw; neg = (take 1 s = ''-''); u = (if neg \<or> take 1 s = ''+'' then drop 1 s else s);
          low = toLowerCase (take 2 s)
      in if s = [] then of_count 0
         else if low = ''0x'' then (case radix_digits 16 (drop 2 s) of Some n \<Rightarrow> to_number (of_nat n) | None \<Rightarrow> NaN)
         else if low = ''0o'' then (case radix_digits 8 (drop 2 s) of Some n \<Rightarrow> to_number (of_nat n) | None \<Rightarrow> NaN)
         else if low = ''0b'' then (case radix_digits 2 (drop 2 s) of Some n \<Rightarrow> to_number (of_nat n) | None \<Rightarrow> NaN)
         else if u = ''Infinity'' then (if neg then NInf else PInf)
         else case decimal_literal u of None \<Rightarrow> NaN | Some x \<Rightarrow> to_number (if neg then - x else x))"

section \<open>Configuration\<close>

datatype source = SimulatedKind | GatewayKind

record SimulatedConfig =
  sc_eventsPerSecond :: number
  sc_delayedOffsetMs :: number
  sc_seed :: number
  sc_clock :: "string option"

record ClientConfig =
  cc_source :: source
  cc_gatewayUrl :: string
  cc_demoUser :: string
  cc_simulated :: SimulatedConfig

definition DEFAULTS :: ClientConfig where
  "DEFAULTS = \<lparr>cc_source = SimulatedKind, cc_gatewayUrl = ''ws://localhost:5000'', cc_demoUser = ''user-001'',
     cc_simulated = \<lparr>sc_eventsPerSecond = of_count 2000, sc_delayedOffsetMs = of_count 15000,
       sc_seed = of_count 20260912, sc_clock = None\<rparr>\<rparr>"

type_synonym env = "string \<Rightarrow> string option"

definition readEnvString :: "env \<Rightarrow> string \<Rightarrow> string option" where
  "readEnvString env key = (case env key of Some v \<Rightarrow> if length v > 0 then Some v else None | None \<Rightarrow> None)"

definition readEnvCount :: "env \<Rightarrow> string \<Rightarrow> number option" where
  "readEnvCount env key =
     (case readEnvString env key of
        None \<Rightarrow> None
      | Some raw \<Rightarrow> (let v = string_number raw in if num_is_finite v then Some v else None))"

definition readSource :: "env \<Rightarrow> source" where
  "readSource env = (if readEnvString env ''VITE_TCKR_SOURCE'' = Some ''gateway'' then GatewayKind else SimulatedKind)"

definition readEnvFlag :: "env \<Rightarrow> string \<Rightarrow> bool" where
  "readEnvFlag env key = (readEnvString env key = Some ''true'' \<or> readEnvString env key = Some ''1'')"

text \<open>\<open>Partial<ClientConfig>\<close>: an absent field is \<open>None\<close>; in a given \<open>simulated\<close> object only the clock
  may be absent (\<open>None\<close>), present as undefined (\<open>Some None\<close>) or present (\<open>Some (Some c)\<close>).\<close>

record Overrides =
  ov_source :: "source option"
  ov_gatewayUrl :: "string option"
  ov_demoUser :: "string option"
  ov_simulated :: "(number \<times> number \<times> number \<times> string option option) option"

definition no_overrides :: Overrides where
  "no_overrides = \<lparr>ov_source = None, ov_gatewayUrl = None, ov_demoUser = None, ov_simulated = None\<rparr>"

definition or_else :: "'a option \<Rightarrow> 'a \<Rightarrow> 'a" where
  "or_else a b = (case a of Some x \<Rightarrow> x | None \<Rightarrow> b)"

definition base_config :: "env \<Rightarrow> ClientConfig" where
  "base_config env =
     \<lparr>cc_source = readSource env,
      cc_gatewayUrl = or_else (readEnvString env ''VITE_TCKR_GATEWAY_URL'') (cc_gatewayUrl DEFAULTS),
      cc_demoUser = or_else (readEnvString env ''VITE_TCKR_USER'') (cc_demoUser DEFAULTS),
      cc_simulated =
        \<lparr>sc_eventsPerSecond = or_else (readEnvCount env ''VITE_TCKR_SIM_RATE'') (sc_eventsPerSecond (cc_simulated DEFAULTS)),
         sc_delayedOffsetMs = or_else (readEnvCount env ''VITE_TCKR_SIM_DELAY_MS'') (sc_delayedOffsetMs (cc_simulated DEFAULTS)),
         sc_seed = or_else (readEnvCount env ''VITE_TCKR_SIM_SEED'') (sc_seed (cc_simulated DEFAULTS)),
         sc_clock = readEnvString env ''VITE_TCKR_SIM_CLOCK''\<rparr>\<rparr>"

definition apply_overrides :: "ClientConfig \<Rightarrow> Overrides \<Rightarrow> ClientConfig" where
  "apply_overrides base ov =
     \<lparr>cc_source = or_else (ov_source ov) (cc_source base),
      cc_gatewayUrl = or_else (ov_gatewayUrl ov) (cc_gatewayUrl base),
      cc_demoUser = or_else (ov_demoUser ov) (cc_demoUser base),
      cc_simulated = (case ov_simulated ov of
        None \<Rightarrow> cc_simulated base
      | Some (rate, delay, seed, clock) \<Rightarrow>
          \<lparr>sc_eventsPerSecond = rate, sc_delayedOffsetMs = delay, sc_seed = seed,
           sc_clock = or_else clock (sc_clock (cc_simulated base))\<rparr>)\<rparr>"

definition resolveClientConfig :: "(int \<Rightarrow> int) \<Rightarrow> env \<Rightarrow> bool \<Rightarrow> Overrides \<Rightarrow> int \<Rightarrow> ClientConfig exn" where
  "resolveClientConfig off env production overrides now =
     (let resolved = apply_overrides (base_config env) overrides
      in if production \<and> cc_source resolved = SimulatedKind \<and> \<not> readEnvFlag env ''VITE_TCKR_ALLOW_SIMULATED_IN_PROD'' then
           Inl (PlainError (''Refusing to run with the simulated data source in a production build. Set '' @
             ''VITE_TCKR_SOURCE=gateway, or set VITE_TCKR_ALLOW_SIMULATED_IN_PROD=true if this '' @
             ''is intentional (e.g. a staging/demo environment).''))
         else case sc_clock (cc_simulated resolved) of
           None \<Rightarrow> Inr resolved
         | Some clock \<Rightarrow>
             if cc_source resolved \<noteq> SimulatedKind then
               Inl (PlainError ''VITE_TCKR_SIM_CLOCK (npm run dev:open / dev:bell / --market) only works with the simulated source.'')
             else if production then
               Inl (PlainError ''VITE_TCKR_SIM_CLOCK (npm run dev:open / dev:bell / --market) is for development only; unset it for a production build.'')
             else bindE (resolveSimulatedClockTarget off clock now) (\<lambda>_. Inr resolved))"

text \<open>What \<open>createMarketDataSource\<close> constructs.\<close>

datatype created_source = NewGateway ClientConfig | NewSimulated number number number string

definition createMarketDataSource :: "(int \<Rightarrow> int) \<Rightarrow> env \<Rightarrow> bool \<Rightarrow> Overrides \<Rightarrow> int \<Rightarrow> created_source exn" where
  "createMarketDataSource off env production overrides now =
     bindE (resolveClientConfig off env production overrides now) (\<lambda>cfg.
       if cc_source cfg = GatewayKind then Inr (NewGateway cfg)
       else Inr (NewSimulated (sc_eventsPerSecond (cc_simulated cfg)) (sc_delayedOffsetMs (cc_simulated cfg))
              (sc_seed (cc_simulated cfg)) (cc_demoUser cfg)))"

text \<open>Simulated prices never reach a production build by accident, and the development clock
  never runs anywhere else: a source is created in production only if it is the gateway or the
  opt-in flag is exactly true or 1, and with a development clock set only if it is the simulator,
  outside production, and the clock text is one the clock accepts.\<close>

theorem prod_guard:
  assumes "createMarketDataSource off env production overrides now = Inr src"
  shows "(production \<longrightarrow> (\<exists>cfg. src = NewGateway cfg) \<or>
      env ''VITE_TCKR_ALLOW_SIMULATED_IN_PROD'' \<in> {Some ''true'', Some ''1''}) \<and>
    (\<forall>clock. sc_clock (cc_simulated (apply_overrides (base_config env) overrides)) = Some clock \<longrightarrow>
      \<not> production \<and> (\<nexists>cfg. src = NewGateway cfg) \<and> (\<exists>target. resolveSimulatedClockTarget off clock now = Inr target))"
proof -
  obtain cfg where cfg: "resolveClientConfig off env production overrides now = Inr cfg"
    "src = (if cc_source cfg = GatewayKind then NewGateway cfg
       else NewSimulated (sc_eventsPerSecond (cc_simulated cfg)) (sc_delayedOffsetMs (cc_simulated cfg))
              (sc_seed (cc_simulated cfg)) (cc_demoUser cfg))"
    using assms by (auto simp: createMarketDataSource_def exn_simps split: if_splits)
  define r where "r = apply_overrides (base_config env) overrides"
  have k: "cc_source r = SimulatedKind \<or> cc_source r = GatewayKind" by (cases "cc_source r") simp_all
  have e: "cfg = r" "\<not> (production \<and> cc_source r = SimulatedKind \<and> \<not> readEnvFlag env ''VITE_TCKR_ALLOW_SIMULATED_IN_PROD'')"
    "\<And>clock. sc_clock (cc_simulated r) = Some clock \<Longrightarrow>
       cc_source r = SimulatedKind \<and> \<not> production \<and> (\<exists>t. resolveSimulatedClockTarget off clock now = Inr t)"
    using cfg(1) by (auto simp: resolveClientConfig_def r_def [symmetric] Let_def exn_simps split: if_splits option.splits)
  have flag: "readEnvFlag env ''VITE_TCKR_ALLOW_SIMULATED_IN_PROD'' \<Longrightarrow>
      env ''VITE_TCKR_ALLOW_SIMULATED_IN_PROD'' \<in> {Some ''true'', Some ''1''}"
    by (auto simp: readEnvFlag_def readEnvString_def split: option.splits if_splits)
  show ?thesis using e k flag cfg(2) unfolding r_def [symmetric] by auto
qed

definition staging_env :: env where
  "staging_env = (\<lambda>_. None)(''VITE_TCKR_ALLOW_SIMULATED_IN_PROD'' := Some ''1'')"

theorem prod_guard_witness:
  "createMarketDataSource egypt_2026 staging_env True no_overrides 0 =
     Inr (NewSimulated (of_count 2000) (of_count 15000) (of_count 20260912) ''user-001'') \<and>
   staging_env ''VITE_TCKR_ALLOW_SIMULATED_IN_PROD'' = Some ''1'' \<and>
   (\<exists>e. createMarketDataSource egypt_2026 (\<lambda>_. None) True no_overrides 0 = Inl e)"
proof -
  have c: "createMarketDataSource egypt_2026 staging_env True no_overrides 0 =
     Inr (NewSimulated (of_count 2000) (of_count 15000) (of_count 20260912) ''user-001'')" by code_simp
  have "staging_env ''VITE_TCKR_ALLOW_SIMULATED_IN_PROD'' \<in> {Some ''true'', Some ''1''}"
    using prod_guard [OF c] by simp
  moreover have "\<exists>e. createMarketDataSource egypt_2026 (\<lambda>_. None) True no_overrides 0 = Inl e"
    by (simp add: createMarketDataSource_def resolveClientConfig_def base_config_def apply_overrides_def
        readSource_def readEnvString_def no_overrides_def or_else_def readEnvFlag_def)
  ultimately show ?thesis using c by (simp add: staging_env_def)
qed

text \<open>Settings fall back one by one: an unset or empty variable leaves its default, and a
  numeric one that is not a finite number is ignored rather than passed on, so the resolved rate,
  delay and seed without overrides are always finite.\<close>

theorem config_defaults:
  assumes "resolveClientConfig off env production no_overrides now = Inr cfg"
  shows "num_is_finite (sc_eventsPerSecond (cc_simulated cfg)) \<and> num_is_finite (sc_delayedOffsetMs (cc_simulated cfg)) \<and>
    num_is_finite (sc_seed (cc_simulated cfg)) \<and> cc_gatewayUrl cfg \<noteq> [] \<and> cc_demoUser cfg \<noteq> [] \<and>
    (env = (\<lambda>_. None) \<longrightarrow> cfg = DEFAULTS)"
proof -
  have b: "cfg = base_config env"
    using assms by (auto simp: resolveClientConfig_def apply_overrides_def no_overrides_def or_else_def Let_def exn_simps
        split: if_splits option.splits)
  have "num_is_finite (or_else (readEnvCount env k) (of_count d))" for k d
    by (auto simp: or_else_def readEnvCount_def Let_def num_is_finite_def of_count_def split: option.splits)
  moreover have "or_else (readEnvString env k) (c # s) \<noteq> []" for k c s
    by (auto simp: or_else_def readEnvString_def split: option.splits)
  ultimately show ?thesis
    unfolding b by (auto simp: base_config_def DEFAULTS_def readSource_def readEnvCount_def readEnvString_def or_else_def)
qed

definition odd_env :: env where
  "odd_env = (\<lambda>_. None)(''VITE_TCKR_SIM_RATE'' := Some ''fast'', ''VITE_TCKR_SIM_SEED'' := Some ''0x10'')"

theorem config_defaults_witness:
  "\<exists>cfg. resolveClientConfig egypt_2026 odd_env False no_overrides 0 = Inr cfg \<and>
     num_is_finite (sc_eventsPerSecond (cc_simulated cfg)) \<and> sc_eventsPerSecond (cc_simulated cfg) = of_count 2000 \<and>
     sc_seed (cc_simulated cfg) = of_count 16"
proof -
  have "map_sum id (\<lambda>c. (sc_eventsPerSecond (cc_simulated c), sc_seed (cc_simulated c)))
      (resolveClientConfig egypt_2026 odd_env False no_overrides 0) = Inr (of_count 2000, of_count 16)" by code_simp
  then obtain cfg where c: "resolveClientConfig egypt_2026 odd_env False no_overrides 0 = Inr cfg"
    "sc_eventsPerSecond (cc_simulated cfg) = of_count 2000" "sc_seed (cc_simulated cfg) = of_count 16"
    by (cases "resolveClientConfig egypt_2026 odd_env False no_overrides 0") auto
  then show ?thesis using config_defaults [OF c(1)] by blast
qed

end
