(* ===== verification/Js_Timers.thy ===== *)
theory Js_Timers
  imports Js_Number
begin

text \<open>
  The event loop's timers: \<open>setTimeout\<close>, \<open>setInterval\<close> and their cancellation. A timer holds the
  callback it runs as a value of the client's own type of callbacks, and the client's model says
  what running it does. A delay is converted to a 32-bit integer as the Web platform does: its
  fraction is dropped, it wraps at 2^31, and a negative result counts as 0. A timer may fire at any time from its due time on, so a late event loop
  is among the behaviours; a one-shot timer is gone once it fires, an interval is due again.
\<close>

record 'c timer =
  ti_due :: rat
  ti_every :: "rat option"
  ti_callback :: 'c

record 'c timers =
  tm_now :: rat
  tm_next :: nat
  tm_armed :: "(nat, 'c timer) jmap"

definition to_int32 :: "int \<Rightarrow> int" where
  "to_int32 n = (n + 2147483648) mod 4294967296 - 2147483648"

definition timer_delay :: "rat \<Rightarrow> rat" where
  "timer_delay ms = of_int (max 0 (to_int32 (if ms < 0 then - \<lfloor>- ms\<rfloor> else \<lfloor>ms\<rfloor>)))"

definition set_timer :: "'c timers \<Rightarrow> 'c \<Rightarrow> rat \<Rightarrow> rat option \<Rightarrow> nat \<times> 'c timers" where
  "set_timer tm cb ms every =
     (tm_next tm,
      tm\<lparr>tm_next := tm_next tm + 1,
         tm_armed := jset (tm_next tm) \<lparr>ti_due = tm_now tm + timer_delay ms, ti_every = every, ti_callback = cb\<rparr> (tm_armed tm)\<rparr>)"

definition setTimeout :: "'c timers \<Rightarrow> 'c \<Rightarrow> rat \<Rightarrow> nat \<times> 'c timers" where
  "setTimeout tm cb ms = set_timer tm cb ms None"

definition setInterval :: "'c timers \<Rightarrow> 'c \<Rightarrow> rat \<Rightarrow> nat \<times> 'c timers" where
  "setInterval tm cb ms = set_timer tm cb ms (Some ms)"

definition clearTimeout :: "'c timers \<Rightarrow> nat \<Rightarrow> 'c timers" where
  "clearTimeout tm h = tm\<lparr>tm_armed := jdelete h (tm_armed tm)\<rparr>"

definition clear_handle :: "'c timers \<Rightarrow> nat option \<Rightarrow> 'c timers" where
  "clear_handle tm h = (case h of None \<Rightarrow> tm | Some n \<Rightarrow> clearTimeout tm n)"

text \<open>What the event loop does with timer \<open>h\<close> when it is due: the callback to run, and the timers
  as the callback finds them.\<close>

definition due_timer :: "'c timers \<Rightarrow> nat \<Rightarrow> ('c \<times> 'c timers) option" where
  "due_timer tm h =
     (case jget (tm_armed tm) h of
        None \<Rightarrow> None
      | Some t \<Rightarrow>
          if tm_now tm < ti_due t then None
          else Some (ti_callback t,
            case ti_every t of
              None \<Rightarrow> clearTimeout tm h
            | Some p \<Rightarrow> tm\<lparr>tm_armed := jset h (t\<lparr>ti_due := tm_now tm + timer_delay p\<rparr>) (tm_armed tm)\<rparr>))"

definition advance :: "'c timers \<Rightarrow> rat \<Rightarrow> 'c timers" where
  "advance tm d = tm\<lparr>tm_now := tm_now tm + max 0 d\<rparr>"

definition start_timers :: "rat \<Rightarrow> 'c timers" where
  "start_timers t = \<lparr>tm_now = t, tm_next = 0, tm_armed = []\<rparr>"

text \<open>Handles are fresh: no armed timer has a handle that has not been given out.\<close>

definition timers_ok :: "'c timers \<Rightarrow> bool" where
  "timers_ok tm = (\<forall>h t. jget (tm_armed tm) h = Some t \<longrightarrow> h < tm_next tm)"

lemma timer_delay_nonneg [simp]: "0 \<le> timer_delay ms"
  by (simp add: timer_delay_def)

lemma timer_delay_small: "0 \<le> ms \<Longrightarrow> ms < 2147483648 \<Longrightarrow> timer_delay ms = of_int \<lfloor>ms\<rfloor>"
proof -
  assume ms: "0 \<le> ms" "ms < 2147483648"
  then have "0 \<le> \<lfloor>ms\<rfloor>" "\<lfloor>ms\<rfloor> < 2147483648" by (simp_all add: floor_less_iff)
  then show ?thesis using ms by (simp add: timer_delay_def to_int32_def)
qed

lemma timer_delay_overflow: "2147483648 \<le> ms \<Longrightarrow> ms < 4294967296 \<Longrightarrow> timer_delay ms = 0"
proof -
  assume ms: "2147483648 \<le> ms" "ms < 4294967296"
  define n where "n = \<lfloor>ms\<rfloor> - 2147483648"
  have n: "0 \<le> n" "n < 2147483648" using ms by (simp_all add: n_def le_floor_iff floor_less_iff)
  have e: "\<lfloor>ms\<rfloor> + 2147483648 = n + 4294967296" by (simp add: n_def)
  have "(n + 4294967296) mod 4294967296 = n" using n by simp
  then have "to_int32 \<lfloor>ms\<rfloor> = n - 2147483648" unfolding to_int32_def e by simp
  then show ?thesis using ms n by (simp add: timer_delay_def)
qed

lemma timers_ok_start [simp]: "timers_ok (start_timers t)"
  by (simp add: timers_ok_def start_timers_def)

lemma timers_ok_set [simp]: "timers_ok tm \<Longrightarrow> timers_ok (snd (set_timer tm cb ms ev))"
  by (auto simp: timers_ok_def set_timer_def less_Suc_eq)

lemma timers_ok_clear [simp]:
  "timers_ok tm \<Longrightarrow> timers_ok (clearTimeout tm h)" "timers_ok tm \<Longrightarrow> timers_ok (clear_handle tm h')"
  by (auto simp: timers_ok_def clearTimeout_def clear_handle_def split: option.splits)

lemma timers_ok_advance [simp]: "timers_ok tm \<Longrightarrow> timers_ok (advance tm d)"
  by (simp add: timers_ok_def advance_def)

lemma timers_ok_fresh: "timers_ok tm \<Longrightarrow> jget (tm_armed tm) (tm_next tm) = None"
  by (auto simp: timers_ok_def intro: ccontr)

lemma armed_setTimeout [simp]:
  "jget (tm_armed (snd (setTimeout tm cb ms))) h =
    (if h = tm_next tm then Some \<lparr>ti_due = tm_now tm + timer_delay ms, ti_every = None, ti_callback = cb\<rparr>
     else jget (tm_armed tm) h)"
  by (simp add: setTimeout_def set_timer_def)

lemma armed_clearTimeout [simp]:
  "jget (tm_armed (clearTimeout tm n)) h = (if h = n then None else jget (tm_armed tm) h)"
  by (simp add: clearTimeout_def)

lemma armed_clear_handle:
  "jget (tm_armed (clear_handle tm n)) h = (if n = Some h then None else jget (tm_armed tm) h)"
  by (auto simp: clear_handle_def split: option.splits)

lemma timers_frame [simp]:
  "tm_now (clearTimeout tm h) = tm_now tm" "tm_now (clear_handle tm h') = tm_now tm"
  "tm_next (clearTimeout tm h) = tm_next tm" "tm_next (clear_handle tm h') = tm_next tm"
  "tm_now (snd (setTimeout tm cb ms)) = tm_now tm" "fst (setTimeout tm cb ms) = tm_next tm"
  "tm_next (snd (setTimeout tm cb ms)) = tm_next tm + 1"
  "tm_armed (advance tm d) = tm_armed tm" "tm_next (advance tm d) = tm_next tm"
  by (simp_all add: clearTimeout_def clear_handle_def setTimeout_def set_timer_def advance_def split: option.split)

section \<open>Timers a client keeps the handles of\<close>

text \<open>A client that keeps the handle of its timer for each purpose: \<open>tr\<close> is the handle it holds for a
  callback, \<open>own\<close> the callbacks it holds handles for, \<open>per\<close> those run by an interval. \<open>tracks\<close> says that
  the armed timers are exactly the held ones.\<close>

definition armed_for :: "('c \<Rightarrow> bool) \<Rightarrow> 'c timers \<Rightarrow> 'c \<Rightarrow> nat \<Rightarrow> bool" where
  "armed_for per tm cb h = (case jget (tm_armed tm) h of None \<Rightarrow> False
     | Some t \<Rightarrow> ti_callback t = cb \<and> (ti_every t \<noteq> None \<longleftrightarrow> per cb))"

definition tracks :: "('c \<Rightarrow> bool) \<Rightarrow> ('c \<Rightarrow> bool) \<Rightarrow> 'c timers \<Rightarrow> ('c \<Rightarrow> nat option) \<Rightarrow> bool" where
  "tracks per own tm tr = (timers_ok tm \<and> (\<forall>cb h. own cb \<longrightarrow> armed_for per tm cb h = (tr cb = Some h)) \<and>
     (\<forall>h t. jget (tm_armed tm) h = Some t \<longrightarrow> armed_for per tm (ti_callback t) h))"

lemma tracks_armed: "tracks per own tm tr \<Longrightarrow> own cb \<Longrightarrow> armed_for per tm cb h = (tr cb = Some h)"
  by (simp add: tracks_def)

lemma tracks_any:
  "tracks per own tm tr \<Longrightarrow> jget (tm_armed tm) h = Some t \<Longrightarrow> armed_for per tm (ti_callback t) h"
  by (simp add: tracks_def)

lemma tracksI:
  assumes "timers_ok tm" and "\<And>cb h. own cb \<Longrightarrow> armed_for per tm cb h = (tr cb = Some h)"
    and "\<And>h t. jget (tm_armed tm) h = Some t \<Longrightarrow> armed_for per tm (ti_callback t) h"
  shows "tracks per own tm tr"
  using assms by (simp add: tracks_def)

lemma tracks_start: "(\<And>cb. tr cb = None) \<Longrightarrow> tracks per own (start_timers t) tr"
  by (simp add: tracks_def armed_for_def start_timers_def timers_ok_def)

lemma armed_for_set:
  assumes "(ev \<noteq> None) = per cb"
  shows "armed_for per (snd (set_timer tm cb ms ev)) c h = (if h = tm_next tm then c = cb else armed_for per tm c h)"
  using assms by (auto simp: armed_for_def set_timer_def)

lemma armed_for_clear: "armed_for per (clearTimeout tm h) c k = (k \<noteq> h \<and> armed_for per tm c k)"
  by (simp add: armed_for_def)

lemma tracks_armed_set:
  assumes "tracks per own tm tr" and "(ev \<noteq> None) = per cb"
    and "jget (tm_armed (snd (set_timer tm cb ms ev))) h = Some t"
  shows "armed_for per (snd (set_timer tm cb ms ev)) (ti_callback t) h"
proof (cases "h = tm_next tm")
  case True
  then have "ti_callback t = cb" using assms(3) by (auto simp: set_timer_def)
  then show ?thesis using True armed_for_set [where per = per and cb = cb, OF assms(2), of tm ms cb h] by simp
next
  case False
  then have "jget (tm_armed tm) h = Some t" using assms(3) by (simp add: set_timer_def)
  then show ?thesis
    using tracks_any [OF assms(1)] False armed_for_set [where per = per and cb = cb, OF assms(2), of tm ms "ti_callback t" h] by simp
qed

lemma fst_set_timer: "fst (set_timer tm cb ms ev) = tm_next tm"
  by (simp add: set_timer_def)

lemma tracks_arm:
  assumes "tracks per own tm tr" and "tr cb = None" and "(ev \<noteq> None) = per cb"
  shows "tracks per own (snd (set_timer tm cb ms ev)) (tr(cb := Some (fst (set_timer tm cb ms ev))))"
proof (rule tracksI)
  have f: "jget (tm_armed tm) (tm_next tm) = None" using assms(1) timers_ok_fresh by (auto simp: tracks_def)
  show "timers_ok (snd (set_timer tm cb ms ev))" using assms(1) by (simp add: tracks_def)
  show "armed_for per (snd (set_timer tm cb ms ev)) c h = ((tr(cb := Some (fst (set_timer tm cb ms ev)))) c = Some h)"
    if "own c" for c h
  proof -
    have "tr c \<noteq> Some (tm_next tm)"
      using tracks_armed [OF assms(1) that, of "tm_next tm"] f by (simp add: armed_for_def)
    then show ?thesis
      using assms(2) tracks_armed [OF assms(1) that, of h]
        armed_for_set [where per = per and cb = cb, OF assms(3), of tm ms c h] by (auto simp: fst_set_timer)
  qed
qed (rule tracks_armed_set [OF assms(1,3)])

text \<open>A timer whose handle is not kept.\<close>

lemma tracks_arm_free:
  assumes "tracks per own tm tr" and "\<not> own cb" and "(ev \<noteq> None) = per cb"
  shows "tracks per own (snd (set_timer tm cb ms ev)) tr"
proof (rule tracksI)
  have f: "jget (tm_armed tm) (tm_next tm) = None" using assms(1) timers_ok_fresh by (auto simp: tracks_def)
  show "timers_ok (snd (set_timer tm cb ms ev))" using assms(1) by (simp add: tracks_def)
  show "armed_for per (snd (set_timer tm cb ms ev)) c h = (tr c = Some h)" if "own c" for c h
  proof -
    have "c \<noteq> cb" using that assms(2) by auto
    moreover have "tr c \<noteq> Some (tm_next tm)"
      using tracks_armed [OF assms(1) that, of "tm_next tm"] f by (simp add: armed_for_def)
    ultimately show ?thesis
      using tracks_armed [OF assms(1) that, of h] armed_for_set [where per = per and cb = cb, OF assms(3), of tm ms c h] by auto
  qed
qed (rule tracks_armed_set [OF assms(1,3)])

lemma tracks_clear:
  assumes "tracks per own tm tr" and "tr cb = Some h" and "own cb"
  shows "tracks per own (clearTimeout tm h) (tr(cb := None))"
proof (rule tracksI)
  have one: "c = cb" if "armed_for per tm c h" for c
    using tracks_armed [OF assms(1,3), of h] that assms(2) by (simp add: armed_for_def split: option.splits)
  show "timers_ok (clearTimeout tm h)" using assms(1) by (simp add: tracks_def)
  show "armed_for per (clearTimeout tm h) c k = ((tr(cb := None)) c = Some k)" if "own c" for c k
  proof (cases "c = cb")
    case True
    then show ?thesis using tracks_armed [OF assms(1,3), of k] assms(2) by (auto simp: armed_for_clear)
  next
    case False
    then have "k = h \<Longrightarrow> \<not> armed_for per tm c k" using one [of c] by auto
    then show ?thesis using tracks_armed [OF assms(1) that, of k] False by (auto simp: armed_for_clear)
  qed
  show "armed_for per (clearTimeout tm h) (ti_callback t) k" if "jget (tm_armed (clearTimeout tm h)) k = Some t" for k t
    using that tracks_any [OF assms(1), of k t] by (simp add: armed_for_clear split: if_splits)
qed

lemma tracks_advance: "tracks per own tm tr \<Longrightarrow> tracks per own (advance tm d) tr"
  by (simp add: tracks_def armed_for_def)

lemma tracks_unarmed:
  "tracks per own tm tr \<Longrightarrow> tr cb = None \<Longrightarrow> own cb \<Longrightarrow> \<not> armed_for per tm cb h"
  using tracks_armed by fastforce

lemma tracks_nothing:
  assumes "tracks per (\<lambda>_. True) tm tr" and "\<And>cb. tr cb = None"
  shows "jget (tm_armed tm) h = None"
proof (cases "jget (tm_armed tm) h")
  case (Some t)
  then show ?thesis using tracks_any [OF assms(1)] tracks_unarmed [OF assms(1) assms(2), of "ti_callback t" h] by simp
qed

lemma tracks_callback:
  "tracks per (\<lambda>_. True) tm tr \<Longrightarrow> (\<exists>t. jget (tm_armed tm) h = Some t \<and> ti_callback t = cb) = (tr cb = Some h)"
  using tracks_armed [of per "\<lambda>_. True" tm tr cb h] tracks_any [of per "\<lambda>_. True" tm tr h]
  by (auto simp: armed_for_def split: option.splits)

text \<open>What a due timer leaves: gone if it was a timeout, armed again if it was an interval.\<close>

lemma tracks_due:
  assumes "tracks per own tm tr" and "due_timer tm h = Some (cb, tm')"
  shows "(own cb \<longrightarrow> tr cb = Some h) \<and>
    (if per cb \<or> \<not> own cb then tracks per own tm' tr else tracks per own tm' (tr(cb := None)))"
proof -
  obtain t where t: "jget (tm_armed tm) h = Some t" "cb = ti_callback t"
    using assms(2) by (auto simp: due_timer_def split: option.splits if_splits)
  then have a: "armed_for per tm cb h" using tracks_any [OF assms(1)] by simp
  then have tr: "own cb \<Longrightarrow> tr cb = Some h" using tracks_armed [OF assms(1)] by simp
  show ?thesis
  proof (cases "ti_every t")
    case None
    then have c: "\<not> per cb" "tm' = clearTimeout tm h"
      using a t assms(2) by (auto simp: armed_for_def due_timer_def split: if_splits)
    show ?thesis
    proof (cases "own cb")
      case True
      then show ?thesis using tracks_clear [OF assms(1) tr] tr c by simp
    next
      case False
      have "tracks per own (clearTimeout tm h) tr"
      proof (rule tracksI)
        show "timers_ok (clearTimeout tm h)" using assms(1) by (simp add: tracks_def)
        have one: "c = cb" if "armed_for per tm c h" for c
          using that a by (simp add: armed_for_def split: option.splits)
        show "armed_for per (clearTimeout tm h) c k = (tr c = Some k)" if "own c" for c k
        proof (cases "k = h")
          case True
          then have "\<not> armed_for per tm c k" using one [of c] that False by auto
          then show ?thesis using tracks_armed [OF assms(1) that, of k] by (simp add: armed_for_clear)
        next
          case False
          then show ?thesis using tracks_armed [OF assms(1) that, of k] by (simp add: armed_for_clear)
        qed
        show "armed_for per (clearTimeout tm h) (ti_callback t) k"
          if "jget (tm_armed (clearTimeout tm h)) k = Some t" for k t
          using that tracks_any [OF assms(1), of k t] by (simp add: armed_for_clear split: if_splits)
      qed
      then show ?thesis using False c by simp
    qed
  next
    case (Some p)
    then have c: "per cb" and tm': "tm' = tm\<lparr>tm_armed := jset h (t\<lparr>ti_due := tm_now tm + timer_delay p\<rparr>) (tm_armed tm)\<rparr>"
      using a t assms(2) by (auto simp: armed_for_def due_timer_def split: if_splits)
    have "armed_for per tm' c k = armed_for per tm c k" for c k using t by (simp add: armed_for_def tm')
    then have "tracks per own tm' tr"
      using assms(1) t tracks_any [OF assms(1), of h t] by (intro tracksI) (auto simp: tracks_def timers_ok_def tm' split: if_splits)
    then show ?thesis using c tr by simp
  qed
qed

end
