(* ===== verification/Decimal.thy ===== *)
theory Decimal
  imports Js_Text
begin

text \<open>
  contracts/decimal.ts: prices are decimal strings, and every price operation works on the
  integer scaled by 10^4 read from the digits. A \<open>DecimalString\<close> is a string that passed
  \<open>isDecimal\<close>; the operations are total HOL functions whose meaning the lemmas give for such
  strings (on others \<open>BigInt\<close> would throw, which the branded type rules out).

  The lemmas: every valid text has a sign, an integer part and up to four fraction digits; its
  scaled integer follows from them; rendering a scaled integer and reading it back truncates
  towards zero at the requested digits, so it is the identity at a precision the value has.
\<close>

type_synonym decimal = string

definition SCALE_DIGITS :: nat where
  "SCALE_DIGITS = 4"

definition strip_sign :: "string \<Rightarrow> string" where
  "strip_sign s = (if take 1 s = ''-'' \<or> take 1 s = ''+'' then drop 1 s else s)"

definition isDecimal :: "string \<Rightarrow> bool" where
  "isDecimal raw =
     (let unsigned = strip_sign raw;
          intPart = takeWhile is_digit unsigned;
          rest = dropWhile is_digit unsigned
      in intPart \<noteq> [] \<and>
         (rest = [] \<or>
          (take 1 rest = ''.'' \<and> 1 \<le> length (drop 1 rest) \<and> length (drop 1 rest) \<le> SCALE_DIGITS \<and>
           list_all is_digit (drop 1 rest))))"

definition toDecimal :: "string \<Rightarrow> decimal exn" where
  "toDecimal raw =
     (if \<not> isDecimal raw then Inl (RangeError (''Not a valid decimal price string: '' @ json_quote raw))
      else Inr raw)"

definition decimalPlaces :: "string \<Rightarrow> nat" where
  "decimalPlaces value =
     (case index_of (CHR ''.'') value of None \<Rightarrow> 0 | Some dotIndex \<Rightarrow> length value - dotIndex - 1)"

definition toScaledInt :: "decimal \<Rightarrow> int" where
  "toScaledInt value =
     (let negative = (take 1 value = ''-'');
          hasSign = (negative \<or> take 1 value = ''+'');
          unsigned = (if hasSign then drop 1 value else value);
          dotIndex = index_of (CHR ''.'') unsigned;
          intPart = (case dotIndex of None \<Rightarrow> unsigned | Some i \<Rightarrow> take i unsigned);
          fracRaw = (case dotIndex of None \<Rightarrow> '''' | Some i \<Rightarrow> drop (i + 1) unsigned);
          fracPart = padEnd SCALE_DIGITS (CHR ''0'') fracRaw;
          magnitude = int (str_nat (intPart @ fracPart))
      in if negative then - magnitude else magnitude)"

definition fromScaledInt :: "int \<Rightarrow> nat \<Rightarrow> decimal" where
  "fromScaledInt scaled decimals =
     (let negative = (scaled < 0);
          magnitude = (if negative then - scaled else scaled);
          digits = padStart (SCALE_DIGITS + 1) (CHR ''0'') (nat_str (nat magnitude));
          intPart = take (length digits - SCALE_DIGITS) digits;
          fullFrac = drop (length digits - SCALE_DIGITS) digits;
          frac = (if decimals > 0 then padEnd decimals (CHR ''0'') (take decimals fullFrac) else '''');
          body = (if decimals > 0 then intPart @ ''.'' @ frac else intPart)
      in if negative then ''-'' @ body else body)"

definition compare :: "decimal \<Rightarrow> decimal \<Rightarrow> int" where
  "compare a b =
     (let diff = toScaledInt a - toScaledInt b in if diff < 0 then - 1 else if diff > 0 then 1 else 0)"

definition subtract :: "decimal \<Rightarrow> decimal \<Rightarrow> decimal" where
  "subtract a b =
     (let result = toScaledInt a - toScaledInt b;
          decimals = max (decimalPlaces a) (decimalPlaces b)
      in fromScaledInt result decimals)"

text \<open>\<open>String(quantity)\<close> in the error text is left abstract: the message carries the value.\<close>

definition multiplyByQuantity :: "decimal \<Rightarrow> number \<Rightarrow> decimal exn" where
  "multiplyByQuantity value quantity =
     (if \<not> is_safe_integer quantity then Inl (RangeError ''Quantity must be a safe integer'')
      else case quantity of
        Fin q \<Rightarrow> Inr (fromScaledInt (toScaledInt value * \<lfloor>q\<rfloor>) (decimalPlaces value))
      | _ \<Rightarrow> Inl (RangeError ''Quantity must be a safe integer''))"

definition COMPACT_UNITS :: "(int \<times> string) list" where
  "COMPACT_UNITS = [(1000000000, ''B''), (1000000, ''M''), (1000, ''K'')]"

definition strip_trailing_zeros :: "string \<Rightarrow> string" where
  "strip_trailing_zeros s = rev (dropWhile (\<lambda>c. c = CHR ''0'') (rev s))"

fun compact_body :: "(int \<times> string) list \<Rightarrow> int \<Rightarrow> bool \<Rightarrow> string option" where
  "compact_body [] magnitude fixedFraction = None"
| "compact_body ((unit, suffix) # us) magnitude fixedFraction =
     (let divisor = unit * 10 ^ SCALE_DIGITS;
          hundredths = (magnitude * 100 + divisor div 2) div divisor
      in if hundredths \<ge> 100 then
           (let whole = hundredths div 100;
                padded = padStart 2 (CHR ''0'') (nat_str (nat (hundredths mod 100)));
                frac = (if fixedFraction then padded else strip_trailing_zeros padded)
            in Some (nat_str (nat whole) @ (if frac = '''' then '''' else ''.'' @ frac) @ suffix))
         else compact_body us magnitude fixedFraction)"

definition formatCompact :: "decimal \<Rightarrow> bool \<Rightarrow> string" where
  "formatCompact value fixedFraction =
     (let scaled = toScaledInt value;
          negative = (scaled < 0);
          magnitude = (if negative then - scaled else scaled);
          one = 10 ^ SCALE_DIGITS;
          body = (case compact_body COMPACT_UNITS magnitude fixedFraction of
                    None \<Rightarrow> nat_str (nat ((magnitude + one div 2) div one))
                  | Some b \<Rightarrow> b)
      in if negative \<and> body \<noteq> ''0'' then ''-'' @ body else body)"

text \<open>\<open>BigInt\<close> division truncates towards zero.\<close>

definition bigint_div :: "int \<Rightarrow> int \<Rightarrow> int" where
  "bigint_div a b = sgn a * sgn b * (\<bar>a\<bar> div \<bar>b\<bar>)"

text \<open>\<open>percentChange\<close> builds the numeral \<open>[-]intPart.fracPart\<close> (four fraction digits) and
  \<open>JSON.parse\<close> reads it as the nearest double.\<close>

definition percentChange :: "decimal \<Rightarrow> decimal \<Rightarrow> number" where
  "percentChange frm to =
     (let fromScaled = toScaledInt frm in
      if fromScaled = 0 then Fin 0
      else
        (let diff = toScaledInt to - fromScaled;
             scaledPercent = bigint_div (diff * 100 * 10000) fromScaled;
             negative = (scaledPercent < 0);
             magnitude = (if negative then - scaledPercent else scaledPercent);
             intPart = magnitude div 10000;
             fracPart = magnitude mod 10000;
             numeral = of_int intPart + of_int fracPart / 10 ^ 4
         in to_number (if negative then - numeral else numeral)))"

definition percentChangeText :: "decimal \<Rightarrow> decimal \<Rightarrow> nat \<Rightarrow> string" where
  "percentChangeText frm to decimals =
     (let fromScaled = toScaledInt frm;
          zero = (if decimals > 0 then ''0.'' @ replicate decimals (CHR ''0'') else ''0'')
      in if fromScaled = 0 then zero
         else
           (let diff = toScaledInt to - fromScaled;
                unit = 10 ^ decimals;
                numerator = diff * 100 * unit;
                negative = ((numerator < 0) \<noteq> (fromScaled < 0));
                absNumerator = (if numerator < 0 then - numerator else numerator);
                absDenominator = (if fromScaled < 0 then - fromScaled else fromScaled);
                units = absNumerator div absDenominator +
                        (if (absNumerator mod absDenominator) * 2 \<ge> absDenominator then 1 else 0)
            in if units = 0 then zero
               else
                 (let digits = padStart (decimals + 1) (CHR ''0'') (nat_str (nat units));
                      intPart = take (length digits - decimals) digits;
                      body = (if decimals > 0 then intPart @ ''.'' @ drop (length digits - decimals) digits
                              else intPart)
                  in (if negative then ''-'' else ''+'') @ body)))"

definition format :: "decimal \<Rightarrow> nat option \<Rightarrow> bool \<Rightarrow> string" where
  "format value opt_decimals sign =
     (let decimals = (case opt_decimals of None \<Rightarrow> decimalPlaces value | Some d \<Rightarrow> d);
          scaled = toScaledInt value;
          negative = (scaled < 0);
          magnitude = (if negative then - scaled else scaled);
          digits = padStart (SCALE_DIGITS + 1) (CHR ''0'') (nat_str (nat magnitude));
          intPart = take (length digits - SCALE_DIGITS) digits;
          fullFrac = drop (length digits - SCALE_DIGITS) digits;
          frac = (if decimals > 0 then padEnd decimals (CHR ''0'') (take decimals fullFrac) else '''');
          body = (if decimals > 0 then intPart @ ''.'' @ frac else intPart);
          isZero = (magnitude = 0);
          signPrefix = (if negative then ''-'' else if sign \<and> \<not> isZero then ''+'' else '''')
      in signPrefix @ body)"

section \<open>The parts of a decimal text\<close>

definition decimal_text :: "string \<Rightarrow> string \<Rightarrow> string \<Rightarrow> string" where
  "decimal_text sg i f = sg @ i @ (if f = '''' then '''' else CHR ''.'' # f)"

definition parts_ok :: "string \<Rightarrow> string \<Rightarrow> string \<Rightarrow> bool" where
  "parts_ok sg i f =
     (sg \<in> {'''', ''-'', ''+''} \<and> i \<noteq> '''' \<and> list_all is_digit i \<and> list_all is_digit f \<and> length f \<le> 4)"

lemma digits_no_dot: "list_all is_digit s \<Longrightarrow> CHR ''.'' \<notin> set s"
  by (auto simp: list_all_iff)

lemma digit_head_no_sign:
  "list_all is_digit i \<Longrightarrow> i \<noteq> '''' \<Longrightarrow> take 1 (i @ r) \<noteq> ''-'' \<and> take 1 (i @ r) \<noteq> ''+''"
  by (cases i) auto

lemma sign_of_text:
  assumes "parts_ok sg i f"
  shows "take 1 (decimal_text sg i f) = ''-'' \<longleftrightarrow> sg = ''-''"
    and "take 1 (decimal_text sg i f) = ''+'' \<longleftrightarrow> sg = ''+''"
    and "strip_sign (decimal_text sg i f) = i @ (if f = '''' then '''' else CHR ''.'' # f)"
  using assms digit_head_no_sign [of i "if f = '''' then '''' else CHR ''.'' # f"]
  unfolding parts_ok_def decimal_text_def strip_sign_def by auto

lemma isDecimal_text: "parts_ok sg i f \<Longrightarrow> isDecimal (decimal_text sg i f)"
proof -
  assume ok: "parts_ok sg i f"
  then have d: "\<forall>c \<in> set i. is_digit c" by (simp add: parts_ok_def list_all_iff)
  show ?thesis
    unfolding isDecimal_def Let_def sign_of_text(3) [OF ok] SCALE_DIGITS_def
    using ok d by (auto simp: parts_ok_def takeWhile_append dropWhile_append Suc_le_eq)
qed

lemma isDecimal_partsE:
  assumes "isDecimal s"
  obtains sg i f where "parts_ok sg i f" "s = decimal_text sg i f"
proof -
  define u where "u = strip_sign s"
  define i where "i = takeWhile is_digit u"
  define r where "r = dropWhile is_digit u"
  define sg where "sg = (if take 1 s = ''-'' \<or> take 1 s = ''+'' then take 1 s else '''')"
  have s: "s = sg @ i @ r"
    unfolding sg_def i_def r_def u_def strip_sign_def by (cases s) auto
  have i: "i \<noteq> ''''" "list_all is_digit i"
    using assms by (auto simp: isDecimal_def Let_def i_def u_def list_all_iff dest: set_takeWhileD)
  have r: "r = '''' \<or> take 1 r = ''.'' \<and> drop 1 r \<noteq> '''' \<and> length (drop 1 r) \<le> 4 \<and> list_all is_digit (drop 1 r)"
    using assms unfolding isDecimal_def Let_def i_def [symmetric] r_def [symmetric]
      u_def [symmetric] SCALE_DIGITS_def by auto
  then have "parts_ok sg i (drop 1 r)" using i by (auto simp: parts_ok_def sg_def)
  moreover have "s = decimal_text sg i (drop 1 r)"
    using r s by (cases r) (auto simp: decimal_text_def)
  ultimately show thesis by (rule that)
qed

lemma decimalPlaces_text: "parts_ok sg i f \<Longrightarrow> decimalPlaces (decimal_text sg i f) = length f"
proof -
  assume ok: "parts_ok sg i f"
  then have nd: "CHR ''.'' \<notin> set (sg @ i)"
    using digits_no_dot [of i] by (auto simp: parts_ok_def)
  show ?thesis
  proof (cases "f = ''''")
    case True
    then show ?thesis using nd by (simp add: decimalPlaces_def decimal_text_def)
  next
    case False
    then have "index_of (CHR ''.'') (decimal_text sg i f) = Some (length (sg @ i))"
      using index_of_append [OF nd, of f] by (simp add: decimal_text_def)
    then show ?thesis using False by (simp add: decimalPlaces_def decimal_text_def)
  qed
qed

lemma toScaledInt_text:
  assumes "parts_ok sg i f"
  shows "toScaledInt (decimal_text sg i f) =
    (if sg = ''-'' then - 1 else 1) * int (str_nat i * 10 ^ 4 + str_nat f * 10 ^ (4 - length f))"
proof -
  let ?u = "i @ (if f = '''' then '''' else CHR ''.'' # f)"
  have nd: "CHR ''.'' \<notin> set i" using assms digits_no_dot [of i] by (auto simp: parts_ok_def)
  have u: "(if take 1 (decimal_text sg i f) = ''-'' \<or> take 1 (decimal_text sg i f) = ''+''
            then drop 1 (decimal_text sg i f) else decimal_text sg i f) = ?u"
    using sign_of_text(3) [OF assms] unfolding strip_sign_def .
  have len: "max (4::nat) (length f) = 4" using assms by (simp add: parts_ok_def)
  have ix: "index_of (CHR ''.'') ?u = (if f = '''' then None else Some (length i))"
    using nd by simp
  show ?thesis
    unfolding toScaledInt_def Let_def u
    unfolding sign_of_text(1) [OF assms] ix SCALE_DIGITS_def
    using len by (auto simp: str_nat_padEnd)
qed

text \<open>The value and the number of places of a valid text: the scaled integer is a multiple of
  ten to the places the text leaves unwritten.\<close>

lemma decimalPlaces_le: "isDecimal s \<Longrightarrow> decimalPlaces s \<le> 4"
  by (erule isDecimal_partsE) (simp add: decimalPlaces_text, simp add: parts_ok_def)

lemma toScaledInt_dvd:
  assumes "isDecimal s" "decimalPlaces s \<le> d" "d \<le> 4"
  shows "10 ^ (4 - d) dvd toScaledInt s"
proof -
  obtain sg i f where ok: "parts_ok sg i f" and s: "s = decimal_text sg i f"
    using assms(1) by (rule isDecimal_partsE)
  have "length f \<le> d" using assms(2) s decimalPlaces_text [OF ok] by simp
  then have "(10::nat) ^ (4 - d) dvd 10 ^ (4 - length f)" "(10::nat) ^ (4 - d) dvd 10 ^ 4"
    by (simp_all add: le_imp_power_dvd del: power_numeral)
  then have "10 ^ (4 - d) dvd str_nat i * 10 ^ 4 + str_nat f * 10 ^ (4 - length f)"
    by (metis dvd_add dvd_mult)
  then have "(10::int) ^ (4 - d) dvd int (str_nat i * 10 ^ 4 + str_nat f * 10 ^ (4 - length f))"
    by (metis int_dvd_int_iff of_nat_numeral of_nat_power)
  then show ?thesis unfolding s toScaledInt_text [OF ok] by (rule dvd_mult)
qed

section \<open>Rendering a scaled integer\<close>

text \<open>The integer and fraction texts both renderers cut out of the padded digits.\<close>

definition digits_of :: "nat \<Rightarrow> string" where
  "digits_of m = padStart (SCALE_DIGITS + 1) (CHR ''0'') (nat_str m)"

definition int_text :: "nat \<Rightarrow> string" where
  "int_text m = take (length (digits_of m) - SCALE_DIGITS) (digits_of m)"

definition frac_text :: "nat \<Rightarrow> nat \<Rightarrow> string" where
  "frac_text m d = take d (drop (length (digits_of m) - SCALE_DIGITS) (digits_of m))"

lemma digits_of_props:
  "\<forall>c \<in> set (digits_of m). is_digit c" "5 \<le> length (digits_of m)" "str_nat (digits_of m) = m"
  unfolding digits_of_def SCALE_DIGITS_def
  using pad_digits(1) nat_str_digits by (blast, simp, simp)

lemma int_frac_values:
  assumes "d \<le> 4"
  shows "str_nat (int_text m) = m div 10 ^ 4"
    and "str_nat (frac_text m d) = m mod 10 ^ 4 div 10 ^ (4 - d)"
    and "length (frac_text m d) = d"
    and "sg \<in> {'''', ''-'', ''+''} \<Longrightarrow> parts_ok sg (int_text m) (frac_text m d)"
proof -
  let ?D = "digits_of m"
  let ?k = "length ?D - 4"
  note P = digits_of_props [of m]
  show i: "str_nat (int_text m) = m div 10 ^ 4"
    unfolding int_text_def SCALE_DIGITS_def
    using str_nat_take(1) [of ?D ?k] P by simp
  have F: "str_nat (drop ?k ?D) = m mod 10 ^ 4" "length (drop ?k ?D) = 4"
    using str_nat_take(2) [of ?D ?k] P by simp_all
  show l: "length (frac_text m d) = d"
    using F(2) assms by (simp add: frac_text_def SCALE_DIGITS_def)
  have dig: "\<forall>c \<in> set (drop ?k ?D). is_digit c" using P(1) by (meson in_set_dropD)
  show "str_nat (frac_text m d) = m mod 10 ^ 4 div 10 ^ (4 - d)"
    unfolding frac_text_def SCALE_DIGITS_def
    using str_nat_take(1) [OF dig, of d] F assms by simp
  have "int_text m \<noteq> ''''" using P(2) by (auto simp: int_text_def SCALE_DIGITS_def)
  moreover have "list_all is_digit (int_text m)" "list_all is_digit (frac_text m d)"
    unfolding int_text_def frac_text_def SCALE_DIGITS_def list_all_iff
    using P(1) dig by (auto dest: in_set_takeD)
  ultimately show "sg \<in> {'''', ''-'', ''+''} \<Longrightarrow> parts_ok sg (int_text m) (frac_text m d)"
    using l assms by (simp add: parts_ok_def)
qed

lemma render_body:
  assumes "d \<le> 4"
  shows "(if d > 0 then int_text m @ ''.'' @ padEnd d (CHR ''0'') (frac_text m d) else int_text m) =
    decimal_text '''' (int_text m) (frac_text m d)"
proof -
  have "padEnd d (CHR ''0'') (frac_text m d) = frac_text m d" "frac_text m d = '''' \<longleftrightarrow> d = 0"
    using int_frac_values(3) [OF assms, of m] by (auto simp: padEnd_def)
  then show ?thesis by (simp add: decimal_text_def)
qed

lemma fromScaledInt_text:
  assumes "d \<le> 4"
  shows "fromScaledInt s d =
    decimal_text (if s < 0 then ''-'' else '''') (int_text (nat \<bar>s\<bar>)) (frac_text (nat \<bar>s\<bar>) d)"
proof -
  have m: "(if s < 0 then - s else s) = \<bar>s\<bar>" by simp
  have "fromScaledInt s d = (if s < 0 then ''-'' else '''') @
      (if d > 0 then int_text (nat \<bar>s\<bar>) @ ''.'' @ padEnd d (CHR ''0'') (frac_text (nat \<bar>s\<bar>) d)
       else int_text (nat \<bar>s\<bar>))"
    unfolding fromScaledInt_def Let_def m int_text_def frac_text_def digits_of_def by simp
  then show ?thesis unfolding render_body [OF assms] by (simp add: decimal_text_def)
qed

lemma truncated_value:
  fixes m :: nat
  assumes "d \<le> 4"
  shows "m div 10 ^ 4 * 10 ^ 4 + (m mod 10 ^ 4 div 10 ^ (4 - d)) * 10 ^ (4 - d) = m - m mod 10 ^ (4 - d)"
proof -
  let ?q = "10 ^ (4 - d) :: nat"
  have dvd: "?q dvd 10 ^ 4" using assms by (simp add: le_imp_power_dvd del: power_numeral)
  have "(m mod 10 ^ 4 div ?q) * ?q = m mod 10 ^ 4 - m mod 10 ^ 4 mod ?q"
    by (simp add: minus_mod_eq_div_mult)
  also have "m mod 10 ^ 4 mod ?q = m mod ?q" using dvd by (rule mod_mod_cancel)
  finally have "(m mod 10 ^ 4 div ?q) * ?q = m mod 10 ^ 4 - m mod ?q" .
  moreover have "m mod ?q \<le> m mod 10 ^ 4"
    by (metis mod_mod_cancel dvd mod_less_eq_dividend)
  moreover have "m div 10 ^ 4 * 10 ^ 4 + m mod 10 ^ 4 = m" by (rule div_mult_mod_eq)
  ultimately show ?thesis by linarith
qed

lemma fromScaledInt_props:
  assumes "d \<le> 4"
  shows "isDecimal (fromScaledInt s d)"
    and "decimalPlaces (fromScaledInt s d) = d"
    and "toScaledInt (fromScaledInt s d) = sgn s * (\<bar>s\<bar> - \<bar>s\<bar> mod 10 ^ (4 - d))"
proof -
  let ?m = "nat \<bar>s\<bar>"
  have ok: "parts_ok (if s < 0 then ''-'' else '''') (int_text ?m) (frac_text ?m d)"
    using int_frac_values(4) [OF assms, of "if s < 0 then ''-'' else ''''" ?m] by auto
  note T = fromScaledInt_text [OF assms, of s] and V = int_frac_values(1-3) [OF assms, of ?m]
  show "isDecimal (fromScaledInt s d)" unfolding T by (rule isDecimal_text [OF ok])
  show "decimalPlaces (fromScaledInt s d) = d"
    unfolding T using decimalPlaces_text [OF ok] V(3) by simp
  have "str_nat (int_text ?m) * 10 ^ 4 + str_nat (frac_text ?m d) * 10 ^ (4 - length (frac_text ?m d))
      = ?m - ?m mod 10 ^ (4 - d)"
    unfolding V(1,2,3) by (rule truncated_value [OF assms])
  moreover have "int (?m - ?m mod 10 ^ (4 - d)) = \<bar>s\<bar> - \<bar>s\<bar> mod 10 ^ (4 - d)"
    by (simp add: of_nat_diff zmod_int)
  ultimately show "toScaledInt (fromScaledInt s d) = sgn s * (\<bar>s\<bar> - \<bar>s\<bar> mod 10 ^ (4 - d))"
    unfolding T toScaledInt_text [OF ok] by (auto simp: sgn_if)
qed

lemma fromScaledInt_exact:
  assumes "d \<le> 4" "10 ^ (4 - d) dvd s"
  shows "toScaledInt (fromScaledInt s d) = s"
proof -
  have "\<bar>s\<bar> mod 10 ^ (4 - d) = 0" using assms(2) by simp
  then show ?thesis using fromScaledInt_props(3) [OF assms(1), of s] by (simp add: sgn_if)
qed

lemma subtract_props:
  assumes "isDecimal a" "isDecimal b"
  shows "isDecimal (subtract a b)"
    and "decimalPlaces (subtract a b) = max (decimalPlaces a) (decimalPlaces b)"
    and "toScaledInt (subtract a b) = toScaledInt a - toScaledInt b"
proof -
  let ?d = "max (decimalPlaces a) (decimalPlaces b)"
  have d: "?d \<le> 4" using decimalPlaces_le assms by simp
  have "10 ^ (4 - ?d) dvd toScaledInt a - toScaledInt b"
    using toScaledInt_dvd [OF assms(1), of ?d] toScaledInt_dvd [OF assms(2), of ?d] d
    by (simp add: dvd_diff)
  then show "toScaledInt (subtract a b) = toScaledInt a - toScaledInt b"
    unfolding subtract_def Let_def by (rule fromScaledInt_exact [OF d])
  show "isDecimal (subtract a b)" "decimalPlaces (subtract a b) = ?d"
    unfolding subtract_def Let_def using fromScaledInt_props(1,2) [OF d] by auto
qed

lemma multiplyByQuantity_props:
  assumes "isDecimal v" "is_safe_integer q"
  obtains n r where "q = of_count n" "multiplyByQuantity v q = Inr r" "isDecimal r"
    "decimalPlaces r = decimalPlaces v" "toScaledInt r = toScaledInt v * n"
proof -
  obtain n where n: "q = of_count n" using assms(2) by (auto simp: is_safe_integer_iff)
  let ?d = "decimalPlaces v"
  have d: "?d \<le> 4" by (rule decimalPlaces_le [OF assms(1)])
  have "10 ^ (4 - ?d) dvd toScaledInt v * n"
    using toScaledInt_dvd [OF assms(1) order_refl d] by simp
  then have "toScaledInt (fromScaledInt (toScaledInt v * n) ?d) = toScaledInt v * n"
    by (rule fromScaledInt_exact [OF d])
  moreover have "multiplyByQuantity v q = Inr (fromScaledInt (toScaledInt v * n) ?d)"
    using assms(2) n by (simp add: multiplyByQuantity_def of_count_def)
  ultimately show thesis using that n fromScaledInt_props(1,2) [OF d] by blast
qed

section \<open>The contract the other components use\<close>

text \<open>What a price arithmetic promises its clients (the store, the quote model, the board): a
  subtraction that is exact on values, and a comparison that orders by value.\<close>

locale price_arithmetic =
  fixes valid :: "'p \<Rightarrow> bool" and val :: "'p \<Rightarrow> int"
    and sub :: "'p \<Rightarrow> 'p \<Rightarrow> 'p" and cmp :: "'p \<Rightarrow> 'p \<Rightarrow> int"
  assumes sub_valid: "valid a \<Longrightarrow> valid b \<Longrightarrow> valid (sub a b)"
    and sub_val: "valid a \<Longrightarrow> valid b \<Longrightarrow> val (sub a b) = val a - val b"
    and cmp_val: "cmp a b = sgn (val a - val b)"
begin

lemma sub_telescopes:
  "valid a \<Longrightarrow> valid b \<Longrightarrow> valid c \<Longrightarrow> val (sub a b) + val (sub b c) = val (sub a c)"
  by (simp add: sub_val)

lemma sub_cancels: "valid a \<Longrightarrow> valid b \<Longrightarrow> val (sub a (sub a b)) = val b"
  by (simp add: sub_val sub_valid)

lemma cmp_antisym: "cmp a b = - cmp b a"
  by (simp add: cmp_val sgn_if)

lemma cmp_trans: "cmp a b \<le> 0 \<Longrightarrow> cmp b c \<le> 0 \<Longrightarrow> cmp a c \<le> 0"
  by (auto simp: cmp_val sgn_if split: if_splits)

lemma cmp_zero_iff: "cmp a b = 0 \<longleftrightarrow> val a = val b"
  by (simp add: cmp_val sgn_0_0)

lemma cmp_sub_sign: "valid a \<Longrightarrow> valid b \<Longrightarrow> cmp a b = sgn (val (sub a b))"
  by (simp add: cmp_val sub_val)

end

interpretation dec: price_arithmetic isDecimal toScaledInt subtract compare
  by unfold_locales (auto simp: subtract_props compare_def sgn_if)

section \<open>Display rounding\<close>

text \<open>Rounding a quotient half away from zero, as both display formatters do it.\<close>

lemma two_abs_le: "2 * \<bar>x\<bar> \<le> d \<longleftrightarrow> 2 * x \<le> d \<and> - (2 * x) \<le> d" for x d :: int
  by (auto simp: abs_if)

lemma half_up_div:
  fixes n d :: int
  assumes "0 < d" "0 \<le> n"
  shows "2 * \<bar>((n + d div 2) div d) * d - n\<bar> \<le> d"
proof -
  define h where "h = d div 2"
  define r where "r = (n + h) mod d"
  define A where "A = ((n + h) div d) * d"
  have "A + r = n + h" unfolding A_def r_def by (rule div_mult_mod_eq)
  moreover have "0 \<le> r" "r < d" using assms by (auto simp: r_def)
  moreover have "2 * h \<le> d" "d \<le> 2 * h + 1" unfolding h_def by linarith+
  ultimately have "2 * \<bar>A - n\<bar> \<le> d" unfolding two_abs_le by presburger
  then show ?thesis by (simp only: A_def h_def)
qed

lemma half_up_rem:
  fixes n d :: int
  assumes "0 < d" "0 \<le> n"
  defines "u \<equiv> n div d + (if (n mod d) * 2 \<ge> d then 1 else 0)"
  shows "2 * \<bar>u * d - n\<bar> \<le> d" and "0 \<le> u" and "u = 0 \<longleftrightarrow> 2 * n < d"
proof -
  have eq: "n div d * d + n mod d = n" by (rule div_mult_mod_eq)
  have m: "0 \<le> n mod d" "n mod d < d" using assms by auto
  have ud: "u * d = n div d * d + (if (n mod d) * 2 \<ge> d then d else 0)"
    by (simp add: u_def distrib_right)
  show "2 * \<bar>u * d - n\<bar> \<le> d"
  proof -
    define A where "A = n div d * d"
    define M where "M = n mod d"
    have "A + M = n" "0 \<le> M" "M < d" using eq m by (simp_all add: A_def M_def)
    then have "2 * \<bar>A + (if M * 2 \<ge> d then d else 0) - n\<bar> \<le> d"
      unfolding two_abs_le by presburger
    then show ?thesis unfolding ud A_def M_def .
  qed
  have q0: "0 \<le> n div d" using assms by (simp add: pos_imp_zdiv_nonneg_iff)
  then show "0 \<le> u" by (simp add: u_def)
  show "u = 0 \<longleftrightarrow> 2 * n < d"
  proof (cases "n div d = 0")
    case True
    then have "n mod d = n" using eq by simp
    then show ?thesis using True by (auto simp: u_def)
  next
    case False
    then have "1 \<le> n div d" using q0 by linarith
    then have "1 * d \<le> n div d * d" using assms by (intro mult_right_mono) auto
    then have "d \<le> n" using eq m by linarith
    then show ?thesis using False q0 assms by (auto simp: u_def)
  qed
qed

text \<open>What a compact figure says of a magnitude \<open>m\<close> (scaled by 10^4): a whole part, the hundredths,
  and the unit, within half a hundredth of the unit (or half a unit when no suffix is shown).\<close>

definition frac_shown :: "bool \<Rightarrow> int \<Rightarrow> string" where
  "frac_shown fixedFraction h =
     (let padded = padStart 2 (CHR ''0'') (nat_str (nat h));
          frac = (if fixedFraction then padded else strip_trailing_zeros padded)
      in if frac = '''' then '''' else ''.'' @ frac)"

definition compact_shows :: "bool \<Rightarrow> int \<Rightarrow> string \<Rightarrow> bool" where
  "compact_shows fixedFraction m body =
     ((\<exists>unit suffix whole h. (unit, suffix) \<in> set COMPACT_UNITS \<and>
         body = nat_str (nat whole) @ frac_shown fixedFraction h @ suffix \<and>
         1 \<le> whole \<and> (suffix \<noteq> ''B'' \<longrightarrow> whole < 1000) \<and> 0 \<le> h \<and> h < 100 \<and>
         2 * \<bar>(whole * 100 + h) * (unit * 10 ^ 4) - m * 100\<bar> \<le> unit * 10 ^ 4)
      \<or> (\<exists>n. body = nat_str (nat n) \<and> 0 \<le> n \<and> n < 1000 \<and> 2 * \<bar>n * 10 ^ 4 - m\<bar> \<le> 10 ^ 4))"



lemma compact_body_shows:
  assumes "0 \<le> m"
  shows "compact_shows fixedFraction m
    (case compact_body COMPACT_UNITS m fixedFraction of
       None \<Rightarrow> nat_str (nat ((m + 10 ^ SCALE_DIGITS div 2) div 10 ^ SCALE_DIGITS)) | Some b \<Rightarrow> b)"
proof -
  let ?B = "10000000000000 :: int" and ?M = "10000000000 :: int" and ?K = "10000000 :: int"
  define hb where "hb = (m * 100 + ?B div 2) div ?B"
  define hm where "hm = (m * 100 + ?M div 2) div ?M"
  define hk where "hk = (m * 100 + ?K div 2) div ?K"
  define h0 where "h0 = (m + 5000) div 10000"
  have shown: "compact_shows fixedFraction m (nat_str (nat (q div 100)) @ frac_shown fixedFraction (q mod 100) @ suffix)"
    if "(unit, suffix) \<in> set COMPACT_UNITS" "100 \<le> q" "suffix \<noteq> ''B'' \<longrightarrow> q < 100000"
      "2 * \<bar>q * (unit * 10 ^ 4) - m * 100\<bar> \<le> unit * 10 ^ 4" for unit suffix q
  proof -
    have q: "1 \<le> q div 100" "suffix \<noteq> ''B'' \<longrightarrow> q div 100 < 1000" "0 \<le> q mod 100" "q mod 100 < 100"
      using that(2,3) by auto
    have "2 * \<bar>(q div 100 * 100 + q mod 100) * (unit * 10 ^ 4) - m * 100\<bar> \<le> unit * 10 ^ 4"
      using that(4) by (simp only: div_mult_mod_eq)
    with that(1) q show ?thesis unfolding compact_shows_def by blast
  qed
  have in_units: "(1000000000, ''B'') \<in> set COMPACT_UNITS" "(1000000, ''M'') \<in> set COMPACT_UNITS"
    "(1000, ''K'') \<in> set COMPACT_UNITS" by (simp_all add: COMPACT_UNITS_def)
  have b: "2 * \<bar>hb * ?B - m * 100\<bar> \<le> ?B" "2 * \<bar>hm * ?M - m * 100\<bar> \<le> ?M"
    "2 * \<bar>hk * ?K - m * 100\<bar> \<le> ?K" "2 * \<bar>h0 * 10000 - m\<bar> \<le> 10000"
  proof -
    have m: "0 \<le> m * 100" using assms by simp
    show "2 * \<bar>hb * ?B - m * 100\<bar> \<le> ?B" "2 * \<bar>hm * ?M - m * 100\<bar> \<le> ?M"
      "2 * \<bar>hk * ?K - m * 100\<bar> \<le> ?K"
      unfolding hb_def hm_def hk_def by (rule half_up_div [OF _ m], simp)+
    have "h0 = (m + 10000 div 2) div 10000" by (simp add: h0_def)
    then show "2 * \<bar>h0 * 10000 - m\<bar> \<le> 10000"
      using half_up_div [OF _ assms, of 10000] by simp
  qed
  have frac: "(if (if fixedFraction then padStart 2 (CHR ''0'') (nat_str (nat h))
        else strip_trailing_zeros (padStart 2 (CHR ''0'') (nat_str (nat h)))) = '''' then ''''
      else ''.'' @ (if fixedFraction then padStart 2 (CHR ''0'') (nat_str (nat h))
        else strip_trailing_zeros (padStart 2 (CHR ''0'') (nat_str (nat h))))) = frac_shown fixedFraction h" for h
    by (simp add: frac_shown_def Let_def)
  have units: "1000000000 * 10 ^ SCALE_DIGITS = ?B" "1000000 * 10 ^ SCALE_DIGITS = ?M"
    "1000 * 10 ^ SCALE_DIGITS = ?K" by (simp_all add: SCALE_DIGITS_def)
  have body: "compact_body COMPACT_UNITS m fixedFraction =
    (if 100 \<le> hb then Some (nat_str (nat (hb div 100)) @ frac_shown fixedFraction (hb mod 100) @ ''B'')
     else if 100 \<le> hm then Some (nat_str (nat (hm div 100)) @ frac_shown fixedFraction (hm mod 100) @ ''M'')
     else if 100 \<le> hk then Some (nat_str (nat (hk div 100)) @ frac_shown fixedFraction (hk mod 100) @ ''K'')
     else None)"
    unfolding COMPACT_UNITS_def compact_body.simps Let_def frac units
    unfolding hb_def [symmetric] hm_def [symmetric] hk_def [symmetric] ..
  consider "100 \<le> hb" | "hb < 100" "100 \<le> hm" | "hb < 100" "hm < 100" "100 \<le> hk"
    | "hb < 100" "hm < 100" "hk < 100" by linarith
  then show ?thesis
  proof cases
    case 1
    have "2 * \<bar>hb * (1000000000 * 10 ^ 4) - m * 100\<bar> \<le> 1000000000 * 10 ^ 4" using b(1) by simp
    with shown [OF in_units(1) 1] 1 show ?thesis by (simp only: body if_True option.case simp_thms)
  next
    case 2
    then have "hm < 100000" unfolding hb_def hm_def by linarith
    moreover have "2 * \<bar>hm * (1000000 * 10 ^ 4) - m * 100\<bar> \<le> 1000000 * 10 ^ 4" using b(2) by simp
    moreover have "\<not> 100 \<le> hb" using 2 by simp
    ultimately show ?thesis using shown [OF in_units(2) 2(2)] 2
      by (simp only: body if_True if_False option.case simp_thms)
  next
    case 3
    then have "hk < 100000" unfolding hm_def hk_def by linarith
    moreover have "2 * \<bar>hk * (1000 * 10 ^ 4) - m * 100\<bar> \<le> 1000 * 10 ^ 4" using b(3) by simp
    moreover have "\<not> 100 \<le> hb" "\<not> 100 \<le> hm" using 3 by simp_all
    ultimately show ?thesis using shown [OF in_units(3) 3(3)] 3
      by (simp only: body if_True if_False option.case simp_thms)
  next
    case 4
    then have "h0 < 1000" "0 \<le> h0" using assms unfolding hk_def h0_def by linarith+
    moreover have "2 * \<bar>h0 * 10 ^ 4 - m\<bar> \<le> 10 ^ 4" using b(4) by simp
    ultimately have "compact_shows fixedFraction m (nat_str (nat h0))"
      unfolding compact_shows_def by blast
    moreover have "(m + 10 ^ SCALE_DIGITS div 2) div 10 ^ SCALE_DIGITS = h0"
      by (simp add: SCALE_DIGITS_def h0_def)
    moreover have "\<not> 100 \<le> hb" "\<not> 100 \<le> hm" "\<not> 100 \<le> hk" using 4 by simp_all
    ultimately show ?thesis by (simp only: body if_False option.case)
  qed
qed

text \<open>The percentage text: a rounded count of the last digit, and its sign.\<close>

definition percent_units :: "decimal \<Rightarrow> decimal \<Rightarrow> nat \<Rightarrow> int" where
  "percent_units frm to decimals =
     (let n = \<bar>(toScaledInt to - toScaledInt frm) * 100 * 10 ^ decimals\<bar>; d = \<bar>toScaledInt frm\<bar>
      in n div d + (if (n mod d) * 2 \<ge> d then 1 else 0))"

lemma padded_units_text:
  fixes u decimals :: nat
  assumes "0 < decimals" "decimals \<le> 4" "sg \<in> {'''', ''-'', ''+''}"
  defines "D \<equiv> padStart (decimals + 1) (CHR ''0'') (nat_str u)"
  shows "parts_ok sg (take (length D - decimals) D) (drop (length D - decimals) D)"
    and "toScaledInt (decimal_text sg (take (length D - decimals) D) (drop (length D - decimals) D)) =
      (if sg = ''-'' then - 1 else 1) * int u * 10 ^ (4 - decimals)"
proof -
  let ?k = "length D - decimals"
  have dig: "\<forall>c \<in> set D. is_digit c" unfolding D_def using pad_digits(1) nat_str_digits by blast
  have len: "decimals + 1 \<le> length D" by (simp add: D_def)
  have val: "str_nat D = u" by (simp add: D_def)
  have lf: "length (drop ?k D) = decimals" using len by simp
  show ok: "parts_ok sg (take ?k D) (drop ?k D)"
    using assms(2,3) dig len lf by (auto simp: parts_ok_def list_all_iff dest: in_set_takeD in_set_dropD)
  have v: "str_nat (take ?k D) = u div 10 ^ decimals" "str_nat (drop ?k D) = u mod 10 ^ decimals"
    using str_nat_take [OF dig, of ?k] val len by auto
  have p: "(10::nat) ^ 4 = 10 ^ decimals * 10 ^ (4 - decimals)"
    using assms(2) by (simp add: power_add [symmetric] del: power_numeral)
  have "u div 10 ^ decimals * 10 ^ 4 + u mod 10 ^ decimals * 10 ^ (4 - decimals) =
      (u div 10 ^ decimals * 10 ^ decimals + u mod 10 ^ decimals) * 10 ^ (4 - decimals)"
    unfolding p by (simp only: distrib_right mult.assoc)
  also have "\<dots> = u * 10 ^ (4 - decimals)" by (simp only: div_mult_mod_eq)
  finally have "str_nat (take ?k D) * 10 ^ 4 + str_nat (drop ?k D) * 10 ^ (4 - length (drop ?k D))
      = u * 10 ^ (4 - decimals)" unfolding v lf .
  then show "toScaledInt (decimal_text sg (take ?k D) (drop ?k D)) =
      (if sg = ''-'' then - 1 else 1) * int u * 10 ^ (4 - decimals)"
    unfolding toScaledInt_text [OF ok] by simp
qed

lemma percentChangeText_alt:
  assumes "toScaledInt frm \<noteq> 0"
  shows "percentChangeText frm to d =
    (let u = percent_units frm to d; D = padStart (d + 1) (CHR ''0'') (nat_str (nat u))
     in if u = 0 then (if d > 0 then ''0.'' @ replicate d (CHR ''0'') else ''0'')
        else (if ((toScaledInt to - toScaledInt frm) * 100 * 10 ^ d < 0) \<noteq> (toScaledInt frm < 0)
              then ''-'' else ''+'') @
             (if d > 0 then take (length D - d) D @ ''.'' @ drop (length D - d) D
              else take (length D - d) D))"
  unfolding percentChangeText_def percent_units_def Let_def abs_if
  using assms by (simp only: if_False)

lemma zero_text_value:
  "0 < d \<Longrightarrow> d \<le> 4 \<Longrightarrow> isDecimal (''0.'' @ replicate d (CHR ''0'')) \<and>
    toScaledInt (''0.'' @ replicate d (CHR ''0'')) = 0"
proof -
  assume d: "0 < d" "d \<le> 4"
  then have ok: "parts_ok '''' ''0'' (replicate d (CHR ''0''))" by (simp add: parts_ok_def list_all_iff)
  have t: "''0.'' @ replicate d (CHR ''0'') = decimal_text '''' ''0'' (replicate d (CHR ''0''))"
    using d by (simp add: decimal_text_def)
  show ?thesis unfolding t using isDecimal_text [OF ok] toScaledInt_text [OF ok] by simp
qed

lemma percentChangeText_cases:
  fixes frm to :: decimal and d :: nat
  assumes "0 < d" "d \<le> 4" "toScaledInt frm \<noteq> 0"
  defines "N \<equiv> (toScaledInt to - toScaledInt frm) * 100 * 10 ^ d" and "F \<equiv> toScaledInt frm"
    and "u \<equiv> percent_units frm to d"
  shows "isDecimal (percentChangeText frm to d) \<and>
    toScaledInt (percentChangeText frm to d) = (if (N < 0) \<noteq> (F < 0) then - 1 else 1) * u * 10 ^ (4 - d) \<and>
    (take 1 (percentChangeText frm to d) = ''-'' \<longleftrightarrow> u \<noteq> 0 \<and> (N < 0) \<noteq> (F < 0))"
proof (cases "u = 0")
  case True
  have "percentChangeText frm to d = ''0.'' @ replicate d (CHR ''0'')"
    using assms(1) True unfolding percentChangeText_alt [OF assms(3)] Let_def u_def by simp
  then show ?thesis using zero_text_value [OF assms(1,2)] True by simp
next
  case False
  define D where "D = padStart (d + 1) (CHR ''0'') (nat_str (nat u))"
  define sg where "sg = (if (N < 0) \<noteq> (F < 0) then ''-'' else ''+'')"
  have sg: "sg \<in> {'''', ''-'', ''+''}" by (simp add: sg_def)
  note P = padded_units_text [OF assms(1,2) sg, of "nat u", folded D_def]
  have u0: "0 \<le> u"
    unfolding u_def percent_units_def Let_def using half_up_rem(2) assms(3) by simp
  have "d + 1 \<le> length D" by (simp add: D_def)
  then have nz: "drop (length D - d) D \<noteq> ''''" using assms(1) by simp
  have "percentChangeText frm to d = sg @ take (length D - d) D @ ''.'' @ drop (length D - d) D"
    using assms(1) False
    unfolding percentChangeText_alt [OF assms(3)] Let_def u_def D_def sg_def N_def F_def
    by (simp only: if_True if_False append_assoc)
  then have t: "percentChangeText frm to d = decimal_text sg (take (length D - d) D) (drop (length D - d) D)"
    using nz by (simp add: decimal_text_def)
  show ?thesis
    unfolding t sign_of_text(1) [OF P(1)] P(2)
    using isDecimal_text [OF P(1)] u0 False by (simp add: sg_def)
qed

lemma format_text:
  "format v opt sign = (if sign \<and> 0 < toScaledInt v then ''+'' else '''') @
     fromScaledInt (toScaledInt v) (case opt of None \<Rightarrow> decimalPlaces v | Some d \<Rightarrow> d)"
  by (auto simp: format_def fromScaledInt_def Let_def)

lemma plus_text:
  assumes "d \<le> 4" "0 < s"
  shows "isDecimal (''+'' @ fromScaledInt s d) \<and> decimalPlaces (''+'' @ fromScaledInt s d) = d \<and>
    toScaledInt (''+'' @ fromScaledInt s d) = toScaledInt (fromScaledInt s d)"
proof -
  let ?m = "nat \<bar>s\<bar>"
  note V = int_frac_values(4) [OF assms(1), of _ ?m]
  have ok: "parts_ok ''+'' (int_text ?m) (frac_text ?m d)" "parts_ok '''' (int_text ?m) (frac_text ?m d)"
    using V by auto
  have t: "''+'' @ fromScaledInt s d = decimal_text ''+'' (int_text ?m) (frac_text ?m d)"
    "fromScaledInt s d = decimal_text '''' (int_text ?m) (frac_text ?m d)"
    using fromScaledInt_text [OF assms(1), of s] assms(2) by (simp_all add: decimal_text_def)
  have "toScaledInt (decimal_text ''+'' (int_text ?m) (frac_text ?m d)) =
      toScaledInt (decimal_text '''' (int_text ?m) (frac_text ?m d))"
    unfolding toScaledInt_text [OF ok(1)] toScaledInt_text [OF ok(2)] by simp
  then show ?thesis
    unfolding t(1) using isDecimal_text [OF ok(1)] decimalPlaces_text [OF ok(1)]
      int_frac_values(3) [OF assms(1), of ?m] t(2) by simp
qed

section \<open>Properties\<close>

text \<open>A scaled integer rendered at up to four places reads back as a valid decimal with
  exactly those places, truncated towards zero at the last of them; at a precision the value
  already has, reading back gives the same integer.\<close>

theorem scaled_roundtrip:
  assumes "d \<le> 4"
  shows "isDecimal (fromScaledInt s d) \<and> decimalPlaces (fromScaledInt s d) = d \<and>
    toScaledInt (fromScaledInt s d) = sgn s * (\<bar>s\<bar> - \<bar>s\<bar> mod 10 ^ (4 - d)) \<and>
    (10 ^ (4 - d) dvd s \<longrightarrow> toScaledInt (fromScaledInt s d) = s)"
  using fromScaledInt_props [OF assms] fromScaledInt_exact [OF assms] by simp

theorem scaled_roundtrip_witness:
  "(2::nat) \<le> 4 \<and> toScaledInt (fromScaledInt (- 851099) 2) = - 851000"
  using scaled_roundtrip [of 2 "- 851099"] by simp

text \<open>Subtraction of two valid prices is exact: the result is a valid decimal, written
  at the finer of the two precisions, whose scaled value is the difference; and comparing the two
  prices agrees with the sign of that difference.\<close>

theorem subtract_exact:
  assumes "isDecimal a" "isDecimal b"
  shows "isDecimal (subtract a b) \<and>
    decimalPlaces (subtract a b) = max (decimalPlaces a) (decimalPlaces b) \<and>
    toScaledInt (subtract a b) = toScaledInt a - toScaledInt b \<and>
    compare a b = sgn (toScaledInt (subtract a b))"
  using subtract_props [OF assms] dec.cmp_sub_sign [OF assms] by simp

theorem subtract_exact_witness:
  "isDecimal ''85.1'' \<and> isDecimal ''-0.0050'' \<and> subtract ''85.1'' ''-0.0050'' = ''85.1050'' \<and>
   toScaledInt ''85.1050'' = toScaledInt ''85.1'' - toScaledInt ''-0.0050''"
proof -
  have v: "isDecimal ''85.1''" "isDecimal ''-0.0050''"
    by code_simp+
  have "subtract ''85.1'' ''-0.0050'' = ''85.1050''"
    by code_simp
  then show ?thesis using v subtract_exact [OF v] by simp
qed

text \<open>Claim C3: multiplying a valid price by a safe integer is exact and keeps the price's
  precision; by any other number (a fraction, NaN, an infinity, beyond 2^53) it is a RangeError.\<close>

theorem multiply_exact_or_error:
  assumes "isDecimal v"
  shows "(\<exists>n r. q = of_count n \<and> \<bar>n\<bar> < 2 ^ 53 \<and> multiplyByQuantity v q = Inr r \<and> isDecimal r \<and>
      decimalPlaces r = decimalPlaces v \<and> toScaledInt r = toScaledInt v * n)
    \<or> ((\<nexists>n. q = of_count n \<and> \<bar>n\<bar> < 2 ^ 53) \<and>
       multiplyByQuantity v q = Inl (RangeError ''Quantity must be a safe integer''))"
proof (cases "is_safe_integer q")
  case True
  then have "\<exists>n. q = of_count n \<and> \<bar>n\<bar> < 2 ^ 53" by (simp add: is_safe_integer_iff)
  then show ?thesis using multiplyByQuantity_props [OF assms True] by (metis of_count_eq_iff)
next
  case False
  then show ?thesis by (simp add: multiplyByQuantity_def is_safe_integer_iff)
qed

theorem multiply_exact_or_error_witness:
  "isDecimal ''12.50'' \<and> multiplyByQuantity ''12.50'' (of_count 300) = Inr ''3750.00'' \<and>
   multiplyByQuantity ''12.50'' (Fin (1/2)) = Inl (RangeError ''Quantity must be a safe integer'')"
proof -
  have v: "isDecimal ''12.50''" by code_simp
  have "multiplyByQuantity ''12.50'' (of_count 300) = Inr ''3750.00''"
    by code_simp
  moreover have "\<nexists>n. Fin (1/2) = of_count n"
  proof
    assume "\<exists>n. Fin (1/2) = of_count n"
    then obtain n where "(1/2 :: rat) = of_int n" by (auto simp: of_count_def)
    then have "(of_int 1 :: rat) = of_int (2 * n)" by simp
    then have "1 = 2 * n" by (simp only: of_int_eq_iff)
    then show False by presburger
  qed
  ultimately show ?thesis using v multiply_exact_or_error [OF v, of "Fin (1/2)"] by blast
qed

text \<open>Claim C38: a compact figure is honest: after the sign, it is either a plain whole number below
  1000 within half a unit of the value, or a whole part (at least 1, and below 1000 unless the unit
  is the billion) with hundredths and a unit, within half a hundredth of that unit. So a value
  that rounds up to the next unit is shown in it, and zero carries no minus sign.\<close>

theorem formatCompact_honest:
  "\<exists>sg body. formatCompact v fixedFraction = sg @ body \<and>
     sg = (if toScaledInt v < 0 \<and> body \<noteq> ''0'' then ''-'' else '''') \<and>
     compact_shows fixedFraction \<bar>toScaledInt v\<bar> body"
proof -
  have m: "(if toScaledInt v < 0 then - toScaledInt v else toScaledInt v) = \<bar>toScaledInt v\<bar>" by simp
  define b where "b = (case compact_body COMPACT_UNITS \<bar>toScaledInt v\<bar> fixedFraction of
       None \<Rightarrow> nat_str (nat ((\<bar>toScaledInt v\<bar> + 10 ^ SCALE_DIGITS div 2) div 10 ^ SCALE_DIGITS)) | Some b \<Rightarrow> b)"
  have "formatCompact v fixedFraction = (if toScaledInt v < 0 \<and> b \<noteq> ''0'' then ''-'' @ b else b)"
    unfolding formatCompact_def Let_def m b_def ..
  moreover have "compact_shows fixedFraction \<bar>toScaledInt v\<bar> b"
    unfolding b_def by (rule compact_body_shows) simp
  ultimately show ?thesis
    by (intro exI [of _ "if toScaledInt v < 0 \<and> b \<noteq> ''0'' then ''-'' else ''''"] exI [of _ b]) simp
qed



text \<open>Display formatting never changes a price: with its own precision the text reads
  back as the same value at the same places, with or without a plus sign; and at any other
  precision it is the rendering that subtraction uses.\<close>

theorem format_keeps_value:
  assumes "isDecimal v"
  shows "isDecimal (format v None sign) \<and> toScaledInt (format v None sign) = toScaledInt v \<and>
    decimalPlaces (format v None sign) = decimalPlaces v \<and>
    format v (Some d) False = fromScaledInt (toScaledInt v) d"
proof -
  have d: "decimalPlaces v \<le> 4" using assms by (rule decimalPlaces_le)
  have e: "toScaledInt (fromScaledInt (toScaledInt v) (decimalPlaces v)) = toScaledInt v"
    using fromScaledInt_exact [OF d toScaledInt_dvd [OF assms order_refl d]] .
  show ?thesis
    using fromScaledInt_props(1,2) [OF d, of "toScaledInt v"] plus_text [OF d, of "toScaledInt v"] e
    by (simp add: format_text)
qed

theorem format_keeps_value_witness:
  "isDecimal ''+1.05'' \<and> format ''+1.05'' None True = ''+1.05'' \<and> toScaledInt (format ''+1.05'' None True) = 10500"
proof -
  have v: "isDecimal ''+1.05''" by code_simp
  have "format ''+1.05'' None True = ''+1.05''" "toScaledInt ''+1.05'' = 10500"
    by code_simp+
  then show ?thesis using v format_keeps_value [OF v, of True] by simp
qed

end
