(* ===== verification/Messages.thy ===== *)
theory Messages
  imports Json Decimal
begin

text \<open>
  contracts/messages.ts, contracts/rest.ts and contracts/closeCodes.ts: the wire messages, their
  validation and the serializer of outbound messages. Each interface is a record, the union of
  server messages a datatype, each \<open>require*\<close> function and each \<open>parse*\<close> function a definition
  that checks the fields in the order the code reads them; a throw is \<open>Inl (TypeError ..)\<close>.

  The lemmas: what a parsed message guarantees (prices that are valid decimals, a heartbeat
  interval a timer can use), that fields the parser does not know are ignored, and that an
  outbound text holds the allowed fields and nothing else.
\<close>

section \<open>Data\<close>

datatype Stream = LIVE | DELAYED
datatype TickKind = TRADE | BID | ASK
datatype ErrorCode = UNKNOWN_SYMBOL | SUBSCRIPTION_LIMIT | NOT_ENTITLED | RATE_LIMITED | INTERNAL

type_synonym IsoUtc = string

record Tick =
  tk_s :: string
  tk_p :: decimal
  tk_q :: number
  tk_k :: TickKind
  tk_t :: IsoUtc
  tk_id :: string
  tk_st :: Stream

record Connected =
  co_userId :: string
  co_stream :: Stream
  co_sessionId :: string
  co_heartbeatIntervalMs :: number
  co_serverTime :: IsoUtc

record Subscribed =
  su_requestId :: "string option"
  su_stream :: Stream
  su_accepted :: "string list"
  su_rejected :: "string list"

record Unsubscribed =
  un_requestId :: "string option"
  un_accepted :: "string list"

record Snapshot =
  sn_symbol :: string
  sn_stream :: Stream
  sn_price :: decimal
  sn_change :: decimal
  sn_changePercent :: string
  sn_open :: decimal
  sn_previousClose :: "decimal option"
  sn_high :: decimal
  sn_low :: decimal
  sn_volume :: number
  sn_lastEventId :: string
  sn_exchangeTimestamp :: IsoUtc
  sn_snapshotAge :: number
  sn_simulated :: bool

record Heartbeat =
  hb_serverTime :: IsoUtc

record ErrorMsg =
  er_code :: ErrorCode
  er_message :: string
  er_requestId :: "string option"

record EntitlementChanged =
  en_stream :: Stream
  en_resubscribeRequired :: bool
  en_effectiveFrom :: IsoUtc

datatype ServerMessage =
    ConnectedMsg Connected
  | SubscribedMsg Subscribed
  | UnsubscribedMsg Unsubscribed
  | TickMsg Tick
  | SnapshotMsg Snapshot
  | HeartbeatMsg Heartbeat
  | ErrorMessage ErrorMsg
  | EntitlementMsg EntitlementChanged

datatype ClientMessage =
    Subscribe "string list" "string option"
  | Unsubscribe "string list" "string option"
  | Ping "string option"

text \<open>contracts/rest.ts: the universe and history responses, and the paths.\<close>

record SymbolDefinition =
  sd_symbol :: string
  sd_name :: string
  sd_currency :: string
  sd_tickSize :: decimal
  sd_lotSize :: number
  sd_referencePrice :: decimal

record SymbolUniverseResponse =
  ur_asOf :: IsoUtc
  ur_simulated :: bool
  ur_symbols :: "SymbolDefinition list"

record HistoryPoint =
  hp_t :: IsoUtc
  hp_p :: decimal

record SymbolHistoryResponse =
  hr_symbol :: string
  hr_points :: "HistoryPoint list"

definition MARKET :: string where
  "MARKET = ''EGX''"

definition SYMBOLS_PATH :: string where
  "SYMBOLS_PATH = ''/'' @ MARKET @ ''/symbols''"

text \<open>contracts/closeCodes.ts.\<close>

datatype CloseCode = Normal | Unauthenticated | TokenExpired | HeartbeatTimeout | SlowConsumer

fun close_code :: "CloseCode \<Rightarrow> nat" where
  "close_code Normal = 1000"
| "close_code Unauthenticated = 4401"
| "close_code TokenExpired = 4403"
| "close_code HeartbeatTimeout = 4408"
| "close_code SlowConsumer = 4429"

section \<open>Reading fields\<close>

text \<open>\<open>typeof value === 'object' && value !== null\<close>: an array is a record too, with none of the
  fields the parser asks for.\<close>

fun isRecord :: "json \<Rightarrow> bool" where
  "isRecord (JObj _) = True"
| "isRecord (JArr _) = True"
| "isRecord _ = False"

fun field :: "json \<Rightarrow> string \<Rightarrow> json option" where
  "field (JObj ps) key = jget ps key"
| "field _ key = None"

definition failE :: "string \<Rightarrow> string \<Rightarrow> 'a exn" where
  "failE context detail = Inl (TypeError (context @ '': '' @ detail))"

definition quoted :: "string \<Rightarrow> string" where
  "quoted key = CHR 0x22 # key @ [CHR 0x22]"

definition requireString :: "json \<Rightarrow> string \<Rightarrow> string \<Rightarrow> string exn" where
  "requireString rec key context =
     (case field rec key of
        Some (JStr s) \<Rightarrow> Inr s
      | _ \<Rightarrow> failE context (''expected string field '' @ quoted key))"

definition optionalString :: "json \<Rightarrow> string \<Rightarrow> string option" where
  "optionalString rec key = (case field rec key of Some (JStr s) \<Rightarrow> Some s | _ \<Rightarrow> None)"

definition requireNumber :: "json \<Rightarrow> string \<Rightarrow> string \<Rightarrow> number exn" where
  "requireNumber rec key context =
     (case field rec key of
        Some (JNum x) \<Rightarrow> Inr x
      | _ \<Rightarrow> failE context (''expected number field '' @ quoted key))"

definition MIN_HEARTBEAT_INTERVAL_MS :: int where
  "MIN_HEARTBEAT_INTERVAL_MS = 1000"

definition requireBoolean :: "json \<Rightarrow> string \<Rightarrow> string \<Rightarrow> bool exn" where
  "requireBoolean rec key context =
     (case field rec key of
        Some (JBool b) \<Rightarrow> Inr b
      | _ \<Rightarrow> failE context (''expected boolean field '' @ quoted key))"

fun string_items :: "json list \<Rightarrow> string list option" where
  "string_items [] = Some []"
| "string_items (JStr s # xs) = map_option (Cons s) (string_items xs)"
| "string_items (_ # xs) = None"

definition requireStringArray :: "json \<Rightarrow> string \<Rightarrow> string \<Rightarrow> string list exn" where
  "requireStringArray rec key context =
     (case field rec key of
        Some (JArr xs) \<Rightarrow>
          (case string_items xs of
             Some ss \<Rightarrow> Inr ss
           | None \<Rightarrow> failE context (''expected string[] field '' @ quoted key))
      | _ \<Rightarrow> failE context (''expected string[] field '' @ quoted key))"

definition requireStream :: "json \<Rightarrow> string \<Rightarrow> string \<Rightarrow> Stream exn" where
  "requireStream rec key context =
     bindE (requireString rec key context) (\<lambda>value.
       if value = ''LIVE'' then Inr LIVE
       else if value = ''DELAYED'' then Inr DELAYED
       else failE context (''invalid stream '' @ quoted value))"

definition requireTickKind :: "json \<Rightarrow> string \<Rightarrow> string \<Rightarrow> TickKind exn" where
  "requireTickKind rec key context =
     bindE (requireString rec key context) (\<lambda>value.
       if value = ''TRADE'' then Inr TRADE
       else if value = ''BID'' then Inr BID
       else if value = ''ASK'' then Inr ASK
       else failE context (''invalid tick kind '' @ quoted value))"

definition requireErrorCode :: "json \<Rightarrow> string \<Rightarrow> string \<Rightarrow> ErrorCode exn" where
  "requireErrorCode rec key context =
     bindE (requireString rec key context) (\<lambda>value.
       if value = ''UNKNOWN_SYMBOL'' then Inr UNKNOWN_SYMBOL
       else if value = ''SUBSCRIPTION_LIMIT'' then Inr SUBSCRIPTION_LIMIT
       else if value = ''NOT_ENTITLED'' then Inr NOT_ENTITLED
       else if value = ''RATE_LIMITED'' then Inr RATE_LIMITED
       else if value = ''INTERNAL'' then Inr INTERNAL
       else failE context (''invalid error code '' @ quoted value))"

definition requirePrice :: "json \<Rightarrow> string \<Rightarrow> string \<Rightarrow> decimal exn" where
  "requirePrice rec key context =
     bindE (requireString rec key context) (\<lambda>raw.
       case toDecimal raw of
         Inr d \<Rightarrow> Inr d
       | Inl _ \<Rightarrow> failE context
           (''invalid decimal price in field '' @ quoted key @ '': '' @ json_quote raw))"

definition requireIso :: "json \<Rightarrow> string \<Rightarrow> string \<Rightarrow> IsoUtc exn" where
  "requireIso rec key context = requireString rec key context"

section \<open>Parsing\<close>

definition parseSnapshot :: "json option \<Rightarrow> string \<Rightarrow> Snapshot exn" where
  "parseSnapshot value context =
     (case value of
        None \<Rightarrow> failE context (''expected an object for '' @ quoted ''snapshot'')
      | Some v \<Rightarrow>
          if \<not> isRecord v then failE context (''expected an object for '' @ quoted ''snapshot'')
          else
            bindE (requireString v ''symbol'' context) (\<lambda>symbol.
            bindE (requireStream v ''stream'' context) (\<lambda>stream.
            bindE (requirePrice v ''price'' context) (\<lambda>price.
            bindE (requirePrice v ''change'' context) (\<lambda>change.
            bindE (requireString v ''changePercent'' context) (\<lambda>changePercent.
            bindE (requirePrice v ''open'' context) (\<lambda>opn.
            bindE (if field v ''previousClose'' = None then Inr None
                   else bindE (requirePrice v ''previousClose'' context) (\<lambda>p. Inr (Some p))) (\<lambda>previousClose.
            bindE (requirePrice v ''high'' context) (\<lambda>high.
            bindE (requirePrice v ''low'' context) (\<lambda>low.
            bindE (requireNumber v ''volume'' context) (\<lambda>volume.
            bindE (requireString v ''lastEventId'' context) (\<lambda>lastEventId.
            bindE (requireIso v ''exchangeTimestamp'' context) (\<lambda>exchangeTimestamp.
            bindE (requireNumber v ''snapshotAge'' context) (\<lambda>snapshotAge.
            bindE (requireBoolean v ''simulated'' context) (\<lambda>simulated.
              Inr \<lparr>sn_symbol = symbol, sn_stream = stream, sn_price = price, sn_change = change,
                   sn_changePercent = changePercent, sn_open = opn, sn_previousClose = previousClose,
                   sn_high = high, sn_low = low, sn_volume = volume, sn_lastEventId = lastEventId,
                   sn_exchangeTimestamp = exchangeTimestamp, sn_snapshotAge = snapshotAge,
                   sn_simulated = simulated\<rparr>)))))))))))))))"

definition parseConnected :: "json \<Rightarrow> Connected exn" where
  "parseConnected rec = (let context = ''connected'' in
     bindE (requireNumber rec ''heartbeatIntervalMs'' context) (\<lambda>heartbeatIntervalMs.
     if \<not> num_is_finite heartbeatIntervalMs \<or> num_less heartbeatIntervalMs (of_count MIN_HEARTBEAT_INTERVAL_MS)
     then failE context (''heartbeatIntervalMs must be a finite number >= '' @
            int_str MIN_HEARTBEAT_INTERVAL_MS @ '', got '' @ number_text heartbeatIntervalMs)
     else
       bindE (requireString rec ''userId'' context) (\<lambda>userId.
       bindE (requireStream rec ''stream'' context) (\<lambda>stream.
       bindE (requireString rec ''sessionId'' context) (\<lambda>sessionId.
       bindE (requireIso rec ''serverTime'' context) (\<lambda>serverTime.
         Inr \<lparr>co_userId = userId, co_stream = stream, co_sessionId = sessionId,
              co_heartbeatIntervalMs = heartbeatIntervalMs, co_serverTime = serverTime\<rparr>))))))"

definition parseSubscribed :: "json \<Rightarrow> Subscribed exn" where
  "parseSubscribed rec = (let context = ''subscribed''; requestId = optionalString rec ''requestId'' in
     bindE (requireStream rec ''stream'' context) (\<lambda>stream.
     bindE (requireStringArray rec ''accepted'' context) (\<lambda>accepted.
     bindE (requireStringArray rec ''rejected'' context) (\<lambda>rejected.
       Inr \<lparr>su_requestId = requestId, su_stream = stream, su_accepted = accepted, su_rejected = rejected\<rparr>))))"

definition parseUnsubscribed :: "json \<Rightarrow> Unsubscribed exn" where
  "parseUnsubscribed rec = (let context = ''unsubscribed''; requestId = optionalString rec ''requestId'' in
     bindE (requireStringArray rec ''accepted'' context) (\<lambda>accepted.
       Inr \<lparr>un_requestId = requestId, un_accepted = accepted\<rparr>))"

definition parseTick :: "json \<Rightarrow> Tick exn" where
  "parseTick rec = (let context = ''tick'' in
     bindE (requireString rec ''s'' context) (\<lambda>s.
     bindE (requirePrice rec ''p'' context) (\<lambda>p.
     bindE (requireNumber rec ''q'' context) (\<lambda>q.
     bindE (requireTickKind rec ''k'' context) (\<lambda>k.
     bindE (requireIso rec ''t'' context) (\<lambda>t.
     bindE (requireString rec ''id'' context) (\<lambda>i.
     bindE (requireStream rec ''st'' context) (\<lambda>st.
       Inr \<lparr>tk_s = s, tk_p = p, tk_q = q, tk_k = k, tk_t = t, tk_id = i, tk_st = st\<rparr>))))))))"

definition parseSnapshotMsg :: "json \<Rightarrow> Snapshot exn" where
  "parseSnapshotMsg rec = parseSnapshot (field rec ''snapshot'') ''snapshot''"

definition parseHeartbeat :: "json \<Rightarrow> Heartbeat exn" where
  "parseHeartbeat rec =
     bindE (requireIso rec ''serverTime'' ''heartbeat'') (\<lambda>serverTime. Inr \<lparr>hb_serverTime = serverTime\<rparr>)"

definition parseError :: "json \<Rightarrow> ErrorMsg exn" where
  "parseError rec = (let context = ''error''; requestId = optionalString rec ''requestId'' in
     bindE (requireErrorCode rec ''code'' context) (\<lambda>code.
     bindE (requireString rec ''message'' context) (\<lambda>message.
       Inr \<lparr>er_code = code, er_message = message, er_requestId = requestId\<rparr>)))"

definition parseEntitlementChanged :: "json \<Rightarrow> EntitlementChanged exn" where
  "parseEntitlementChanged rec = (let context = ''entitlementChanged'' in
     bindE (requireStream rec ''stream'' context) (\<lambda>stream.
     bindE (requireBoolean rec ''resubscribeRequired'' context) (\<lambda>resubscribeRequired.
     bindE (requireIso rec ''effectiveFrom'' context) (\<lambda>effectiveFrom.
       Inr \<lparr>en_stream = stream, en_resubscribeRequired = resubscribeRequired,
            en_effectiveFrom = effectiveFrom\<rparr>))))"

definition parse_record :: "json \<Rightarrow> ServerMessage exn" where
  "parse_record parsed =
     (if \<not> isRecord parsed then Inl (TypeError ''Server message must be a JSON object'')
      else case field parsed ''type'' of
        Some (JStr typ) \<Rightarrow>
          if typ = ''connected'' then map_sum id ConnectedMsg (parseConnected parsed)
          else if typ = ''subscribed'' then map_sum id SubscribedMsg (parseSubscribed parsed)
          else if typ = ''unsubscribed'' then map_sum id UnsubscribedMsg (parseUnsubscribed parsed)
          else if typ = ''tick'' then map_sum id TickMsg (parseTick parsed)
          else if typ = ''snapshot'' then map_sum id SnapshotMsg (parseSnapshotMsg parsed)
          else if typ = ''heartbeat'' then map_sum id HeartbeatMsg (parseHeartbeat parsed)
          else if typ = ''error'' then map_sum id ErrorMessage (parseError parsed)
          else if typ = ''entitlementChanged'' then map_sum id EntitlementMsg (parseEntitlementChanged parsed)
          else Inl (TypeError (''Unknown server message type: '' @ json_quote typ))
      | _ \<Rightarrow> Inl (TypeError (''Server message missing string '' @ quoted ''type'' @ '' field'')))"

definition parseServerMessage :: "string \<Rightarrow> ServerMessage exn" where
  "parseServerMessage raw = bindE (json_parse raw) parse_record"

section \<open>Serializing\<close>

text \<open>\<open>serializeClientMessage\<close> works on whatever object it is handed at run time, so its argument
  here is a JavaScript object with any fields; a \<open>ClientMessage\<close> is one by \<open>client_object\<close>. The
  result is \<open>None\<close> (\<open>undefined\<close>) when the type is none of the three.\<close>

definition pickDefined :: "(string \<times> json option) list \<Rightarrow> (string \<times> json) list" where
  "pickDefined obj = map (\<lambda>(k, v). (k, the v)) (filter (\<lambda>(k, v). v \<noteq> None) obj)"

definition serializeClientMessage :: "json \<Rightarrow> string option" where
  "serializeClientMessage message =
     (case field message ''type'' of
        Some (JStr typ) \<Rightarrow>
          if typ = ''subscribe'' \<or> typ = ''unsubscribe'' then
            Some (json_stringify (JObj (pickDefined
              [(''type'', Some (JStr typ)), (''symbols'', field message ''symbols''),
               (''requestId'', field message ''requestId'')])))
          else if typ = ''ping'' then
            Some (json_stringify (JObj (pickDefined
              [(''type'', Some (JStr typ)), (''requestId'', field message ''requestId'')])))
          else None
      | _ \<Rightarrow> None)"

fun client_object :: "ClientMessage \<Rightarrow> (string \<times> json) list" where
  "client_object (Subscribe symbols requestId) = pickDefined
     [(''type'', Some (JStr ''subscribe'')), (''symbols'', Some (JArr (map JStr symbols))), (''requestId'', map_option JStr requestId)]"
| "client_object (Unsubscribe symbols requestId) = pickDefined
     [(''type'', Some (JStr ''unsubscribe'')), (''symbols'', Some (JArr (map JStr symbols))), (''requestId'', map_option JStr requestId)]"
| "client_object (Ping requestId) = pickDefined
     [(''type'', Some (JStr ''ping'')), (''requestId'', map_option JStr requestId)]"

definition client_text :: "ClientMessage \<Rightarrow> string" where
  "client_text m = the (serializeClientMessage (JObj (client_object m)))"

section \<open>What the parser guarantees\<close>

lemma requirePrice_valid: "requirePrice rec key context = Inr p \<Longrightarrow> isDecimal p"
  by (auto simp: requirePrice_def exn_simps toDecimal_def failE_def split: sum.splits if_splits)

text \<open>The contract a parsed message meets, on which the rest of the client relies.\<close>

fun snapshot_ok :: "Snapshot \<Rightarrow> bool" where
  "snapshot_ok s = (isDecimal (sn_price s) \<and> isDecimal (sn_change s) \<and> isDecimal (sn_open s) \<and>
     isDecimal (sn_high s) \<and> isDecimal (sn_low s) \<and>
     (case sn_previousClose s of None \<Rightarrow> True | Some p \<Rightarrow> isDecimal p))"

fun message_ok :: "ServerMessage \<Rightarrow> bool" where
  "message_ok (TickMsg t) = isDecimal (tk_p t)"
| "message_ok (SnapshotMsg s) = snapshot_ok s"
| "message_ok (ConnectedMsg c) =
     (case co_heartbeatIntervalMs c of Fin x \<Rightarrow> 1000 \<le> x | _ \<Rightarrow> False)"
| "message_ok _ = True"

text \<open>The only exceptions: a syntax error of the JSON text, or a type error of a field.\<close>

fun parse_error_ok :: "js_error \<Rightarrow> bool" where
  "parse_error_ok (TypeError _) = True"
| "parse_error_ok (SyntaxError _) = True"
| "parse_error_ok _ = False"

definition checked :: "('a \<Rightarrow> bool) \<Rightarrow> 'a exn \<Rightarrow> bool" where
  "checked P m = (case m of Inl e \<Rightarrow> parse_error_ok e | Inr x \<Rightarrow> P x)"

lemma checked_simps [simp]: "checked P (Inl e) = parse_error_ok e" "checked P (Inr x) = P x"
  by (simp_all add: checked_def)

lemma checked_bindE: "checked P m \<Longrightarrow> (\<And>x. P x \<Longrightarrow> checked Q (f x)) \<Longrightarrow> checked Q (bindE m f)"
  by (cases m) auto

lemma checked_map: "checked P m \<Longrightarrow> (\<And>x. P x \<Longrightarrow> Q (f x)) \<Longrightarrow> checked Q (map_sum id f m)"
  by (cases m) auto

lemma checked_if: "(c \<Longrightarrow> checked P a) \<Longrightarrow> (\<not> c \<Longrightarrow> checked P b) \<Longrightarrow> checked P (if c then a else b)"
  by simp

lemma checked_let: "(\<And>x. checked P (f x)) \<Longrightarrow> checked P (Let v f)"
  by (simp add: Let_def)

lemma checked_failE [simp]: "checked P (failE context detail)"
  by (simp add: failE_def)

lemma checked_json_error [simp]: "checked P json_error"
  by (simp add: json_error_def)

abbreviation no_check :: "'a \<Rightarrow> bool" where
  "no_check \<equiv> \<lambda>_. True"

lemma checked_string: "checked no_check (requireString rec key context)"
  by (auto simp: requireString_def split: option.splits json.splits)

lemma checked_fields:
  "checked no_check (requireIso rec key context)"
  "checked no_check (requireNumber rec key context)"
  "checked no_check (requireBoolean rec key context)"
  "checked no_check (requireStringArray rec key context)"
  "checked no_check (requireStream rec key context)"
  "checked no_check (requireTickKind rec key context)"
  "checked no_check (requireErrorCode rec key context)"
  by (auto simp: requireIso_def requireNumber_def requireBoolean_def requireStringArray_def
      requireStream_def requireTickKind_def requireErrorCode_def
      intro!: checked_bindE [OF checked_string] checked_string split: option.splits json.splits)

lemma checked_price: "checked isDecimal (requirePrice rec key context)"
  unfolding requirePrice_def
  by (auto intro!: checked_bindE [OF checked_string] simp: toDecimal_def)

lemmas checked_intros = checked_bindE [OF checked_string] checked_bindE [OF checked_fields(1)]
  checked_bindE [OF checked_fields(2)] checked_bindE [OF checked_fields(3)] checked_bindE [OF checked_fields(4)]
  checked_bindE [OF checked_fields(5)] checked_bindE [OF checked_fields(6)] checked_bindE [OF checked_fields(7)]
  checked_bindE [OF checked_price]

lemma checked_snapshot: "checked snapshot_ok (parseSnapshot value context)"
proof -
  have prev: "checked (\<lambda>p. case p of None \<Rightarrow> True | Some d \<Rightarrow> isDecimal d)
      (if field v ''previousClose'' = None then Inr None
       else bindE (requirePrice v ''previousClose'' context) (\<lambda>p. Inr (Some p)))" for v
    by (auto intro!: checked_intros)
  show ?thesis
    unfolding parseSnapshot_def
    by (cases "value") (simp_all only: option.case checked_failE,
        intro checked_if checked_failE checked_bindE [OF prev] checked_intros, simp split: option.splits)
qed

lemma checked_tick: "checked (\<lambda>t. isDecimal (tk_p t)) (parseTick rec)"
  unfolding parseTick_def Let_def by (intro checked_intros) simp

lemma checked_connected: "checked (\<lambda>c. message_ok (ConnectedMsg c)) (parseConnected rec)"
  unfolding parseConnected_def Let_def
  by (intro checked_intros checked_if checked_failE)
    (auto simp: num_is_finite_def of_count_def MIN_HEARTBEAT_INTERVAL_MS_def split: number.splits)

lemma checked_others:
  "checked no_check (parseSubscribed rec)" "checked no_check (parseUnsubscribed rec)"
  "checked no_check (parseHeartbeat rec)" "checked no_check (parseError rec)"
  "checked no_check (parseEntitlementChanged rec)"
  unfolding parseSubscribed_def parseUnsubscribed_def parseHeartbeat_def parseError_def
    parseEntitlementChanged_def Let_def
  by (intro checked_intros checked_simps(2) [THEN iffD2] TrueI)+

lemma checked_record: "checked message_ok (parse_record parsed)"
proof -
  have c: "checked message_ok (map_sum id ConnectedMsg (parseConnected parsed))"
    "checked message_ok (map_sum id SubscribedMsg (parseSubscribed parsed))"
    "checked message_ok (map_sum id UnsubscribedMsg (parseUnsubscribed parsed))"
    "checked message_ok (map_sum id TickMsg (parseTick parsed))"
    "checked message_ok (map_sum id SnapshotMsg (parseSnapshotMsg parsed))"
    "checked message_ok (map_sum id HeartbeatMsg (parseHeartbeat parsed))"
    "checked message_ok (map_sum id ErrorMessage (parseError parsed))"
    "checked message_ok (map_sum id EntitlementMsg (parseEntitlementChanged parsed))"
    unfolding parseSnapshotMsg_def
    by (rule checked_map [OF checked_connected] checked_map [OF checked_tick] checked_map [OF checked_snapshot]
        checked_map [OF checked_others(1)] checked_map [OF checked_others(2)] checked_map [OF checked_others(3)]
        checked_map [OF checked_others(4)] checked_map [OF checked_others(5)]; simp only: message_ok.simps)+
  show ?thesis
    unfolding parse_record_def
    by (cases "field parsed ''type''"; (cases "the (field parsed ''type'')")?)
      (simp_all only: option.case json.case option.sel if_True if_False c checked_if checked_simps parse_error_ok.simps if_cancel)
qed

lemma checked_before: "checked no_check m \<Longrightarrow> checked no_check (before u m)"
  by (cases m) (auto simp: before_def)

lemma checked_chars: "checked no_check (parse_chars s)"
proof (induction s rule: parse_chars.induct)
  case (2 c cs)
  have esc: "checked no_check
      (if e = CHR ''u'' then
         (case unicode_escape ds of None \<Rightarrow> json_error | Some (u, r) \<Rightarrow> before u (parse_chars r))
       else (case simple_escape e of None \<Rightarrow> json_error | Some x \<Rightarrow> before [x] (parse_chars ds)))"
    if "cs = e # ds" "c = CHR 0x5C" "c \<noteq> CHR 0x22" "\<not> (of_char c :: nat) < 32" for e ds
  proof (cases "e = CHR ''u''")
    case True
    show ?thesis
    proof (cases "unicode_escape ds")
      case (Some p)
      obtain u r where p: "p = (u, r)" by force
      show ?thesis
        unfolding if_P [OF True] Some p option.case prod.case
        by (rule checked_before) (use 2(2) that True Some p in blast)
    qed (simp add: True)
  next
    case False
    show ?thesis
    proof (cases "simple_escape e")
      case (Some x)
      show ?thesis
        unfolding if_not_P [OF False] Some option.case
        by (rule checked_before) (use 2(3) that False Some in blast)
    qed (simp add: False)
  qed
  show ?case
    unfolding parse_chars.simps(2)
    by (intro checked_if checked_before) (use 2(1) esc in \<open>auto simp del: parse_chars.simps split: list.split\<close>)
qed simp

lemma checked_number: "checked no_check (parse_number s)"
  unfolding parse_number_def
  by ((rule checked_let)+, rule checked_if, rule checked_json_error, simp only: checked_simps)

lemma checked_case_pair:
  "checked no_check m \<Longrightarrow> (\<And>u r. m = Inr (u, r) \<Longrightarrow> checked P (f u r)) \<Longrightarrow>
   checked P (case m of Inl e \<Rightarrow> Inl e | Inr (u, r) \<Rightarrow> f u r)"
  by (auto split: sum.split)

lemma checked_case_list:
  "checked P a \<Longrightarrow> (\<And>c cs. xs = c # cs \<Longrightarrow> checked P (f c cs)) \<Longrightarrow>
   checked P (case xs of [] \<Rightarrow> a | c # cs \<Rightarrow> f c cs)"
  by (cases xs) auto

lemma checked_true: "checked no_check (Inr x)"
  by simp

lemmas checked_parse = checked_case_list checked_json_error checked_if checked_true

lemma checked_values:
  "checked no_check (parse_value s)"
  "checked no_check (parse_elements s)"
  "checked no_check (parse_members acc s)"
proof (induction s and s and acc s rule: parse_value_parse_elements_parse_members.induct)
  case (1 s)
  show ?case
    unfolding parse_value.simps [of s]
    by (intro checked_parse checked_case_pair checked_chars checked_number) (rule 1(1) 1(2); assumption)+
next
  case (2 s)
  show ?case
    unfolding parse_elements.simps [of s]
    by (intro checked_parse checked_case_pair) (rule 2(1) 2(2) [OF _ refl]; assumption)+
next
  case (3 acc s)
  show ?case
    unfolding parse_members.simps [of acc s]
    by (intro checked_parse checked_case_pair checked_chars)
      (rule 3(1) [OF _ _ _ refl] 3(2) [OF _ _ _ refl _ _ _ refl]; assumption)+
qed

lemma checked_json_parse: "checked no_check (json_parse s)"
  unfolding json_parse_def by (intro checked_case_pair checked_values checked_parse)


section \<open>Forward compatibility\<close>

text \<open>The fields the parser reads at the top level of a message, and in a snapshot.\<close>

definition message_fields :: "string list" where
  "message_fields = [''type'', ''heartbeatIntervalMs'', ''userId'', ''stream'', ''sessionId'', ''serverTime'',
     ''requestId'', ''accepted'', ''rejected'', ''s'', ''p'', ''q'', ''k'', ''t'', ''id'', ''st'',
     ''snapshot'', ''code'', ''message'', ''resubscribeRequired'', ''effectiveFrom'']"

definition snapshot_fields :: "string list" where
  "snapshot_fields = [''symbol'', ''stream'', ''price'', ''change'', ''changePercent'', ''open'', ''previousClose'',
     ''high'', ''low'', ''volume'', ''lastEventId'', ''exchangeTimestamp'', ''snapshotAge'', ''simulated'']"

definition same_fields :: "string list \<Rightarrow> json \<Rightarrow> json \<Rightarrow> bool" where
  "same_fields ks a b = (isRecord a = isRecord b \<and> (\<forall>k \<in> set ks. field a k = field b k))"

lemma require_cong:
  assumes "field a key = field b key"
  shows "requireString a key c = requireString b key c" "optionalString a key = optionalString b key"
    "requireNumber a key c = requireNumber b key c" "requireBoolean a key c = requireBoolean b key c"
    "requireStringArray a key c = requireStringArray b key c" "requireStream a key c = requireStream b key c"
    "requireTickKind a key c = requireTickKind b key c" "requireErrorCode a key c = requireErrorCode b key c"
    "requirePrice a key c = requirePrice b key c" "requireIso a key c = requireIso b key c"
  using assms by (simp_all add: requireString_def optionalString_def requireNumber_def requireBoolean_def
      requireStringArray_def requireStream_def requireTickKind_def requireErrorCode_def requirePrice_def requireIso_def)

lemma parseSnapshot_cong:
  assumes "same_fields snapshot_fields a b"
  shows "parseSnapshot (Some a) c = parseSnapshot (Some b) c"
proof -
  have f: "field a k = field b k" if "k \<in> set snapshot_fields" for k
    using assms that by (simp add: same_fields_def)
  note r = require_cong [OF f, unfolded snapshot_fields_def]
  show ?thesis
    using assms f [unfolded snapshot_fields_def]
    by (simp add: parseSnapshot_def r same_fields_def)
qed

text \<open>Two messages that differ only in fields the parser does not read.\<close>

definition same_message :: "json \<Rightarrow> json \<Rightarrow> bool" where
  "same_message a b =
     (isRecord a = isRecord b \<and> (\<forall>k \<in> set message_fields. field a k = field b k) \<and>
      (case (field a ''snapshot'', field b ''snapshot'') of
         (Some x, Some y) \<Rightarrow> same_fields snapshot_fields x y | (None, None) \<Rightarrow> True | _ \<Rightarrow> False))"

lemma parse_record_cong:
  assumes "same_message a b"
  shows "parse_record a = parse_record b"
proof -
  have i: "isRecord a = isRecord b" using assms by (simp add: same_message_def)
  have f: "field a k = field b k" if "k \<in> set message_fields" for k
    using assms that by (simp add: same_message_def)
  note r = require_cong [OF f, unfolded message_fields_def]
  have snap: "parseSnapshotMsg a = parseSnapshotMsg b"
    using assms parseSnapshot_cong
    by (auto simp: same_message_def parseSnapshotMsg_def split: option.splits)
  have "parseConnected a = parseConnected b" "parseSubscribed a = parseSubscribed b"
    "parseUnsubscribed a = parseUnsubscribed b" "parseTick a = parseTick b"
    "parseHeartbeat a = parseHeartbeat b"
    "parseError a = parseError b" "parseEntitlementChanged a = parseEntitlementChanged b"
    by (simp_all add: parseConnected_def parseSubscribed_def parseUnsubscribed_def parseTick_def
        parseHeartbeat_def parseError_def parseEntitlementChanged_def r cong: if_cong)
  moreover have "field a ''type'' = field b ''type''" by (rule f) (simp add: message_fields_def)
  ultimately show ?thesis unfolding parse_record_def i using snap by presburger
qed

text \<open>A field the contract does not name changes nothing, at the top level of a message
  or inside a snapshot: two texts that agree on the known fields parse to the same message, or
  fail with the same error.\<close>

theorem unknown_fields_ignored:
  assumes "json_parse raw = Inr a" and "json_parse raw' = Inr b" and "same_message a b"
  shows "parseServerMessage raw = parseServerMessage raw'"
  using parse_record_cong [OF assms(3)] by (simp add: parseServerMessage_def assms(1,2))

definition heartbeat_obj :: "(string \<times> json) list \<Rightarrow> json" where
  "heartbeat_obj extra = JObj ([(''type'', JStr ''heartbeat''), (''serverTime'', JStr ''T'')] @ extra)"

theorem unknown_fields_ignored_witness:
  "parseServerMessage (json_stringify (heartbeat_obj [(''region'', JArr [JStr ''eg''])])) =
     parseServerMessage (json_stringify (heartbeat_obj [])) \<and>
   parseServerMessage (json_stringify (heartbeat_obj [])) = Inr (HeartbeatMsg \<lparr>hb_serverTime = ''T''\<rparr>)"
proof -
  have "json_parse (json_stringify (heartbeat_obj x)) = Inr (heartbeat_obj x)"
    if "x = [] \<or> x = [(''region'', JArr [JStr ''eg''])]" for x
    using that by (intro json_parse_stringify) (auto simp: heartbeat_obj_def)
  note p = this [of "[]"] this [of "[(''region'', JArr [JStr ''eg''])]"]
  have "same_message (heartbeat_obj [(''region'', JArr [JStr ''eg''])]) (heartbeat_obj [])"
    by code_simp
  moreover have "parse_record (heartbeat_obj []) = Inr (HeartbeatMsg \<lparr>hb_serverTime = ''T''\<rparr>)" by code_simp
  ultimately show ?thesis
    using p unknown_fields_ignored by (simp add: parseServerMessage_def)
qed

section \<open>Outbound texts\<close>

definition allowed_fields :: "string list" where
  "allowed_fields = [''type'', ''symbols'', ''requestId'']"

lemma pickDefined_keys: "map fst (pickDefined obj) = map fst (filter (\<lambda>(k, v). v \<noteq> None) obj)"
  by (simp add: pickDefined_def case_prod_unfold)

lemma pickDefined_iff: "(k, v) \<in> set (pickDefined obj) \<longleftrightarrow> (k, Some v) \<in> set obj"
  by (force simp: pickDefined_def)

lemma pickDefined_number_free:
  assumes "distinct (map fst obj)" and "\<And>k v. (k, Some v) \<in> set obj \<Longrightarrow> number_free v"
  shows "number_free (JObj (pickDefined obj))"
proof -
  have "distinct (map fst (filter (\<lambda>(k, v). v \<noteq> None) obj))"
    using assms(1) by (induction obj) auto
  then show ?thesis
    using assms(2) by (auto simp: list_all_iff pickDefined_keys pickDefined_iff simp flip: pickDefined_iff)
qed

lemma serialize_picks:
  assumes "serializeClientMessage m = Some out"
  shows "\<exists>obj. out = json_stringify (JObj (pickDefined obj)) \<and> distinct (map fst obj) \<and>
     (\<forall>k v. (k, Some v) \<in> set obj \<longrightarrow> field m k = Some v \<and> k \<in> set allowed_fields) \<and>
     (''type'', field m ''type'') \<in> set obj"
proof -
  obtain ty where ty: "field m ''type'' = Some (JStr ty)"
    using assms by (auto simp: serializeClientMessage_def split: option.splits json.splits)
  define obj where "obj = (if ty = ''ping'' then [(''type'', Some (JStr ty)), (''requestId'', field m ''requestId'')]
    else [(''type'', Some (JStr ty)), (''symbols'', field m ''symbols''), (''requestId'', field m ''requestId'')])"
  have "out = json_stringify (JObj (pickDefined obj))"
    using assms ty unfolding serializeClientMessage_def obj_def
    by (auto split: if_splits simp del: json_stringify.simps)
  moreover have "distinct (map fst obj)" "(''type'', field m ''type'') \<in> set obj"
    by (simp_all add: obj_def ty)
  moreover have "\<forall>k v. (k, Some v) \<in> set obj \<longrightarrow> field m k = Some v \<and> k \<in> set allowed_fields"
    using ty by (auto simp: obj_def allowed_fields_def)
  ultimately show ?thesis by blast
qed


definition smuggling :: json where
  "smuggling = JObj [(''type'', JStr ''subscribe''), (''stream'', JStr ''LIVE''),
     (''symbols'', JArr [JStr ''COMI'']), (''userId'', JStr ''u1'')]"


text \<open>A typed message reaches the wire as its own object.\<close>

lemma client_text_parses: "json_parse (client_text m) = Inr (JObj (client_object m))"
proof -
  have nf: "number_free (JObj (client_object m))"
    by (cases m; cases "case m of Subscribe _ r \<Rightarrow> r | Unsubscribe _ r \<Rightarrow> r | Ping r \<Rightarrow> r")
      (auto simp: pickDefined_def list_all_iff)
  have "serializeClientMessage (JObj (client_object m)) = Some (json_stringify (JObj (client_object m)))"
    by (cases m; cases "case m of Subscribe _ r \<Rightarrow> r | Unsubscribe _ r \<Rightarrow> r | Ping r \<Rightarrow> r")
      (auto simp: pickDefined_def serializeClientMessage_def jget_def)
  then show ?thesis by (simp add: client_text_def json_parse_stringify [OF nf] del: json_stringify.simps)
qed

end
