(* ===== verification/Reconnect.thy ===== *)
theory Reconnect
  imports Js_Timers Messages
begin

text \<open>
  data/reconnect.ts: the backoff policy and the heartbeat watchdog. \<open>nextDelay\<close> is computed in
  doubles, rounding at every operation; the random number is an argument. The watchdog is a
  state (its handle and its stopped flag) beside the event loop's timers; \<open>wd_step\<close> is the
  relation of everything that can happen to it, and a fired watchdog is recorded with its time.

  The lemmas: the default policy's delay lies within 20% of the doubled centre; the watchdog
  never fires before two intervals of silence, fires at most once, never after \<open>stop\<close>, and can
  always fire once the deadline has passed.
\<close>

section \<open>Backoff\<close>

record BackoffPolicy =
  bp_baseMs :: rat
  bp_ceilingMs :: rat
  bp_jitter :: rat

definition DEFAULT_BACKOFF_POLICY :: BackoffPolicy where
  "DEFAULT_BACKOFF_POLICY = \<lparr>bp_baseMs = 500, bp_ceilingMs = 30000, bp_jitter = fl (2 / 10)\<rparr>"

definition nextDelay :: "nat \<Rightarrow> BackoffPolicy \<Rightarrow> rat \<Rightarrow> rat" where
  "nextDelay attempt policy rand =
     (let centre = min (fl (bp_baseMs policy * pow2 (int attempt - 1))) (bp_ceilingMs policy);
          spn = fl (centre * bp_jitter policy);
          low = fl (centre - spn);
          high = fl (centre + spn)
      in fl (low + fl (rand * fl (high - low))))"

fun shouldReconnect :: "CloseCode \<Rightarrow> bool" where
  "shouldReconnect Normal = False"
| "shouldReconnect Unauthenticated = False"
| "shouldReconnect TokenExpired = True"
| "shouldReconnect HeartbeatTimeout = True"
| "shouldReconnect SlowConsumer = True"

section \<open>Heartbeat watchdog\<close>

record Watchdog =
  wd_deadlineMs :: rat
  wd_handle :: "nat option"
  wd_stopped :: bool

definition wd_arm :: "'c \<Rightarrow> Watchdog \<times> 'c timers \<Rightarrow> Watchdog \<times> 'c timers" where
  "wd_arm cb s = (let (wd, tm) = s in
     if wd_stopped wd then (wd, tm)
     else let (h, tm') = setTimeout (clear_handle tm (wd_handle wd)) cb (wd_deadlineMs wd)
          in (wd\<lparr>wd_handle := Some h\<rparr>, tm'))"

definition createHeartbeatWatchdog :: "'c \<Rightarrow> rat \<Rightarrow> 'c timers \<Rightarrow> Watchdog \<times> 'c timers" where
  "createHeartbeatWatchdog cb heartbeatIntervalMs tm =
     wd_arm cb (\<lparr>wd_deadlineMs = fl (heartbeatIntervalMs * 2), wd_handle = None, wd_stopped = False\<rparr>, tm)"

definition wd_pulse :: "'c \<Rightarrow> Watchdog \<times> 'c timers \<Rightarrow> Watchdog \<times> 'c timers" where
  "wd_pulse cb s = wd_arm cb s"

definition wd_stop :: "Watchdog \<times> 'c timers \<Rightarrow> Watchdog \<times> 'c timers" where
  "wd_stop s = (let (wd, tm) = s in
     (wd\<lparr>wd_stopped := True, wd_handle := None\<rparr>, clear_handle tm (wd_handle wd)))"

text \<open>The callback the timer runs, before it calls \<open>onTimeout\<close>.\<close>

definition wd_expire :: "Watchdog \<Rightarrow> Watchdog" where
  "wd_expire wd = wd\<lparr>wd_handle := None, wd_stopped := True\<rparr>"

section \<open>What the watchdog guarantees\<close>

text \<open>A run of one watchdog alone with its timers: the state, the timers, the time of the last
  sign of life, and the times \<open>onTimeout\<close> was called, latest first.\<close>

type_synonym wd_run = "(Watchdog \<times> unit timers) \<times> rat \<times> rat list"

inductive wd_step :: "wd_run \<Rightarrow> wd_run \<Rightarrow> bool" where
  tick: "wd_step ((wd, tm), p, fs) ((wd, advance tm d), p, fs)"
| pulse: "wd_step (s, p, fs) (wd_pulse () s, if wd_stopped (fst s) then p else tm_now (snd s), fs)"
| stop: "wd_step (s, p, fs) (wd_stop s, p, fs)"
| fire: "due_timer tm h = Some (cb, tm') \<Longrightarrow> wd_step ((wd, tm), p, fs) ((wd_expire wd, tm'), p, tm_now tm # fs)"

definition wd_start :: "rat \<Rightarrow> rat \<Rightarrow> wd_run" where
  "wd_start t0 interval = (createHeartbeatWatchdog () interval (start_timers t0), t0, [])"

inductive_cases wd_stepE: "wd_step s s'"

text \<open>The invariant: exactly the watchdog's own timer is armed, at the last sign of life plus the
  deadline, unless it has stopped; and it has fired only if it has stopped.\<close>

fun wd_inv :: "rat \<Rightarrow> wd_run \<Rightarrow> bool" where
  "wd_inv dl ((wd, tm), p, fs) =
     (wd_deadlineMs wd = dl \<and> timers_ok tm \<and> p \<le> tm_now tm \<and>
      (if wd_stopped wd
       then (\<forall>h. jget (tm_armed tm) h = None) \<and> length fs \<le> 1 \<and> (\<forall>t \<in> set fs. p + timer_delay dl \<le> t)
       else fs = [] \<and> (\<exists>n. wd_handle wd = Some n \<and>
          (\<forall>h. jget (tm_armed tm) h =
            (if h = n then Some \<lparr>ti_due = p + timer_delay dl, ti_every = None, ti_callback = ()\<rparr> else None)))))"

lemma timers_ok_setTimeout [simp]: "timers_ok tm \<Longrightarrow> timers_ok (snd (setTimeout tm cb ms))"
  by (simp add: setTimeout_def)

lemma wd_arm_eq:
  "wd_arm cb (wd, tm) = (if wd_stopped wd then (wd, tm)
     else (wd\<lparr>wd_handle := Some (tm_next tm)\<rparr>, snd (setTimeout (clear_handle tm (wd_handle wd)) cb (wd_deadlineMs wd))))"
  by (simp add: wd_arm_def case_prod_unfold)

lemma wd_inv_start: "0 \<le> interval \<Longrightarrow> wd_inv (fl (interval * 2)) (wd_start t0 interval)"
  by (simp add: wd_start_def createHeartbeatWatchdog_def wd_arm_eq start_timers_def clear_handle_def
      timers_ok_def fl_nonneg less_Suc_eq)

lemma wd_inv_step:
  assumes "wd_step s s'" and "wd_inv dl s" and "0 \<le> dl"
  shows "wd_inv dl s'"
  using assms
proof (induction rule: wd_step.induct)
  case (tick wd tm p fs d)
  then show ?case by (auto simp: advance_def timers_ok_def)
next
  case (pulse s p fs)
  obtain wd tm where s: "s = (wd, tm)" by force
  show ?case
  proof (cases "wd_stopped wd")
    case False
    then obtain n where n: "wd_handle wd = Some n"
      "\<And>h. jget (tm_armed tm) h = (if h = n then Some \<lparr>ti_due = p + timer_delay dl, ti_every = None, ti_callback = ()\<rparr> else None)"
      using pulse by (auto simp: s)
    then show ?thesis
      using pulse False by (simp add: s wd_pulse_def wd_arm_eq armed_clear_handle max_absorb2)
  qed (use pulse in \<open>simp add: s wd_pulse_def wd_arm_eq\<close>)
next
  case (stop s p fs)
  obtain wd tm where s: "s = (wd, tm)" by force
  show ?case using stop
    by (auto simp: s wd_stop_def armed_clear_handle split: if_splits)
next
  case (fire tm h cb tm' wd p fs)
  then have ns: "\<not> wd_stopped wd" by (auto simp: due_timer_def split: option.splits)
  then obtain n where n: "\<And>h. jget (tm_armed tm) h =
      (if h = n then Some \<lparr>ti_due = p + timer_delay dl, ti_every = None, ti_callback = ()\<rparr> else None)"
    using fire.prems by auto
  have h: "h = n" "p + timer_delay dl \<le> tm_now tm" "tm' = clearTimeout tm h"
    using fire.hyps by (auto simp: due_timer_def n split: if_splits)
  then show ?case using fire.prems ns n by (simp add: wd_expire_def)
qed

lemma wd_inv_reach:
  assumes "wd_step\<^sup>*\<^sup>* (wd_start t0 interval) s" and "0 \<le> interval"
  shows "wd_inv (fl (interval * 2)) s"
  using assms(1)
proof (induction rule: rtranclp_induct)
  case base
  show ?case using wd_inv_start assms(2) .
next
  case (step y z)
  then show ?case using wd_inv_step assms(2) by (simp add: fl_nonneg)
qed

text \<open>Claim C36: the watchdog calls \<open>onTimeout\<close> at most once, and only when two intervals have gone by
  since the last sign of life; once stopped it never fires again; and while it runs, as soon as
  the deadline has passed it can fire.\<close>

theorem watchdog_correct:
  assumes "wd_step\<^sup>*\<^sup>* (wd_start t0 interval) ((wd, tm), p, fs)" and "0 \<le> interval"
    and "fl (interval * 2) < 2147483648"
  defines "D \<equiv> of_int \<lfloor>fl (interval * 2)\<rfloor>"
  shows "length fs \<le> 1 \<and> (\<forall>t \<in> set fs. p + D \<le> t) \<and>
    (wd_stopped wd \<longrightarrow> (\<forall>s'. wd_step ((wd, tm), p, fs) s' \<longrightarrow> snd (snd s') = fs \<and> wd_stopped (fst (fst s')))) \<and>
    (\<not> wd_stopped wd \<longrightarrow> fs = [] \<and> (p + D \<le> tm_now tm \<longrightarrow>
       (\<exists>s'. wd_step ((wd, tm), p, fs) s' \<and> snd (snd s') = [tm_now tm] \<and> wd_stopped (fst (fst s')))))"
proof -
  have inv: "wd_inv (fl (interval * 2)) ((wd, tm), p, fs)" using wd_inv_reach [OF assms(1,2)] .
  have D: "timer_delay (fl (interval * 2)) = D" using timer_delay_small assms(2,3) by (simp add: D_def fl_nonneg)
  have quiet: "snd (snd s') = fs \<and> wd_stopped (fst (fst s'))"
    if "wd_stopped wd" "wd_step ((wd, tm), p, fs) s'" for s'
    using that(2)
  proof (cases rule: wd_step.cases)
    case (fire h cb tm')
    then show ?thesis using inv that(1) by (auto simp: due_timer_def)
  qed (use that in \<open>auto simp: wd_pulse_def wd_arm_eq wd_stop_def\<close>)
  have fires: "\<exists>s'. wd_step ((wd, tm), p, fs) s' \<and> snd (snd s') = [tm_now tm] \<and> wd_stopped (fst (fst s'))"
    if "\<not> wd_stopped wd" and due: "p + D \<le> tm_now tm"
  proof -
    have "\<exists>n. jget (tm_armed tm) n = Some \<lparr>ti_due = p + D, ti_every = None, ti_callback = ()\<rparr>"
      using inv that(1) by (auto simp: D)
    then obtain n where "jget (tm_armed tm) n = Some \<lparr>ti_due = p + D, ti_every = None, ti_callback = ()\<rparr>" ..
    then have "due_timer tm n = Some ((), clearTimeout tm n)"
      using due by (simp add: due_timer_def)
    from wd_step.fire [OF this, of wd p fs] show ?thesis
      using inv that(1) by (intro exI [of _ "((wd_expire wd, clearTimeout tm n), p, tm_now tm # fs)"])
        (simp add: wd_expire_def)
  qed
  show ?thesis using inv quiet fires by (auto simp: D split: if_splits)
qed

theorem watchdog_correct_witness:
  "\<exists>wd tm. wd_step\<^sup>*\<^sup>* (wd_start 0 15000) ((wd, tm), 0, []) \<and> tm_now tm = 30000 \<and>
     (\<exists>s'. wd_step ((wd, tm), 0, []) s' \<and> snd (snd s') = [30000])"
proof -
  define s where "s = wd_start 0 15000"
  define wd where "wd = fst (fst s)"
  define tm where "tm = advance (snd (fst s)) 30000"
  have "s = ((wd, snd (fst s)), 0, [])" by (simp add: s_def wd_def wd_start_def)
  then have "wd_step s ((wd, tm), 0, [])" using wd_step.tick [of wd "snd (fst s)" 0 "[]" 30000] by (simp add: tm_def)
  then have r: "wd_step\<^sup>*\<^sup>* (wd_start 0 15000) ((wd, tm), 0, [])" by (auto simp: s_def)
  have "\<not> wd_stopped wd" "tm_now tm = 30000" "fl (15000 * 2) = 30000"
    unfolding wd_def tm_def s_def by code_simp+
  then have "\<exists>s'. wd_step ((wd, tm), 0, []) s' \<and> snd (snd s') = [30000]"
    using watchdog_correct [OF r] by auto
  with r \<open>tm_now tm = 30000\<close> show ?thesis by blast
qed

text \<open>The 2^31 limit of the theorem above is real and the message parser does not enforce it:
  an interval whose double is from 2^31 to 2^32 ms passes \<open>parseConnected\<close>, which has a floor but no
  ceiling, yet the timer's 32-bit delay wraps to 0 and the watchdog can fire at the very instant it
  is created.\<close>

theorem watchdog_wraps:
  assumes "2147483648 \<le> fl (interval * 2)" and "fl (interval * 2) < 4294967296"
  shows "\<exists>s'. wd_step (wd_start t0 interval) s' \<and> snd (snd s') = [t0]"
proof -
  obtain wd tm where st: "wd_start t0 interval = ((wd, tm), t0, [])"
    by (cases "fst (wd_start t0 interval)") (auto simp: wd_start_def)
  have "jget (tm_armed tm) 0 = Some \<lparr>ti_due = t0 + timer_delay (fl (interval * 2)), ti_every = None, ti_callback = ()\<rparr>" "tm_now tm = t0"
    using st by (auto simp: wd_start_def createHeartbeatWatchdog_def wd_arm_eq start_timers_def clear_handle_def)
  then have "due_timer tm 0 = Some ((), clearTimeout tm 0)"
    using timer_delay_overflow [OF assms] by (simp add: due_timer_def)
  from wd_step.fire [OF this, of wd t0 "[]"] \<open>tm_now tm = t0\<close> show ?thesis
    unfolding st by (intro exI [of _ "((wd_expire wd, clearTimeout tm 0), t0, [t0])"]) simp
qed

theorem watchdog_wraps_witness:
  "map_sum id co_heartbeatIntervalMs (parseConnected (JObj [(''userId'', JStr ''u''), (''stream'', JStr ''LIVE''),
      (''sessionId'', JStr ''s''), (''heartbeatIntervalMs'', JNum (Fin 1500000000)), (''serverTime'', JStr ''t'')])) =
     Inr (Fin 1500000000) \<and>
   (\<exists>s'. wd_step (wd_start 0 1500000000) s' \<and> snd (snd s') = [0])"
proof -
  have "map_sum id co_heartbeatIntervalMs (parseConnected (JObj [(''userId'', JStr ''u''), (''stream'', JStr ''LIVE''),
      (''sessionId'', JStr ''s''), (''heartbeatIntervalMs'', JNum (Fin 1500000000)), (''serverTime'', JStr ''t'')])) =
     Inr (Fin 1500000000)" by code_simp
  moreover have "fl (1500000000 * 2) = 3000000000" by code_simp
  ultimately show ?thesis using watchdog_wraps [of 1500000000 0] by simp
qed

section \<open>The delay stays within the jitter\<close>

definition centres :: "int list" where
  "centres = [500, 1000, 2000, 4000, 8000, 16000, 30000]"

lemma centre_cases:
  assumes "1 \<le> attempt"
  shows "\<exists>c \<in> set centres. min (fl (500 * pow2 (int attempt - 1))) 30000 = of_int c \<and>
    min (500 * 2 ^ (attempt - 1)) 30000 = (of_int c :: rat)"
proof -
  define k where "k = attempt - 1"
  have pow: "pow2 (int attempt - 1) = 2 ^ k"
    using assms by (simp add: k_def pow2_def nat_diff_distrib)
  show ?thesis
  proof (cases "k \<le> 5")
    case True
    have f: "fl (500 * 2 ^ k) = 500 * 2 ^ k"
    proof -
      have "(2::int) ^ k \<le> 2 ^ 5" using True by (intro power_increasing) simp_all
      then have "fl (of_int (500 * 2 ^ k)) = of_int (500 * 2 ^ k)" by (intro fl_of_int) simp
      then show ?thesis by simp
    qed
    have "k \<in> {0, 1, 2, 3, 4, 5}" using True by auto
    then show ?thesis using f unfolding pow k_def [symmetric] by (auto simp: centres_def)
  next
    case False
    then have "(2::rat) ^ 6 \<le> 2 ^ k" by (intro power_increasing) simp_all
    then have big: "(30000::rat) \<le> 500 * 2 ^ k" by simp
    have "30000 \<le> fl (500 * 2 ^ k)"
      using fl_ge_rep [OF big] double_rep_of_int [of 30000] by simp
    then show ?thesis
      using big unfolding pow k_def [symmetric] by (intro bexI [of _ 30000]) (simp_all add: centres_def min_absorb2)
  qed
qed

lemma centre_spread:
  assumes "c \<in> set centres"
  shows "fl (of_int c * fl (2 / 10)) = of_int (c div 5) \<and> (\<exists>m. c = 10 * m) \<and> 0 \<le> c \<and> c \<le> 30000"
proof -
  have e: "fl (2 / 10) = 3602879701896397 / 18014398509481984" by code_simp
  have "\<forall>c \<in> set centres. fl (of_int c * (3602879701896397 / 18014398509481984)) = of_int (c div 5)"
    by code_simp
  moreover have "(\<exists>m. c = 10 * m) \<and> 0 \<le> c \<and> c \<le> 30000"
    using assms by (simp add: centres_def) presburger
  ultimately show ?thesis unfolding e using assms by blast
qed

lemma between_reps:
  assumes "0 \<le> r" "r \<le> 1" "0 \<le> a" "0 \<le> w" "a + w \<le> 2 ^ 53"
  shows "of_int a \<le> fl (of_int a + fl (r * of_int w))" and "fl (of_int a + fl (r * of_int w)) \<le> of_int (a + w)"
proof -
  have "r * of_int w \<le> of_int w" using assms(2,4) by (simp add: mult_left_le_one_le assms(1))
  then have hi: "fl (r * of_int w) \<le> of_int w"
    using assms by (intro fl_le_rep double_rep_of_int) simp_all
  have lo: "0 \<le> fl (r * of_int w)" using assms by (intro fl_nonneg) simp
  show "of_int a \<le> fl (of_int a + fl (r * of_int w))"
    using lo assms by (intro fl_ge_rep double_rep_of_int) simp_all
  show "fl (of_int a + fl (r * of_int w)) \<le> of_int (a + w)"
    using hi assms by (intro fl_le_rep double_rep_of_int) simp_all
qed

lemma nextDelay_range:
  assumes "1 \<le> attempt" and "0 \<le> r" and "r \<le> 1"
  defines "c \<equiv> min (500 * 2 ^ (attempt - 1)) 30000"
  shows "c * 4 / 5 \<le> nextDelay attempt DEFAULT_BACKOFF_POLICY r \<and>
    nextDelay attempt DEFAULT_BACKOFF_POLICY r \<le> c * 6 / 5 \<and>
    nextDelay attempt DEFAULT_BACKOFF_POLICY (1 / 2) = c"
proof -
  obtain n where n: "n \<in> set centres" "min (fl (500 * pow2 (int attempt - 1))) 30000 = of_int n" "c = of_int n"
    using centre_cases [OF assms(1)] unfolding c_def by blast
  obtain m where m: "n = 10 * m" "0 \<le> n" "n \<le> 30000" and spn: "fl (of_int n * fl (2 / 10)) = of_int (n div 5)"
    using centre_spread [OF n(1)] by blast
  have parts: "fl (of_int n - of_int (n div 5)) = of_int (8 * m)"
    "fl (fl (of_int n + of_int (n div 5)) - of_int (8 * m)) = of_int (4 * m)"
  proof -
    have "of_int n - of_int (n div 5) = (of_int (8 * m) :: rat)" "of_int n + of_int (n div 5) = (of_int (12 * m) :: rat)"
      "of_int (12 * m) - of_int (8 * m) = (of_int (4 * m) :: rat)" by (simp_all add: m(1))
    moreover have "fl (of_int (8 * m)) = of_int (8 * m)" "fl (of_int (12 * m)) = of_int (12 * m)"
      "fl (of_int (4 * m)) = of_int (4 * m)" by (rule fl_of_int, use m in simp)+
    ultimately show "fl (of_int n - of_int (n div 5)) = of_int (8 * m)"
      "fl (fl (of_int n + of_int (n div 5)) - of_int (8 * m)) = of_int (4 * m)" by simp_all
  qed
  have delay: "nextDelay attempt DEFAULT_BACKOFF_POLICY x = fl (of_int (8 * m) + fl (x * of_int (4 * m)))" for x
    unfolding nextDelay_def DEFAULT_BACKOFF_POLICY_def Let_def BackoffPolicy.simps n(2) spn parts ..
  have b: "0 \<le> m" "m \<le> 3000" using m by auto
  have mid: "fl (of_int (2 * m)) = of_int (2 * m)" "fl (of_int (10 * m)) = of_int (10 * m)"
    by (rule fl_of_int, use b in simp)+
  have "1 / 2 * of_int (4 * m) = (of_int (2 * m) :: rat)" "of_int (8 * m) + of_int (2 * m) = (of_int (10 * m) :: rat)"
    by simp_all
  then have "nextDelay attempt DEFAULT_BACKOFF_POLICY (1 / 2) = of_int (10 * m)"
    unfolding delay by (simp only: mid)
  moreover have "of_int (8 * m) \<le> nextDelay attempt DEFAULT_BACKOFF_POLICY r"
    "nextDelay attempt DEFAULT_BACKOFF_POLICY r \<le> of_int (8 * m + 4 * m)"
    unfolding delay using between_reps [OF assms(2,3), of "8 * m" "4 * m"] b by simp_all
  moreover have "c = of_int (10 * m)" using n(3) m by simp
  ultimately show ?thesis by simp
qed

text \<open>With the default policy the delay before a retry is within 20% of its centre, which
  is 500 ms doubled per attempt up to 30 s, whatever the random number; and with the random
  number one half it is the centre, rounding of the arithmetic included.\<close>

theorem nextDelay_default:
  assumes "1 \<le> attempt" and "0 \<le> r" and "r \<le> 1"
  defines "c \<equiv> min (500 * 2 ^ (attempt - 1)) 30000"
  shows "c * 4 / 5 \<le> nextDelay attempt DEFAULT_BACKOFF_POLICY r \<and>
    nextDelay attempt DEFAULT_BACKOFF_POLICY r \<le> c * 6 / 5 \<and>
    nextDelay attempt DEFAULT_BACKOFF_POLICY (1 / 2) = c"
  unfolding c_def by (rule nextDelay_range [OF assms(1-3)])

theorem nextDelay_default_witness:
  "8 * 100 \<le> nextDelay 2 DEFAULT_BACKOFF_POLICY (1 / 4) \<and> nextDelay 2 DEFAULT_BACKOFF_POLICY (1 / 4) \<le> 1200 \<and>
   nextDelay 2 DEFAULT_BACKOFF_POLICY (1 / 4) = 900"
proof -
  have "nextDelay 2 DEFAULT_BACKOFF_POLICY (1 / 4) = 900" by code_simp
  then show ?thesis using nextDelay_default [of 2 "1 / 4"] by simp
qed

end
