(* ===== verification/Gateway_Rest.thy ===== *)
theory Gateway_Rest
  imports Reconnect
begin

text \<open>
  data/TckrGatewaySource.ts, the module-level functions: the validation of REST bodies, the
  addresses, and the decision on a raw close code. The file repeats the field readers of
  contracts/messages.ts for its own use; they are translated here in turn, and \<open>req_eq\<close> shows that
  they agree with the originals, so a snapshot fetched over REST is validated exactly as a pushed
  one.
\<close>

definition reqString :: "json \<Rightarrow> string \<Rightarrow> string \<Rightarrow> string exn" where
  "reqString rec key ctx =
     (case field rec key of Some (JStr s) \<Rightarrow> Inr s | _ \<Rightarrow> failE ctx (''expected string field '' @ quoted key))"

definition reqNumber :: "json \<Rightarrow> string \<Rightarrow> string \<Rightarrow> number exn" where
  "reqNumber rec key ctx =
     (case field rec key of Some (JNum x) \<Rightarrow> Inr x | _ \<Rightarrow> failE ctx (''expected number field '' @ quoted key))"

definition reqBoolean :: "json \<Rightarrow> string \<Rightarrow> string \<Rightarrow> bool exn" where
  "reqBoolean rec key ctx =
     (case field rec key of Some (JBool b) \<Rightarrow> Inr b | _ \<Rightarrow> failE ctx (''expected boolean field '' @ quoted key))"

definition reqStream :: "json \<Rightarrow> string \<Rightarrow> string \<Rightarrow> Stream exn" where
  "reqStream rec key ctx =
     bindE (reqString rec key ctx) (\<lambda>value.
       if value = ''LIVE'' then Inr LIVE else if value = ''DELAYED'' then Inr DELAYED
       else failE ctx (''invalid stream '' @ quoted value))"

definition reqPrice :: "json \<Rightarrow> string \<Rightarrow> string \<Rightarrow> decimal exn" where
  "reqPrice rec key ctx =
     bindE (reqString rec key ctx) (\<lambda>raw.
       case toDecimal raw of
         Inr d \<Rightarrow> Inr d
       | Inl _ \<Rightarrow> failE ctx (''invalid decimal price in field '' @ quoted key @ '': '' @ json_quote raw))"

definition reqIso :: "json \<Rightarrow> string \<Rightarrow> string \<Rightarrow> IsoUtc exn" where
  "reqIso rec key ctx = reqString rec key ctx"

lemma req_eq:
  "reqString = requireString" "reqNumber = requireNumber" "reqBoolean = requireBoolean"
  "reqStream = requireStream" "reqPrice = requirePrice" "reqIso = requireIso"
proof -
  show s: "reqString = requireString"
    by (intro ext) (simp add: reqString_def requireString_def)
  show "reqNumber = requireNumber" "reqBoolean = requireBoolean" "reqIso = requireIso"
    by (intro ext; simp add: reqNumber_def requireNumber_def reqBoolean_def requireBoolean_def reqIso_def requireIso_def s)+
  show "reqStream = requireStream" "reqPrice = requirePrice"
    by (intro ext; simp add: reqStream_def requireStream_def reqPrice_def requirePrice_def s)+
qed

definition parseSnapshotBody :: "json \<Rightarrow> Snapshot exn" where
  "parseSnapshotBody v =
     (if \<not> isRecord v then failE ''snapshot'' ''expected an object''
      else let context = ''snapshot'' in
        bindE (reqString v ''symbol'' context) (\<lambda>symbol.
        bindE (reqStream v ''stream'' context) (\<lambda>stream.
        bindE (reqPrice v ''price'' context) (\<lambda>price.
        bindE (reqPrice v ''change'' context) (\<lambda>change.
        bindE (reqString v ''changePercent'' context) (\<lambda>changePercent.
        bindE (reqPrice v ''open'' context) (\<lambda>opn.
        bindE (if field v ''previousClose'' = None then Inr None
               else bindE (reqPrice v ''previousClose'' context) (\<lambda>p. Inr (Some p))) (\<lambda>previousClose.
        bindE (reqPrice v ''high'' context) (\<lambda>high.
        bindE (reqPrice v ''low'' context) (\<lambda>low.
        bindE (reqNumber v ''volume'' context) (\<lambda>volume.
        bindE (reqString v ''lastEventId'' context) (\<lambda>lastEventId.
        bindE (reqIso v ''exchangeTimestamp'' context) (\<lambda>exchangeTimestamp.
        bindE (reqNumber v ''snapshotAge'' context) (\<lambda>snapshotAge.
        bindE (reqBoolean v ''simulated'' context) (\<lambda>simulated.
          Inr \<lparr>sn_symbol = symbol, sn_stream = stream, sn_price = price, sn_change = change,
               sn_changePercent = changePercent, sn_open = opn, sn_previousClose = previousClose,
               sn_high = high, sn_low = low, sn_volume = volume, sn_lastEventId = lastEventId,
               sn_exchangeTimestamp = exchangeTimestamp, sn_snapshotAge = snapshotAge,
               sn_simulated = simulated\<rparr>)))))))))))))))"

definition parseSymbolDefinition :: "json \<Rightarrow> SymbolDefinition exn" where
  "parseSymbolDefinition v =
     (if \<not> isRecord v then failE ''symbols-universe'' (''expected an object in '' @ quoted ''symbols'')
      else let context = ''symbols-universe'' in
        bindE (reqString v ''symbol'' context) (\<lambda>symbol.
        bindE (reqString v ''name'' context) (\<lambda>name.
        bindE (reqString v ''currency'' context) (\<lambda>currency.
        bindE (reqPrice v ''tickSize'' context) (\<lambda>tickSize.
        bindE (reqNumber v ''lotSize'' context) (\<lambda>lotSize.
        bindE (reqPrice v ''referencePrice'' context) (\<lambda>referencePrice.
          Inr \<lparr>sd_symbol = symbol, sd_name = name, sd_currency = currency, sd_tickSize = tickSize,
               sd_lotSize = lotSize, sd_referencePrice = referencePrice\<rparr>)))))))"

definition parseUniverseBody :: "json \<Rightarrow> SymbolUniverseResponse exn" where
  "parseUniverseBody v =
     (if \<not> isRecord v then failE ''symbols-universe'' ''expected an object''
      else let context = ''symbols-universe'' in
        case field v ''symbols'' of
          Some (JArr rawSymbols) \<Rightarrow>
            bindE (reqIso v ''asOf'' context) (\<lambda>asOf.
            bindE (reqBoolean v ''simulated'' context) (\<lambda>simulated.
            bindE (mapE parseSymbolDefinition rawSymbols) (\<lambda>symbols.
              Inr \<lparr>ur_asOf = asOf, ur_simulated = simulated, ur_symbols = symbols\<rparr>)))
        | _ \<Rightarrow> failE context (''expected array field '' @ quoted ''symbols''))"

definition parseHistoryPoint :: "json \<Rightarrow> HistoryPoint exn" where
  "parseHistoryPoint v =
     (if \<not> isRecord v then failE ''symbol-history'' (''expected an object in '' @ quoted ''points'')
      else let context = ''symbol-history'' in
        bindE (reqIso v ''t'' context) (\<lambda>t.
        bindE (reqPrice v ''p'' context) (\<lambda>p.
          Inr \<lparr>hp_t = t, hp_p = p\<rparr>)))"

definition parseHistoryBody :: "json \<Rightarrow> SymbolHistoryResponse exn" where
  "parseHistoryBody v =
     (if \<not> isRecord v then failE ''symbol-history'' ''expected an object''
      else let context = ''symbol-history'' in
        case field v ''points'' of
          Some (JArr rawPoints) \<Rightarrow>
            bindE (reqString v ''symbol'' context) (\<lambda>symbol.
            bindE (mapE parseHistoryPoint rawPoints) (\<lambda>points.
              Inr \<lparr>hr_symbol = symbol, hr_points = points\<rparr>))
        | _ \<Rightarrow> failE context (''expected array field '' @ quoted ''points''))"

section \<open>Addresses\<close>

definition httpBase :: "string \<Rightarrow> string" where
  "httpBase gatewayUrl =
     (if starts_with ''wss://'' gatewayUrl then ''https://'' @ drop 6 gatewayUrl
      else if starts_with ''ws://'' gatewayUrl then ''http://'' @ drop 5 gatewayUrl
      else gatewayUrl)"

text \<open>\<open>encodeURIComponent\<close>: every byte of the UTF-8 text that is not unreserved is escaped.\<close>

definition unreserved :: "char \<Rightarrow> bool" where
  "unreserved c = (let n = (of_char c :: nat) in
     (48 \<le> n \<and> n \<le> 57) \<or> (65 \<le> n \<and> n \<le> 90) \<or> (97 \<le> n \<and> n \<le> 122) \<or> n \<in> {45, 95, 46, 33, 126, 42, 39, 40, 41})"

definition upper_hex :: "nat \<Rightarrow> char" where
  "upper_hex d = (if d < 10 then char_of (48 + d) else char_of (55 + d))"

definition encodeURIComponent :: "string \<Rightarrow> string" where
  "encodeURIComponent s = concat (map (\<lambda>c. if unreserved c then [c]
     else [CHR ''%'', upper_hex (of_char c div 16), upper_hex (of_char c mod 16)]) s)"

section \<open>Close codes\<close>

definition close_code_of :: "nat \<Rightarrow> CloseCode option" where
  "close_code_of raw =
     (if raw = close_code Normal then Some Normal
      else if raw = close_code Unauthenticated then Some Unauthenticated
      else if raw = close_code TokenExpired then Some TokenExpired
      else if raw = close_code HeartbeatTimeout then Some HeartbeatTimeout
      else if raw = close_code SlowConsumer then Some SlowConsumer else None)"

text \<open>A raw code keeps its number, in the contract or not.\<close>

definition toCloseCode :: "nat \<Rightarrow> nat" where
  "toCloseCode raw = (case close_code_of raw of Some c \<Rightarrow> close_code c | None \<Rightarrow> raw)"

definition reconnectDecisionFor :: "nat \<Rightarrow> bool" where
  "reconnectDecisionFor code = (case close_code_of code of Some c \<Rightarrow> shouldReconnect c | None \<Rightarrow> True)"

section \<open>What the REST validation guarantees\<close>

lemma checked_mapE: "(\<And>x. checked P (f x)) \<Longrightarrow> checked (list_all P) (mapE f xs)"
  by (induction xs) (auto intro!: checked_bindE)

definition symbol_definition_ok :: "SymbolDefinition \<Rightarrow> bool" where
  "symbol_definition_ok d = (isDecimal (sd_tickSize d) \<and> isDecimal (sd_referencePrice d))"

lemma checked_symbol: "checked symbol_definition_ok (parseSymbolDefinition v)"
  unfolding parseSymbolDefinition_def req_eq Let_def
  by (intro checked_if checked_failE checked_intros) (simp add: symbol_definition_ok_def)

lemma checked_point: "checked (\<lambda>p. isDecimal (hp_p p)) (parseHistoryPoint v)"
  unfolding parseHistoryPoint_def req_eq Let_def
  by (intro checked_if checked_failE checked_intros) simp

lemma snapshot_body_eq: "isRecord v \<Longrightarrow> parseSnapshotBody v = parseSnapshot (Some v) ''snapshot''"
  unfolding parseSnapshotBody_def parseSnapshot_def req_eq Let_def option.case
  by (simp only: not_True_eq_False if_False)

text \<open>Nothing invalid enters over REST either: an accepted universe, history or snapshot body
  has a valid decimal in every price field, a rejected one is rejected with a TypeError, and a
  snapshot body is read exactly as the same object pushed over the socket.\<close>

theorem rest_bodies_checked:
  "checked (\<lambda>u. list_all symbol_definition_ok (ur_symbols u)) (parseUniverseBody v) \<and>
   checked (\<lambda>h. list_all (\<lambda>p. isDecimal (hp_p p)) (hr_points h)) (parseHistoryBody v) \<and>
   checked snapshot_ok (parseSnapshotBody v) \<and>
   parseSnapshotBody v = (if isRecord v then parseSnapshot (Some v) ''snapshot'' else failE ''snapshot'' ''expected an object'')"
proof -
  have "checked (\<lambda>u. list_all symbol_definition_ok (ur_symbols u)) (parseUniverseBody v)"
    unfolding parseUniverseBody_def req_eq Let_def
    by (auto split: option.split json.split intro!: checked_intros checked_bindE [OF checked_mapE [OF checked_symbol]])
  moreover have "checked (\<lambda>h. list_all (\<lambda>p. isDecimal (hp_p p)) (hr_points h)) (parseHistoryBody v)"
    unfolding parseHistoryBody_def req_eq Let_def
    by (auto split: option.split json.split intro!: checked_intros checked_bindE [OF checked_mapE [OF checked_point]])
  moreover have eq: "parseSnapshotBody v =
      (if isRecord v then parseSnapshot (Some v) ''snapshot'' else failE ''snapshot'' ''expected an object'')"
  proof (cases "isRecord v")
    case True
    then show ?thesis by (simp only: snapshot_body_eq if_True)
  next
    case False
    then show ?thesis unfolding parseSnapshotBody_def by (simp only: not_False_eq_True if_True if_False)
  qed
  moreover have "checked snapshot_ok (parseSnapshotBody v)"
    unfolding eq by (intro checked_if checked_snapshot checked_failE)
  ultimately show ?thesis by blast
qed

end
