(* ===== verification/Market_Source.thy ===== *)
theory Market_Source
  imports Messages
begin

text \<open>
  data/MarketDataSource.ts: the seam both sources stand behind. The identity and the connection
  state are its data; what a source does to the outside world (calls of the handlers registered
  through \<open>on\<close>, promises settled, frames, sockets and fetches) is a list of \<open>out\<close> entries.
\<close>

record Identity =
  id_userId :: string
  id_stream :: Stream
  id_sessionId :: string

datatype ConnectionState =
    Connecting nat
  | ConnectedSince rat
  | Reconnecting nat rat
  | ClosedWith nat string

text \<open>A handler is named by a number.\<close>

datatype out =
    OutOpen nat string
  | OutSend nat ClientMessage string
  | OutClose nat nat string
  | OutFetch nat string
  | OutTick nat Tick
  | OutSnapshot nat Snapshot
  | OutStatus nat ConnectionState
  | OutError nat ErrorMsg
  | OutEntitlement nat EntitlementChanged
  | OutConnect "unit exn"
  | OutUniverse "SymbolUniverseResponse exn"
  | OutGotSnapshot string "Snapshot exn"
  | OutHistory string "SymbolHistoryResponse exn"
  | OutWarn js_error

text \<open>The channels of \<open>on\<close>.\<close>

datatype channel = TickChannel | SnapshotChannel | StatusChannel | ErrorChannel | EntitlementChannel

end
