(* ===== verification/Store.thy ===== *)
theory Store
  imports Messages
begin

text \<open>
  data/store.ts: the external store the components read. The module's variables are the fields
  of one record: the records and the metadata are insertion-ordered maps, listeners are
  identities in insertion-ordered sets, and what the store calls or logs is appended to a trace
  (\<open>so_trace\<close>). Listeners do not write back into the store while they are notified.

  \<open>resetStore\<close> replaces every record, so an unsubscribe function made before it acts on a record
  that is no longer in the map; \<open>so_generation\<close> counts the resets and an unsubscribe function
  carries the count it was made at.

  The lemmas: the change shown for a symbol is always measured from its tracked baseline, only
  primed or subscribed symbols have a record, one symbol's update leaves every other symbol and
  its listeners alone, and a stream reset clears every view before it is announced.
\<close>

section \<open>State\<close>

record SymbolView =
  sv_symbol :: string
  sv_name :: string
  sv_price :: decimal
  sv_change :: decimal
  sv_changePercent :: number
  sv_volume :: number
  sv_lastUpdate :: rat
  sv_stream :: Stream

record SymbolMeta =
  sm_name :: string
  sm_referencePrice :: decimal
  sm_baseline :: decimal

type_synonym Listener = nat

record SymbolRecord =
  sr_view :: "SymbolView option"
  sr_listeners :: "Listener jset"

datatype store_call = CallSymbol Listener string | CallDiscard Listener | Warn string

record store =
  so_records :: "(string, SymbolRecord) jmap"
  so_meta :: "(string, SymbolMeta) jmap"
  so_symbolList :: "string list"
  so_streamDiscardListeners :: "Listener jset"
  so_generation :: nat
  so_trace :: "store_call list"

definition empty_store :: store where
  "empty_store = \<lparr>so_records = [], so_meta = [], so_symbolList = [], so_streamDiscardListeners = [],
     so_generation = 0, so_trace = []\<rparr>"

section \<open>Operations\<close>

definition no_record :: SymbolRecord where
  "no_record = \<lparr>sr_view = None, sr_listeners = []\<rparr>"

definition recordFor :: "string \<Rightarrow> store \<Rightarrow> SymbolRecord \<times> store" where
  "recordFor symbol s =
     (case jget (so_records s) symbol of
        Some existing \<Rightarrow> (existing, s)
      | None \<Rightarrow> (no_record, s\<lparr>so_records := jset symbol no_record (so_records s)\<rparr>))"

definition notify :: "string \<Rightarrow> store \<Rightarrow> store" where
  "notify symbol s =
     (case jget (so_records s) symbol of
        None \<Rightarrow> s
      | Some record \<Rightarrow> s\<lparr>so_trace := so_trace s @ map (\<lambda>l. CallSymbol l symbol) (sr_listeners record)\<rparr>)"

definition subscribeSymbol :: "string \<Rightarrow> Listener \<Rightarrow> store \<Rightarrow> (nat \<times> string \<times> Listener) \<times> store" where
  "subscribeSymbol symbol cb s =
     (let (record, s1) = recordFor symbol s
      in ((so_generation s1, symbol, cb),
          s1\<lparr>so_records := jset symbol (record\<lparr>sr_listeners := sadd cb (sr_listeners record)\<rparr>) (so_records s1)\<rparr>))"

text \<open>The function \<open>subscribeSymbol\<close> returns, applied to what it captured.\<close>

definition unsubscribe_symbol :: "nat \<times> string \<times> Listener \<Rightarrow> store \<Rightarrow> store" where
  "unsubscribe_symbol u s =
     (let (generation, symbol, cb) = u
      in if generation \<noteq> so_generation s then s
         else case jget (so_records s) symbol of
           None \<Rightarrow> s
         | Some record \<Rightarrow>
             s\<lparr>so_records := jset symbol (record\<lparr>sr_listeners := sdelete cb (sr_listeners record)\<rparr>) (so_records s)\<rparr>)"

definition getSymbolSnapshot :: "string \<Rightarrow> store \<Rightarrow> SymbolView option" where
  "getSymbolSnapshot symbol s =
     (case jget (so_records s) symbol of None \<Rightarrow> None | Some record \<Rightarrow> sr_view record)"

definition getSymbolList :: "store \<Rightarrow> string list" where
  "getSymbolList s = so_symbolList s"

definition onStreamDiscard :: "Listener \<Rightarrow> store \<Rightarrow> store" where
  "onStreamDiscard listener s = s\<lparr>so_streamDiscardListeners := sadd listener (so_streamDiscardListeners s)\<rparr>"

definition offStreamDiscard :: "Listener \<Rightarrow> store \<Rightarrow> store" where
  "offStreamDiscard listener s = s\<lparr>so_streamDiscardListeners := sdelete listener (so_streamDiscardListeners s)\<rparr>"

text \<open>An element of the universe: symbol, name and reference price.\<close>

type_synonym universe_entry = "string \<times> string \<times> decimal"

definition prime_one :: "store \<Rightarrow> universe_entry \<Rightarrow> store" where
  "prime_one s def =
     (let (symbol, name, referencePrice) = def;
          baseline = (case jget (so_meta s) symbol of None \<Rightarrow> referencePrice | Some existing \<Rightarrow> sm_baseline existing)
      in s\<lparr>so_meta := jset symbol
             \<lparr>sm_name = name, sm_referencePrice = referencePrice, sm_baseline = baseline\<rparr> (so_meta s)\<rparr>)"

definition primeUniverse :: "universe_entry list \<Rightarrow> store \<Rightarrow> store" where
  "primeUniverse symbols s =
     (let s1 = foldl prime_one s symbols; nextList = map fst symbols
      in if nextList \<noteq> so_symbolList s1 then s1\<lparr>so_symbolList := nextList\<rparr> else s1)"

definition set_view :: "string \<Rightarrow> SymbolView \<Rightarrow> store \<Rightarrow> store" where
  "set_view symbol view s =
     (let (record, s1) = recordFor symbol s
      in s1\<lparr>so_records := jset symbol (record\<lparr>sr_view := Some view\<rparr>) (so_records s1)\<rparr>)"

definition applySnapshot :: "Snapshot \<Rightarrow> rat \<Rightarrow> store \<Rightarrow> store" where
  "applySnapshot snapshot now s =
     (case jget (so_meta s) (sn_symbol snapshot) of
        None \<Rightarrow> s\<lparr>so_trace := so_trace s @
          [Warn (''store: dropping snapshot for symbol '' @ quoted (sn_symbol snapshot) @ '' not in the primed universe'')]\<rparr>
      | Some existing \<Rightarrow>
          let name = sm_name existing;
              baseline = (case sn_previousClose snapshot of Some p \<Rightarrow> p | None \<Rightarrow> sn_open snapshot);
              s1 = s\<lparr>so_meta := jset (sn_symbol snapshot)
                \<lparr>sm_name = name, sm_referencePrice = sm_referencePrice existing, sm_baseline = baseline\<rparr> (so_meta s)\<rparr>;
              view = \<lparr>sv_symbol = sn_symbol snapshot, sv_name = name, sv_price = sn_price snapshot,
                sv_change = subtract (sn_price snapshot) baseline,
                sv_changePercent = percentChange baseline (sn_price snapshot),
                sv_volume = sn_volume snapshot, sv_lastUpdate = now, sv_stream = sn_stream snapshot\<rparr>
          in notify (sn_symbol snapshot) (set_view (sn_symbol snapshot) view s1))"

definition applyTick :: "Tick \<Rightarrow> rat \<Rightarrow> store \<Rightarrow> store" where
  "applyTick tick now s =
     (case jget (so_meta s) (tk_s tick) of
        None \<Rightarrow> s\<lparr>so_trace := so_trace s @
          [Warn (''store: dropping tick for symbol '' @ quoted (tk_s tick) @ '' not in the primed universe'')]\<rparr>
      | Some symbolMeta \<Rightarrow>
          let baseline = sm_baseline symbolMeta;
              name = sm_name symbolMeta;
              previousVolume = (case getSymbolSnapshot (tk_s tick) s of None \<Rightarrow> of_count 0 | Some v \<Rightarrow> sv_volume v);
              view = \<lparr>sv_symbol = tk_s tick, sv_name = name, sv_price = tk_p tick,
                sv_change = subtract (tk_p tick) baseline,
                sv_changePercent = percentChange baseline (tk_p tick),
                sv_volume = num_add previousVolume (tk_q tick), sv_lastUpdate = now, sv_stream = tk_st tick\<rparr>
          in notify (tk_s tick) (set_view (tk_s tick) view s))"

definition clear_view :: "store \<Rightarrow> string \<Rightarrow> store" where
  "clear_view s symbol =
     (case jget (so_records s) symbol of
        None \<Rightarrow> s
      | Some record \<Rightarrow>
          if sr_view record \<noteq> None
          then notify symbol (s\<lparr>so_records := jset symbol (record\<lparr>sr_view := None\<rparr>) (so_records s)\<rparr>)
          else s)"

definition reset_views :: "store \<Rightarrow> store" where
  "reset_views s =
     (let s1 = foldl clear_view s (jkeys (so_records s))
      in s1\<lparr>so_meta := jmap_values (\<lambda>_ m. m\<lparr>sm_baseline := sm_referencePrice m\<rparr>) (so_meta s1)\<rparr>)"

definition resetStream :: "store \<Rightarrow> store" where
  "resetStream s =
     (let s1 = reset_views s
      in s1\<lparr>so_trace := so_trace s1 @ map CallDiscard (so_streamDiscardListeners s1)\<rparr>)"

definition resetStore :: "store \<Rightarrow> store" where
  "resetStore s = s\<lparr>so_records := [], so_meta := [], so_symbolList := [], so_streamDiscardListeners := [],
     so_generation := so_generation s + 1\<rparr>"

text \<open>Any sequence of operations.\<close>

datatype store_op =
    OpSubscribe string Listener
  | OpUnsubscribe "nat \<times> string \<times> Listener"
  | OpOnDiscard Listener
  | OpOffDiscard Listener
  | OpPrime "universe_entry list"
  | OpSnapshot Snapshot rat
  | OpTick Tick rat
  | OpResetStream
  | OpResetStore

fun store_do :: "store \<Rightarrow> store_op \<Rightarrow> store" where
  "store_do s (OpSubscribe x l) = snd (subscribeSymbol x l s)"
| "store_do s (OpUnsubscribe u) = unsubscribe_symbol u s"
| "store_do s (OpOnDiscard l) = onStreamDiscard l s"
| "store_do s (OpOffDiscard l) = offStreamDiscard l s"
| "store_do s (OpPrime ds) = primeUniverse ds s"
| "store_do s (OpSnapshot sn now) = applySnapshot sn now s"
| "store_do s (OpTick t now) = applyTick t now s"
| "store_do s OpResetStream = resetStream s"
| "store_do s OpResetStore = resetStore s"

section \<open>Reading after writing\<close>

lemma getSymbolSnapshot_set_view [simp]:
  "getSymbolSnapshot x (set_view y v s) = (if x = y then Some v else getSymbolSnapshot x s)"
  by (simp add: getSymbolSnapshot_def set_view_def recordFor_def split: option.split)

lemma notify_frame [simp]:
  "so_records (notify x s) = so_records s" "so_meta (notify x s) = so_meta s"
  "so_symbolList (notify x s) = so_symbolList s" "so_generation (notify x s) = so_generation s"
  "so_streamDiscardListeners (notify x s) = so_streamDiscardListeners s"
  "getSymbolSnapshot y (notify x s) = getSymbolSnapshot y s"
  by (simp_all add: notify_def getSymbolSnapshot_def split: option.split)

lemma set_view_frame [simp]:
  "so_meta (set_view x v s) = so_meta s" "so_trace (set_view x v s) = so_trace s"
  "so_symbolList (set_view x v s) = so_symbolList s" "so_generation (set_view x v s) = so_generation s"
  "so_streamDiscardListeners (set_view x v s) = so_streamDiscardListeners s"
  "set (jkeys (so_records (set_view x v s))) = insert x (set (jkeys (so_records s)))"
  "jmap_ok (so_records s) \<Longrightarrow> jmap_ok (so_records (set_view x v s))"
  by (auto simp: set_view_def recordFor_def jget_None_iff dest: jget_Some_key split: option.split)

definition listeners_of :: "string \<Rightarrow> store \<Rightarrow> Listener list" where
  "listeners_of x s = (case jget (so_records s) x of None \<Rightarrow> [] | Some r \<Rightarrow> sr_listeners r)"

lemma listeners_set_view [simp]: "listeners_of x (set_view y v s) = listeners_of x s"
  by (auto simp: listeners_of_def set_view_def recordFor_def no_record_def split: option.split)

lemma trace_notify: "so_trace (notify x s) = so_trace s @ map (\<lambda>l. CallSymbol l x) (listeners_of x s)"
  by (simp add: notify_def listeners_of_def split: option.split)

lemma listeners_notify [simp]: "listeners_of x (notify y s) = listeners_of x s"
  by (simp add: listeners_of_def)

lemma meta_update_frame [simp]:
  "getSymbolSnapshot x (s\<lparr>so_meta := m\<rparr>) = getSymbolSnapshot x s"
  "getSymbolSnapshot x (s\<lparr>so_trace := t\<rparr>) = getSymbolSnapshot x s"
  "getSymbolSnapshot x (s\<lparr>so_symbolList := ls\<rparr>) = getSymbolSnapshot x s"
  "getSymbolSnapshot x (s\<lparr>so_streamDiscardListeners := ds\<rparr>) = getSymbolSnapshot x s"
  "listeners_of x (s\<lparr>so_meta := m\<rparr>) = listeners_of x s"
  by (simp_all add: getSymbolSnapshot_def listeners_of_def)

lemma prime_fold:
  "so_records (foldl prime_one s ds) = so_records s \<and> so_trace (foldl prime_one s ds) = so_trace s \<and>
   so_symbolList (foldl prime_one s ds) = so_symbolList s \<and> so_generation (foldl prime_one s ds) = so_generation s \<and>
   so_streamDiscardListeners (foldl prime_one s ds) = so_streamDiscardListeners s"
  by (induction ds arbitrary: s) (simp_all add: prime_one_def case_prod_unfold Let_def)

lemma primeUniverse_frame [simp]:
  "so_records (primeUniverse ds s) = so_records s" "so_meta (primeUniverse ds s) = so_meta (foldl prime_one s ds)"
  "so_trace (primeUniverse ds s) = so_trace s" "getSymbolSnapshot x (primeUniverse ds s) = getSymbolSnapshot x s"
  "so_symbolList (primeUniverse ds s) = map fst ds"
  by (simp_all add: primeUniverse_def Let_def prime_fold getSymbolSnapshot_def)

lemma prime_baseline:
  assumes "jget (so_meta s) x = Some m"
  shows "\<exists>m'. jget (so_meta (foldl prime_one s ds)) x = Some m' \<and> sm_baseline m' = sm_baseline m"
  using assms
proof (induction ds arbitrary: s m)
  case (Cons d ds)
  obtain y nm rp where d: "d = (y, nm, rp)" by (cases d) auto
  have "\<exists>m'. jget (so_meta (prime_one s d)) x = Some m' \<and> sm_baseline m' = sm_baseline m"
    using Cons.prems by (auto simp: d prime_one_def Let_def)
  then show ?case using Cons.IH by fastforce
qed simp

lemma prime_keys [simp]:
  "set (jkeys (so_meta (foldl prime_one s ds))) = set (jkeys (so_meta s)) \<union> fst ` set ds"
  by (induction ds arbitrary: s) (auto simp: prime_one_def case_prod_unfold Let_def)

lemma prime_ok [simp]: "jmap_ok (so_meta s) \<Longrightarrow> jmap_ok (so_meta (foldl prime_one s ds))"
  by (induction ds arbitrary: s) (simp_all add: prime_one_def case_prod_unfold Let_def)

text \<open>Clearing every view, one record after the other.\<close>

lemma clear_view_snapshot [simp]:
  "getSymbolSnapshot x (clear_view s y) = (if x = y then None else getSymbolSnapshot x s)"
  by (auto simp: clear_view_def getSymbolSnapshot_def split: option.splits)

lemma clear_view_frame [simp]:
  "so_meta (clear_view s y) = so_meta s" "jkeys (so_records (clear_view s y)) = jkeys (so_records s)"
  "so_symbolList (clear_view s y) = so_symbolList s" "so_generation (clear_view s y) = so_generation s"
  "so_streamDiscardListeners (clear_view s y) = so_streamDiscardListeners s"
  "listeners_of x (clear_view s y) = listeners_of x s"
  by (auto simp: clear_view_def jkeys_jset_present listeners_of_def dest: jget_Some_key split: option.split)

lemma clear_fold:
  "getSymbolSnapshot x (foldl clear_view s ys) = (if x \<in> set ys then None else getSymbolSnapshot x s) \<and>
   so_meta (foldl clear_view s ys) = so_meta s \<and> jkeys (so_records (foldl clear_view s ys)) = jkeys (so_records s) \<and>
   so_symbolList (foldl clear_view s ys) = so_symbolList s \<and>
   so_streamDiscardListeners (foldl clear_view s ys) = so_streamDiscardListeners s \<and>
   listeners_of x (foldl clear_view s ys) = listeners_of x s"
  by (induction ys arbitrary: s) simp_all

lemma snapshot_key: "getSymbolSnapshot x s = Some v \<Longrightarrow> x \<in> set (jkeys (so_records s))"
  by (auto simp: getSymbolSnapshot_def dest: jget_Some_key split: option.splits)

lemma reset_views_eq:
  "getSymbolSnapshot x (reset_views s) = None"
  "so_meta (reset_views s) = jmap_values (\<lambda>_ m. m\<lparr>sm_baseline := sm_referencePrice m\<rparr>) (so_meta s)"
  "jkeys (so_records (reset_views s)) = jkeys (so_records s)"
  "so_symbolList (reset_views s) = so_symbolList s"
  "so_streamDiscardListeners (reset_views s) = so_streamDiscardListeners s"
  using snapshot_key [of x s]
  by (auto simp: reset_views_def Let_def clear_fold) (metis option.exhaust)+

section \<open>The invariant of the store\<close>

definition view_ok :: "store \<Rightarrow> string \<Rightarrow> SymbolView \<Rightarrow> bool" where
  "view_ok s x v =
     (case jget (so_meta s) x of
        None \<Rightarrow> False
      | Some m \<Rightarrow> sv_symbol v = x \<and> sv_change v = subtract (sv_price v) (sm_baseline m) \<and>
          sv_changePercent v = percentChange (sm_baseline m) (sv_price v))"

definition store_ok :: "store \<Rightarrow> bool" where
  "store_ok s = (jmap_ok (so_records s) \<and> jmap_ok (so_meta s) \<and>
     (\<forall>x v. getSymbolSnapshot x s = Some v \<longrightarrow> view_ok s x v))"

lemma store_okD:
  assumes "store_ok s" and "getSymbolSnapshot x s = Some v"
  shows "\<exists>m. jget (so_meta s) x = Some m \<and> sv_symbol v = x \<and>
    sv_change v = subtract (sv_price v) (sm_baseline m) \<and>
    sv_changePercent v = percentChange (sm_baseline m) (sv_price v)"
proof -
  have "view_ok s x v" using assms by (simp add: store_ok_def)
  then show ?thesis by (auto simp: view_ok_def split: option.splits)
qed

lemma store_ok_empty [simp]: "store_ok empty_store"
  by (simp add: store_ok_def empty_store_def getSymbolSnapshot_def)

lemma store_ok_step: "store_ok s \<Longrightarrow> store_ok (store_do s op)"
proof (cases op)
  case (OpSubscribe x l)
  assume ok: "store_ok s"
  have "getSymbolSnapshot y (snd (subscribeSymbol x l s)) = getSymbolSnapshot y s" for y
    by (simp add: subscribeSymbol_def recordFor_def getSymbolSnapshot_def no_record_def split: option.split)
  moreover have "so_meta (snd (subscribeSymbol x l s)) = so_meta s" "jmap_ok (so_records (snd (subscribeSymbol x l s)))"
    using ok by (simp_all add: subscribeSymbol_def recordFor_def store_ok_def split: option.split)
  ultimately show ?thesis using ok by (simp add: OpSubscribe store_ok_def view_ok_def)
next
  case (OpUnsubscribe u)
  assume ok: "store_ok s"
  obtain g x l where u: "u = (g, x, l)" by (cases u) auto
  have "getSymbolSnapshot y (unsubscribe_symbol u s) = getSymbolSnapshot y s" for y
    by (simp add: u unsubscribe_symbol_def getSymbolSnapshot_def split: option.split)
  moreover have "so_meta (unsubscribe_symbol u s) = so_meta s" "jmap_ok (so_records (unsubscribe_symbol u s))"
    using ok by (simp_all add: u unsubscribe_symbol_def store_ok_def split: option.split)
  ultimately show ?thesis using ok by (simp add: OpUnsubscribe store_ok_def view_ok_def)
next
  case (OpPrime ds)
  assume ok: "store_ok s"
  have "view_ok (primeUniverse ds s) x v" if "view_ok s x v" for x v
    using that prime_baseline [of s x _ ds] by (auto simp: view_ok_def split: option.splits)
  then show ?thesis using ok by (simp add: OpPrime store_ok_def)
next
  case (OpSnapshot sn now)
  assume "store_ok s"
  then show ?thesis
    by (auto simp: OpSnapshot applySnapshot_def Let_def store_ok_def view_ok_def split: option.split)
next
  case (OpTick t now)
  assume "store_ok s"
  then show ?thesis
    by (auto simp: OpTick applyTick_def Let_def store_ok_def view_ok_def split: option.splits)
next
  case OpResetStream
  assume "store_ok s"
  then show ?thesis
    by (simp add: OpResetStream resetStream_def Let_def store_ok_def reset_views_eq) (simp add: jmap_ok_def reset_views_eq)
next
  case OpResetStore
  assume "store_ok s"
  then show ?thesis by (simp add: OpResetStore resetStore_def store_ok_def getSymbolSnapshot_def)
qed (simp_all add: onStreamDiscard_def offStreamDiscard_def store_ok_def view_ok_def)

lemma store_ok_run: "store_ok (foldl store_do empty_store ops)"
  by (rule foldl_invariant [of store_ok]) (simp_all add: store_ok_step)

text \<open>After any sequence of operations, every view the store shows is of its own symbol
  and its change and change percentage are those from the symbol's tracked baseline.\<close>

theorem store_views_from_baseline:
  assumes "getSymbolSnapshot x (foldl store_do empty_store ops) = Some v"
  shows "\<exists>m. jget (so_meta (foldl store_do empty_store ops)) x = Some m \<and> sv_symbol v = x \<and>
    sv_change v = subtract (sv_price v) (sm_baseline m) \<and>
    sv_changePercent v = percentChange (sm_baseline m) (sv_price v)"
  using store_okD [OF store_ok_run assms] .

definition comi :: universe_entry where
  "comi = (''COMI'', ''Commercial International Bank'', ''80.00'')"

definition comi_tick :: "decimal \<Rightarrow> int \<Rightarrow> Tick" where
  "comi_tick p q = \<lparr>tk_s = ''COMI'', tk_p = p, tk_q = of_count q, tk_k = TRADE, tk_t = ''t'', tk_id = ''e'', tk_st = LIVE\<rparr>"

theorem store_views_from_baseline_witness:
  "\<exists>v. getSymbolSnapshot ''COMI'' (foldl store_do empty_store [OpPrime [comi], OpTick (comi_tick ''81.50'' 10) 1]) = Some v \<and>
     sv_change v = ''1.50''"
proof -
  define s where "s = foldl store_do empty_store [OpPrime [comi], OpTick (comi_tick ''81.50'' 10) 1]"
  have "map_option sv_price (getSymbolSnapshot ''COMI'' s) = Some ''81.50''" unfolding s_def by code_simp
  then obtain v where v: "getSymbolSnapshot ''COMI'' s = Some v" "sv_price v = ''81.50''" by auto
  have "map_option sm_baseline (jget (so_meta s) ''COMI'') = Some ''80.00''" unfolding s_def by code_simp
  moreover obtain m where "jget (so_meta s) ''COMI'' = Some m" "sv_change v = subtract (sv_price v) (sm_baseline m)"
    using store_views_from_baseline [of "''COMI''" "[OpPrime [comi], OpTick (comi_tick ''81.50'' 10) 1]" v] v(1)
    unfolding s_def by blast
  moreover have "subtract ''81.50'' ''80.00'' = ''1.50''" by code_simp
  ultimately have "sv_change v = ''1.50''" using v(2) by simp
  with v(1) show ?thesis unfolding s_def by blast
qed

section \<open>Only known symbols take up memory\<close>

definition primed :: "store_op list \<Rightarrow> string set" where
  "primed ops = (\<Union>op \<in> set ops. case op of OpPrime ds \<Rightarrow> fst ` set ds | _ \<Rightarrow> {})"

definition subscribed :: "store_op list \<Rightarrow> string set" where
  "subscribed ops = (\<Union>op \<in> set ops. case op of OpSubscribe x l \<Rightarrow> {x} | _ \<Rightarrow> {})"

lemma keys_step:
  assumes "set (jkeys (so_meta s)) \<subseteq> P" and "set (jkeys (so_records s)) \<subseteq> P \<union> S"
  shows "set (jkeys (so_meta (store_do s op))) \<subseteq> P \<union> primed [op] \<and>
    set (jkeys (so_records (store_do s op))) \<subseteq> (P \<union> primed [op]) \<union> (S \<union> subscribed [op])"
proof (cases op)
  case (OpSubscribe x l)
  then show ?thesis using assms
    by (auto simp: subscribeSymbol_def recordFor_def primed_def subscribed_def split: option.splits)
next
  case (OpUnsubscribe u)
  have "set (jkeys (so_records (unsubscribe_symbol u s))) = set (jkeys (so_records s))"
    by (auto simp: unsubscribe_symbol_def dest: jget_Some_key split: option.splits prod.splits)
  then show ?thesis using assms
    by (auto simp: OpUnsubscribe unsubscribe_symbol_def split: option.splits prod.splits)
next
  case (OpSnapshot sn now)
  show ?thesis
  proof (cases "jget (so_meta s) (sn_symbol sn)")
    case (Some m)
    then show ?thesis using assms jget_Some_key [OF Some]
      by (auto simp: OpSnapshot applySnapshot_def Let_def)
  qed (use assms in \<open>auto simp: OpSnapshot applySnapshot_def\<close>)
next
  case (OpTick t now)
  show ?thesis
  proof (cases "jget (so_meta s) (tk_s t)")
    case (Some m)
    then show ?thesis using assms jget_Some_key [OF Some]
      by (auto simp: OpTick applyTick_def Let_def)
  qed (use assms in \<open>auto simp: OpTick applyTick_def\<close>)
next
  case OpResetStream
  then show ?thesis using assms by (auto simp: resetStream_def Let_def reset_views_eq)
next
  case OpResetStore
  then show ?thesis by (simp add: resetStore_def)
qed (use assms in \<open>auto simp: onStreamDiscard_def offStreamDiscard_def primed_def\<close>)

text \<open>A server cannot grow the store: after any sequence of operations, however many
  distinct symbols its ticks and snapshots named, the store has metadata only for symbols of a
  primed universe and records only for those and for symbols a component subscribed to.\<close>

theorem store_bounded:
  "set (jkeys (so_meta (foldl store_do empty_store ops))) \<subseteq> primed ops \<and>
   set (jkeys (so_records (foldl store_do empty_store ops))) \<subseteq> primed ops \<union> subscribed ops"
proof (induction ops rule: rev_induct)
  case Nil
  show ?case by (simp add: empty_store_def)
next
  case (snoc op ops)
  have "primed (ops @ [op]) = primed ops \<union> primed [op]" "subscribed (ops @ [op]) = subscribed ops \<union> subscribed [op]"
    by (auto simp: primed_def subscribed_def)
  then show ?case using keys_step [of "foldl store_do empty_store ops" "primed ops" "subscribed ops" op] snoc by auto
qed

section \<open>Updates reach one row\<close>

text \<open>A tick concerns its own symbol only: every other symbol keeps its view, and the only
  functions called are that symbol's listeners, each once, in the order they subscribed; for a
  symbol outside the universe nothing changes and one warning is logged.\<close>

theorem applyTick_isolated:
  "(\<forall>x. x \<noteq> tk_s t \<longrightarrow> getSymbolSnapshot x (applyTick t now s) = getSymbolSnapshot x s) \<and>
   so_trace (applyTick t now s) = so_trace s @
     (if tk_s t \<in> set (jkeys (so_meta s)) then map (\<lambda>l. CallSymbol l (tk_s t)) (listeners_of (tk_s t) s)
      else [Warn (''store: dropping tick for symbol '' @ quoted (tk_s t) @ '' not in the primed universe'')]) \<and>
   (tk_s t \<notin> set (jkeys (so_meta s)) \<longrightarrow>
      so_records (applyTick t now s) = so_records s \<and> so_meta (applyTick t now s) = so_meta s)"
  by (auto simp: applyTick_def Let_def trace_notify jget_None_iff dest: jget_Some_key split: option.split)

theorem applyTick_isolated_witness:
  "getSymbolSnapshot ''HRHO'' (applyTick (comi_tick ''1'' 1) 0 empty_store) = getSymbolSnapshot ''HRHO'' empty_store"
  using applyTick_isolated [of "comi_tick ''1'' 1" 0 empty_store] by (simp add: comi_tick_def)

text \<open>A stream reset announces only what is done: when the first discard listener is
  called every view is already cleared and every baseline is back at the reference price, and the
  universe, its names and its reference prices are kept.\<close>

theorem resetStream_announces_last:
  "\<exists>s1. resetStream s = s1\<lparr>so_trace := so_trace s1 @ map CallDiscard (so_streamDiscardListeners s)\<rparr> \<and>
     (\<forall>x. getSymbolSnapshot x s1 = None) \<and> so_symbolList s1 = so_symbolList s \<and> jkeys (so_meta s1) = jkeys (so_meta s) \<and>
     (\<forall>x. map_option (\<lambda>m. (sm_name m, sm_referencePrice m, sm_baseline m)) (jget (so_meta s1) x) =
          map_option (\<lambda>m. (sm_name m, sm_referencePrice m, sm_referencePrice m)) (jget (so_meta s) x))"
  by (rule exI [of _ "reset_views s"])
    (simp add: resetStream_def Let_def reset_views_eq option.map_comp o_def)

section \<open>The store as a quote sheet\<close>

text \<open>What the store promises, without records, listeners or cached changes: a sheet with one line
  per symbol of the universe.\<close>

record quote =
  qu_price :: decimal
  qu_volume :: number
  qu_at :: rat
  qu_stream :: Stream

record sheet_line =
  ln_name :: string
  ln_reference :: decimal
  ln_baseline :: decimal
  ln_quote :: "quote option"

type_synonym sheet = "string \<Rightarrow> sheet_line option"

definition sheet_prime :: "sheet \<Rightarrow> universe_entry \<Rightarrow> sheet" where
  "sheet_prime sh d = (let (x, name, reference) = d in
     sh(x \<mapsto> (case sh x of
       None \<Rightarrow> \<lparr>ln_name = name, ln_reference = reference, ln_baseline = reference, ln_quote = None\<rparr>
     | Some li \<Rightarrow> li\<lparr>ln_name := name, ln_reference := reference\<rparr>)))"

fun sheet_do :: "sheet \<Rightarrow> store_op \<Rightarrow> sheet" where
  "sheet_do sh (OpPrime ds) = foldl sheet_prime sh ds"
| "sheet_do sh (OpSnapshot sn now) =
     (case sh (sn_symbol sn) of
        None \<Rightarrow> sh
      | Some li \<Rightarrow> sh(sn_symbol sn \<mapsto>
          li\<lparr>ln_baseline := (case sn_previousClose sn of Some p \<Rightarrow> p | None \<Rightarrow> sn_open sn),
             ln_quote := Some \<lparr>qu_price = sn_price sn, qu_volume = sn_volume sn, qu_at = now, qu_stream = sn_stream sn\<rparr>\<rparr>))"
| "sheet_do sh (OpTick t now) =
     (case sh (tk_s t) of
        None \<Rightarrow> sh
      | Some li \<Rightarrow> sh(tk_s t \<mapsto>
          li\<lparr>ln_quote := Some \<lparr>qu_price = tk_p t,
             qu_volume = num_add (case ln_quote li of None \<Rightarrow> of_count 0 | Some q \<Rightarrow> qu_volume q) (tk_q t),
             qu_at = now, qu_stream = tk_st t\<rparr>\<rparr>))"
| "sheet_do sh OpResetStream = (\<lambda>x. map_option (\<lambda>li. li\<lparr>ln_baseline := ln_reference li, ln_quote := None\<rparr>) (sh x))"
| "sheet_do sh OpResetStore = (\<lambda>_. None)"
| "sheet_do sh _ = sh"

definition quote_of :: "SymbolView \<Rightarrow> quote" where
  "quote_of v = \<lparr>qu_price = sv_price v, qu_volume = sv_volume v, qu_at = sv_lastUpdate v, qu_stream = sv_stream v\<rparr>"

definition sheet_of :: "store \<Rightarrow> sheet" where
  "sheet_of s = (\<lambda>x. map_option (\<lambda>m. \<lparr>ln_name = sm_name m, ln_reference = sm_referencePrice m,
     ln_baseline = sm_baseline m, ln_quote = map_option quote_of (getSymbolSnapshot x s)\<rparr>) (jget (so_meta s) x))"

lemma sheet_of_cong:
  assumes "so_meta s = so_meta s'" and "\<And>x. getSymbolSnapshot x s = getSymbolSnapshot x s'"
  shows "sheet_of s = sheet_of s'"
  using assms by (simp add: sheet_of_def)

lemma sheet_prime_fold:
  assumes "\<And>x v. getSymbolSnapshot x s = Some v \<Longrightarrow> jget (so_meta s) x \<noteq> None"
  shows "sheet_of (foldl prime_one s ds) = foldl sheet_prime (sheet_of s) ds"
  using assms
proof (induction ds arbitrary: s)
  case (Cons d ds)
  obtain y nm rp where d: "d = (y, nm, rp)" by (cases d) auto
  have new: "getSymbolSnapshot y s = None" if "jget (so_meta s) y = None"
    using Cons.prems [of y] that by (cases "getSymbolSnapshot y s") auto
  have "sheet_of (prime_one s d) = sheet_prime (sheet_of s) d"
    using new by (auto simp: fun_eq_iff d sheet_of_def sheet_prime_def prime_one_def Let_def split: option.split)
  moreover have "jget (so_meta (prime_one s d)) x \<noteq> None" if "getSymbolSnapshot x (prime_one s d) = Some v" for x v
    using Cons.prems [of x v] that by (auto simp: d prime_one_def Let_def)
  ultimately show ?case using Cons.IH [of "prime_one s d"] by simp
qed simp

lemma sheet_step:
  assumes "store_ok s"
  shows "sheet_of (store_do s op) = sheet_do (sheet_of s) op"
proof (cases op)
  case (OpSubscribe x l)
  then show ?thesis
    by (auto intro!: sheet_of_cong simp: subscribeSymbol_def recordFor_def getSymbolSnapshot_def no_record_def split: option.splits)
next
  case (OpUnsubscribe u)
  then show ?thesis
    by (auto intro!: sheet_of_cong simp: unsubscribe_symbol_def getSymbolSnapshot_def split: option.splits prod.splits)
next
  case (OpPrime ds)
  have "sheet_of (primeUniverse ds s) = sheet_of (foldl prime_one s ds)"
    by (rule sheet_of_cong) (simp_all add: getSymbolSnapshot_def prime_fold)
  moreover have "jget (so_meta s) x \<noteq> None" if "getSymbolSnapshot x s = Some v" for x v
    using store_okD [OF assms that] by auto
  ultimately show ?thesis by (simp add: OpPrime sheet_prime_fold)
next
  case (OpSnapshot sn now)
  then show ?thesis
    by (auto simp: fun_eq_iff sheet_of_def applySnapshot_def Let_def quote_of_def split: option.splits)
next
  case (OpTick t now)
  then show ?thesis
    by (auto simp: fun_eq_iff sheet_of_def applyTick_def Let_def quote_of_def split: option.splits)
next
  case OpResetStream
  then show ?thesis
    by (auto simp: fun_eq_iff sheet_of_def resetStream_def Let_def reset_views_eq option.map_comp o_def)
next
  case OpResetStore
  then show ?thesis by (simp add: sheet_of_def resetStore_def)
qed (auto intro!: sheet_of_cong simp: onStreamDiscard_def offStreamDiscard_def)

text \<open>Claim C4: the store implements the quote sheet: running any operations on the store and then
  reading it as a sheet gives what the same operations do to the sheet, and the cached view of a
  symbol is the one its line determines.\<close>

theorem store_refines_sheet:
  "sheet_of (foldl store_do empty_store ops) = foldl sheet_do (\<lambda>_. None) ops \<and>
   (\<forall>x li. foldl sheet_do (\<lambda>_. None) ops x = Some li \<longrightarrow>
      map_option (\<lambda>v. (quote_of v, sv_change v)) (getSymbolSnapshot x (foldl store_do empty_store ops)) =
      map_option (\<lambda>q. (q, subtract (qu_price q) (ln_baseline li))) (ln_quote li))"
proof
  show run: "sheet_of (foldl store_do empty_store ops) = foldl sheet_do (\<lambda>_. None) ops"
  proof (induction ops rule: rev_induct)
    case (snoc op ops)
    then show ?case using sheet_step [OF store_ok_run [of ops], of op] by simp
  qed (simp add: sheet_of_def empty_store_def)
  show "\<forall>x li. foldl sheet_do (\<lambda>_. None) ops x = Some li \<longrightarrow>
      map_option (\<lambda>v. (quote_of v, sv_change v)) (getSymbolSnapshot x (foldl store_do empty_store ops)) =
      map_option (\<lambda>q. (q, subtract (qu_price q) (ln_baseline li))) (ln_quote li)"
    unfolding run [symmetric]
  proof (intro allI impI)
    fix x li assume li: "sheet_of (foldl store_do empty_store ops) x = Some li"
    let ?s = "foldl store_do empty_store ops"
    show "map_option (\<lambda>v. (quote_of v, sv_change v)) (getSymbolSnapshot x ?s) =
      map_option (\<lambda>q. (q, subtract (qu_price q) (ln_baseline li))) (ln_quote li)"
    proof (cases "getSymbolSnapshot x ?s")
      case (Some v)
      from store_okD [OF store_ok_run Some] show ?thesis using li Some by (auto simp: sheet_of_def quote_of_def)
    qed (use li in \<open>auto simp: sheet_of_def\<close>)
  qed
qed

theorem store_refines_sheet_witness:
  "\<exists>li. foldl sheet_do (\<lambda>_. None) [OpPrime [comi]] ''COMI'' = Some li \<and> ln_quote li = None \<and>
     getSymbolSnapshot ''COMI'' (foldl store_do empty_store [OpPrime [comi]]) = None"
proof -
  obtain li where li: "foldl sheet_do (\<lambda>_. None) [OpPrime [comi]] ''COMI'' = Some li" "ln_quote li = None"
    by (simp add: sheet_prime_def comi_def)
  from store_refines_sheet [THEN conjunct2, rule_format, OF li(1)]
  have "getSymbolSnapshot ''COMI'' (foldl store_do empty_store [OpPrime [comi]]) = None"
    unfolding li(2) option.map(1) by (simp only: option.map_disc_iff)
  with li show ?thesis by blast
qed

end
