(* ===== verification/Dispatcher.thy ===== *)
theory Dispatcher
  imports Store
begin

text \<open>
  data/TickDispatcher.ts: coalescing of ticks between animation frames. The dispatcher is a record
  of its fields; \<open>push\<close> also says whether it asked for a frame, \<open>flushNow\<close> hands every pending
  tick to the sink \<open>onFlush\<close>. A run is a sequence of pushes, frames and explicit flushes.

  The locale \<open>tick_sink\<close> is what the dispatcher needs of its sink: a tick changes only its own
  symbol's view, and applying two ticks of a symbol in turn is applying the later one with the
  quantities added. Inside it coalescing is shown to end in the same views as applying every
  tick; the store's \<open>applyTick\<close> is then shown to be such a sink.
\<close>

section \<open>State and operations\<close>

record TickDispatcher =
  dp_pending :: "(string, Tick) jmap"
  dp_frameRequested :: bool
  dp_received :: nat
  dp_flushed :: nat
  dp_coalesced :: nat

definition new_dispatcher :: TickDispatcher where
  "new_dispatcher = \<lparr>dp_pending = [], dp_frameRequested = False, dp_received = 0, dp_flushed = 0, dp_coalesced = 0\<rparr>"

definition push :: "Tick \<Rightarrow> TickDispatcher \<Rightarrow> TickDispatcher \<times> bool" where
  "push tick d =
     (let d1 = d\<lparr>dp_received := dp_received d + 1\<rparr>;
          d2 = (case jget (dp_pending d1) (tk_s tick) of
            Some existing \<Rightarrow> d1\<lparr>dp_coalesced := dp_coalesced d1 + 1,
              dp_pending := jset (tk_s tick) (tick\<lparr>tk_q := num_add (tk_q existing) (tk_q tick)\<rparr>) (dp_pending d1)\<rparr>
          | None \<Rightarrow> d1\<lparr>dp_pending := jset (tk_s tick) tick (dp_pending d1)\<rparr>)
      in if \<not> dp_frameRequested d2 then (d2\<lparr>dp_frameRequested := True\<rparr>, True) else (d2, False))"

definition flushNow :: "('s \<Rightarrow> Tick \<Rightarrow> 's) \<Rightarrow> TickDispatcher \<times> 's \<Rightarrow> TickDispatcher \<times> 's" where
  "flushNow onFlush ds =
     (let (d, s) = ds; d1 = d\<lparr>dp_frameRequested := False\<rparr>
      in if dp_pending d1 = [] then (d1, s)
         else let batch = dp_pending d1; d2 = d1\<lparr>dp_pending := []\<rparr>
              in foldl (\<lambda>(d, s) tick. (d\<lparr>dp_flushed := dp_flushed d + 1\<rparr>, onFlush s tick)) (d2, s) (jvalues batch))"

definition stats :: "TickDispatcher \<Rightarrow> nat \<times> nat \<times> nat" where
  "stats d = (dp_received d, dp_flushed d, dp_coalesced d)"

text \<open>A run: the third component counts the frames asked for and not yet delivered; the time of a
  flush is the time the sink sees.\<close>

datatype dispatch_event = Push Tick | FlushCall rat | Frame rat

fun dispatch_do :: "(rat \<Rightarrow> 's \<Rightarrow> Tick \<Rightarrow> 's) \<Rightarrow> TickDispatcher \<times> 's \<times> nat \<Rightarrow> dispatch_event \<Rightarrow> TickDispatcher \<times> 's \<times> nat" where
  "dispatch_do sink (d, s, f) (Push t) = (let (d', asked) = push t d in (d', s, if asked then f + 1 else f))"
| "dispatch_do sink (d, s, f) (FlushCall now) = (let (d', s') = flushNow (sink now) (d, s) in (d', s', f))"
| "dispatch_do sink (d, s, f) (Frame now) =
     (if f = 0 then (d, s, f) else let (d', s') = flushNow (sink now) (d, s) in (d', s', f - 1))"

definition pushed :: "dispatch_event list \<Rightarrow> Tick list" where
  "pushed es = concat (map (\<lambda>e. case e of Push t \<Rightarrow> [t] | _ \<Rightarrow> []) es)"

section \<open>Counting\<close>

lemma flush_fold:
  "foldl (\<lambda>(d, s) tick. (d\<lparr>dp_flushed := Suc (dp_flushed d)\<rparr>, onFlush s tick)) (d, s) ts =
   (d\<lparr>dp_flushed := dp_flushed d + length ts\<rparr>, foldl onFlush s ts)"
  by (induction ts arbitrary: d s) simp_all

lemma flushNow_eq:
  "flushNow onFlush (d, s) =
   (d\<lparr>dp_frameRequested := False, dp_pending := [], dp_flushed := dp_flushed d + length (dp_pending d)\<rparr>,
    foldl onFlush s (jvalues (dp_pending d)))"
  by (simp add: flushNow_def flush_fold jvalues_def Let_def)

definition pending_ok :: "TickDispatcher \<Rightarrow> bool" where
  "pending_ok d = (jmap_ok (dp_pending d) \<and> (\<forall>k p. (k, p) \<in> set (dp_pending d) \<longrightarrow> tk_s p = k))"

lemma set_jset: "set (jset k v m) \<subseteq> insert (k, v) (set m)"
  by (induction m) auto

lemma length_jset: "length (jset k v m) = (if k \<in> set (jkeys m) then length m else length m + 1)"
  by (induction m) auto

lemma pending_ok_push: "pending_ok d \<Longrightarrow> pending_ok (fst (push t d))"
  using set_jset by (fastforce simp: pending_ok_def push_def Let_def split: option.split)

lemma push_counts:
  "dp_received (fst (push t d)) = dp_received d + 1 \<and> dp_flushed (fst (push t d)) = dp_flushed d \<and>
   dp_coalesced (fst (push t d)) + length (dp_pending (fst (push t d))) = dp_coalesced d + length (dp_pending d) + 1 \<and>
   dp_frameRequested (fst (push t d)) \<and> snd (push t d) = (\<not> dp_frameRequested d)"
  by (auto simp: push_def Let_def length_jset jget_None_iff dest: jget_Some_key split: option.split)

definition dispatch_ok :: "nat \<Rightarrow> TickDispatcher \<times> 's \<times> nat \<Rightarrow> bool" where
  "dispatch_ok n ds = (case ds of (d, s, f) \<Rightarrow>
     pending_ok d \<and> dp_received d = n \<and> n = dp_flushed d + dp_coalesced d + length (dp_pending d) \<and>
     (dp_pending d \<noteq> [] \<longrightarrow> dp_frameRequested d) \<and> (dp_frameRequested d \<longrightarrow> 0 < f))"

lemma dispatch_ok_step:
  assumes "dispatch_ok n ds"
  shows "dispatch_ok (n + length (pushed [e])) (dispatch_do sink ds e)"
proof -
  obtain d s f where ds: "ds = (d, s, f)" by (cases ds) auto
  have none: "pending_ok (d\<lparr>dp_frameRequested := False, dp_pending := [], dp_flushed := k\<rparr>)" for k
    by (simp add: pending_ok_def)
  show ?thesis
  proof (cases e)
    case (Push t)
    then show ?thesis using assms push_counts [of t d] pending_ok_push [of d t]
      by (auto simp: ds dispatch_ok_def pushed_def case_prod_unfold Let_def)
  qed (use assms none in \<open>auto simp: ds dispatch_ok_def flushNow_eq pushed_def\<close>)
qed

lemma pushed_append [simp]: "pushed (xs @ ys) = pushed xs @ pushed ys"
  by (simp add: pushed_def)

lemma dispatch_ok_run: "dispatch_ok (length (pushed es)) (foldl (dispatch_do sink) (new_dispatcher, s, 0) es)"
proof (induction es rule: rev_induct)
  case (snoc e es)
  then show ?case using dispatch_ok_step [OF snoc, of e sink] by simp
qed (simp add: dispatch_ok_def new_dispatcher_def pushed_def pending_ok_def)

section \<open>Coalescing is invisible to a sink that adds up\<close>

definition quantity :: "Tick \<Rightarrow> int" where
  "quantity t = (case tk_q t of Fin r \<Rightarrow> \<lfloor>r\<rfloor> | _ \<Rightarrow> 0)"

definition traded :: "string \<Rightarrow> Tick list \<Rightarrow> int" where
  "traded x ts = sum_list (map quantity (filter (\<lambda>t. tk_s t = x) ts))"

definition whole_quantity :: "Tick \<Rightarrow> bool" where
  "whole_quantity t = (tk_q t = of_count (quantity t) \<and> 0 \<le> quantity t)"

lemma traded_append [simp]: "traded x (ts @ us) = traded x ts + traded x us"
  by (simp add: traded_def)

lemma traded_nonneg: "(\<forall>t \<in> set ts. whole_quantity t) \<Longrightarrow> 0 \<le> traded x ts"
  unfolding traded_def by (intro sum_list_nonneg) (auto simp: whole_quantity_def)

locale tick_sink =
  fixes sink :: "rat \<Rightarrow> 's \<Rightarrow> Tick \<Rightarrow> 's"
    and view :: "'s \<Rightarrow> string \<Rightarrow> 'v"
    and upd :: "'v \<Rightarrow> Tick \<Rightarrow> 'v"
    and live :: "'v \<Rightarrow> bool"
    and vol :: "'v \<Rightarrow> number"
  assumes view_sink: "view (sink now s t) x = (if x = tk_s t then upd (view s x) t else view s x)"
    and dead: "\<not> live v \<Longrightarrow> upd v t = v"
    and live_upd: "live (upd v t) = live v"
    and vol_upd: "live v \<Longrightarrow> vol (upd v t) = num_add (vol v) (tk_q t)"
    and fuse: "tk_s a = tk_s b \<Longrightarrow>
      num_add (num_add (vol v) (tk_q a)) (tk_q b) = num_add (vol v) (num_add (tk_q a) (tk_q b)) \<Longrightarrow>
      upd (upd v a) b = upd v (b\<lparr>tk_q := num_add (tk_q a) (tk_q b)\<rparr>)"
begin

lemma view_flush:
  assumes "jmap_ok m" and "\<And>k p. (k, p) \<in> set m \<Longrightarrow> tk_s p = k"
  shows "view (foldl (sink now) s (jvalues m)) x = (case jget m x of None \<Rightarrow> view s x | Some p \<Rightarrow> upd (view s x) p)"
  using assms
proof (induction m arbitrary: s)
  case (Cons kp m)
  obtain k p where kp: "kp = (k, p)" by force
  have k: "tk_s p = k" using Cons.prems(2) kp by simp
  have m: "jget m k = None" "jmap_ok m" using Cons.prems(1) by (auto simp: kp jmap_ok_def jget_None_iff)
  have "view (foldl (sink now) (sink now s p) (jvalues m)) x =
      (case jget m x of None \<Rightarrow> view (sink now s p) x | Some p' \<Rightarrow> upd (view (sink now s p) x) p')"
    using Cons.IH [OF m(2)] Cons.prems(2) by auto
  then show ?case
    using m(1) by (cases "x = k"; cases "jget m x") (simp_all add: kp jvalues_def jget_Cons view_sink k)
qed (simp add: jvalues_def)

lemma view_direct: "view (foldl (sink now) s ts) x = foldl upd (view s x) (filter (\<lambda>t. tk_s t = x) ts)"
  by (induction ts arbitrary: s) (simp_all add: view_sink)

lemma live_fold: "live (foldl upd v ts) = live v"
  by (induction ts arbitrary: v) (simp_all add: live_upd)

lemma dead_fold: "\<not> live v \<Longrightarrow> foldl upd v ts = v"
  by (induction ts) (simp_all add: dead)

text \<open>What holds between flushes, for one symbol: the view with its pending tick applied is the view
  every pushed tick would have given, and the volumes add up.\<close>

definition agrees :: "int \<Rightarrow> 'v \<Rightarrow> Tick list \<Rightarrow> string \<Rightarrow> 'v \<Rightarrow> Tick option \<Rightarrow> bool" where
  "agrees c v0 ts x v p =
     (live v = live v0 \<and>
      (live v0 \<longrightarrow> (\<exists>a. 0 \<le> a \<and> vol v = of_count (c + a) \<and>
        (case p of None \<Rightarrow> traded x ts = a \<and> v = foldl upd v0 (filter (\<lambda>t. tk_s t = x) ts)
         | Some q \<Rightarrow> tk_s q = x \<and> 0 \<le> traded x ts - a \<and> tk_q q = of_count (traded x ts - a) \<and>
             upd v q = foldl upd v0 (filter (\<lambda>t. tk_s t = x) ts)))) \<and>
      (\<not> live v0 \<longrightarrow> v = v0))"

lemma agrees_flush:
  assumes "agrees c v0 ts x v p" and "0 \<le> c" and "c + traded x ts \<le> 2 ^ 53" and "0 \<le> traded x ts"
  shows "agrees c v0 ts x (case p of None \<Rightarrow> v | Some q \<Rightarrow> upd v q) None"
proof (cases p)
  case (Some q)
  show ?thesis
  proof (cases "live v0")
    case True
    then obtain a where a: "0 \<le> a" "vol v = of_count (c + a)" "tk_q q = of_count (traded x ts - a)"
      "upd v q = foldl upd v0 (filter (\<lambda>t. tk_s t = x) ts)" "live v"
      using assms(1) Some by (auto simp: agrees_def)
    have "vol (upd v q) = of_count (c + traded x ts)"
      using vol_upd [OF a(5), of q] num_add_counts [of "c + a" "traded x ts - a"] a(2,3) assms(2-4) by simp
    then show ?thesis using a True assms(4) by (auto simp: Some agrees_def live_fold)
  qed (use assms(1) in \<open>auto simp: Some agrees_def dead\<close>)
qed (use assms(1) in simp)

lemma agrees_push:
  assumes "agrees c v0 ts x v p" and "tk_s t = x" and "whole_quantity t"
    and "0 \<le> c" and "c + traded x (ts @ [t]) \<le> 2 ^ 53"
  shows "agrees c v0 (ts @ [t]) x v (Some (case p of None \<Rightarrow> t | Some q \<Rightarrow> t\<lparr>tk_q := num_add (tk_q q) (tk_q t)\<rparr>))"
proof (cases "live v0")
  case True
  then obtain a where a: "0 \<le> a" "vol v = of_count (c + a)" "live v"
    and p: "case p of None \<Rightarrow> traded x ts = a \<and> v = foldl upd v0 (filter (\<lambda>t. tk_s t = x) ts)
         | Some q \<Rightarrow> tk_s q = x \<and> 0 \<le> traded x ts - a \<and> tk_q q = of_count (traded x ts - a) \<and>
             upd v q = foldl upd v0 (filter (\<lambda>t. tk_s t = x) ts)"
    using assms(1) by (auto simp: agrees_def)
  have q: "tk_q t = of_count (quantity t)" "0 \<le> quantity t" using assms(3) by (simp_all add: whole_quantity_def)
  have tr: "traded x (ts @ [t]) = traded x ts + quantity t" using assms(2) by (simp add: traded_def)
  show ?thesis
  proof (cases p)
    case None
    then show ?thesis using a p q True assms(2) tr by (auto simp: agrees_def simp del: traded_append)
  next
    case (Some r)
    then have r: "tk_s r = x" "0 \<le> traded x ts - a" "tk_q r = of_count (traded x ts - a)"
      "upd v r = foldl upd v0 (filter (\<lambda>t. tk_s t = x) ts)" using p by simp_all
    have s: "num_add (tk_q r) (tk_q t) = of_count (traded x ts - a + quantity t)"
      unfolding r(3) q(1) by (rule num_add_counts) (use assms(4,5) tr a(1) r(2) q(2) in arith)
    have l: "num_add (num_add (vol v) (tk_q r)) (tk_q t) = of_count (c + traded x ts + quantity t)"
      using num_add_counts [of "c + a" "traded x ts - a"] num_add_counts [of "c + traded x ts" "quantity t"]
        a(1,2) r(2,3) q assms(4,5) tr by simp
    have rr: "num_add (vol v) (num_add (tk_q r) (tk_q t)) = of_count (c + traded x ts + quantity t)"
      using num_add_counts [of "c + a" "traded x ts - a + quantity t"] a(1,2) r(2) q s assms(4,5) tr by (simp add: add.commute add.left_commute)
    have "upd v (t\<lparr>tk_q := num_add (tk_q r) (tk_q t)\<rparr>) = upd (upd v r) t"
      using fuse [of r t v] r(1) assms(2) l rr by simp
    then have f: "upd v (t\<lparr>tk_q := num_add (tk_q r) (tk_q t)\<rparr>) = foldl upd v0 (filter (\<lambda>t. tk_s t = x) (ts @ [t]))"
      using r(4) assms(2) by simp
    show ?thesis unfolding agrees_def
      using a True f s r(2) q(2) assms(2) tr by (auto simp: Some intro!: exI [of _ a])
  qed
qed (use assms(1) in \<open>auto simp: agrees_def\<close>)

lemma agrees_other:
  assumes "agrees c v0 ts x v p" and "tk_s t \<noteq> x"
  shows "agrees c v0 (ts @ [t]) x v p"
proof -
  have "traded x (ts @ [t]) = traded x ts" "filter (\<lambda>t. tk_s t = x) (ts @ [t]) = filter (\<lambda>t. tk_s t = x) ts"
    using assms(2) by (simp_all add: traded_def)
  then show ?thesis using assms(1) unfolding agrees_def by presburger
qed

lemma jget_push:
  "jget (dp_pending (fst (push t d))) x =
   (if x = tk_s t then Some (case jget (dp_pending d) x of None \<Rightarrow> t | Some q \<Rightarrow> t\<lparr>tk_q := num_add (tk_q q) (tk_q t)\<rparr>)
    else jget (dp_pending d) x)"
  by (auto simp: push_def Let_def split: option.split)

lemma agrees_run:
  assumes "\<forall>t \<in> set (pushed es). whole_quantity t" and "0 \<le> c"
    and "live (view s0 x) \<Longrightarrow> vol (view s0 x) = of_count c" and "c + traded x (pushed es) \<le> 2 ^ 53"
  defines "r \<equiv> foldl (dispatch_do sink) (new_dispatcher, s0, 0) es"
  shows "agrees c (view s0 x) (pushed es) x (view (fst (snd r)) x) (jget (dp_pending (fst r)) x)"
  using assms(1,4) unfolding r_def
proof (induction es rule: rev_induct)
  case Nil
  show ?case using assms(2,3) by (auto simp: agrees_def new_dispatcher_def pushed_def traded_def)
next
  case (snoc e es)
  let ?r = "foldl (dispatch_do sink) (new_dispatcher, s0, 0) es"
  obtain d s f where r: "?r = (d, s, f)" by (cases ?r) auto
  have wq: "\<forall>t \<in> set (pushed es). whole_quantity t" using snoc.prems(1) by auto
  have nn: "0 \<le> traded x (pushed [e])" "0 \<le> traded x (pushed es)"
    using snoc.prems(1) wq by (auto intro!: traded_nonneg)
  have bound: "c + traded x (pushed es) \<le> 2 ^ 53" using snoc.prems(2) nn by simp
  have IH: "agrees c (view s0 x) (pushed es) x (view s x) (jget (dp_pending d) x)"
    using snoc.IH [OF wq bound] by (simp add: r)
  have ok: "pending_ok d" using dispatch_ok_run [of es sink s0] by (simp add: r dispatch_ok_def)
  have flush: "agrees c (view s0 x) (pushed es) x (view (foldl (sink now) s (jvalues (dp_pending d))) x) None" for now
    using agrees_flush [OF IH assms(2) bound nn(2)] view_flush [of "dp_pending d" now s x] ok
    by (simp add: pending_ok_def)
  show ?case
  proof (cases e)
    case (Push t)
    have "pushed (es @ [e]) = pushed es @ [t]" by (simp add: Push pushed_def)
    then show ?thesis
      using agrees_push [OF IH] agrees_other [OF IH, of t] snoc.prems assms(2)
      by (auto simp: r Push case_prod_unfold Let_def jget_push)
  next
    case (FlushCall now)
    then show ?thesis using flush by (simp add: r flushNow_eq pushed_def)
  next
    case (Frame now)
    then show ?thesis using flush IH by (simp add: r flushNow_eq pushed_def)
  qed
qed

lemma coalesced_view:
  assumes "\<forall>t \<in> set (pushed es). whole_quantity t" and "0 \<le> c"
    and "live (view s0 x) \<Longrightarrow> vol (view s0 x) = of_count c" and "c + traded x (pushed es) \<le> 2 ^ 53"
  shows "view (fst (snd (foldl (dispatch_do sink) (new_dispatcher, s0, 0) (es @ [FlushCall now])))) x =
    view (foldl (sink now') s0 (pushed es)) x"
proof -
  have "pushed (es @ [FlushCall now]) = pushed es" by (simp add: pushed_def)
  moreover have "jget (dp_pending (fst (foldl (dispatch_do sink) (new_dispatcher, s0, 0) (es @ [FlushCall now])))) x = None"
    by (cases "foldl (dispatch_do sink) (new_dispatcher, s0, 0) es") (simp add: flushNow_eq)
  ultimately show ?thesis
    using agrees_run [of "es @ [FlushCall now]" c s0 x] assms
    by (cases "live (view s0 x)") (auto simp: agrees_def view_direct dead_fold)
qed

end

section \<open>The store is such a sink\<close>

text \<open>What is shown of a symbol, apart from the time of the last update.\<close>

type_synonym shown = "string \<times> decimal \<times> decimal \<times> number \<times> number \<times> Stream"

definition shown_of :: "SymbolView \<Rightarrow> shown" where
  "shown_of v = (sv_name v, sv_price v, sv_change v, sv_changePercent v, sv_volume v, sv_stream v)"

definition store_shows :: "store \<Rightarrow> string \<Rightarrow> SymbolMeta option \<times> shown option" where
  "store_shows s x = (jget (so_meta s) x, map_option shown_of (getSymbolSnapshot x s))"

definition volume_shown :: "SymbolMeta option \<times> shown option \<Rightarrow> number" where
  "volume_shown v = (case snd v of None \<Rightarrow> of_count 0 | Some (_, _, _, _, q, _) \<Rightarrow> q)"

definition show_tick :: "SymbolMeta option \<times> shown option \<Rightarrow> Tick \<Rightarrow> SymbolMeta option \<times> shown option" where
  "show_tick v t =
     (case fst v of
        None \<Rightarrow> v
      | Some m \<Rightarrow> (Some m, Some (sm_name m, tk_p t, subtract (tk_p t) (sm_baseline m),
          percentChange (sm_baseline m) (tk_p t), num_add (volume_shown v) (tk_q t), tk_st t)))"

definition store_sink :: "rat \<Rightarrow> store \<Rightarrow> Tick \<Rightarrow> store" where
  "store_sink now s t = applyTick t now s"

lemma store_shows_tick: "store_shows (store_sink now s t) x = (if x = tk_s t then show_tick (store_shows s x) t else store_shows s x)"
  by (auto simp: store_sink_def store_shows_def show_tick_def volume_shown_def applyTick_def Let_def shown_of_def
      split: option.splits)

interpretation ts: tick_sink store_sink store_shows show_tick "\<lambda>v. fst v \<noteq> None" volume_shown
proof unfold_locales
  show "store_shows (store_sink now s t) x = (if x = tk_s t then show_tick (store_shows s x) t else store_shows s x)"
    for now s t x by (rule store_shows_tick)
  show "show_tick v t = v" if "\<not> fst v \<noteq> None" for v t using that by (simp add: show_tick_def)
  show "(fst (show_tick v t) \<noteq> None) = (fst v \<noteq> None)" for v t
    by (cases "fst v") (simp_all add: show_tick_def)
  show "volume_shown (show_tick v t) = num_add (volume_shown v) (tk_q t)" if "fst v \<noteq> None" for v t
    using that by (auto simp: show_tick_def volume_shown_def)
  show "show_tick (show_tick v a) b = show_tick v (b\<lparr>tk_q := num_add (tk_q a) (tk_q b)\<rparr>)"
    if "tk_s a = tk_s b" "num_add (num_add (volume_shown v) (tk_q a)) (tk_q b) = num_add (volume_shown v) (num_add (tk_q a) (tk_q b))"
    for v a b
    using that(2) by (cases "fst v") (simp_all add: show_tick_def volume_shown_def)
qed

text \<open>Claim C5: coalescing is invisible: for ticks of whole quantities, as long as a symbol's volume
  stays within 2^53, the store fed through the dispatcher, with frames and flushes anywhere, shows
  after the last flush exactly what it would show had every tick been applied at once: same price,
  change, volume and stream.\<close>

theorem coalescing_invisible:
  assumes "\<forall>t \<in> set (pushed es). whole_quantity t"
    and "volume_shown (store_shows s0 x) = of_count c" and "0 \<le> c" and "c + traded x (pushed es) \<le> 2 ^ 53"
  shows "store_shows (fst (snd (foldl (dispatch_do store_sink) (new_dispatcher, s0, 0) (es @ [FlushCall now])))) x =
    store_shows (foldl (\<lambda>s t. applyTick t now' s) s0 (pushed es)) x"
  using ts.coalesced_view [of es c s0 x now now'] assms by (simp add: store_sink_def [abs_def])

theorem coalescing_invisible_witness:
  "store_shows (fst (snd (foldl (dispatch_do store_sink) (new_dispatcher, primeUniverse [comi] empty_store, 0)
      ([Push (comi_tick ''80.10'' 5), Push (comi_tick ''80.30'' 7)] @ [FlushCall 3])))) ''COMI'' =
   store_shows (foldl (\<lambda>s t. applyTick t 1 s) (primeUniverse [comi] empty_store) [comi_tick ''80.10'' 5, comi_tick ''80.30'' 7]) ''COMI''"
proof -
  define es where "es = [Push (comi_tick ''80.10'' 5), Push (comi_tick ''80.30'' 7)]"
  have p: "pushed es = [comi_tick ''80.10'' 5, comi_tick ''80.30'' 7]" by (simp add: es_def pushed_def)
  have q: "quantity (comi_tick p n) = n" for p n by (simp add: quantity_def comi_tick_def of_count_def)
  have "\<forall>t \<in> set (pushed es). whole_quantity t"
    by (simp add: p whole_quantity_def q) (simp add: comi_tick_def)
  moreover have "0 + traded ''COMI'' (pushed es) \<le> 2 ^ 53"
    by (simp add: p traded_def q)
  moreover have "volume_shown (store_shows (primeUniverse [comi] empty_store) ''COMI'') = of_count 0"
    by (simp add: store_shows_def volume_shown_def empty_store_def getSymbolSnapshot_def)
  ultimately show ?thesis
    using coalescing_invisible [of es "primeUniverse [comi] empty_store" "''COMI''" 0 3 1] p by (simp add: es_def)
qed

text \<open>No tick is lost or counted twice: after any run, the received ticks are those pushed,
  and each was flushed, coalesced away or is still pending; a pending tick always has a frame on
  its way; and a flush hands the sink one tick per symbol.\<close>

theorem dispatcher_conserves:
  assumes "foldl (dispatch_do sink) (new_dispatcher, s, 0) es = (d, s', f)"
  shows "stats d = (length (pushed es), dp_flushed d, dp_coalesced d) \<and>
    length (pushed es) = dp_flushed d + dp_coalesced d + length (dp_pending d) \<and>
    (dp_pending d \<noteq> [] \<longrightarrow> dp_frameRequested d \<and> 0 < f) \<and>
    (\<exists>batch. snd (flushNow (\<lambda>out t. out @ [t]) (d, [])) = batch \<and> distinct (map tk_s batch) \<and>
       set (map tk_s batch) = set (jkeys (dp_pending d)))"
proof -
  have ok: "dispatch_ok (length (pushed es)) (d, s', f)"
    using dispatch_ok_run [of es sink s] by (simp add: assms)
  have snoc: "foldl (\<lambda>out t. out @ [t]) acc ts = acc @ ts" for acc ts :: "Tick list"
    by (induction ts arbitrary: acc) simp_all
  have "map tk_s (jvalues (dp_pending d)) = jkeys (dp_pending d)"
    using ok by (auto simp: dispatch_ok_def pending_ok_def jvalues_def jkeys_def)
  then have "distinct (map tk_s (jvalues (dp_pending d)))" "set (map tk_s (jvalues (dp_pending d))) = set (jkeys (dp_pending d))"
    using ok by (simp_all add: dispatch_ok_def pending_ok_def jmap_ok_def)
  moreover have "snd (flushNow (\<lambda>out t. out @ [t]) (d, [])) = jvalues (dp_pending d)"
    by (simp add: flushNow_eq snoc)
  ultimately show ?thesis using ok by (auto simp: dispatch_ok_def stats_def)
qed

theorem dispatcher_conserves_witness:
  "\<exists>d s f. foldl (dispatch_do store_sink) (new_dispatcher, empty_store, 0)
       [Push (comi_tick ''1'' 1), Frame 0, Push (comi_tick ''2'' 1), Push (comi_tick ''3'' 1)] = (d, s, f) \<and>
     stats d = (3, 1, 1) \<and> 0 < f"
proof -
  let ?es = "[Push (comi_tick ''1'' 1), Frame 0, Push (comi_tick ''2'' 1), Push (comi_tick ''3'' 1)]"
  obtain d s f where r: "foldl (dispatch_do store_sink) (new_dispatcher, empty_store, 0) ?es = (d, s, f)"
    by (cases "foldl (dispatch_do store_sink) (new_dispatcher, empty_store, 0) ?es") auto
  have "stats (fst (foldl (dispatch_do store_sink) (new_dispatcher, empty_store, 0) ?es)) = (3, 1, 1)"
    "dp_pending (fst (foldl (dispatch_do store_sink) (new_dispatcher, empty_store, 0) ?es)) \<noteq> []"
    by code_simp+
  then show ?thesis using dispatcher_conserves [OF r] r by auto
qed

end
