(* ===== verification/Gateway.thy ===== *)
theory Gateway
  imports Gateway_Rest Market_Source Dispatcher Config
begin

text \<open>
  data/TckrGatewaySource.ts, the class \<open>TckrGatewaySource\<close>: the WebSocket and REST transport of the
  client. The record \<open>page\<close> is what the class is given (the event loop's timers and clock, the
  sockets it made, its outstanding fetches, the supply of random numbers, the shared store) and
  \<open>pg_out\<close> everything the class did to the outside, newest first. The record
  \<open>TckrGatewaySource\<close> holds the private fields under the source's names; every method is a
  function on it, in the order of the file. A closure the class leaves behind (a timer's callback,
  a socket's handlers, the continuation of an awaited fetch) is named by a constructor, and
  \<open>gateway_do\<close> says what the event loop runs for every event.

  A promise's continuation runs at the end of the handler that settles it; every handler settles
  as its last action, so nothing of the source can run in between. As on the Web platform, closing
  a socket leaves it closing until its close event is delivered, once, at any later time; messages
  are delivered to an open socket only, and the class's handlers do not ask which socket calls
  them. The handlers components register are recorded calls; they do not call back here.
\<close>

section \<open>The page and the fields of the class\<close>

datatype callback = CbThrottle | CbReconnect | CbWatchdog | CbPing

datatype request = UniverseRequest | SnapshotRequest string | HistoryRequest string

datatype resolver = ClientConnect | ReconnectNow

record page =
  pg_timers :: "callback timers"
  pg_sockets :: "(nat, nat) jmap"
  pg_fetches :: "(nat, request) jmap"
  pg_nextFetch :: nat
  pg_random :: "nat \<Rightarrow> rat"
  pg_draws :: nat
  pg_frames :: nat
  pg_store :: store
  pg_out :: "out list"

record TckrGatewaySource =
  gw_page :: page
  gw_config :: ClientConfig
  gw_dispatcher :: TickDispatcher
  gw_socket :: "nat option"
  gw_identityValue :: "Identity option"
  gw_lastStatus :: ConnectionState
  gw_universeCache :: "SymbolUniverseResponse option"
  gw_universeInFlight :: "nat option"
  gw_subscribedSymbols :: "string jset"
  gw_pendingOutbound :: "ClientMessage list"
  gw_authWaiters :: nat
  gw_authenticated :: bool
  gw_throttledUntil :: rat
  gw_throttleTimer :: "nat option"
  gw_requestSeq :: nat
  gw_heartbeatIntervalMs :: "rat option"
  gw_heartbeatWatchdog :: "Watchdog option"
  gw_pingTimer :: "nat option"
  gw_backoffAttempt :: nat
  gw_connectAttempts :: nat
  gw_intentionalClose :: bool
  gw_reconnectTimer :: "nat option"
  gw_connectResolvers :: "resolver option"
  gw_tickHandlers :: "nat jset"
  gw_snapshotHandlers :: "nat jset"
  gw_statusHandlers :: "nat jset"
  gw_errorHandlers :: "nat jset"
  gw_entitlementHandlers :: "nat jset"

definition SOCKET_CONNECTING :: nat where
  "SOCKET_CONNECTING = 0"

definition SOCKET_OPEN :: nat where
  "SOCKET_OPEN = 1"

definition RATE_LIMIT_BACKOFF_MS :: rat where
  "RATE_LIMIT_BACKOFF_MS = 2000"

definition new_page :: "rat \<Rightarrow> (nat \<Rightarrow> rat) \<Rightarrow> store \<Rightarrow> page" where
  "new_page now rnd st = \<lparr>pg_timers = start_timers now, pg_sockets = [], pg_fetches = [], pg_nextFetch = 0,
     pg_random = rnd, pg_draws = 0, pg_frames = 0, pg_store = st, pg_out = []\<rparr>"

text \<open>The constructor.\<close>

definition new_gateway :: "ClientConfig \<Rightarrow> page \<Rightarrow> TckrGatewaySource" where
  "new_gateway config pg =
     \<lparr>gw_page = pg, gw_config = config, gw_dispatcher = new_dispatcher, gw_socket = None,
      gw_identityValue = None, gw_lastStatus = ClosedWith (close_code Normal) ''not yet connected'',
      gw_universeCache = None, gw_universeInFlight = None,
      gw_subscribedSymbols = [], gw_pendingOutbound = [], gw_authWaiters = 0, gw_authenticated = False,
      gw_throttledUntil = 0, gw_throttleTimer = None, gw_requestSeq = 0,
      gw_heartbeatIntervalMs = None, gw_heartbeatWatchdog = None, gw_pingTimer = None,
      gw_backoffAttempt = 0, gw_connectAttempts = 0, gw_intentionalClose = False,
      gw_reconnectTimer = None, gw_connectResolvers = None,
      gw_tickHandlers = [], gw_snapshotHandlers = [], gw_statusHandlers = [], gw_errorHandlers = [],
      gw_entitlementHandlers = []\<rparr>"

definition identity :: "TckrGatewaySource \<Rightarrow> Identity option" where
  "identity g = gw_identityValue g"

definition connectionState :: "TckrGatewaySource \<Rightarrow> ConnectionState" where
  "connectionState g = gw_lastStatus g"

section \<open>What the class calls outside\<close>

definition clock_now :: "TckrGatewaySource \<Rightarrow> rat" where
  "clock_now g = tm_now (pg_timers (gw_page g))"

definition readyState :: "TckrGatewaySource \<Rightarrow> nat \<Rightarrow> nat option" where
  "readyState g sid = jget (pg_sockets (gw_page g)) sid"

definition emit :: "out list \<Rightarrow> TckrGatewaySource \<Rightarrow> TckrGatewaySource" where
  "emit es g = g\<lparr>gw_page := (gw_page g)\<lparr>pg_out := rev es @ pg_out (gw_page g)\<rparr>\<rparr>"

definition on_timers :: "(callback timers \<Rightarrow> callback timers) \<Rightarrow> TckrGatewaySource \<Rightarrow> TckrGatewaySource" where
  "on_timers f g = g\<lparr>gw_page := (gw_page g)\<lparr>pg_timers := f (pg_timers (gw_page g))\<rparr>\<rparr>"

definition on_store :: "(store \<Rightarrow> store) \<Rightarrow> TckrGatewaySource \<Rightarrow> TckrGatewaySource" where
  "on_store f g = g\<lparr>gw_page := (gw_page g)\<lparr>pg_store := f (pg_store (gw_page g))\<rparr>\<rparr>"

text \<open>\<open>setTimeout\<close> and \<open>setInterval\<close> return the handle.\<close>

definition arm_timer :: "callback \<Rightarrow> rat \<Rightarrow> rat option \<Rightarrow> TckrGatewaySource \<Rightarrow> nat \<times> TckrGatewaySource" where
  "arm_timer cb ms every g =
     (fst (set_timer (pg_timers (gw_page g)) cb ms every), on_timers (\<lambda>tm. snd (set_timer tm cb ms every)) g)"

text \<open>\<open>createSocket(url)\<close>: a connecting socket.\<close>

definition createSocket :: "string \<Rightarrow> TckrGatewaySource \<Rightarrow> nat \<times> TckrGatewaySource" where
  "createSocket url g =
     (let sid = length (pg_sockets (gw_page g))
      in (sid, emit [OutOpen sid url]
            (g\<lparr>gw_page := (gw_page g)\<lparr>pg_sockets := jset sid SOCKET_CONNECTING (pg_sockets (gw_page g))\<rparr>\<rparr>)))"

text \<open>\<open>socket.close(code, reason)\<close>: closing from now on, unless it was closing or closed.\<close>

definition socket_close :: "nat \<Rightarrow> nat \<Rightarrow> string \<Rightarrow> TckrGatewaySource \<Rightarrow> TckrGatewaySource" where
  "socket_close sid code reason g =
     (if readyState g sid = Some SOCKET_CONNECTING \<or> readyState g sid = Some SOCKET_OPEN
      then emit [OutClose sid code reason]
             (g\<lparr>gw_page := (gw_page g)\<lparr>pg_sockets := jset sid 2 (pg_sockets (gw_page g))\<rparr>\<rparr>)
      else g)"

definition socket_send :: "nat \<Rightarrow> ClientMessage \<Rightarrow> TckrGatewaySource \<Rightarrow> TckrGatewaySource" where
  "socket_send sid msg g = emit [OutSend sid msg (client_text msg)] g"

definition start_fetch :: "request \<Rightarrow> string \<Rightarrow> TckrGatewaySource \<Rightarrow> TckrGatewaySource" where
  "start_fetch r url g =
     (let pg = gw_page g; fid = pg_nextFetch pg
      in emit [OutFetch fid url]
           (g\<lparr>gw_page := pg\<lparr>pg_nextFetch := fid + 1, pg_fetches := jset fid r (pg_fetches pg)\<rparr>\<rparr>))"

definition draw_random :: "TckrGatewaySource \<Rightarrow> rat \<times> TckrGatewaySource" where
  "draw_random g =
     (let pg = gw_page g
      in (pg_random pg (pg_draws pg), g\<lparr>gw_page := pg\<lparr>pg_draws := pg_draws pg + 1\<rparr>\<rparr>))"

text \<open>A number of milliseconds as the timer functions take it: what is not finite counts as 0.\<close>

definition num_ms :: "number \<Rightarrow> rat" where
  "num_ms x = (case x of Fin r \<Rightarrow> r | _ \<Rightarrow> 0)"

section \<open>Events for the client\<close>

definition emitStatus :: "ConnectionState \<Rightarrow> TckrGatewaySource \<Rightarrow> TckrGatewaySource" where
  "emitStatus state g =
     (let g1 = g\<lparr>gw_lastStatus := state\<rparr>
      in emit (map (\<lambda>h. OutStatus h state) (gw_statusHandlers g1)) g1)"

definition emitError :: "ErrorCode \<Rightarrow> string \<Rightarrow> string option \<Rightarrow> TckrGatewaySource \<Rightarrow> TckrGatewaySource" where
  "emitError code msg requestId g =
     (let event = \<lparr>er_code = code, er_message = msg, er_requestId = requestId\<rparr>
      in emit (map (\<lambda>h. OutError h event) (gw_errorHandlers g)) g)"

section \<open>Sending, and holding back\<close>

definition nextRequestId :: "TckrGatewaySource \<Rightarrow> string \<times> TckrGatewaySource" where
  "nextRequestId g =
     (let n = gw_requestSeq g + 1 in (''gw-'' @ nat_str n, g\<lparr>gw_requestSeq := n\<rparr>))"

definition scheduleThrottleFlush :: "TckrGatewaySource \<Rightarrow> TckrGatewaySource" where
  "scheduleThrottleFlush g =
     (if gw_throttleTimer g \<noteq> None then g
      else let delay = max 0 (gw_throttledUntil g - clock_now g);
               (h, g1) = arm_timer CbThrottle delay None g
           in g1\<lparr>gw_throttleTimer := Some h\<rparr>)"

definition clearThrottleTimer :: "TckrGatewaySource \<Rightarrow> TckrGatewaySource" where
  "clearThrottleTimer g =
     (case gw_throttleTimer g of
        None \<Rightarrow> g
      | Some h \<Rightarrow> (on_timers (\<lambda>tm. clearTimeout tm h) g)\<lparr>gw_throttleTimer := None\<rparr>)"

definition may_send :: "TckrGatewaySource \<Rightarrow> nat option" where
  "may_send g =
     (if \<not> gw_authenticated g \<or> clock_now g < gw_throttledUntil g then None
      else case gw_socket g of
        None \<Rightarrow> None
      | Some sid \<Rightarrow> if readyState g sid = Some SOCKET_OPEN then Some sid else None)"

definition send :: "ClientMessage \<Rightarrow> TckrGatewaySource \<Rightarrow> TckrGatewaySource" where
  "send msg g =
     (case may_send g of
        None \<Rightarrow>
          let g1 = g\<lparr>gw_pendingOutbound := gw_pendingOutbound g @ [msg]\<rparr>
          in if clock_now g1 < gw_throttledUntil g1 then scheduleThrottleFlush g1 else g1
      | Some sid \<Rightarrow> socket_send sid msg g)"

definition flushOutbound :: "TckrGatewaySource \<Rightarrow> TckrGatewaySource" where
  "flushOutbound g =
     (case may_send g of
        None \<Rightarrow> g
      | Some sid \<Rightarrow>
          let queue = gw_pendingOutbound g
          in foldl (\<lambda>g msg. socket_send sid msg g) (g\<lparr>gw_pendingOutbound := []\<rparr>) queue)"

definition throttle_expires :: "TckrGatewaySource \<Rightarrow> TckrGatewaySource" where
  "throttle_expires g =
     (let g1 = g\<lparr>gw_throttleTimer := None\<rparr>
      in if clock_now g1 < gw_throttledUntil g1 then scheduleThrottleFlush g1 else flushOutbound g1)"

section \<open>Subscriptions and REST calls\<close>

definition subscribe :: "string list \<Rightarrow> TckrGatewaySource \<Rightarrow> TckrGatewaySource" where
  "subscribe symbols g =
     (let wanted = filter (\<lambda>s. length s > 0) symbols
      in if wanted = [] then g
         else let g1 = g\<lparr>gw_subscribedSymbols := foldl (\<lambda>s x. sadd x s) (gw_subscribedSymbols g) wanted\<rparr>;
                  (rid, g2) = nextRequestId g1
              in send (Subscribe wanted (Some rid)) g2)"

definition unsubscribe :: "string list \<Rightarrow> TckrGatewaySource \<Rightarrow> TckrGatewaySource" where
  "unsubscribe symbols g =
     (let wanted = filter (\<lambda>s. length s > 0) symbols
      in if wanted = [] then g
         else let g1 = g\<lparr>gw_subscribedSymbols := foldl (\<lambda>s x. sdelete x s) (gw_subscribedSymbols g) wanted\<rparr>;
                  (rid, g2) = nextRequestId g1
              in send (Unsubscribe wanted (Some rid)) g2)"

definition http_address :: "TckrGatewaySource \<Rightarrow> string" where
  "http_address g = httpBase (cc_gatewayUrl (gw_config g)) @ SYMBOLS_PATH"

definition fetchUniverse :: "TckrGatewaySource \<Rightarrow> TckrGatewaySource" where
  "fetchUniverse g = start_fetch UniverseRequest (http_address g) g"

definition getUniverse :: "TckrGatewaySource \<Rightarrow> TckrGatewaySource" where
  "getUniverse g =
     (case gw_universeCache g of
        Some u \<Rightarrow> emit [OutUniverse (Inr u)] g
      | None \<Rightarrow>
          (case gw_universeInFlight g of
             Some waiting \<Rightarrow> g\<lparr>gw_universeInFlight := Some (waiting + 1)\<rparr>
           | None \<Rightarrow> (fetchUniverse g)\<lparr>gw_universeInFlight := Some 1\<rparr>))"

definition getSnapshot :: "string \<Rightarrow> TckrGatewaySource \<Rightarrow> TckrGatewaySource" where
  "getSnapshot symbol g =
     start_fetch (SnapshotRequest symbol) (http_address g @ ''/'' @ encodeURIComponent symbol @ ''/snapshot'') g"

definition getHistory :: "string \<Rightarrow> TckrGatewaySource \<Rightarrow> TckrGatewaySource" where
  "getHistory symbol g =
     start_fetch (HistoryRequest symbol) (http_address g @ ''/'' @ encodeURIComponent symbol @ ''/history'') g"

definition ingestSnapshot :: "Snapshot \<Rightarrow> bool \<Rightarrow> TckrGatewaySource \<Rightarrow> TckrGatewaySource" where
  "ingestSnapshot snapshot broadcast g =
     (let g1 = on_store (applySnapshot snapshot (clock_now g)) g
      in if broadcast then emit (map (\<lambda>h. OutSnapshot h snapshot) (gw_snapshotHandlers g1)) g1 else g1)"

text \<open>How a fetch ends: it fails with an error, or with a status, whether that is a success, and the body
  \<open>json()\<close> gives (or the error it rejects with).\<close>

datatype response = FetchFailed js_error | Response bool nat "json exn"

definition read_body :: "string \<Rightarrow> (json \<Rightarrow> 'a exn) \<Rightarrow> response \<Rightarrow> 'a exn" where
  "read_body what parse res =
     (case res of
        FetchFailed e \<Rightarrow> Inl e
      | Response ok status body \<Rightarrow>
          if \<not> ok then Inl (PlainError (what @ '': HTTP '' @ nat_str status))
          else bindE body parse)"

text \<open>What the awaiting function does then. The universe goes to every caller that shares the request.\<close>

definition universe_done :: "response \<Rightarrow> TckrGatewaySource \<Rightarrow> TckrGatewaySource" where
  "universe_done res g =
     (let callers = (case gw_universeInFlight g of None \<Rightarrow> 0 | Some n \<Rightarrow> n);
          result = read_body ''getUniverse()'' parseUniverseBody res;
          g1 = (case result of
             Inl e \<Rightarrow> g
           | Inr universe \<Rightarrow>
               (on_store (primeUniverse (map (\<lambda>s. (sd_symbol s, sd_name s, sd_referencePrice s)) (ur_symbols universe))) g)
                 \<lparr>gw_universeCache := Some universe\<rparr>)
      in emit (replicate callers (OutUniverse result)) (g1\<lparr>gw_universeInFlight := None\<rparr>))"

definition snapshot_done :: "string \<Rightarrow> response \<Rightarrow> TckrGatewaySource \<Rightarrow> TckrGatewaySource" where
  "snapshot_done symbol res g =
     (let result = read_body (''getSnapshot('' @ symbol @ '')'') parseSnapshotBody res;
          g1 = (case result of Inl e \<Rightarrow> g | Inr snapshot \<Rightarrow> ingestSnapshot snapshot False g)
      in emit [OutGotSnapshot symbol result] g1)"

definition history_done :: "string \<Rightarrow> response \<Rightarrow> TckrGatewaySource \<Rightarrow> TckrGatewaySource" where
  "history_done symbol res g =
     emit [OutHistory symbol (read_body (''getHistory('' @ symbol @ '')'') parseHistoryBody res)] g"

section \<open>Heartbeat and ping\<close>

definition stopHeartbeat :: "TckrGatewaySource \<Rightarrow> TckrGatewaySource" where
  "stopHeartbeat g =
     (case gw_heartbeatWatchdog g of
        None \<Rightarrow> g
      | Some wd \<Rightarrow> (on_timers (\<lambda>tm. snd (wd_stop (wd, tm))) g)\<lparr>gw_heartbeatWatchdog := None\<rparr>)"

definition startHeartbeatMonitor :: "TckrGatewaySource \<Rightarrow> TckrGatewaySource" where
  "startHeartbeatMonitor g =
     (let g1 = stopHeartbeat g
      in case gw_heartbeatIntervalMs g1 of
           None \<Rightarrow> g1
         | Some interval \<Rightarrow>
             let (wd, tm) = createHeartbeatWatchdog CbWatchdog interval (pg_timers (gw_page g1))
             in (on_timers (\<lambda>_. tm) g1)\<lparr>gw_heartbeatWatchdog := Some wd\<rparr>)"

definition pulse :: "TckrGatewaySource \<Rightarrow> TckrGatewaySource" where
  "pulse g =
     (case gw_heartbeatWatchdog g of
        None \<Rightarrow> g
      | Some wd \<Rightarrow>
          let (wd', tm) = wd_pulse CbWatchdog (wd, pg_timers (gw_page g))
          in (on_timers (\<lambda>_. tm) g)\<lparr>gw_heartbeatWatchdog := Some wd'\<rparr>)"

definition stopPing :: "TckrGatewaySource \<Rightarrow> TckrGatewaySource" where
  "stopPing g =
     (case gw_pingTimer g of
        None \<Rightarrow> g
      | Some h \<Rightarrow> (on_timers (\<lambda>tm. clearTimeout tm h) g)\<lparr>gw_pingTimer := None\<rparr>)"

definition startPing :: "TckrGatewaySource \<Rightarrow> TckrGatewaySource" where
  "startPing g =
     (let g1 = stopPing g
      in case gw_heartbeatIntervalMs g1 of
           None \<Rightarrow> g1
         | Some interval \<Rightarrow>
             let (h, g2) = arm_timer CbPing interval (Some interval) g1
             in g2\<lparr>gw_pingTimer := Some h\<rparr>)"

definition send_ping :: "TckrGatewaySource \<Rightarrow> TckrGatewaySource" where
  "send_ping g = (let (rid, g1) = nextRequestId g in send (Ping (Some rid)) g1)"

section \<open>Opening, closing, reconnecting\<close>

definition openSocket :: "resolver \<Rightarrow> TckrGatewaySource \<Rightarrow> TckrGatewaySource" where
  "openSocket resolver g =
     (let token = cc_demoUser (gw_config g);
          url = cc_gatewayUrl (gw_config g) @ ''/ws/market-data?access_token='' @ encodeURIComponent token;
          (sid, g1) = createSocket url g
      in g1\<lparr>gw_socket := Some sid, gw_authenticated := False, gw_connectResolvers := Some resolver\<rparr>)"

definition connecting_or_open :: "TckrGatewaySource \<Rightarrow> bool" where
  "connecting_or_open g =
     (case gw_socket g of
        None \<Rightarrow> False
      | Some sid \<Rightarrow> readyState g sid = Some SOCKET_OPEN \<or> readyState g sid = Some SOCKET_CONNECTING)"

definition connect :: "TckrGatewaySource \<Rightarrow> TckrGatewaySource" where
  "connect g =
     (if connecting_or_open g then emit [OutConnect (Inr ())] g
      else let g1 = g\<lparr>gw_intentionalClose := False, gw_connectAttempts := gw_connectAttempts g + 1\<rparr>;
               g2 = emitStatus (Connecting (gw_connectAttempts g1)) g1
           in openSocket ClientConnect g2)"

definition clearReconnectTimer :: "TckrGatewaySource \<Rightarrow> TckrGatewaySource" where
  "clearReconnectTimer g =
     (case gw_reconnectTimer g of
        None \<Rightarrow> g
      | Some h \<Rightarrow> (on_timers (\<lambda>tm. clearTimeout tm h) g)\<lparr>gw_reconnectTimer := None\<rparr>)"

definition disconnect :: "TckrGatewaySource \<Rightarrow> TckrGatewaySource" where
  "disconnect g =
     (let g1 = clearThrottleTimer (stopPing (stopHeartbeat (clearReconnectTimer (g\<lparr>gw_intentionalClose := True\<rparr>))))
      in case gw_socket g1 of
           Some sid \<Rightarrow> socket_close sid (close_code Normal) ''client disconnect'' g1
         | None \<Rightarrow> emitStatus (ClosedWith (close_code Normal) ''client disconnect'') g1)"

definition scheduleReconnect :: "TckrGatewaySource \<Rightarrow> TckrGatewaySource" where
  "scheduleReconnect g =
     (let g1 = g\<lparr>gw_backoffAttempt := gw_backoffAttempt g + 1\<rparr>;
          (rnd, g2) = draw_random g1;
          delay = nextDelay (gw_backoffAttempt g2) DEFAULT_BACKOFF_POLICY rnd;
          g3 = clearReconnectTimer (emitStatus (Reconnecting (gw_backoffAttempt g2) delay) g2);
          (h, g4) = arm_timer CbReconnect delay None g3
      in g4\<lparr>gw_reconnectTimer := Some h\<rparr>)"

definition closed_early :: "nat \<Rightarrow> string \<Rightarrow> js_error" where
  "closed_early code reason =
     PlainError (''TckrGatewaySource: connection closed before open (code '' @ nat_str code @ '': '' @ reason @ '')'')"

definition handleClose :: "nat \<Rightarrow> string \<Rightarrow> TckrGatewaySource \<Rightarrow> TckrGatewaySource" where
  "handleClose code reason g =
     (let g1 = (clearThrottleTimer (stopPing (stopHeartbeat g)))\<lparr>gw_authenticated := False, gw_socket := None\<rparr>;
          resolvers = gw_connectResolvers g1;
          g2 = g1\<lparr>gw_connectResolvers := None\<rparr>;
          closeCode = toCloseCode code;
          g3 = emitStatus (ClosedWith closeCode reason) g2;
          g4 = (if resolvers = Some ClientConnect then emit [OutConnect (Inl (closed_early code reason))] g3 else g3)
      in if gw_intentionalClose g4 then g4
         else if \<not> reconnectDecisionFor closeCode then g4
         else scheduleReconnect g4)"

definition forceLocalClose :: "nat \<Rightarrow> string \<Rightarrow> TckrGatewaySource \<Rightarrow> TckrGatewaySource" where
  "forceLocalClose code reason g =
     (case gw_socket g of
        Some sid \<Rightarrow> socket_close sid code reason g
      | None \<Rightarrow> handleClose code reason g)"

definition heartbeat_missed :: "TckrGatewaySource \<Rightarrow> TckrGatewaySource" where
  "heartbeat_missed g =
     (case gw_heartbeatWatchdog g of
        None \<Rightarrow> g
      | Some wd \<Rightarrow> forceLocalClose (close_code HeartbeatTimeout) ''two consecutive heartbeats missed''
          (g\<lparr>gw_heartbeatWatchdog := Some (wd_expire wd)\<rparr>))"

text \<open>The three parts of \<open>reconnectNow\<close> between its awaits.\<close>

definition resubscribe :: "TckrGatewaySource \<Rightarrow> TckrGatewaySource" where
  "resubscribe g =
     (let symbols = gw_subscribedSymbols g
      in if symbols = [] then g
         else foldl (\<lambda>g symbol. getSnapshot symbol g) (subscribe symbols g) symbols)"

definition waitForAuthenticated :: "TckrGatewaySource \<Rightarrow> TckrGatewaySource" where
  "waitForAuthenticated g =
     (if gw_authenticated g then resubscribe g else g\<lparr>gw_authWaiters := gw_authWaiters g + 1\<rparr>)"

definition reconnectNow :: "TckrGatewaySource \<Rightarrow> TckrGatewaySource" where
  "reconnectNow g = openSocket ReconnectNow (g\<lparr>gw_reconnectTimer := None\<rparr>)"

definition socket_onopen :: "TckrGatewaySource \<Rightarrow> TckrGatewaySource" where
  "socket_onopen g =
     (let resolvers = gw_connectResolvers g; g1 = g\<lparr>gw_connectResolvers := None\<rparr>
      in case resolvers of
           None \<Rightarrow> g1
         | Some ClientConnect \<Rightarrow> emit [OutConnect (Inr ())] g1
         | Some ReconnectNow \<Rightarrow> waitForAuthenticated g1)"

section \<open>Messages\<close>

definition handleConnected :: "Connected \<Rightarrow> TckrGatewaySource \<Rightarrow> TckrGatewaySource" where
  "handleConnected m g =
     (let g1 = g\<lparr>gw_identityValue := Some \<lparr>id_userId = co_userId m, id_stream = co_stream m, id_sessionId = co_sessionId m\<rparr>,
                 gw_heartbeatIntervalMs := Some (num_ms (co_heartbeatIntervalMs m)),
                 gw_backoffAttempt := 0, gw_authenticated := True\<rparr>;
          g2 = startPing (startHeartbeatMonitor g1);
          g3 = flushOutbound (emitStatus (ConnectedSince (clock_now g2)) g2);
          waiters = gw_authWaiters g3
      in (resubscribe ^^ waiters) (g3\<lparr>gw_authWaiters := 0\<rparr>))"

definition handleSubscribed :: "Subscribed \<Rightarrow> TckrGatewaySource \<Rightarrow> TckrGatewaySource" where
  "handleSubscribed m g =
     foldl (\<lambda>g symbol. emitError UNKNOWN_SYMBOL (''Symbol rejected by server: '' @ symbol) (su_requestId m)
              (g\<lparr>gw_subscribedSymbols := sdelete symbol (gw_subscribedSymbols g)\<rparr>)) g (su_rejected m)"

definition handleTick :: "Tick \<Rightarrow> TckrGatewaySource \<Rightarrow> TckrGatewaySource" where
  "handleTick tick g =
     (let g1 = emit (map (\<lambda>h. OutTick h tick) (gw_tickHandlers g)) g;
          (d, asked) = push tick (gw_dispatcher g1)
      in g1\<lparr>gw_dispatcher := d,
            gw_page := (gw_page g1)\<lparr>pg_frames := pg_frames (gw_page g1) + (if asked then 1 else 0)\<rparr>\<rparr>)"

definition handleError :: "ErrorMsg \<Rightarrow> TckrGatewaySource \<Rightarrow> TckrGatewaySource" where
  "handleError m g =
     (let g1 = emit (map (\<lambda>h. OutError h m) (gw_errorHandlers g)) g
      in if er_code m = RATE_LIMITED
         then scheduleThrottleFlush (g1\<lparr>gw_throttledUntil := clock_now g1 + RATE_LIMIT_BACKOFF_MS\<rparr>)
         else g1)"

definition handleEntitlementChanged :: "EntitlementChanged \<Rightarrow> TckrGatewaySource \<Rightarrow> TckrGatewaySource" where
  "handleEntitlementChanged m g =
     (let previousStream = map_option id_stream (gw_identityValue g);
          g1 = g\<lparr>gw_identityValue := map_option (\<lambda>i. i\<lparr>id_stream := en_stream m\<rparr>) (gw_identityValue g)\<rparr>;
          g2 = (if previousStream \<noteq> None \<and> previousStream \<noteq> Some (en_stream m) then on_store resetStream g1 else g1)
      in emit (map (\<lambda>h. OutEntitlement h m) (gw_entitlementHandlers g2)) g2)"

definition handleMessage :: "string \<Rightarrow> TckrGatewaySource \<Rightarrow> TckrGatewaySource" where
  "handleMessage raw g =
     (case parseServerMessage raw of
        Inl err \<Rightarrow> emit [OutWarn err] g
      | Inr (ConnectedMsg m) \<Rightarrow> handleConnected m g
      | Inr (SubscribedMsg m) \<Rightarrow> handleSubscribed m g
      | Inr (UnsubscribedMsg _) \<Rightarrow> g
      | Inr (TickMsg t) \<Rightarrow> handleTick t g
      | Inr (SnapshotMsg s) \<Rightarrow> ingestSnapshot s True g
      | Inr (HeartbeatMsg _) \<Rightarrow> pulse g
      | Inr (ErrorMessage m) \<Rightarrow> handleError m g
      | Inr (EntitlementMsg m) \<Rightarrow> handleEntitlementChanged m g)"

section \<open>Everything that can happen\<close>

definition listen :: "(nat jset \<Rightarrow> nat jset) \<Rightarrow> channel \<Rightarrow> TckrGatewaySource \<Rightarrow> TckrGatewaySource" where
  "listen f c g =
     (case c of
        TickChannel \<Rightarrow> g\<lparr>gw_tickHandlers := f (gw_tickHandlers g)\<rparr>
      | SnapshotChannel \<Rightarrow> g\<lparr>gw_snapshotHandlers := f (gw_snapshotHandlers g)\<rparr>
      | StatusChannel \<Rightarrow> g\<lparr>gw_statusHandlers := f (gw_statusHandlers g)\<rparr>
      | ErrorChannel \<Rightarrow> g\<lparr>gw_errorHandlers := f (gw_errorHandlers g)\<rparr>
      | EntitlementChannel \<Rightarrow> g\<lparr>gw_entitlementHandlers := f (gw_entitlementHandlers g)\<rparr>)"

datatype gateway_event =
    Connect | Disconnect
  | SubscribeCall "string list" | UnsubscribeCall "string list"
  | UniverseCall | SnapshotCall string | HistoryCall string
  | Listen channel nat | Unlisten channel nat
  | SocketOpened nat | SocketMessage nat string | SocketClosed nat nat string
  | TimerFires nat | TimePasses rat
  | FetchDone nat response | FrameDelivered

definition set_readyState :: "nat \<Rightarrow> nat \<Rightarrow> TckrGatewaySource \<Rightarrow> TckrGatewaySource" where
  "set_readyState sid r g = g\<lparr>gw_page := (gw_page g)\<lparr>pg_sockets := jset sid r (pg_sockets (gw_page g))\<rparr>\<rparr>"

fun run_callback :: "callback \<Rightarrow> TckrGatewaySource \<Rightarrow> TckrGatewaySource" where
  "run_callback CbThrottle g = throttle_expires g"
| "run_callback CbReconnect g = reconnectNow g"
| "run_callback CbWatchdog g = heartbeat_missed g"
| "run_callback CbPing g = send_ping g"

definition timer_fires :: "nat \<Rightarrow> TckrGatewaySource \<Rightarrow> TckrGatewaySource" where
  "timer_fires h g =
     (case due_timer (pg_timers (gw_page g)) h of
        None \<Rightarrow> g
      | Some (cb, tm) \<Rightarrow> run_callback cb (on_timers (\<lambda>_. tm) g))"

definition fetch_done :: "nat \<Rightarrow> response \<Rightarrow> TckrGatewaySource \<Rightarrow> TckrGatewaySource" where
  "fetch_done fid res g =
     (case jget (pg_fetches (gw_page g)) fid of
        None \<Rightarrow> g
      | Some r \<Rightarrow>
          let g1 = g\<lparr>gw_page := (gw_page g)\<lparr>pg_fetches := jdelete fid (pg_fetches (gw_page g))\<rparr>\<rparr>
          in case r of
               UniverseRequest \<Rightarrow> universe_done res g1
             | SnapshotRequest symbol \<Rightarrow> snapshot_done symbol res g1
             | HistoryRequest symbol \<Rightarrow> history_done symbol res g1)"

definition frame_delivered :: "TckrGatewaySource \<Rightarrow> TckrGatewaySource" where
  "frame_delivered g =
     (let pg = gw_page g
      in if pg_frames pg = 0 then g
         else let (d, st) = flushNow (\<lambda>s t. applyTick t (clock_now g) s) (gw_dispatcher g, pg_store pg)
              in g\<lparr>gw_dispatcher := d, gw_page := pg\<lparr>pg_store := st, pg_frames := pg_frames pg - 1\<rparr>\<rparr>)"

fun gateway_do :: "TckrGatewaySource \<Rightarrow> gateway_event \<Rightarrow> TckrGatewaySource" where
  "gateway_do g Connect = connect g"
| "gateway_do g Disconnect = disconnect g"
| "gateway_do g (SubscribeCall symbols) = subscribe symbols g"
| "gateway_do g (UnsubscribeCall symbols) = unsubscribe symbols g"
| "gateway_do g UniverseCall = getUniverse g"
| "gateway_do g (SnapshotCall symbol) = getSnapshot symbol g"
| "gateway_do g (HistoryCall symbol) = getHistory symbol g"
| "gateway_do g (Listen c h) = listen (sadd h) c g"
| "gateway_do g (Unlisten c h) = listen (sdelete h) c g"
| "gateway_do g (SocketOpened sid) =
     (if readyState g sid = Some SOCKET_CONNECTING then socket_onopen (set_readyState sid SOCKET_OPEN g) else g)"
| "gateway_do g (SocketMessage sid raw) =
     (if readyState g sid = Some SOCKET_OPEN then handleMessage raw g else g)"
| "gateway_do g (SocketClosed sid code reason) =
     (if readyState g sid = None \<or> readyState g sid = Some 3 then g
      else handleClose code reason (set_readyState sid 3 g))"
| "gateway_do g (TimerFires h) = timer_fires h g"
| "gateway_do g (TimePasses d) = on_timers (\<lambda>tm. advance tm d) g"
| "gateway_do g (FetchDone fid res) = fetch_done fid res g"
| "gateway_do g FrameDelivered = frame_delivered g"

definition gateway_run :: "TckrGatewaySource \<Rightarrow> gateway_event list \<Rightarrow> TckrGatewaySource" where
  "gateway_run g es = foldl gateway_do g es"

lemma gateway_run_simps [simp]:
  "gateway_run g [] = g" "gateway_run g (es @ [e]) = gateway_do (gateway_run g es) e"
  by (simp_all add: gateway_run_def)

section \<open>Running it\<close>

text \<open>The equations that evaluate a concrete run; the delays and messages a run needs are computed apart.\<close>

lemmas gateway_exec = gateway_run_def new_gateway_def new_page_def connect_def connecting_or_open_def
  emitStatus_def emitError_def emit_def openSocket_def createSocket_def readyState_def handleClose_def clearThrottleTimer_def
  stopPing_def stopHeartbeat_def set_readyState_def reconnectDecisionFor_def close_code_of_def toCloseCode_def
  scheduleReconnect_def draw_random_def clearReconnectTimer_def arm_timer_def on_timers_def on_store_def set_timer_def
  start_timers_def disconnect_def socket_close_def SOCKET_CONNECTING_def SOCKET_OPEN_def socket_onopen_def
  handleMessage_def handleConnected_def startHeartbeatMonitor_def startPing_def createHeartbeatWatchdog_def wd_arm_def
  wd_stop_def wd_expire_def wd_pulse_def pulse_def setTimeout_def clear_handle_def clearTimeout_def flushOutbound_def
  may_send_def clock_now_def socket_send_def send_def subscribe_def unsubscribe_def nextRequestId_def
  waitForAuthenticated_def resubscribe_def reconnectNow_def forceLocalClose_def heartbeat_missed_def
  timer_fires_def due_timer_def advance_def throttle_expires_def scheduleThrottleFlush_def handleError_def
  handleSubscribed_def handleTick_def handleEntitlementChanged_def frame_delivered_def flushNow_def
  getSnapshot_def start_fetch_def http_address_def jget_Cons jdelete_def sadd_def sdelete_def

definition demo_gateway :: TckrGatewaySource where
  "demo_gateway = new_gateway DEFAULTS (new_page 0 (\<lambda>_. 1 / 2) empty_store)"

lemma demo_delays:
  "nextDelay (Suc 0) DEFAULT_BACKOFF_POLICY (1 / 2) = 500" "timer_delay 500 = 500" "timer_delay 15000 = 15000"
  "timer_delay 30000 = 30000" "timer_delay 2000 = 2000" "fl 30000 = 30000"
  by code_simp+

end
