(* ===== verification/Gateway_Timers.thy ===== *)
theory Gateway_Timers
  imports Gateway
begin

text \<open>
  The gateway source's timers. \<open>tracked\<close> reads the handle the class holds for each of its four
  callbacks; \<open>tracks\<close> says the event loop has armed exactly those, and every method keeps it. So no
  timer is ever lost or doubled, \<open>disconnect\<close> leaves none behind, and from then on nothing but
  \<open>connect\<close> opens a socket.
\<close>

fun tracked :: "TckrGatewaySource \<Rightarrow> callback \<Rightarrow> nat option" where
  "tracked g CbThrottle = gw_throttleTimer g"
| "tracked g CbReconnect = gw_reconnectTimer g"
| "tracked g CbPing = gw_pingTimer g"
| "tracked g CbWatchdog = (case gw_heartbeatWatchdog g of None \<Rightarrow> None | Some wd \<Rightarrow> wd_handle wd)"

abbreviation source_tracks :: "callback timers \<Rightarrow> (callback \<Rightarrow> nat option) \<Rightarrow> bool" where
  "source_tracks \<equiv> tracks (\<lambda>cb. cb = CbPing) (\<lambda>_. True)"

definition timed :: "TckrGatewaySource \<Rightarrow> bool" where
  "timed g = tracks (\<lambda>cb. cb = CbPing) (\<lambda>_. True) (pg_timers (gw_page g)) (tracked g)"

section \<open>Frames\<close>

definition clocks :: "TckrGatewaySource \<Rightarrow> callback timers \<times> nat option \<times> nat option \<times> nat option \<times> Watchdog option" where
  "clocks g = (pg_timers (gw_page g), gw_throttleTimer g, gw_reconnectTimer g, gw_pingTimer g, gw_heartbeatWatchdog g)"

lemma tracked_clocks: "clocks g' = clocks g \<Longrightarrow> tracked g' = tracked g"
proof
  fix cb
  assume "clocks g' = clocks g"
  then show "tracked g' cb = tracked g cb" by (cases cb) (simp_all add: clocks_def)
qed

lemma timed_clocks: "clocks g' = clocks g \<Longrightarrow> timed g' = timed g"
  using tracked_clocks [of g' g] by (simp add: timed_def clocks_def)

lemma clocks_updates [simp]:
  "clocks (g\<lparr>gw_lastStatus := a\<rparr>) = clocks g" "clocks (g\<lparr>gw_connectResolvers := b\<rparr>) = clocks g"
  "clocks (g\<lparr>gw_subscribedSymbols := c\<rparr>) = clocks g" "clocks (g\<lparr>gw_universeInFlight := d\<rparr>) = clocks g"
  "clocks (g\<lparr>gw_pendingOutbound := e\<rparr>) = clocks g" "clocks (g\<lparr>gw_requestSeq := f\<rparr>) = clocks g"
  "clocks (g\<lparr>gw_socket := h\<rparr>) = clocks g" "clocks (g\<lparr>gw_authenticated := i\<rparr>) = clocks g"
  "clocks (g\<lparr>gw_intentionalClose := k\<rparr>) = clocks g" "clocks (g\<lparr>gw_connectAttempts := l\<rparr>) = clocks g"
  "clocks (g\<lparr>gw_backoffAttempt := n\<rparr>) = clocks g" "clocks (g\<lparr>gw_authWaiters := p\<rparr>) = clocks g"
  "clocks (g\<lparr>gw_identityValue := q\<rparr>) = clocks g" "clocks (g\<lparr>gw_heartbeatIntervalMs := r\<rparr>) = clocks g"
  "clocks (g\<lparr>gw_throttledUntil := s\<rparr>) = clocks g" "clocks (g\<lparr>gw_dispatcher := t\<rparr>) = clocks g"
  "clocks (g\<lparr>gw_universeCache := u\<rparr>) = clocks g"
  by (simp_all add: clocks_def)

lemma clocks_page [simp]: "pg_timers pg = pg_timers (gw_page g) \<Longrightarrow> clocks (g\<lparr>gw_page := pg\<rparr>) = clocks g"
  by (simp add: clocks_def)

lemma clocks_outside [simp]:
  "clocks (emit es g) = clocks g" "clocks (on_store f g) = clocks g" "clocks (socket_close sid c r g) = clocks g"
  "clocks (socket_send sid m g) = clocks g" "clocks (start_fetch rq url g) = clocks g" "clocks (set_readyState sid n g) = clocks g"
  "clocks (openSocket res g) = clocks g" "clocks (listen k ch g) = clocks g"
  by (simp_all add: clocks_def emit_def on_store_def socket_close_def socket_send_def start_fetch_def set_readyState_def
      openSocket_def createSocket_def listen_def Let_def split: channel.split)

lemma clocks_simple [simp]:
  "clocks (emitStatus state g) = clocks g" "clocks (emitError code msg rid g) = clocks g"
  "clocks (getSnapshot x g) = clocks g" "clocks (getHistory x g) = clocks g" "clocks (getUniverse g) = clocks g"
  "clocks (ingestSnapshot sn b g) = clocks g" "clocks (handleTick t g) = clocks g"
  "clocks (handleEntitlementChanged en g) = clocks g" "clocks (connect g) = clocks g"
  "clocks (frame_delivered g) = clocks g"
  by (simp_all add: emitStatus_def emitError_def getSnapshot_def getHistory_def getUniverse_def fetchUniverse_def
      ingestSnapshot_def handleTick_def handleEntitlementChanged_def connect_def frame_delivered_def Let_def
      case_prod_unfold split: option.split)

lemma clocks_folds [simp]:
  "clocks (foldl (\<lambda>g msg. socket_send sid msg g) g msgs) = clocks g" "clocks (handleSubscribed m g) = clocks g"
  "clocks (flushOutbound g) = clocks g"
proof -
  show f: "clocks (foldl (\<lambda>g msg. socket_send sid msg g) g msgs) = clocks g" for sid g msgs
    by (rule foldl_frame) simp
  show "clocks (handleSubscribed m g) = clocks g"
    unfolding handleSubscribed_def by (rule foldl_frame) simp
  show "clocks (flushOutbound g) = clocks g"
    by (simp add: flushOutbound_def f Let_def split: option.split)
qed

lemma clocks_done [simp]: "clocks (fetch_done fid res g) = clocks g"
  by (simp add: fetch_done_def universe_done_def snapshot_done_def history_done_def Let_def split: option.split request.split sum.split)

lemmas timed_frames [simp] =
  clocks_updates [THEN timed_clocks] clocks_page [THEN timed_clocks] clocks_outside [THEN timed_clocks]
  clocks_simple [THEN timed_clocks] clocks_folds [THEN timed_clocks] clocks_done [THEN timed_clocks]

lemmas tracked_frames [simp] =
  clocks_updates [THEN tracked_clocks] clocks_page [THEN tracked_clocks] clocks_outside [THEN tracked_clocks]
  clocks_simple [THEN tracked_clocks] clocks_folds [THEN tracked_clocks] clocks_done [THEN tracked_clocks]

section \<open>Every method keeps the timers tracked\<close>

lemma tracked_eqI:
  "tracked g CbThrottle = tr CbThrottle \<Longrightarrow> tracked g CbReconnect = tr CbReconnect \<Longrightarrow>
   tracked g CbPing = tr CbPing \<Longrightarrow> tracked g CbWatchdog = tr CbWatchdog \<Longrightarrow> tracked g = tr"
proof
  fix cb
  assume "tracked g CbThrottle = tr CbThrottle" "tracked g CbReconnect = tr CbReconnect"
    "tracked g CbPing = tr CbPing" "tracked g CbWatchdog = tr CbWatchdog"
  then show "tracked g cb = tr cb" by (cases cb) simp_all
qed

lemma tracked_updates [simp]:
  "tracked (g\<lparr>gw_throttleTimer := x\<rparr>) = (tracked g)(CbThrottle := x)"
  "tracked (g\<lparr>gw_reconnectTimer := x\<rparr>) = (tracked g)(CbReconnect := x)"
  "tracked (g\<lparr>gw_pingTimer := x\<rparr>) = (tracked g)(CbPing := x)"
  "tracked (g\<lparr>gw_heartbeatWatchdog := w\<rparr>) = (tracked g)(CbWatchdog := case w of None \<Rightarrow> None | Some wd \<Rightarrow> wd_handle wd)"
  "tracked (on_timers f g) = tracked g"
  by (rule tracked_eqI; simp add: on_timers_def)+

lemma timers_updates [simp]:
  "pg_timers (gw_page (on_timers f g)) = f (pg_timers (gw_page g))"
  by (simp add: on_timers_def)

lemma timed_clear:
  assumes "timed g" and "tracked g cb = Some h" and "tracked g' = (tracked g)(cb := None)"
    and "pg_timers (gw_page g') = clearTimeout (pg_timers (gw_page g)) h"
  shows "timed g'"
  using tracks_clear [OF assms(1) [unfolded timed_def] assms(2)] assms(3,4) by (simp add: timed_def)

lemma timed_arm:
  assumes "timed g" and "tracked g cb = None" and "(ev \<noteq> None) = (cb = CbPing)"
    and "tracked g' = (tracked g)(cb := Some (fst (set_timer (pg_timers (gw_page g)) cb ms ev)))"
    and "pg_timers (gw_page g') = snd (set_timer (pg_timers (gw_page g)) cb ms ev)"
  shows "timed g'"
  using tracks_arm [OF assms(1) [unfolded timed_def] assms(2,3)] assms(4,5) by (simp add: timed_def)

lemma timed_schedule [simp]: "timed g \<Longrightarrow> timed (scheduleThrottleFlush g)"
  by (cases "gw_throttleTimer g")
    (auto simp: scheduleThrottleFlush_def arm_timer_def Let_def intro: timed_arm [where cb = CbThrottle])

lemma timed_clearThrottle [simp]: "timed g \<Longrightarrow> timed (clearThrottleTimer g)"
  by (cases "gw_throttleTimer g") (auto simp: clearThrottleTimer_def intro: timed_clear [where cb = CbThrottle])

lemma timed_clearReconnect [simp]: "timed g \<Longrightarrow> timed (clearReconnectTimer g)"
  by (cases "gw_reconnectTimer g") (auto simp: clearReconnectTimer_def intro: timed_clear [where cb = CbReconnect])

lemma timed_stopPing [simp]: "timed g \<Longrightarrow> timed (stopPing g)"
  by (cases "gw_pingTimer g") (auto simp: stopPing_def intro: timed_clear [where cb = CbPing])

lemma tracked_cleared [simp]:
  "tracked (clearThrottleTimer g) = (tracked g)(CbThrottle := None)"
  "tracked (clearReconnectTimer g) = (tracked g)(CbReconnect := None)"
  "tracked (stopPing g) = (tracked g)(CbPing := None)"
  "tracked (stopHeartbeat g) = (tracked g)(CbWatchdog := None)"
  by (rule tracked_eqI; simp add: clearThrottleTimer_def clearReconnectTimer_def stopPing_def stopHeartbeat_def
      on_timers_def split: option.split)+

lemma timed_stopHeartbeat [simp]: "timed g \<Longrightarrow> timed (stopHeartbeat g)"
proof (cases "gw_heartbeatWatchdog g")
  case (Some wd)
  assume t: "timed g"
  show ?thesis
  proof (cases "wd_handle wd")
    case None
    have "tracked (stopHeartbeat g) = tracked g" by (rule tracked_eqI) (use Some None in simp_all)
    moreover have "pg_timers (gw_page (stopHeartbeat g)) = pg_timers (gw_page g)"
      using Some None by (simp add: stopHeartbeat_def wd_stop_def clear_handle_def)
    ultimately show ?thesis using t unfolding timed_def by (simp only:)
  next
    case (Some h)
    show ?thesis
      by (rule timed_clear [where cb = CbWatchdog and h = h and g = g, OF t])
        (use Some \<open>gw_heartbeatWatchdog g = Some wd\<close> in \<open>simp_all add: stopHeartbeat_def wd_stop_def clear_handle_def\<close>)
  qed
qed (simp add: stopHeartbeat_def)

lemma setTimeout_set: "setTimeout tm cb ms = set_timer tm cb ms None"
  by (simp add: setTimeout_def)

lemma timed_startHeartbeat [simp]: "timed g \<Longrightarrow> timed (startHeartbeatMonitor g)"
proof (cases "gw_heartbeatIntervalMs (stopHeartbeat g)")
  case (Some i)
  assume "timed g"
  then have t: "timed (stopHeartbeat g)" by simp
  show ?thesis
    by (rule timed_arm [where cb = CbWatchdog and ev = None and ms = "fl (i * 2)" and g = "stopHeartbeat g", OF t])
      (use Some in \<open>simp_all add: startHeartbeatMonitor_def createHeartbeatWatchdog_def wd_arm_eq clear_handle_def
        setTimeout_set set_timer_def Let_def\<close>)
qed (simp add: startHeartbeatMonitor_def)

lemma tracked_startHeartbeat [simp]: "cb \<noteq> CbWatchdog \<Longrightarrow> tracked (startHeartbeatMonitor g) cb = tracked g cb"
  by (simp add: startHeartbeatMonitor_def Let_def case_prod_unfold split: option.split)

lemma timed_startPing [simp]: "timed g \<Longrightarrow> timed (startPing g)"
proof (cases "gw_heartbeatIntervalMs (stopPing g)")
  case (Some i)
  assume "timed g"
  then have t: "timed (stopPing g)" by simp
  show ?thesis
    by (rule timed_arm [where cb = CbPing and ev = "Some i" and ms = i and g = "stopPing g", OF t])
      (use Some in \<open>simp_all add: startPing_def arm_timer_def Let_def\<close>)
qed (simp add: startPing_def)

lemma timed_pulse [simp]: "timed g \<Longrightarrow> timed (pulse g)"
proof (cases "gw_heartbeatWatchdog g")
  case (Some wd)
  assume t: "timed g"
  define g1 where "g1 = (on_timers (\<lambda>tm. clear_handle tm (wd_handle wd)) g)\<lparr>gw_heartbeatWatchdog := Some (wd\<lparr>wd_handle := None\<rparr>)\<rparr>"
  have g1: "timed g1"
  proof (cases "wd_handle wd")
    case None
    have "tracked g1 = tracked g" by (rule tracked_eqI) (use Some None in \<open>simp_all add: g1_def\<close>)
    moreover have "pg_timers (gw_page g1) = pg_timers (gw_page g)" using None by (simp add: g1_def clear_handle_def)
    ultimately show ?thesis using t unfolding timed_def by (simp only:)
  next
    case (Some h)
    show ?thesis
      by (rule timed_clear [where cb = CbWatchdog and h = h and g = g, OF t])
        (use Some \<open>gw_heartbeatWatchdog g = Some wd\<close> in \<open>simp_all add: g1_def clear_handle_def\<close>)
  qed
  show ?thesis
  proof (cases "wd_stopped wd")
    case True
    have "tracked (pulse g) = tracked g"
      by (rule tracked_eqI) (use Some True in \<open>simp_all add: pulse_def wd_pulse_def wd_arm_eq\<close>)
    moreover have "pg_timers (gw_page (pulse g)) = pg_timers (gw_page g)"
      using Some True by (simp add: pulse_def wd_pulse_def wd_arm_eq)
    ultimately show ?thesis using t unfolding timed_def by (simp only:)
  next
    case False
    have tr: "tracked (pulse g) = (tracked g1)(CbWatchdog := Some (tm_next (pg_timers (gw_page g1))))"
      using Some False by (simp add: pulse_def wd_pulse_def wd_arm_eq g1_def)
    show ?thesis
      by (rule timed_arm [where cb = CbWatchdog and ev = None and ms = "wd_deadlineMs wd", OF g1])
        (use Some False in \<open>simp_all add: tr g1_def\<close>, simp_all add: set_timer_def pulse_def wd_pulse_def wd_arm_eq setTimeout_set)
  qed
qed (simp add: pulse_def)

lemma timed_send [simp]: "timed g \<Longrightarrow> timed (send m g)"
  by (simp add: send_def Let_def split: option.split)

lemma timed_requests [simp]:
  "timed g \<Longrightarrow> timed (subscribe xs g)" "timed g \<Longrightarrow> timed (unsubscribe xs g)" "timed g \<Longrightarrow> timed (send_ping g)"
  by (simp_all add: subscribe_def unsubscribe_def send_ping_def nextRequestId_def Let_def)

lemma timed_resubscribe [simp]: "timed g \<Longrightarrow> timed (resubscribe g)"
proof -
  have "timed h \<Longrightarrow> timed (foldl (\<lambda>g symbol. getSnapshot symbol g) h xs)" for h xs
    by (rule foldl_invariant [where P = timed]) simp_all
  then show "timed g \<Longrightarrow> timed (resubscribe g)" by (simp add: resubscribe_def Let_def)
qed

lemma timed_rearm:
  assumes "timed g"
  shows "timed ((on_timers (\<lambda>tm. snd (set_timer tm CbReconnect ms None)) (clearReconnectTimer g))
      \<lparr>gw_reconnectTimer := Some (fst (set_timer (pg_timers (gw_page (clearReconnectTimer g))) CbReconnect ms None))\<rparr>)"
  by (rule timed_arm [where cb = CbReconnect and ev = None and ms = ms and g = "clearReconnectTimer g"])
    (simp_all add: assms)

lemma timed_reconnect [simp]: "timed g \<Longrightarrow> timed (scheduleReconnect g)"
  by (simp add: scheduleReconnect_def draw_random_def arm_timer_def timed_rearm Let_def)

lemma timed_close [simp]:
  "timed g \<Longrightarrow> timed (handleClose code reason g)" "timed g \<Longrightarrow> timed (forceLocalClose code reason g)"
  "timed g \<Longrightarrow> timed (disconnect g)"
  by (simp_all add: handleClose_def forceLocalClose_def disconnect_def Let_def split: option.split)

lemma timed_connected [simp]: "timed g \<Longrightarrow> timed (handleConnected m g)"
proof -
  have pow: "timed h \<Longrightarrow> timed ((resubscribe ^^ n) h)" for n h
    by (induction n) simp_all
  assume "timed g"
  then show ?thesis unfolding handleConnected_def Let_def by (simp add: pow)
qed

lemma timed_opened [simp]: "timed g \<Longrightarrow> timed (socket_onopen g)"
  by (simp add: socket_onopen_def waitForAuthenticated_def Let_def split: option.split resolver.split)

lemma timed_message [simp]: "timed g \<Longrightarrow> timed (handleMessage raw g)"
  by (simp add: handleMessage_def handleError_def Let_def split: sum.split ServerMessage.split)

lemma timed_fires [simp]: "timed g \<Longrightarrow> timed (timer_fires h g)"
proof (cases "due_timer (pg_timers (gw_page g)) h")
  case (Some p)
  obtain cb tm where p: "p = (cb, tm)" by force
  assume "timed g"
  from tracks_due [OF this [unfolded timed_def], of h cb tm] Some p
  have d: "tracked g cb = Some h" "if cb = CbPing then source_tracks tm (tracked g) else source_tracks tm ((tracked g)(cb := None))"
    by simp_all
  have go: "timer_fires h g = run_callback cb (on_timers (\<lambda>_. tm) g)" using Some p by (simp add: timer_fires_def)
  show ?thesis
  proof (cases cb)
    case CbThrottle
    then have "timed ((on_timers (\<lambda>_. tm) g)\<lparr>gw_throttleTimer := None\<rparr>)" using d by (simp add: timed_def)
    then show ?thesis by (simp add: go CbThrottle throttle_expires_def Let_def)
  next
    case CbReconnect
    then have "timed ((on_timers (\<lambda>_. tm) g)\<lparr>gw_reconnectTimer := None\<rparr>)" using d by (simp add: timed_def)
    then show ?thesis by (simp add: go CbReconnect reconnectNow_def)
  next
    case CbPing
    then have "timed (on_timers (\<lambda>_. tm) g)" using d by (simp add: timed_def)
    then show ?thesis by (simp add: go CbPing)
  next
    case CbWatchdog
    then obtain wd where wd: "gw_heartbeatWatchdog g = Some wd" using d(1) by (auto split: option.splits)
    have "timed ((on_timers (\<lambda>_. tm) g)\<lparr>gw_heartbeatWatchdog := Some (wd_expire wd)\<rparr>)"
      using d CbWatchdog by (simp add: timed_def wd_expire_def)
    then show ?thesis using wd by (simp add: go CbWatchdog heartbeat_missed_def) (simp add: on_timers_def)
  qed
qed (simp add: timer_fires_def)

lemma timed_step: "timed g \<Longrightarrow> timed (gateway_do g e)"
proof (cases e)
  case (TimePasses d)
  assume "timed g"
  then show ?thesis using tracks_advance [where tm = "pg_timers (gw_page g)" and tr = "tracked g" and d = d] by (simp add: TimePasses timed_def)
qed simp_all

lemma timed_run: "timed g \<Longrightarrow> timed (gateway_run g es)"
  by (induction es rule: rev_induct) (simp_all add: timed_step)

lemma timed_new: "timed (new_gateway config (new_page t rnd st))"
  unfolding timed_def new_gateway_def new_page_def by simp (rule tracks_start, case_tac cb, simp_all)

text \<open>Claim C26: the source never loses track of a timer: after any run, for each of its four purposes the
  timers armed are exactly the one whose handle it holds, if it holds one.\<close>

theorem timers_tracked:
  "{h. \<exists>x. jget (tm_armed (pg_timers (gw_page (gateway_run (new_gateway config (new_page t rnd st)) es)))) h = Some x \<and>
       ti_callback x = cb} =
   set_option (tracked (gateway_run (new_gateway config (new_page t rnd st)) es) cb)"
proof -
  define g where "g = gateway_run (new_gateway config (new_page t rnd st)) es"
  have t: "source_tracks (pg_timers (gw_page g)) (tracked g)"
    using timed_run [OF timed_new] by (simp only: g_def timed_def)
  then show ?thesis unfolding g_def [symmetric] by (auto simp: tracks_callback [OF t])
qed

section \<open>Disconnecting\<close>

definition dial :: "TckrGatewaySource \<Rightarrow> nat list \<times> bool \<times> nat option" where
  "dial g = (jkeys (pg_sockets (gw_page g)), gw_intentionalClose g, gw_reconnectTimer g)"

lemma dial_updates [simp]:
  "dial (g\<lparr>gw_lastStatus := a\<rparr>) = dial g" "dial (g\<lparr>gw_connectResolvers := b\<rparr>) = dial g"
  "dial (g\<lparr>gw_subscribedSymbols := c\<rparr>) = dial g" "dial (g\<lparr>gw_universeInFlight := d\<rparr>) = dial g"
  "dial (g\<lparr>gw_pendingOutbound := e\<rparr>) = dial g" "dial (g\<lparr>gw_requestSeq := f\<rparr>) = dial g"
  "dial (g\<lparr>gw_socket := h\<rparr>) = dial g" "dial (g\<lparr>gw_authenticated := i\<rparr>) = dial g"
  "dial (g\<lparr>gw_throttleTimer := k\<rparr>) = dial g" "dial (g\<lparr>gw_pingTimer := l\<rparr>) = dial g"
  "dial (g\<lparr>gw_backoffAttempt := n\<rparr>) = dial g" "dial (g\<lparr>gw_authWaiters := p\<rparr>) = dial g"
  "dial (g\<lparr>gw_identityValue := q\<rparr>) = dial g" "dial (g\<lparr>gw_heartbeatIntervalMs := r\<rparr>) = dial g"
  "dial (g\<lparr>gw_throttledUntil := s\<rparr>) = dial g" "dial (g\<lparr>gw_dispatcher := t\<rparr>) = dial g"
  "dial (g\<lparr>gw_universeCache := u\<rparr>) = dial g" "dial (g\<lparr>gw_heartbeatWatchdog := v\<rparr>) = dial g"
  by (simp_all add: dial_def)

lemma dial_page [simp]: "pg_sockets pg = pg_sockets (gw_page g) \<Longrightarrow> dial (g\<lparr>gw_page := pg\<rparr>) = dial g"
  by (simp add: dial_def)

lemma dial_outside [simp]:
  "dial (emit es g) = dial g" "dial (on_store f g) = dial g" "dial (on_timers k g) = dial g"
  "dial (socket_send sid m g) = dial g" "dial (start_fetch rq url g) = dial g" "dial (listen l ch g) = dial g"
  by (simp_all add: dial_def emit_def on_store_def on_timers_def socket_send_def start_fetch_def listen_def Let_def
      split: channel.split)

lemma dial_sockets [simp]:
  "dial (socket_close sid c r g) = dial g" "readyState g sid \<noteq> None \<Longrightarrow> dial (set_readyState sid n g) = dial g"
  by (auto simp: dial_def socket_close_def set_readyState_def emit_def readyState_def jkeys_jset_present jget_Some_key)

lemma dial_timers [simp]:
  "dial (scheduleThrottleFlush g) = dial g" "dial (clearThrottleTimer g) = dial g" "dial (stopHeartbeat g) = dial g"
  "dial (stopPing g) = dial g" "dial (pulse g) = dial g" "dial (startHeartbeatMonitor g) = dial g" "dial (startPing g) = dial g"
proof -
  show h: "dial (stopHeartbeat g) = dial g" for g by (simp add: stopHeartbeat_def split: option.split)
  show p: "dial (stopPing g) = dial g" for g by (simp add: stopPing_def split: option.split)
  show "dial (startHeartbeatMonitor g) = dial g" "dial (startPing g) = dial g"
    by (simp_all add: startHeartbeatMonitor_def startPing_def arm_timer_def h p Let_def case_prod_unfold split: option.split)
qed (simp_all add: scheduleThrottleFlush_def clearThrottleTimer_def pulse_def arm_timer_def Let_def case_prod_unfold split: option.split)

lemma dial_simple [simp]:
  "dial (emitStatus state g) = dial g" "dial (emitError code msg rid g) = dial g"
  "dial (getSnapshot x g) = dial g" "dial (getHistory x g) = dial g" "dial (getUniverse g) = dial g"
  "dial (ingestSnapshot sn b g) = dial g" "dial (handleTick t g) = dial g" "dial (handleError er g) = dial g"
  "dial (handleEntitlementChanged en g) = dial g" "dial (frame_delivered g) = dial g" "dial (fetch_done fid res g) = dial g"
  by (simp_all add: emitStatus_def emitError_def getSnapshot_def getHistory_def getUniverse_def fetchUniverse_def
      ingestSnapshot_def handleTick_def handleError_def handleEntitlementChanged_def frame_delivered_def fetch_done_def
      universe_done_def snapshot_done_def history_done_def Let_def case_prod_unfold split: option.split request.split sum.split)

lemma dial_sending [simp]:
  "dial (flushOutbound g) = dial g" "dial (send m g) = dial g" "dial (subscribe xs g) = dial g"
  "dial (unsubscribe xs g) = dial g" "dial (send_ping g) = dial g" "dial (resubscribe g) = dial g"
  "dial (handleSubscribed su g) = dial g"
proof -
  show f: "dial (flushOutbound g) = dial g"
  proof -
    have "dial (foldl (\<lambda>g msg. socket_send sid msg g) h msgs) = dial h" for sid h msgs by (rule foldl_frame) simp
    then show ?thesis by (simp add: flushOutbound_def Let_def split: option.split)
  qed
  show s: "dial (send m g) = dial g" for m g by (simp add: send_def Let_def split: option.split)
  show u: "dial (subscribe xs g) = dial g" for xs g by (simp add: subscribe_def nextRequestId_def s Let_def)
  show "dial (unsubscribe xs g) = dial g" "dial (send_ping g) = dial g"
    by (simp_all add: unsubscribe_def send_ping_def nextRequestId_def s Let_def)
  have "dial (foldl (\<lambda>g symbol. getSnapshot symbol g) h xs) = dial h" for h xs by (rule foldl_frame) simp
  then show "dial (resubscribe g) = dial g" by (simp add: resubscribe_def u Let_def)
  show "dial (handleSubscribed su g) = dial g" unfolding handleSubscribed_def by (rule foldl_frame) simp
qed

lemma dial_events [simp]:
  "dial (handleConnected m g) = dial g" "dial (socket_onopen g) = dial g" "dial (throttle_expires g) = dial g"
proof -
  have "dial ((resubscribe ^^ n) h) = dial h" for n h by (induction n) simp_all
  then show "dial (handleConnected m g) = dial g" by (simp add: handleConnected_def Let_def)
qed (simp_all add: socket_onopen_def waitForAuthenticated_def throttle_expires_def Let_def split: option.split resolver.split)

lemma dial_message [simp]: "dial (handleMessage raw g) = dial g"
  by (simp add: handleMessage_def split: sum.split ServerMessage.split)

lemma intentional_dial: "dial g' = dial g \<Longrightarrow> gw_intentionalClose g' = gw_intentionalClose g"
  by (simp add: dial_def)

text \<open>An intentional close schedules nothing.\<close>

lemma dial_close: "gw_intentionalClose g \<Longrightarrow> dial (handleClose code reason g) = dial g"
  "gw_intentionalClose g \<Longrightarrow> dial (forceLocalClose code reason g) = dial g"
  "gw_intentionalClose g \<Longrightarrow> dial (heartbeat_missed g) = dial g"
proof -
  show c: "gw_intentionalClose g \<Longrightarrow> dial (handleClose code reason g) = dial g" for code reason g
  proof -
    assume i: "gw_intentionalClose g"
    define g1 where "g1 = (clearThrottleTimer (stopPing (stopHeartbeat g)))\<lparr>gw_authenticated := False, gw_socket := None\<rparr>"
    define g4 where "g4 = (let g2 = emitStatus (ClosedWith (toCloseCode code) reason) (g1\<lparr>gw_connectResolvers := None\<rparr>)
      in if gw_connectResolvers g1 = Some ClientConnect then emit [OutConnect (Inl (closed_early code reason))] g2 else g2)"
    have d: "dial g4 = dial g" by (simp add: g4_def g1_def Let_def)
    then have "gw_intentionalClose g4" using i intentional_dial [OF d] by simp
    then have "handleClose code reason g = g4" by (simp add: handleClose_def g4_def g1_def Let_def)
    then show ?thesis using d by simp
  qed
  show f: "gw_intentionalClose g \<Longrightarrow> dial (forceLocalClose code reason g) = dial g" for code reason g
    by (simp add: forceLocalClose_def c split: option.split)
  show "gw_intentionalClose g \<Longrightarrow> dial (heartbeat_missed g) = dial g"
    by (simp add: heartbeat_missed_def f split: option.split)
qed

definition hung_up :: "nat list \<Rightarrow> TckrGatewaySource \<Rightarrow> bool" where
  "hung_up n g = (timed g \<and> dial g = (n, True, None))"

lemma dial_disconnect: "dial (disconnect g) = (jkeys (pg_sockets (gw_page g)), True, None)"
proof -
  have "dial (clearReconnectTimer (g\<lparr>gw_intentionalClose := True\<rparr>)) = (jkeys (pg_sockets (gw_page g)), True, None)"
    by (simp add: clearReconnectTimer_def dial_def on_timers_def split: option.split)
  then show ?thesis by (simp add: disconnect_def Let_def split: option.split)
qed

lemma tracked_disconnect: "tracked (disconnect g) cb = None"
proof -
  have "tracked (disconnect g) =
      (tracked g)(CbReconnect := None, CbWatchdog := None, CbPing := None, CbThrottle := None)"
    by (simp add: disconnect_def Let_def del: tracked.simps split: option.split)
  then show ?thesis by (cases cb) (simp_all del: tracked.simps)
qed

lemma hung_up_disconnect: "timed g \<Longrightarrow> hung_up (jkeys (pg_sockets (gw_page g))) (disconnect g)"
  by (simp add: hung_up_def dial_disconnect)

lemma hung_up_quiet: "hung_up n g \<Longrightarrow> timed g' \<Longrightarrow> dial g' = dial g \<Longrightarrow> hung_up n g'"
  by (simp add: hung_up_def)

lemma hung_up_step:
  assumes h: "hung_up n g" and "e \<noteq> Connect"
  shows "hung_up n (gateway_do g e)"
proof (rule hung_up_quiet [OF h])
  have t: "timed g" and d: "dial g = (n, True, None)" and i: "gw_intentionalClose g"
    using h by (simp_all add: hung_up_def dial_def)
  show "timed (gateway_do g e)" using t by (rule timed_step)
  show "dial (gateway_do g e) = dial g"
  proof (cases e)
    case Disconnect
    then show ?thesis using d by (simp add: dial_disconnect) (simp add: dial_def)
  next
    case (SocketClosed sid code reason)
    define g1 where "g1 = set_readyState sid 3 g"
    have "gw_intentionalClose g1" using i by (simp add: g1_def set_readyState_def)
    moreover have "readyState g sid \<noteq> None \<Longrightarrow> dial g1 = dial g" by (simp add: g1_def)
    ultimately show ?thesis by (simp add: SocketClosed dial_close g1_def [symmetric])
  next
    case (TimerFires h)
    show ?thesis
    proof (cases "due_timer (pg_timers (gw_page g)) h")
      case (Some p)
      obtain cb tm where p: "p = (cb, tm)" by force
      have "tracked g cb = Some h" using tracks_due [OF t [unfolded timed_def], of h cb tm] Some p by simp
      moreover have "tracked g CbReconnect = None" using d by (simp add: dial_def)
      ultimately have cb: "cb \<noteq> CbReconnect" by auto
      define g1 where "g1 = on_timers (\<lambda>_. tm) g"
      have "gw_intentionalClose g1" "dial g1 = dial g" using i by (simp_all add: g1_def) (simp add: on_timers_def)
      then have "dial (run_callback cb g1) = dial g" using cb by (cases cb) (simp_all add: dial_close)
      then show ?thesis using Some p by (simp add: TimerFires timer_fires_def g1_def)
    qed (simp add: TimerFires timer_fires_def)
  qed (use assms(2) in simp_all)
qed

text \<open>Claim C2: \<open>disconnect\<close> is final: it leaves no timer armed, and until \<open>connect\<close> is called again no
  socket is opened and no reconnection is scheduled, whatever the server, the network and the page do.\<close>

theorem disconnect_is_final:
  assumes "Connect \<notin> set es'" and g: "g = gateway_run (new_gateway config (new_page t rnd st)) es"
  shows "jget (tm_armed (pg_timers (gw_page (gateway_do g Disconnect)))) h = None \<and>
    jkeys (pg_sockets (gw_page (gateway_run g (Disconnect # es')))) = jkeys (pg_sockets (gw_page g)) \<and>
    gw_reconnectTimer (gateway_run g (Disconnect # es')) = None"
proof -
  have t: "timed g" using timed_run [OF timed_new] by (simp add: g)
  have quiet: "jget (tm_armed (pg_timers (gw_page (disconnect g)))) h = None"
    by (rule tracks_nothing [OF timed_close(3) [OF t, unfolded timed_def]]) (rule tracked_disconnect)
  have "hung_up (jkeys (pg_sockets (gw_page g))) (gateway_run g (Disconnect # es'))"
    using assms(1)
  proof (induction es' rule: rev_induct)
    case Nil
    show ?case using hung_up_disconnect [OF t] by (simp add: gateway_run_def)
  next
    case (snoc e es')
    then have "hung_up (jkeys (pg_sockets (gw_page g))) (gateway_run g (Disconnect # es'))" "e \<noteq> Connect" by auto
    from hung_up_step [OF this] show ?case by (simp add: gateway_run_def)
  qed
  then show ?thesis using quiet by (simp add: hung_up_def dial_def)
qed

text \<open>A dropped connection's retry is cancelled.\<close>

theorem disconnect_is_final_witness:
  "let dropped = gateway_run demo_gateway [Connect, SocketClosed 0 1006 ''''] in
     tracked dropped CbReconnect = Some 0 \<and>
     jget (tm_armed (pg_timers (gw_page (gateway_do dropped Disconnect)))) 0 = None \<and>
     jkeys (pg_sockets (gw_page (gateway_run dropped [Disconnect, TimePasses 600, TimerFires 0]))) = [0]"
proof -
  define dropped where "dropped = gateway_run demo_gateway [Connect, SocketClosed 0 1006 '''']"
  have now: "tracked (gateway_run demo_gateway [Connect, SocketClosed 0 1006 '''']) CbReconnect = Some 0 \<and>
      jkeys (pg_sockets (gw_page (gateway_run demo_gateway [Connect, SocketClosed 0 1006 '''']))) = [0]"
    by (simp add: gateway_exec demo_gateway_def demo_delays)
  have "Connect \<notin> set [TimePasses 600, TimerFires 0]" by simp
  from disconnect_is_final [OF this dropped_def [unfolded demo_gateway_def], of 0] now
  show ?thesis unfolding Let_def dropped_def [symmetric] by simp
qed

end
