(* ===== verification/Simulated_Engine.thy ===== *)
theory Simulated_Engine
  imports Market_Source Json Calendar "HOL-Library.Word"
begin

unbundle bit_operations_syntax

text \<open>
  data/SimulatedSource.ts, the module-level part: the universe, the local fixed-point helpers, the
  mulberry32 generator on 32-bit words (its state is passed explicitly), the weighted choice of a
  symbol, the seeded opening auction and the instant backfill of a session. The instruments are
  the data file's, an argument here; their lot sizes and weights are whole numbers.
\<close>

section \<open>Universe\<close>

record RawSymbol =
  rs_symbol :: string
  rs_name :: string
  rs_referencePrice :: number
  rs_tickSize :: number
  rs_lotSize :: int
  rs_weight :: int

record SimSymbol =
  ss_symbol :: string
  ss_name :: string
  ss_referencePrice :: decimal
  ss_tickSize :: decimal
  ss_lotSize :: int
  ss_weight :: int

definition numberToDecimal :: "number \<Rightarrow> decimal exn" where
  "numberToDecimal v = toDecimal (number_text v)"

definition sim_symbols :: "RawSymbol list \<Rightarrow> SimSymbol list exn" where
  "sim_symbols universe = mapE (\<lambda>raw.
     bindE (numberToDecimal (rs_referencePrice raw)) (\<lambda>referencePrice.
     bindE (numberToDecimal (rs_tickSize raw)) (\<lambda>tickSize.
       Inr \<lparr>ss_symbol = rs_symbol raw, ss_name = rs_name raw, ss_referencePrice = referencePrice,
            ss_tickSize = tickSize, ss_lotSize = rs_lotSize raw, ss_weight = rs_weight raw\<rparr>))) universe"

section \<open>Fixed point\<close>

definition scaledFromDecimal :: "decimal \<Rightarrow> int" where
  "scaledFromDecimal val =
     (let negative = (take 1 val = ''-'');
          hasSign = (negative \<or> take 1 val = ''+'');
          unsigned = (if hasSign then drop 1 val else val);
          dot = index_of (CHR ''.'') unsigned;
          intPart = (case dot of None \<Rightarrow> unsigned | Some i \<Rightarrow> take i unsigned);
          fracRaw = (case dot of None \<Rightarrow> '''' | Some i \<Rightarrow> drop (i + 1) unsigned);
          fracPart = padEnd SCALE_DIGITS (CHR ''0'') fracRaw;
          magnitude = int (str_nat (intPart @ fracPart))
      in if negative then - magnitude else magnitude)"

text \<open>The text, and the whole function with its final check, which never fails for up to four
  decimals (\<open>decimalFromScaled_total\<close>).\<close>

definition scaled_text :: "int \<Rightarrow> nat \<Rightarrow> string" where
  "scaled_text scaled decimals =
     (let negative = (scaled < 0);
          magnitude = (if negative then - scaled else scaled);
          digits = padStart (SCALE_DIGITS + 1) (CHR ''0'') (nat_str (nat magnitude));
          intPart = take (length digits - SCALE_DIGITS) digits;
          fullFrac = drop (length digits - SCALE_DIGITS) digits;
          frac = (if decimals > 0 then padEnd decimals (CHR ''0'') (take decimals fullFrac) else '''');
          body = (if decimals > 0 then intPart @ ''.'' @ frac else intPart)
      in if negative \<and> magnitude \<noteq> 0 then ''-'' @ body else body)"

definition decimalFromScaled :: "int \<Rightarrow> nat \<Rightarrow> decimal exn" where
  "decimalFromScaled scaled decimals = toDecimal (scaled_text scaled decimals)"

section \<open>mulberry32\<close>

definition mulberry32 :: "32 word \<Rightarrow> 32 word" where
  "mulberry32 seed = seed"

definition mulberry_next :: "32 word \<Rightarrow> rat \<times> 32 word" where
  "mulberry_next a0 =
     (let a = a0 + 0x6d2b79f5;
          t = (a XOR drop_bit 15 a) * (a OR 1);
          t' = t XOR (t + (t XOR drop_bit 7 t) * (t OR 61))
      in (of_nat (unat (t' XOR drop_bit 14 t')) / 4294967296, a))"

text \<open>\<open>seed >>> 0\<close> of a number: its whole part modulo 2^32.\<close>

definition to_uint32 :: "number \<Rightarrow> 32 word" where
  "to_uint32 x = (case x of Fin r \<Rightarrow> word_of_int (if r < 0 then - \<lfloor>- r\<rfloor> else \<lfloor>r\<rfloor>) | _ \<Rightarrow> 0)"

definition fnv_step :: "32 word \<Rightarrow> char \<Rightarrow> 32 word" where
  "fnv_step hash c = (hash XOR of_nat (of_char c)) * 0x01000193"

definition hashSeed :: "number \<Rightarrow> string \<Rightarrow> string \<Rightarrow> 32 word" where
  "hashSeed baseSeed symbol sessionDateKey =
     (let input = number_text baseSeed @ '':'' @ symbol @ '':'' @ sessionDateKey
      in foldl fnv_step 0x811c9dc5 input)"

section \<open>Choosing a symbol\<close>

record WeightedPicker =
  wp_cumulative :: "int list"
  wp_total :: int
  wp_symbols :: "SimSymbol list"

fun running_sums :: "int \<Rightarrow> SimSymbol list \<Rightarrow> int list" where
  "running_sums running [] = []"
| "running_sums running (s # ss) = (let r = running + ss_weight s in r # running_sums r ss)"

definition new_picker :: "SimSymbol list \<Rightarrow> WeightedPicker" where
  "new_picker symbols =
     \<lparr>wp_cumulative = running_sums 0 symbols, wp_total = sum_list (map ss_weight symbols), wp_symbols = symbols\<rparr>"

fun pick_loop :: "rat \<Rightarrow> int list \<Rightarrow> SimSymbol list \<Rightarrow> SimSymbol option" where
  "pick_loop target (b # bs) (s # ss) = (if target < of_int b then Some s else pick_loop target bs ss)"
| "pick_loop target _ _ = None"

definition pick :: "rat \<Rightarrow> WeightedPicker \<Rightarrow> SimSymbol exn" where
  "pick roll p =
     (let target = fl (roll * of_int (wp_total p))
      in case pick_loop target (wp_cumulative p) (wp_symbols p) of
           Some s \<Rightarrow> Inr s
         | None \<Rightarrow> (case wp_symbols p of
               [] \<Rightarrow> Inl (PlainError ''SimulatedSource: empty universe'')
             | _ \<Rightarrow> Inr (last (wp_symbols p))))"

section \<open>The walk\<close>

definition BATCH_INTERVAL_MS :: rat where "BATCH_INTERVAL_MS = 50"
definition HISTORY_SAMPLE_INTERVAL_MS :: int where "HISTORY_SAMPLE_INTERVAL_MS = 30000"
definition HISTORY_MAX_POINTS :: nat where "HISTORY_MAX_POINTS = 4000"
definition MARKET_CLOCK_INTERVAL_MS :: rat where "MARKET_CLOCK_INTERVAL_MS = 1000"
definition BACKFILL_MAX_STEPS_PER_SLOT :: int where "BACKFILL_MAX_STEPS_PER_SLOT = 6"
definition LIVE_MAX_STEPS_PER_TICK :: int where "LIVE_MAX_STEPS_PER_TICK = 4"

definition resolveStream :: "string \<Rightarrow> Stream" where
  "resolveStream demoUser = (if demoUser = ''user-002'' then DELAYED else LIVE)"

definition pickSignedSteps :: "32 word \<Rightarrow> int \<Rightarrow> int \<Rightarrow> int \<Rightarrow> int \<times> 32 word" where
  "pickSignedSteps rng price opn maxSteps =
     (let (roll, rng1) = mulberry_next rng;
          steps = \<lfloor>fl (roll * of_int maxSteps)\<rfloor>;
          upProbability = (if price > opn then fl (35 / 100) else if price < opn then fl (65 / 100) else 1 / 2);
          (roll2, rng2) = mulberry_next rng1;
          goUp = (roll2 < upProbability)
      in (if steps = 0 then 0 else if goUp then steps else - steps, rng2))"

definition MAX_OPENING_GAP :: rat where "MAX_OPENING_GAP = fl (8 / 1000)"

definition auctionOpen :: "SimSymbol \<Rightarrow> 32 word \<Rightarrow> int" where
  "auctionOpen def seed =
     (let reference = scaledFromDecimal (ss_referencePrice def);
          tick = scaledFromDecimal (ss_tickSize def);
          gapRng = mulberry32 (seed XOR 0x5f3759df);
          maxTicks = max 1 \<lfloor>fl (fl (fl (of_int reference) * MAX_OPENING_GAP) / fl (of_int tick))\<rfloor>;
          (roll, _) = mulberry_next gapRng;
          gapTicks = \<lfloor>fl (fl (fl (roll * 2) - 1) * of_int maxTicks) + 1 / 2\<rfloor>;
          opn = reference + tick * gapTicks
      in if opn < tick then tick else opn)"

section \<open>Backfill\<close>

type_synonym HistorySample = "int \<times> int"

record BackfilledSession =
  bf_open :: int
  bf_price :: int
  bf_high :: int
  bf_low :: int
  bf_volume :: number
  bf_history :: "HistorySample list"

text \<open>\<open>push\<close>, then \<open>shift\<close> beyond the cap.\<close>

definition push_sample :: "HistorySample \<Rightarrow> HistorySample list \<Rightarrow> HistorySample list" where
  "push_sample x h = (let h' = h @ [x] in if length h' > HISTORY_MAX_POINTS then drop 1 h' else h')"

definition backfill_step :: "SimSymbol \<Rightarrow> 32 word \<times> BackfilledSession \<Rightarrow> 32 word \<times> BackfilledSession" where
  "backfill_step def rb =
     (let (rng, b) = rb;
          tickSizeScaled = scaledFromDecimal (ss_tickSize def);
          (signedSteps, rng1) = pickSignedSteps rng (bf_price b) (bf_open b) BACKFILL_MAX_STEPS_PER_SLOT;
          stepped = bf_price b + tickSizeScaled * signedSteps;
          price = (if stepped < tickSizeScaled then tickSizeScaled else stepped);
          (roll, rng2) = mulberry_next rng1;
          lots = 1 + \<lfloor>fl (roll * 10)\<rfloor>
      in (rng2, b\<lparr>bf_price := price, bf_high := max (bf_high b) price, bf_low := min (bf_low b) price,
                  bf_volume := num_add (bf_volume b) (of_count (ss_lotSize def * lots))\<rparr>))"

definition backfill_slot :: "SimSymbol \<Rightarrow> int \<Rightarrow> 32 word \<times> BackfilledSession \<Rightarrow> nat \<Rightarrow> 32 word \<times> BackfilledSession" where
  "backfill_slot def sessionOpenAt rb slot =
     (let (rng, b) = (if slot > 0 then backfill_step def rb else rb)
      in (rng, b\<lparr>bf_history := push_sample (sessionOpenAt + int slot * HISTORY_SAMPLE_INTERVAL_MS, bf_price b) (bf_history b)\<rparr>))"

definition total_slots :: "int \<Rightarrow> int \<Rightarrow> nat" where
  "total_slots sessionOpenAt targetTime =
     nat (max 0 \<lfloor>fl (of_int (targetTime - sessionOpenAt) / of_int HISTORY_SAMPLE_INTERVAL_MS)\<rfloor>)"

definition computeBackfilledSession :: "SimSymbol \<Rightarrow> int \<Rightarrow> int \<Rightarrow> 32 word \<Rightarrow> BackfilledSession" where
  "computeBackfilledSession def sessionOpenAt targetTime seed =
     (let rng = mulberry32 seed;
          opn = auctionOpen def seed;
          start = \<lparr>bf_open = opn, bf_price = opn, bf_high = opn, bf_low = opn, bf_volume = of_count 0, bf_history = []\<rparr>
      in snd (foldl (backfill_slot def sessionOpenAt) (rng, start) [0..<total_slots sessionOpenAt targetTime + 1]))"

end
