(* ===== verification/Simulated.thy ===== *)
theory Simulated
  imports Simulated_Engine Reconnect Dispatcher
begin

text \<open>
  data/SimulatedSource.ts, the class \<open>SimulatedSource\<close>: the browser-only source. The record holds its
  private fields and, with the prefix \<open>si_page\<close>, what it works on: the event loop's timers, the
  shared store, the frames its dispatcher asked for and what it did to the outside, newest first.
  Every method is a function on it; \<open>off\<close> is the engine's time zone for the market calendar. A
  snapshot request is the symbol it asks for, its promise settled by an entry of the output.

  \<open>getMarketStatus\<close> never throws (\<open>market_status_right\<close> in Calendar); where the model must say what happens
  if it did, the handler stops there.
\<close>

section \<open>State\<close>

record SymbolRuntime =
  rt_def :: SimSymbol
  rt_decimals :: nat
  rt_price :: int
  rt_open :: int
  rt_high :: int
  rt_low :: int
  rt_volume :: number
  rt_lastEventId :: string
  rt_lastTimestamp :: IsoUtc
  rt_history :: "HistorySample list"

record DelayedEnvelope =
  de_tick :: Tick
  de_releaseAt :: rat

record SimulatedSourceConfig =
  sg_eventsPerSecond :: rat
  sg_delayedOffsetMs :: rat
  sg_seed :: number
  sg_demoUser :: string

datatype sim_callback = CbMarketClock | CbBatch | CbDropReconnect | CbDrainSnapshots

record sim_page =
  sp_timers :: "sim_callback timers"
  sp_store :: store
  sp_frames :: nat
  sp_out :: "out list"

datatype market_state = IsOpen | IsClosed

record SimulatedSource =
  si_page :: sim_page
  si_config :: SimulatedSourceConfig
  si_dispatcher :: TickDispatcher
  si_prng :: "32 word"
  si_picker :: WeightedPicker
  si_runtimeBySymbol :: "(string, SymbolRuntime) jmap"
  si_subscribed :: "string jset"
  si_delayQueue :: "DelayedEnvelope list"
  si_snapshotRequests :: "string list"
  si_tickHandlers :: "nat jset"
  si_snapshotHandlers :: "nat jset"
  si_statusHandlers :: "nat jset"
  si_errorHandlers :: "nat jset"
  si_entitlementHandlers :: "nat jset"
  si_identityValue :: "Identity option"
  si_intervalHandle :: "nat option"
  si_marketClockHandle :: "nat option"
  si_currentSessionDateKey :: "string option"
  si_lastKnownMarketState :: "market_state option"
  si_connectAttempt :: nat
  si_sessionCounter :: nat
  si_globalEventSeq :: nat
  si_currentConnectionState :: ConnectionState
  si_backoffAttempt :: nat
  si_dropReconnectTimer :: "nat option"
  si_lastHistorySampleAt :: "int option"

section \<open>What it calls outside\<close>

text \<open>\<open>Date.now()\<close>: whole milliseconds of the page's clock.\<close>

definition sim_now :: "SimulatedSource \<Rightarrow> int" where
  "sim_now s = \<lfloor>tm_now (sp_timers (si_page s))\<rfloor>"

definition sim_emit :: "out list \<Rightarrow> SimulatedSource \<Rightarrow> SimulatedSource" where
  "sim_emit es s = s\<lparr>si_page := (si_page s)\<lparr>sp_out := rev es @ sp_out (si_page s)\<rparr>\<rparr>"

definition sim_timers :: "(sim_callback timers \<Rightarrow> sim_callback timers) \<Rightarrow> SimulatedSource \<Rightarrow> SimulatedSource" where
  "sim_timers f s = s\<lparr>si_page := (si_page s)\<lparr>sp_timers := f (sp_timers (si_page s))\<rparr>\<rparr>"

definition sim_store :: "(store \<Rightarrow> store) \<Rightarrow> SimulatedSource \<Rightarrow> SimulatedSource" where
  "sim_store f s = s\<lparr>si_page := (si_page s)\<lparr>sp_store := f (sp_store (si_page s))\<rparr>\<rparr>"

definition sim_arm :: "sim_callback \<Rightarrow> rat \<Rightarrow> rat option \<Rightarrow> SimulatedSource \<Rightarrow> nat \<times> SimulatedSource" where
  "sim_arm cb ms every s =
     (fst (set_timer (sp_timers (si_page s)) cb ms every), sim_timers (\<lambda>tm. snd (set_timer tm cb ms every)) s)"

definition prng :: "SimulatedSource \<Rightarrow> rat \<times> SimulatedSource" where
  "prng s = (let (r, a) = mulberry_next (si_prng s) in (r, s\<lparr>si_prng := a\<rparr>))"

section \<open>Construction\<close>

definition no_event_id :: string where
  "no_event_id = ''evt-000000000000''"

definition new_runtime :: "SimSymbol \<Rightarrow> SymbolRuntime" where
  "new_runtime def =
     (let decimals = max (decimalPlaces (ss_referencePrice def)) (decimalPlaces (ss_tickSize def));
          scaledReference = scaledFromDecimal (ss_referencePrice def)
      in \<lparr>rt_def = def, rt_decimals = decimals, rt_price = scaledReference, rt_open = scaledReference,
          rt_high = scaledReference, rt_low = scaledReference, rt_volume = of_count 0,
          rt_lastEventId = no_event_id, rt_lastTimestamp = toISOString 0, rt_history = []\<rparr>)"

definition new_simulated :: "SimSymbol list \<Rightarrow> SimulatedSourceConfig \<Rightarrow> rat \<Rightarrow> store \<Rightarrow> SimulatedSource" where
  "new_simulated symbols config now st =
     \<lparr>si_page = \<lparr>sp_timers = start_timers now,
        sp_store = primeUniverse (map (\<lambda>s. (ss_symbol s, ss_name s, ss_referencePrice s)) symbols) st,
        sp_frames = 0, sp_out = []\<rparr>,
      si_config = config, si_dispatcher = new_dispatcher,
      si_prng = mulberry32 (to_uint32 (sg_seed config)), si_picker = new_picker symbols,
      si_runtimeBySymbol = foldl (\<lambda>m def. jset (ss_symbol def) (new_runtime def) m) [] symbols,
      si_subscribed = [], si_delayQueue = [], si_snapshotRequests = [],
      si_tickHandlers = [], si_snapshotHandlers = [], si_statusHandlers = [], si_errorHandlers = [],
      si_entitlementHandlers = [], si_identityValue = None, si_intervalHandle = None,
      si_marketClockHandle = None, si_currentSessionDateKey = None, si_lastKnownMarketState = None,
      si_connectAttempt = 0, si_sessionCounter = 0, si_globalEventSeq = 0,
      si_currentConnectionState = ClosedWith (close_code Normal) ''not connected yet'',
      si_backoffAttempt = 0, si_dropReconnectTimer = None, si_lastHistorySampleAt = None\<rparr>"

definition sim_identity :: "SimulatedSource \<Rightarrow> Identity option" where
  "sim_identity s = si_identityValue s"

definition sim_connectionState :: "SimulatedSource \<Rightarrow> ConnectionState" where
  "sim_connectionState s = si_currentConnectionState s"

section \<open>Events for the client\<close>

definition currentStream :: "SimulatedSource \<Rightarrow> Stream" where
  "currentStream s = (case si_identityValue s of Some i \<Rightarrow> id_stream i | None \<Rightarrow> resolveStream (sg_demoUser (si_config s)))"

definition sim_emitStatus :: "ConnectionState \<Rightarrow> SimulatedSource \<Rightarrow> SimulatedSource" where
  "sim_emitStatus state s =
     (let s1 = s\<lparr>si_currentConnectionState := state\<rparr>
      in sim_emit (map (\<lambda>h. OutStatus h state) (si_statusHandlers s1)) s1)"

definition sim_emitError :: "ErrorCode \<Rightarrow> string \<Rightarrow> SimulatedSource \<Rightarrow> SimulatedSource" where
  "sim_emitError code msg s =
     (let event = \<lparr>er_code = code, er_message = msg, er_requestId = None\<rparr>
      in sim_emit (map (\<lambda>h. OutError h event) (si_errorHandlers s)) s)"

definition emit_tick :: "Tick \<Rightarrow> SimulatedSource \<Rightarrow> SimulatedSource" where
  "emit_tick tick s =
     (if tk_s tick \<notin> set (si_subscribed s) then s
      else let s1 = sim_emit (map (\<lambda>h. OutTick h tick) (si_tickHandlers s)) s;
               (d, asked) = push tick (si_dispatcher s1)
           in s1\<lparr>si_dispatcher := d,
                 si_page := (si_page s1)\<lparr>sp_frames := sp_frames (si_page s1) + (if asked then 1 else 0)\<rparr>\<rparr>)"

definition deliver :: "Tick \<Rightarrow> SimulatedSource \<Rightarrow> SimulatedSource" where
  "deliver tick s =
     (if currentStream s = DELAYED
      then s\<lparr>si_delayQueue := si_delayQueue s @
             [\<lparr>de_tick = tick, de_releaseAt = fl (of_int (sim_now s) + sg_delayedOffsetMs (si_config s))\<rparr>]\<rparr>
      else emit_tick tick s)"

text \<open>The loop takes the queue's head while it is due; emitting leaves the queue alone.\<close>

fun drain_loop :: "rat \<Rightarrow> DelayedEnvelope list \<Rightarrow> SimulatedSource \<Rightarrow> SimulatedSource" where
  "drain_loop now [] s = s\<lparr>si_delayQueue := []\<rparr>"
| "drain_loop now (h # q) s =
     (if de_releaseAt h > now then s\<lparr>si_delayQueue := h # q\<rparr>
      else drain_loop now q (emit_tick (de_tick h) s))"

definition drainDelayedQueue :: "SimulatedSource \<Rightarrow> SimulatedSource" where
  "drainDelayedQueue s = drain_loop (of_int (sim_now s)) (si_delayQueue s) s"

section \<open>Snapshots\<close>

definition price_text :: "SymbolRuntime \<Rightarrow> int \<Rightarrow> decimal" where
  "price_text runtime scaled = scaled_text scaled (rt_decimals runtime)"

definition buildSnapshot :: "string \<Rightarrow> SymbolRuntime \<Rightarrow> SimulatedSource \<Rightarrow> Snapshot" where
  "buildSnapshot symbol runtime s =
     (let priceDecimal = price_text runtime (rt_price runtime);
          openDecimal = price_text runtime (rt_open runtime);
          change = subtract priceDecimal openDecimal
      in \<lparr>sn_symbol = symbol, sn_stream = currentStream s, sn_price = priceDecimal, sn_change = change,
          sn_changePercent = percentChangeText openDecimal priceDecimal 2, sn_open = openDecimal,
          sn_previousClose = Some (ss_referencePrice (rt_def runtime)),
          sn_high = price_text runtime (rt_high runtime), sn_low = price_text runtime (rt_low runtime),
          sn_volume = rt_volume runtime, sn_lastEventId = rt_lastEventId runtime,
          sn_exchangeTimestamp = rt_lastTimestamp runtime, sn_snapshotAge = of_count 0, sn_simulated = True\<rparr>)"

definition answer_snapshot :: "SimulatedSource \<Rightarrow> string \<Rightarrow> SimulatedSource" where
  "answer_snapshot s symbol =
     (case jget (si_runtimeBySymbol s) symbol of
        None \<Rightarrow> sim_emit [OutGotSnapshot symbol (Inl (PlainError (''Unknown symbol: '' @ symbol)))] s
      | Some runtime \<Rightarrow>
          let snapshot = buildSnapshot symbol runtime s
          in sim_emit [OutGotSnapshot symbol (Inr snapshot)]
               (sim_store (applySnapshot snapshot (of_int (sim_now s))) s))"

definition drainSnapshotRequests :: "SimulatedSource \<Rightarrow> SimulatedSource" where
  "drainSnapshotRequests s =
     (if si_snapshotRequests s = [] then s
      else let batch = si_snapshotRequests s
           in foldl answer_snapshot (s\<lparr>si_snapshotRequests := []\<rparr>) batch)"

section \<open>Sessions\<close>

fun market_state_of :: "MarketStatus \<Rightarrow> market_state" where
  "market_state_of (Open _ _ _) = IsOpen"
| "market_state_of (Closed _ _ _ _) = IsClosed"

fun session_of :: "MarketStatus \<Rightarrow> string \<times> int \<times> int" where
  "session_of (Open key opn cls) = (key, opn, cls)"
| "session_of (Closed key opn cls _) = (key, opn, cls)"

definition backfill_one :: "number \<Rightarrow> string \<Rightarrow> int \<Rightarrow> int \<Rightarrow> SymbolRuntime \<Rightarrow> SymbolRuntime" where
  "backfill_one base sessionDateKey sessionOpenAt targetTime runtime =
     (let seed = hashSeed base (ss_symbol (rt_def runtime)) sessionDateKey;
          result = computeBackfilledSession (rt_def runtime) sessionOpenAt targetTime seed
      in runtime\<lparr>rt_open := bf_open result, rt_price := bf_price result, rt_high := bf_high result,
           rt_low := bf_low result, rt_volume := bf_volume result, rt_history := bf_history result,
           rt_lastTimestamp := toISOString targetTime,
           rt_lastEventId := ''evt-bf-'' @ sessionDateKey @ ''-'' @ ss_symbol (rt_def runtime)\<rparr>)"

definition backfillAllSymbols :: "string \<Rightarrow> int \<Rightarrow> int \<Rightarrow> SimulatedSource \<Rightarrow> SimulatedSource" where
  "backfillAllSymbols sessionDateKey sessionOpenAt targetTime s =
     s\<lparr>si_runtimeBySymbol := jmap_values
         (\<lambda>_. backfill_one (sg_seed (si_config s)) sessionDateKey sessionOpenAt targetTime) (si_runtimeBySymbol s)\<rparr>"

definition stop_batches :: "SimulatedSource \<Rightarrow> SimulatedSource" where
  "stop_batches s =
     (case si_intervalHandle s of
        None \<Rightarrow> s
      | Some h \<Rightarrow> (sim_timers (\<lambda>tm. clearTimeout tm h) s)\<lparr>si_intervalHandle := None\<rparr>)"

definition start_batches :: "SimulatedSource \<Rightarrow> SimulatedSource" where
  "start_batches s =
     (let (h, s1) = sim_arm CbBatch BATCH_INTERVAL_MS (Some BATCH_INTERVAL_MS) s
      in s1\<lparr>si_intervalHandle := Some h\<rparr>)"

definition enter_session :: "MarketStatus \<Rightarrow> int \<Rightarrow> SimulatedSource \<Rightarrow> SimulatedSource" where
  "enter_session status now s =
     (let (key, openAt, closeAt) = session_of status;
          state = market_state_of status;
          sessionChanged = (Some key \<noteq> si_currentSessionDateKey s);
          stateChanged = (Some state \<noteq> si_lastKnownMarketState s);
          s1 = (if sessionChanged \<or> stateChanged
                then let target = (if state = IsOpen then now else closeAt)
                     in (backfillAllSymbols key openAt target s)
                          \<lparr>si_currentSessionDateKey := Some key, si_lastHistorySampleAt := Some target\<rparr>
                else s);
          s2 = s1\<lparr>si_lastKnownMarketState := Some state\<rparr>;
          shouldBeRunning = (state = IsOpen);
          isRunning = (si_intervalHandle s2 \<noteq> None);
          s3 = (if shouldBeRunning \<and> \<not> isRunning then start_batches s2
                else if \<not> shouldBeRunning \<and> isRunning then stop_batches s2
                else s2)
      in drainSnapshotRequests s3)"

definition ensureSessionFor :: "(int \<Rightarrow> int) \<Rightarrow> int \<Rightarrow> SimulatedSource \<Rightarrow> SimulatedSource" where
  "ensureSessionFor off now s =
     (case getMarketStatus off now of Inl _ \<Rightarrow> s | Inr status \<Rightarrow> enter_session status now s)"

section \<open>The live tape\<close>

definition sampleHistory :: "int \<Rightarrow> SimulatedSource \<Rightarrow> SimulatedSource" where
  "sampleHistory now s =
     s\<lparr>si_runtimeBySymbol := jmap_values
         (\<lambda>_ r. r\<lparr>rt_history := push_sample (now, rt_price r) (rt_history r)\<rparr>) (si_runtimeBySymbol s)\<rparr>"

definition event_id :: "nat \<Rightarrow> string" where
  "event_id n = ''evt-'' @ padStart 12 (CHR ''0'') (nat_str n)"

definition generate_for :: "SimSymbol \<Rightarrow> SymbolRuntime \<Rightarrow> SimulatedSource \<Rightarrow> SimulatedSource" where
  "generate_for def runtime s =
     (let (signedSteps, rng) = pickSignedSteps (si_prng s) (rt_price runtime) (rt_open runtime) LIVE_MAX_STEPS_PER_TICK;
          s1 = s\<lparr>si_prng := rng\<rparr>;
          tickSizeScaled = scaledFromDecimal (ss_tickSize def);
          stepped = rt_price runtime + tickSizeScaled * signedSteps;
          nextPrice = (if stepped < tickSizeScaled then tickSizeScaled else stepped);
          (kindRoll, s2) = prng s1;
          kind = (if kindRoll < fl (4 / 10) then TRADE else if kindRoll < fl (7 / 10) then BID else ASK);
          (lotRoll, s3) = prng s2;
          quantity = of_count (ss_lotSize def * (1 + \<lfloor>fl (lotRoll * 5)\<rfloor>));
          seq = si_globalEventSeq s3 + 1;
          timestamp = toISOString (sim_now s3);
          runtime' = runtime\<lparr>rt_price := nextPrice, rt_high := max (rt_high runtime) nextPrice,
            rt_low := min (rt_low runtime) nextPrice, rt_volume := num_add (rt_volume runtime) quantity,
            rt_lastEventId := event_id seq, rt_lastTimestamp := timestamp\<rparr>;
          s4 = s3\<lparr>si_globalEventSeq := seq,
            si_runtimeBySymbol := jset (ss_symbol def) runtime' (si_runtimeBySymbol s3)\<rparr>
      in deliver \<lparr>tk_s = ss_symbol def, tk_p = price_text runtime' nextPrice, tk_q = quantity, tk_k = kind,
           tk_t = timestamp, tk_id = event_id seq, tk_st = currentStream s4\<rparr> s4)"

text \<open>\<open>pick\<close> throws on an empty universe only; the batch then stops where it is.\<close>

definition generateOne :: "SimulatedSource \<Rightarrow> SimulatedSource" where
  "generateOne s =
     (let (roll, s1) = prng s
      in case pick roll (si_picker s1) of
           Inl _ \<Rightarrow> s1
         | Inr def \<Rightarrow> (case jget (si_runtimeBySymbol s1) (ss_symbol def) of
               None \<Rightarrow> s1
             | Some runtime \<Rightarrow> generate_for def runtime s1))"

definition per_batch :: "SimulatedSourceConfig \<Rightarrow> nat" where
  "per_batch config =
     nat (max 1 \<lfloor>fl (fl (sg_eventsPerSecond config * BATCH_INTERVAL_MS) / 1000) + 1 / 2\<rfloor>)"

definition sample_due :: "int \<Rightarrow> SimulatedSource \<Rightarrow> bool" where
  "sample_due now s =
     (case si_lastHistorySampleAt s of None \<Rightarrow> True | Some t \<Rightarrow> now - t \<ge> HISTORY_SAMPLE_INTERVAL_MS)"

definition generateBatch :: "(int \<Rightarrow> int) \<Rightarrow> SimulatedSource \<Rightarrow> SimulatedSource" where
  "generateBatch off s =
     (let now = sim_now s; s1 = ensureSessionFor off now s
      in if si_intervalHandle s1 = None then s1
         else let s2 = (if sample_due now s1 then (sampleHistory now s1)\<lparr>si_lastHistorySampleAt := Some now\<rparr> else s1)
              in drainDelayedQueue ((generateOne ^^ per_batch (si_config s2)) s2))"

section \<open>MarketDataSource\<close>

definition sim_connect :: "(int \<Rightarrow> int) \<Rightarrow> SimulatedSource \<Rightarrow> SimulatedSource" where
  "sim_connect off s =
     (if si_marketClockHandle s \<noteq> None then s
      else let s1 = s\<lparr>si_connectAttempt := si_connectAttempt s + 1\<rparr>;
               s2 = sim_emitStatus (Connecting (si_connectAttempt s1)) s1;
               n = si_sessionCounter s2 + 1;
               s3 = s2\<lparr>si_sessionCounter := n,
                      si_identityValue := Some \<lparr>id_userId = sg_demoUser (si_config s2),
                        id_stream = resolveStream (sg_demoUser (si_config s2)),
                        id_sessionId = ''sim-session-'' @ nat_str n\<rparr>\<rparr>;
               s4 = ensureSessionFor off (sim_now s3) s3;
               (h, s5) = sim_arm CbMarketClock MARKET_CLOCK_INTERVAL_MS (Some MARKET_CLOCK_INTERVAL_MS) s4;
               s6 = s5\<lparr>si_marketClockHandle := Some h, si_backoffAttempt := 0\<rparr>
           in sim_emitStatus (ConnectedSince (of_int (sim_now s6))) s6)"

definition clearDropReconnectTimer :: "SimulatedSource \<Rightarrow> SimulatedSource" where
  "clearDropReconnectTimer s =
     (case si_dropReconnectTimer s of
        None \<Rightarrow> s
      | Some h \<Rightarrow> (sim_timers (\<lambda>tm. clearTimeout tm h) s)\<lparr>si_dropReconnectTimer := None\<rparr>)"

definition stop_clock :: "SimulatedSource \<Rightarrow> SimulatedSource" where
  "stop_clock s =
     (case si_marketClockHandle s of
        None \<Rightarrow> s
      | Some h \<Rightarrow> (sim_timers (\<lambda>tm. clearTimeout tm h) s)\<lparr>si_marketClockHandle := None\<rparr>)"

definition sim_disconnect :: "SimulatedSource \<Rightarrow> SimulatedSource" where
  "sim_disconnect s =
     sim_emitStatus (ClosedWith (close_code Normal) ''client disconnect'')
       (stop_batches (stop_clock (clearDropReconnectTimer s)))"

definition sim_subscribe :: "string list \<Rightarrow> SimulatedSource \<Rightarrow> SimulatedSource" where
  "sim_subscribe symbols s =
     foldl (\<lambda>s symbol.
       if jget (si_runtimeBySymbol s) symbol = None
       then sim_emitError UNKNOWN_SYMBOL (''Unknown symbol: '' @ symbol) s
       else s\<lparr>si_subscribed := sadd symbol (si_subscribed s)\<rparr>) s symbols"

definition sim_unsubscribe :: "string list \<Rightarrow> SimulatedSource \<Rightarrow> SimulatedSource" where
  "sim_unsubscribe symbols s =
     s\<lparr>si_subscribed := foldl (\<lambda>ss symbol. sdelete symbol ss) (si_subscribed s) symbols\<rparr>"

definition sim_getUniverse :: "SimSymbol list \<Rightarrow> SimulatedSource \<Rightarrow> SymbolUniverseResponse" where
  "sim_getUniverse symbols s =
     \<lparr>ur_asOf = toISOString (sim_now s), ur_simulated = True,
      ur_symbols = map (\<lambda>d. \<lparr>sd_symbol = ss_symbol d, sd_name = ss_name d, sd_currency = ''EGP'',
        sd_tickSize = ss_tickSize d, sd_lotSize = of_count (ss_lotSize d), sd_referencePrice = ss_referencePrice d\<rparr>) symbols\<rparr>"

definition sim_getSnapshot :: "string \<Rightarrow> SimulatedSource \<Rightarrow> SimulatedSource" where
  "sim_getSnapshot symbol s =
     (let s1 = s\<lparr>si_snapshotRequests := si_snapshotRequests s @ [symbol]\<rparr>
      in if si_intervalHandle s1 = None then snd (sim_arm CbDrainSnapshots 0 None s1) else s1)"

definition sim_getHistory :: "(int \<Rightarrow> int) \<Rightarrow> string \<Rightarrow> SimulatedSource \<Rightarrow> SymbolHistoryResponse exn \<times> SimulatedSource" where
  "sim_getHistory off symbol s =
     (let s1 = ensureSessionFor off (sim_now s) s
      in case jget (si_runtimeBySymbol s1) symbol of
           None \<Rightarrow> (Inl (PlainError (''Unknown symbol: '' @ symbol)), s1)
         | Some runtime \<Rightarrow>
             let history = rt_history runtime;
                 now = sim_now s1;
                 isopen = (case getMarketStatus off now of Inl _ \<Rightarrow> False | Inr st \<Rightarrow> market_state_of st = IsOpen);
                 stale = (history = [] \<or> fst (last history) < now);
                 samples = (if isopen \<and> stale then history @ [(now, rt_price runtime)] else history)
             in (Inr \<lparr>hr_symbol = symbol,
                      hr_points = map (\<lambda>(t, p). \<lparr>hp_t = toISOString t, hp_p = price_text runtime p\<rparr>) samples\<rparr>, s1))"

definition sim_listen :: "(nat jset \<Rightarrow> nat jset) \<Rightarrow> channel \<Rightarrow> SimulatedSource \<Rightarrow> SimulatedSource" where
  "sim_listen f c s =
     (case c of
        TickChannel \<Rightarrow> s\<lparr>si_tickHandlers := f (si_tickHandlers s)\<rparr>
      | SnapshotChannel \<Rightarrow> s\<lparr>si_snapshotHandlers := f (si_snapshotHandlers s)\<rparr>
      | StatusChannel \<Rightarrow> s\<lparr>si_statusHandlers := f (si_statusHandlers s)\<rparr>
      | ErrorChannel \<Rightarrow> s\<lparr>si_errorHandlers := f (si_errorHandlers s)\<rparr>
      | EntitlementChannel \<Rightarrow> s\<lparr>si_entitlementHandlers := f (si_entitlementHandlers s)\<rparr>)"

section \<open>Simulator-only hooks\<close>

definition simulateEntitlementChange :: "string \<Rightarrow> SimulatedSource \<Rightarrow> SimulatedSource" where
  "simulateEntitlementChange nextDemoUser s =
     (let previousStream = map_option id_stream (si_identityValue s);
          s1 = s\<lparr>si_config := (si_config s)\<lparr>sg_demoUser := nextDemoUser\<rparr>\<rparr>;
          nextStream = resolveStream nextDemoUser;
          s2 = s1\<lparr>si_identityValue := map_option (\<lambda>i. i\<lparr>id_userId := nextDemoUser, id_stream := nextStream\<rparr>) (si_identityValue s1)\<rparr>
      in if previousStream \<noteq> None \<and> previousStream \<noteq> Some nextStream
         then let s3 = sim_store resetStream s2;
                  event = \<lparr>en_stream = nextStream, en_resubscribeRequired = True, en_effectiveFrom = toISOString (sim_now s3)\<rparr>
              in sim_emit (map (\<lambda>h. OutEntitlement h event) (si_entitlementHandlers s3)) s3
         else s2)"

definition simulateDrop :: "CloseCode \<Rightarrow> SimulatedSource \<Rightarrow> SimulatedSource" where
  "simulateDrop code s =
     (if si_marketClockHandle s = None then s
      else let s1 = sim_emitStatus (ClosedWith (close_code code) ''simulated drop'') (stop_batches (stop_clock s))
           in if \<not> shouldReconnect code then s1
              else let s2 = s1\<lparr>si_backoffAttempt := si_backoffAttempt s1 + 1\<rparr>;
                       (roll, s3) = prng s2;
                       delay = nextDelay (si_backoffAttempt s3) DEFAULT_BACKOFF_POLICY roll;
                       s4 = clearDropReconnectTimer (sim_emitStatus (Reconnecting (si_backoffAttempt s3) delay) s3);
                       (h, s5) = sim_arm CbDropReconnect delay None s4
                   in s5\<lparr>si_dropReconnectTimer := Some h\<rparr>)"

section \<open>Everything that can happen\<close>

datatype sim_event =
    SimConnect | SimDisconnect
  | SimSubscribe "string list" | SimUnsubscribe "string list"
  | SimSnapshot string | SimHistory string
  | SimListen channel nat | SimUnlisten channel nat
  | SimEntitlement string | SimDrop CloseCode
  | SimTimer nat | SimTime rat | SimFrame

fun run_sim_callback :: "(int \<Rightarrow> int) \<Rightarrow> sim_callback \<Rightarrow> SimulatedSource \<Rightarrow> SimulatedSource" where
  "run_sim_callback off CbMarketClock s = ensureSessionFor off (sim_now s) s"
| "run_sim_callback off CbBatch s = generateBatch off s"
| "run_sim_callback off CbDropReconnect s = sim_connect off (s\<lparr>si_dropReconnectTimer := None\<rparr>)"
| "run_sim_callback off CbDrainSnapshots s = drainSnapshotRequests s"

definition sim_frame :: "SimulatedSource \<Rightarrow> SimulatedSource" where
  "sim_frame s =
     (let pg = si_page s
      in if sp_frames pg = 0 then s
         else let (d, st) = flushNow (\<lambda>st t. applyTick t (of_int (sim_now s)) st) (si_dispatcher s, sp_store pg)
              in s\<lparr>si_dispatcher := d, si_page := pg\<lparr>sp_store := st, sp_frames := sp_frames pg - 1\<rparr>\<rparr>)"

fun sim_do :: "(int \<Rightarrow> int) \<Rightarrow> SimulatedSource \<Rightarrow> sim_event \<Rightarrow> SimulatedSource" where
  "sim_do off s SimConnect = sim_connect off s"
| "sim_do off s SimDisconnect = sim_disconnect s"
| "sim_do off s (SimSubscribe symbols) = sim_subscribe symbols s"
| "sim_do off s (SimUnsubscribe symbols) = sim_unsubscribe symbols s"
| "sim_do off s (SimSnapshot symbol) = sim_getSnapshot symbol s"
| "sim_do off s (SimHistory symbol) = snd (sim_getHistory off symbol s)"
| "sim_do off s (SimListen c h) = sim_listen (sadd h) c s"
| "sim_do off s (SimUnlisten c h) = sim_listen (sdelete h) c s"
| "sim_do off s (SimEntitlement user) = simulateEntitlementChange user s"
| "sim_do off s (SimDrop code) = simulateDrop code s"
| "sim_do off s (SimTimer h) =
     (case due_timer (sp_timers (si_page s)) h of
        None \<Rightarrow> s
      | Some (cb, tm) \<Rightarrow> run_sim_callback off cb (sim_timers (\<lambda>_. tm) s))"
| "sim_do off s (SimTime d) = sim_timers (\<lambda>tm. advance tm d) s"
| "sim_do off s SimFrame = sim_frame s"

end
