(* ===== verification/Simulated_Walk.thy ===== *)
theory Simulated_Walk
  imports Simulated_Engine
begin

text \<open>
  What the simulator's engine guarantees: its private decimal helpers are the shared ones, the
  generator gives numbers in [0, 1), a step stays below its ceiling, and a walk (the backfilled
  one here, the live one in the class) keeps a session's figures in order and on the tick grid.
\<close>

section \<open>The local helpers\<close>

lemma scaledFromDecimal_eq: "scaledFromDecimal = toScaledInt"
  by (intro ext) (simp add: scaledFromDecimal_def toScaledInt_def)

lemma scaled_text_eq: "scaled_text = fromScaledInt"
  by (intro ext) (auto simp: scaled_text_def fromScaledInt_def Let_def)

lemma scaled_text_valid: "d \<le> 4 \<Longrightarrow> isDecimal (scaled_text s d)"
  using fromScaledInt_props by (simp add: scaled_text_eq SCALE_DIGITS_def)

lemma decimalFromScaled_total: "d \<le> 4 \<Longrightarrow> decimalFromScaled s d = Inr (scaled_text s d)"
  using scaled_text_valid by (simp add: decimalFromScaled_def toDecimal_def)

text \<open>The simulator's own decimal helpers compute what contracts/decimal.ts computes: reading is
  the same function, and writing gives the same text, without ever throwing, for every precision a
  price has.\<close>

theorem local_decimals_agree:
  assumes "isDecimal d" and "n \<le> 4"
  shows "scaledFromDecimal d = toScaledInt d \<and> decimalFromScaled k n = Inr (fromScaledInt k n) \<and>
    decimalFromScaled (scaledFromDecimal d) (decimalPlaces d) = Inr (fromScaledInt (toScaledInt d) (decimalPlaces d))"
proof -
  have "decimalPlaces d \<le> 4" using assms(1) decimalPlaces_le by (simp add: SCALE_DIGITS_def)
  then show ?thesis using assms(2) decimalFromScaled_total by (simp add: scaledFromDecimal_eq scaled_text_eq)
qed

theorem local_decimals_agree_witness:
  "scaledFromDecimal ''-85.10'' = - 851000 \<and> decimalFromScaled (- 851000) 2 = Inr ''-85.10''"
proof -
  have "isDecimal ''-85.10''" "toScaledInt ''-85.10'' = - 851000" "fromScaledInt (- 851000) 2 = ''-85.10''"
    by code_simp+
  then show ?thesis using local_decimals_agree [of "''-85.10''" 2 "- 851000"] by simp
qed

section \<open>The generator\<close>

lemma unat_32: "unat (w :: 32 word) < 4294967296"
  using unsigned_less [of w] by simp

lemma mulberry_rep: "\<exists>k. 0 \<le> k \<and> k < 4294967296 \<and> fst (mulberry_next a) = of_int k / 4294967296"
proof -
  obtain w :: "32 word" where w: "fst (mulberry_next a) = of_nat (unat w) / 4294967296"
    unfolding mulberry_next_def Let_def fst_conv by blast
  have "int (unat w) < 4294967296" using unat_32 [of w] by linarith
  then show ?thesis using w by (intro exI [of _ "int (unat w)"]) simp
qed

lemma mulberry_range: "0 \<le> fst (mulberry_next a) \<and> fst (mulberry_next a) \<le> 4294967295 / 4294967296"
proof -
  obtain k where k: "0 \<le> k" "k < 4294967296" "fst (mulberry_next a) = of_int k / 4294967296"
    using mulberry_rep by blast
  have "k \<le> 4294967295" using k(2) by simp
  then have "of_int k \<le> (of_int 4294967295 :: rat)" by (simp only: of_int_le_iff)
  then show ?thesis using k(1) by (simp add: k(3))
qed

lemma pow2_32: "pow2 (- 32) = 1 / 4294967296"
  by code_simp

lemma roll_floor:
  assumes "0 < n" and "n \<le> 1000000"
  shows "0 \<le> \<lfloor>fl (fst (mulberry_next a) * of_int n)\<rfloor> \<and> \<lfloor>fl (fst (mulberry_next a) * of_int n)\<rfloor> < n \<and>
    fl (fst (mulberry_next a) * of_int n) = fst (mulberry_next a) * of_int n"
proof -
  obtain k where k: "0 \<le> k" "k < 4294967296" "fst (mulberry_next a) = of_int k / 4294967296"
    using mulberry_rep by blast
  have x: "fst (mulberry_next a) * of_int n = of_int (k * n) * pow2 (- 32)" by (simp add: k(3) pow2_32)
  have "k * n \<le> 4294967296 * 1000000" using k assms by (intro mult_mono) simp_all
  then have "double_rep (of_int (k * n) * pow2 (- 32))"
    unfolding double_rep_def using k(1) assms by (intro exI [of _ "k * n"] exI [of _ "- 32"]) simp
  then have e: "fl (fst (mulberry_next a) * of_int n) = fst (mulberry_next a) * of_int n"
    unfolding x by (rule fl_double_rep)
  have r: "0 \<le> fst (mulberry_next a)" "fst (mulberry_next a) < 1" using mulberry_range [of a] by auto
  have "fst (mulberry_next a) * of_int n < of_int n" "0 \<le> fst (mulberry_next a) * of_int n"
    using r assms(1) by simp_all
  then show ?thesis unfolding e by (simp add: floor_less_iff)
qed

section \<open>A walk\<close>

lemma signed_steps_bound:
  assumes "0 < m" and "m \<le> 1000000"
  shows "\<bar>fst (pickSignedSteps rng p o' m)\<bar> < m"
  using roll_floor [OF assms, of rng] assms(1) by (auto simp: pickSignedSteps_def Let_def case_prod_unfold)

text \<open>The figures of a session in order and on the tick grid.\<close>

definition walk_ok :: "int \<Rightarrow> int \<Rightarrow> int \<Rightarrow> int \<Rightarrow> int \<Rightarrow> bool" where
  "walk_ok tick opn price high low =
     (0 < tick \<and> tick \<le> low \<and> low \<le> price \<and> price \<le> high \<and> low \<le> opn \<and> opn \<le> high \<and>
      tick dvd opn \<and> tick dvd price \<and> tick dvd high \<and> tick dvd low)"

definition grid_ok :: "SimSymbol \<Rightarrow> bool" where
  "grid_ok def =
     (isDecimal (ss_referencePrice def) \<and> isDecimal (ss_tickSize def) \<and>
      0 < scaledFromDecimal (ss_tickSize def) \<and>
      scaledFromDecimal (ss_tickSize def) \<le> scaledFromDecimal (ss_referencePrice def) \<and>
      scaledFromDecimal (ss_tickSize def) dvd scaledFromDecimal (ss_referencePrice def) \<and>
      0 \<le> ss_lotSize def)"

lemma walk_step:
  assumes "walk_ok tick opn price high low" and "next = (if price + tick * k < tick then tick else price + tick * k)"
  shows "walk_ok tick opn next (max high next) (min low next)"
  using assms by (auto simp: walk_ok_def max_def min_def)

lemma auctionOpen_ok:
  assumes "grid_ok def"
  shows "scaledFromDecimal (ss_tickSize def) \<le> auctionOpen def seed"
    and "scaledFromDecimal (ss_tickSize def) dvd auctionOpen def seed"
  using assms by (simp_all add: auctionOpen_def grid_ok_def Let_def case_prod_unfold)

definition session_ok :: "SimSymbol \<Rightarrow> BackfilledSession \<Rightarrow> bool" where
  "session_ok def b =
     (walk_ok (scaledFromDecimal (ss_tickSize def)) (bf_open b) (bf_price b) (bf_high b) (bf_low b) \<and>
      (\<forall>s \<in> set (bf_history b). bf_low b \<le> snd s \<and> snd s \<le> bf_high b \<and> scaledFromDecimal (ss_tickSize def) dvd snd s))"

lemma backfill_step_eq:
  "\<exists>k rng' lots. \<bar>k\<bar> < 6 \<and> 1 \<le> lots \<and> lots \<le> 10 \<and>
    backfill_step def (rng, b) =
      (let tick = scaledFromDecimal (ss_tickSize def);
           price = (if bf_price b + tick * k < tick then tick else bf_price b + tick * k)
       in (rng', b\<lparr>bf_price := price, bf_high := max (bf_high b) price, bf_low := min (bf_low b) price,
             bf_volume := num_add (bf_volume b) (of_count (ss_lotSize def * lots))\<rparr>))"
proof -
  obtain k rng1 where k: "pickSignedSteps rng (bf_price b) (bf_open b) 6 = (k, rng1)" by force
  obtain roll rng2 where r: "mulberry_next rng1 = (roll, rng2)" by force
  have "\<bar>k\<bar> < 6" using signed_steps_bound [of 6 rng "bf_price b" "bf_open b"] k by simp
  moreover have "0 \<le> \<lfloor>fl (roll * 10)\<rfloor> \<and> \<lfloor>fl (roll * 10)\<rfloor> < 10" using roll_floor [of 10 rng1] r by simp
  ultimately show ?thesis
    by (intro exI [of _ k] exI [of _ rng2] exI [of _ "1 + \<lfloor>fl (roll * 10)\<rfloor>"])
      (simp add: backfill_step_def BACKFILL_MAX_STEPS_PER_SLOT_def k r Let_def)
qed

lemma set_push_sample: "set (push_sample x h) \<subseteq> insert x (set h)"
  by (auto simp: push_sample_def Let_def dest: in_set_dropD)

lemma last_push_sample [simp]: "last (push_sample x h) = x" "push_sample x h \<noteq> []"
  by (cases h; simp add: push_sample_def HISTORY_MAX_POINTS_def Let_def)+

lemma session_step: "session_ok def b \<Longrightarrow> session_ok def (snd (backfill_step def (rng, b))) \<and>
    bf_open (snd (backfill_step def (rng, b))) = bf_open b \<and> bf_history (snd (backfill_step def (rng, b))) = bf_history b"
proof -
  assume ok: "session_ok def b"
  obtain k rng' lots where e: "backfill_step def (rng, b) =
      (let tick = scaledFromDecimal (ss_tickSize def);
           price = (if bf_price b + tick * k < tick then tick else bf_price b + tick * k)
       in (rng', b\<lparr>bf_price := price, bf_high := max (bf_high b) price, bf_low := min (bf_low b) price,
             bf_volume := num_add (bf_volume b) (of_count (ss_lotSize def * lots))\<rparr>))"
    using backfill_step_eq by blast
  define tick where "tick = scaledFromDecimal (ss_tickSize def)"
  define price where "price = (if bf_price b + tick * k < tick then tick else bf_price b + tick * k)"
  have "walk_ok tick (bf_open b) price (max (bf_high b) price) (min (bf_low b) price)"
    using ok walk_step [OF _ price_def] by (simp add: session_ok_def tick_def)
  then show ?thesis using ok
    by (auto simp: e session_ok_def Let_def tick_def [symmetric] price_def [symmetric] min_le_iff_disj le_max_iff_disj)
qed

definition slot_ok :: "SimSymbol \<Rightarrow> int \<Rightarrow> 32 word \<times> BackfilledSession \<Rightarrow> bool" where
  "slot_ok def opn rb = (session_ok def (snd rb) \<and> bf_open (snd rb) = opn)"

lemma slot_step: "slot_ok def opn rb \<Longrightarrow> slot_ok def opn (backfill_slot def t0 rb slot) \<and>
    snd (last (bf_history (snd (backfill_slot def t0 rb slot)))) = bf_price (snd (backfill_slot def t0 rb slot)) \<and>
    bf_history (snd (backfill_slot def t0 rb slot)) \<noteq> []"
proof -
  assume ok: "slot_ok def opn rb"
  define rb' where "rb' = (if slot > 0 then backfill_step def rb else rb)"
  have "slot_ok def opn rb'"
    using ok session_step [of def "snd rb" "fst rb"] by (auto simp: slot_ok_def rb'_def)
  moreover have e: "backfill_slot def t0 rb slot = (fst rb', (snd rb')\<lparr>bf_history :=
      push_sample (t0 + int slot * HISTORY_SAMPLE_INTERVAL_MS, bf_price (snd rb')) (bf_history (snd rb'))\<rparr>)"
    by (simp add: backfill_slot_def rb'_def case_prod_unfold Let_def)
  ultimately show ?thesis
    using set_push_sample [of "(t0 + int slot * HISTORY_SAMPLE_INTERVAL_MS, bf_price (snd rb'))" "bf_history (snd rb')"]
    by (auto simp: slot_ok_def session_ok_def walk_ok_def)
qed

section \<open>The backfilled session\<close>

lemma floor_fl_div:
  assumes "0 \<le> d" and "d < 1000000000000"
  shows "\<lfloor>fl (of_int d / 30000)\<rfloor> = d div 30000"
proof -
  obtain n where n: "d = int n" using assms(1) by (metis nonneg_int_cases)
  then have "\<lfloor>fl (of_nat n / of_nat 30000)\<rfloor> = int (n div 30000)" using assms(2) by (intro floor_fl_nat) auto
  then show ?thesis by (simp add: n zdiv_int)
qed

lemma total_slots_eq:
  "opn \<le> target \<Longrightarrow> target - opn < 1000000000000 \<Longrightarrow> total_slots opn target = nat ((target - opn) div 30000)"
  using floor_fl_div [of "target - opn"] by (simp add: total_slots_def HISTORY_SAMPLE_INTERVAL_MS_def max_def)

lemma slot_history:
  "bf_history (snd (backfill_slot def t0 rb slot)) =
     push_sample (t0 + int slot * 30000, bf_price (snd (backfill_slot def t0 rb slot))) (bf_history (snd rb)) \<and>
   (slot = 0 \<longrightarrow> bf_price (snd (backfill_slot def t0 rb slot)) = bf_price (snd rb))"
  using backfill_step_eq [of def "fst rb" "snd rb"]
  by (auto simp: backfill_slot_def case_prod_unfold HISTORY_SAMPLE_INTERVAL_MS_def Let_def)

lemma backfill_history:
  assumes "n \<le> HISTORY_MAX_POINTS" and "bf_history b = []"
  shows "map fst (bf_history (snd (foldl (backfill_slot def t0) (rng, b) [0..<n]))) = map (\<lambda>i. t0 + int i * 30000) [0..<n] \<and>
    (n \<noteq> 0 \<longrightarrow> hd (bf_history (snd (foldl (backfill_slot def t0) (rng, b) [0..<n]))) = (t0, bf_price b))"
  using assms(1)
proof (induction n)
  case (Suc n)
  define rb where "rb = foldl (backfill_slot def t0) (rng, b) [0..<n]"
  have st: "foldl (backfill_slot def t0) (rng, b) [0..<Suc n] = backfill_slot def t0 rb n" by (simp add: rb_def)
  have IH: "map fst (bf_history (snd rb)) = map (\<lambda>i. t0 + int i * 30000) [0..<n]"
    "n \<noteq> 0 \<longrightarrow> hd (bf_history (snd rb)) = (t0, bf_price b)" using Suc by (simp_all add: rb_def)
  have len: "length (bf_history (snd rb)) = n" using arg_cong [OF IH(1), of length] by simp
  obtain p where p: "bf_history (snd (backfill_slot def t0 rb n)) = push_sample (t0 + int n * 30000, p) (bf_history (snd rb))"
    "n = 0 \<longrightarrow> p = bf_price (snd rb)"
    using slot_history by blast
  have app: "push_sample x (bf_history (snd rb)) = bf_history (snd rb) @ [x]" for x
    using Suc.prems len by (simp add: push_sample_def Let_def)
  have hd: "hd (bf_history (snd rb) @ [(t0 + int n * 30000, p)]) = (t0, bf_price b)"
  proof (cases "n = 0")
    case True
    then show ?thesis using p(2) len by (simp add: rb_def)
  next
    case False
    then have "bf_history (snd rb) \<noteq> []" using len by auto
    then show ?thesis using IH(2) False by simp
  qed
  have "map fst (bf_history (snd (backfill_slot def t0 rb n))) = map (\<lambda>i. t0 + int i * 30000) [0..<Suc n]"
    by (simp add: p(1) app IH(1))
  then show ?case unfolding st using hd by (simp add: p(1) app)
qed (simp add: assms(2))

lemma foldl_slot_ok:
  assumes "slot_ok def opn rb" and "xs \<noteq> []"
  shows "slot_ok def opn (foldl (backfill_slot def t0) rb xs) \<and>
    snd (last (bf_history (snd (foldl (backfill_slot def t0) rb xs)))) = bf_price (snd (foldl (backfill_slot def t0) rb xs))"
  using assms(2)
proof (induction xs rule: rev_induct)
  case (snoc x xs)
  define rb' where "rb' = foldl (backfill_slot def t0) rb xs"
  have "slot_ok def opn rb'"
    using assms(1) snoc.IH by (cases "xs = []") (simp_all add: rb'_def)
  from slot_step [OF this, of t0 x] show ?case by (simp add: rb'_def)
qed simp

text \<open>A session is backfilled soundly, whatever the seed: every figure is on the tick grid and at
  least one tick, low and high bound the open, the price and every sample; the samples stand every
  30 seconds from the opening to the target, the first at the open and the last at the price.\<close>

theorem backfill_sound:
  fixes seed :: "32 word"
  assumes "grid_ok def" and "sessionOpenAt \<le> target" and "target < sessionOpenAt + 3999 * 30000"
  defines "b \<equiv> computeBackfilledSession def sessionOpenAt target seed"
  shows "walk_ok (scaledFromDecimal (ss_tickSize def)) (bf_open b) (bf_price b) (bf_high b) (bf_low b) \<and>
    (\<forall>s \<in> set (bf_history b). bf_low b \<le> snd s \<and> snd s \<le> bf_high b \<and> scaledFromDecimal (ss_tickSize def) dvd snd s) \<and>
    map fst (bf_history b) = map (\<lambda>i. sessionOpenAt + int i * 30000) [0..<nat ((target - sessionOpenAt) div 30000) + 1] \<and>
    hd (bf_history b) = (sessionOpenAt, bf_open b) \<and> snd (last (bf_history b)) = bf_price b"
proof -
  define opn where "opn = auctionOpen def seed"
  define start where "start = \<lparr>bf_open = opn, bf_price = opn, bf_high = opn, bf_low = opn, bf_volume = of_count 0, bf_history = []\<rparr>"
  define n where "n = nat ((target - sessionOpenAt) div 30000) + 1"
  have t: "total_slots sessionOpenAt target + 1 = n" using total_slots_eq assms(2,3) by (simp add: n_def)
  have b: "b = snd (foldl (backfill_slot def sessionOpenAt) (mulberry32 seed, start) [0..<n])"
    by (simp only: b_def computeBackfilledSession_def Let_def t opn_def [symmetric] start_def [symmetric])
  have n: "n \<noteq> 0" "n \<le> HISTORY_MAX_POINTS" using assms(2,3) by (simp_all add: n_def HISTORY_MAX_POINTS_def)
  have s: "slot_ok def opn (mulberry32 seed, start)"
    using auctionOpen_ok [OF assms(1), of seed] assms(1)
    by (simp add: slot_ok_def session_ok_def walk_ok_def grid_ok_def start_def opn_def)
  have "[0..<n] \<noteq> []" using n by simp
  from foldl_slot_ok [OF s this, of sessionOpenAt] have ok: "session_ok def b" "bf_open b = opn"
    "snd (last (bf_history b)) = bf_price b" by (simp_all add: slot_ok_def b)
  have "bf_history start = []" by (simp add: start_def)
  note h = backfill_history [OF n(2) this, of def sessionOpenAt "mulberry32 seed", folded b]
  have "bf_price start = opn" by (simp add: start_def)
  then show ?thesis using ok h n(1) unfolding n_def [symmetric] session_ok_def by simp
qed

definition comi_symbol :: SimSymbol where
  "comi_symbol = \<lparr>ss_symbol = ''COMI'', ss_name = ''Commercial International Holding'', ss_referencePrice = ''85.1'',
     ss_tickSize = ''0.05'', ss_lotSize = 100, ss_weight = 1000\<rparr>"

lemma comi_grid: "grid_ok comi_symbol"
  by code_simp

theorem backfill_sound_witness:
  "map fst (bf_history (computeBackfilledSession comi_symbol 1000 91500 7)) = [1000, 31000, 61000, 91000] \<and>
   500 \<le> bf_low (computeBackfilledSession comi_symbol 1000 91500 7)"
proof -
  have t: "scaledFromDecimal (ss_tickSize comi_symbol) = 500" by code_simp
  have "map (\<lambda>i. 1000 + int i * 30000) [0..<nat ((91500 - 1000) div 30000) + 1] = [1000, 31000, 61000, 91000]"
    by code_simp
  then show ?thesis using backfill_sound [OF comi_grid, of 1000 91500 7] by (simp add: t walk_ok_def)
qed

end
