(* ===== verification/Simulated_Session.thy ===== *)
theory Simulated_Session
  imports Simulated Simulated_Walk
begin

text \<open>
  What the simulated source guarantees: its timers are the ones it holds handles for, its session
  is the one the market calendar names, and every instrument's figures stay in order and on the
  tick grid through anything that happens.
\<close>

section \<open>Timers\<close>

fun sim_tracked :: "SimulatedSource \<Rightarrow> sim_callback \<Rightarrow> nat option" where
  "sim_tracked s CbMarketClock = si_marketClockHandle s"
| "sim_tracked s CbBatch = si_intervalHandle s"
| "sim_tracked s CbDropReconnect = si_dropReconnectTimer s"
| "sim_tracked s CbDrainSnapshots = None"

abbreviation sim_tracks :: "sim_callback timers \<Rightarrow> (sim_callback \<Rightarrow> nat option) \<Rightarrow> bool" where
  "sim_tracks \<equiv> tracks (\<lambda>cb. cb = CbMarketClock \<or> cb = CbBatch) (\<lambda>cb. cb \<noteq> CbDrainSnapshots)"

definition sim_timed :: "SimulatedSource \<Rightarrow> bool" where
  "sim_timed s = sim_tracks (sp_timers (si_page s)) (sim_tracked s)"

definition sim_clocks :: "SimulatedSource \<Rightarrow> sim_callback timers \<times> nat option \<times> nat option \<times> nat option" where
  "sim_clocks s = (sp_timers (si_page s), si_marketClockHandle s, si_intervalHandle s, si_dropReconnectTimer s)"

lemma sim_tracked_eqI:
  "sim_tracked s CbMarketClock = tr CbMarketClock \<Longrightarrow> sim_tracked s CbBatch = tr CbBatch \<Longrightarrow>
   sim_tracked s CbDropReconnect = tr CbDropReconnect \<Longrightarrow> tr CbDrainSnapshots = None \<Longrightarrow> sim_tracked s = tr"
proof
  fix cb
  assume "sim_tracked s CbMarketClock = tr CbMarketClock" "sim_tracked s CbBatch = tr CbBatch"
    "sim_tracked s CbDropReconnect = tr CbDropReconnect" "tr CbDrainSnapshots = None"
  then show "sim_tracked s cb = tr cb" by (cases cb) simp_all
qed

lemma sim_tracked_clocks: "sim_clocks s' = sim_clocks s \<Longrightarrow> sim_tracked s' = sim_tracked s"
  by (rule sim_tracked_eqI) (simp_all add: sim_clocks_def)

lemma sim_timed_clocks: "sim_clocks s' = sim_clocks s \<Longrightarrow> sim_timed s' = sim_timed s"
  using sim_tracked_clocks [of s' s] by (simp add: sim_timed_def sim_clocks_def)

lemma sim_clocks_updates [simp]:
  "sim_clocks (s\<lparr>si_connectAttempt := a\<rparr>) = sim_clocks s" "sim_clocks (s\<lparr>si_currentConnectionState := b\<rparr>) = sim_clocks s"
  "sim_clocks (s\<lparr>si_sessionCounter := c\<rparr>) = sim_clocks s" "sim_clocks (s\<lparr>si_identityValue := d\<rparr>) = sim_clocks s"
  "sim_clocks (s\<lparr>si_config := e\<rparr>) = sim_clocks s" "sim_clocks (s\<lparr>si_prng := f\<rparr>) = sim_clocks s"
  "sim_clocks (s\<lparr>si_runtimeBySymbol := g\<rparr>) = sim_clocks s" "sim_clocks (s\<lparr>si_subscribed := h\<rparr>) = sim_clocks s"
  "sim_clocks (s\<lparr>si_delayQueue := i\<rparr>) = sim_clocks s" "sim_clocks (s\<lparr>si_snapshotRequests := j\<rparr>) = sim_clocks s"
  "sim_clocks (s\<lparr>si_currentSessionDateKey := k\<rparr>) = sim_clocks s" "sim_clocks (s\<lparr>si_lastKnownMarketState := l\<rparr>) = sim_clocks s"
  "sim_clocks (s\<lparr>si_lastHistorySampleAt := m\<rparr>) = sim_clocks s" "sim_clocks (s\<lparr>si_globalEventSeq := n\<rparr>) = sim_clocks s"
  "sim_clocks (s\<lparr>si_dispatcher := p\<rparr>) = sim_clocks s" "sim_clocks (s\<lparr>si_backoffAttempt := q\<rparr>) = sim_clocks s"
  by (simp_all add: sim_clocks_def)

lemma sim_clocks_outside [simp]:
  "sp_timers pg = sp_timers (si_page s) \<Longrightarrow> sim_clocks (s\<lparr>si_page := pg\<rparr>) = sim_clocks s"
  "sim_clocks (sim_emit es s) = sim_clocks s" "sim_clocks (sim_store f s) = sim_clocks s"
  "sim_clocks (sim_emitStatus st s) = sim_clocks s" "sim_clocks (sim_emitError c m s) = sim_clocks s"
  "sim_clocks (snd (prng s)) = sim_clocks s" "sim_clocks (sim_listen k ch s) = sim_clocks s"
  by (simp_all add: sim_clocks_def sim_emit_def sim_store_def sim_emitStatus_def sim_emitError_def prng_def sim_listen_def
      Let_def case_prod_unfold split: channel.split)

lemma sim_clocks_ticks [simp]:
  "sim_clocks (emit_tick t s) = sim_clocks s" "sim_clocks (deliver t s) = sim_clocks s"
  "sim_clocks (answer_snapshot s x) = sim_clocks s" "sim_clocks (sampleHistory now s) = sim_clocks s"
  "sim_clocks (backfillAllSymbols k o' t' s) = sim_clocks s" "sim_clocks (sim_frame s) = sim_clocks s"
  "sim_clocks (simulateEntitlementChange u s) = sim_clocks s" "sim_clocks (sim_unsubscribe xs s) = sim_clocks s"
proof -
  show e: "sim_clocks (emit_tick t s) = sim_clocks s"
    by (simp add: emit_tick_def case_prod_unfold Let_def)
  then show "sim_clocks (deliver t s) = sim_clocks s" by (simp add: deliver_def)
qed (simp_all add: answer_snapshot_def sampleHistory_def backfillAllSymbols_def sim_frame_def
      simulateEntitlementChange_def sim_unsubscribe_def case_prod_unfold Let_def split: option.split)

lemma sim_clocks_loops [simp]:
  "sim_clocks (drain_loop t q s) = sim_clocks s" "sim_clocks (drainDelayedQueue s) = sim_clocks s"
  "sim_clocks (drainSnapshotRequests s) = sim_clocks s" "sim_clocks (sim_subscribe xs s) = sim_clocks s"
proof -
  show d: "sim_clocks (drain_loop t q s) = sim_clocks s" for t q s by (induction t q s rule: drain_loop.induct) simp_all
  then show "sim_clocks (drainDelayedQueue s) = sim_clocks s" by (simp add: drainDelayedQueue_def)
  have "sim_clocks (foldl answer_snapshot s xs) = sim_clocks s" for s xs by (rule foldl_frame) simp
  then show "sim_clocks (drainSnapshotRequests s) = sim_clocks s" by (simp add: drainSnapshotRequests_def Let_def)
  show "sim_clocks (sim_subscribe xs s) = sim_clocks s"
    unfolding sim_subscribe_def by (rule foldl_frame) simp
qed

lemma sim_clocks_generate [simp]:
  "sim_clocks (generate_for d r s) = sim_clocks s" "sim_clocks (generateOne s) = sim_clocks s"
proof -
  show g: "sim_clocks (generate_for d r s) = sim_clocks s" for d r s
    by (simp add: generate_for_def Let_def case_prod_unfold prng_def)
  show "sim_clocks (generateOne s) = sim_clocks s"
    by (simp add: generateOne_def g Let_def case_prod_unfold split: sum.split option.split)
qed

lemma sim_clocks_batch [simp]: "sim_clocks ((generateOne ^^ n) s) = sim_clocks s"
  by (induction n) simp_all

lemmas sim_timed_frames [simp] = sim_clocks_updates [THEN sim_timed_clocks] sim_clocks_outside(2-7) [THEN sim_timed_clocks]
  sim_clocks_ticks [THEN sim_timed_clocks] sim_clocks_loops [THEN sim_timed_clocks]
  sim_clocks_generate [THEN sim_timed_clocks] sim_clocks_batch [THEN sim_timed_clocks]

lemmas sim_tracked_frames [simp] = sim_clocks_updates [THEN sim_tracked_clocks] sim_clocks_outside(2-7) [THEN sim_tracked_clocks]
  sim_clocks_ticks [THEN sim_tracked_clocks] sim_clocks_loops [THEN sim_tracked_clocks]

lemma sim_tracked_updates [simp]:
  "sim_tracked (s\<lparr>si_marketClockHandle := x\<rparr>) = (sim_tracked s)(CbMarketClock := x)"
  "sim_tracked (s\<lparr>si_intervalHandle := x\<rparr>) = (sim_tracked s)(CbBatch := x)"
  "sim_tracked (s\<lparr>si_dropReconnectTimer := x\<rparr>) = (sim_tracked s)(CbDropReconnect := x)"
  "sim_tracked (sim_timers f s) = sim_tracked s"
  by (rule sim_tracked_eqI; simp add: sim_timers_def)+

lemma sim_timers_page [simp]: "sp_timers (si_page (sim_timers f s)) = f (sp_timers (si_page s))"
  by (simp add: sim_timers_def)

lemma sim_timed_clear:
  assumes "sim_timed s" and "sim_tracked s cb = Some h" and "cb \<noteq> CbDrainSnapshots"
    and "sim_tracked s' = (sim_tracked s)(cb := None)"
    and "sp_timers (si_page s') = clearTimeout (sp_timers (si_page s)) h"
  shows "sim_timed s'"
  using tracks_clear [OF assms(1) [unfolded sim_timed_def] assms(2,3)] assms(4,5) by (simp add: sim_timed_def)

lemma sim_timed_arm:
  assumes "sim_timed s" and "sim_tracked s cb = None" and "(ev \<noteq> None) = (cb = CbMarketClock \<or> cb = CbBatch)"
    and "sim_tracked s' = (sim_tracked s)(cb := Some (fst (set_timer (sp_timers (si_page s)) cb ms ev)))"
    and "sp_timers (si_page s') = snd (set_timer (sp_timers (si_page s)) cb ms ev)"
  shows "sim_timed s'"
  using tracks_arm [OF assms(1) [unfolded sim_timed_def] assms(2,3)] assms(4,5) by (simp add: sim_timed_def)

lemma sim_cleared [simp]:
  "sim_tracked (stop_batches s) = (sim_tracked s)(CbBatch := None)"
  "sim_tracked (stop_clock s) = (sim_tracked s)(CbMarketClock := None)"
  "sim_tracked (clearDropReconnectTimer s) = (sim_tracked s)(CbDropReconnect := None)"
  by (rule sim_tracked_eqI; simp add: stop_batches_def stop_clock_def clearDropReconnectTimer_def sim_timers_def
      split: option.split)+

lemma sim_timed_stops [simp]:
  "sim_timed s \<Longrightarrow> sim_timed (stop_batches s)" "sim_timed s \<Longrightarrow> sim_timed (stop_clock s)"
  "sim_timed s \<Longrightarrow> sim_timed (clearDropReconnectTimer s)"
proof -
  assume t: "sim_timed s"
  show "sim_timed (stop_batches s)"
  proof (cases "si_intervalHandle s")
    case (Some h)
    show ?thesis by (rule sim_timed_clear [where cb = CbBatch and h = h, OF t]) (use Some in \<open>simp_all add: stop_batches_def\<close>)
  qed (use t in \<open>simp add: stop_batches_def\<close>)
  show "sim_timed (stop_clock s)"
  proof (cases "si_marketClockHandle s")
    case (Some h)
    show ?thesis by (rule sim_timed_clear [where cb = CbMarketClock and h = h, OF t]) (use Some in \<open>simp_all add: stop_clock_def\<close>)
  qed (use t in \<open>simp add: stop_clock_def\<close>)
  show "sim_timed (clearDropReconnectTimer s)"
  proof (cases "si_dropReconnectTimer s")
    case (Some h)
    show ?thesis
      by (rule sim_timed_clear [where cb = CbDropReconnect and h = h, OF t]) (use Some in \<open>simp_all add: clearDropReconnectTimer_def\<close>)
  qed (use t in \<open>simp add: clearDropReconnectTimer_def\<close>)
qed

lemma sim_timed_start: "sim_timed s \<Longrightarrow> si_intervalHandle s = None \<Longrightarrow> sim_timed (start_batches s)"
proof -
  assume t: "sim_timed s" and n: "si_intervalHandle s = None"
  show ?thesis
    by (rule sim_timed_arm [where cb = CbBatch and ms = BATCH_INTERVAL_MS and ev = "Some BATCH_INTERVAL_MS", OF t])
      (use n in \<open>simp_all add: start_batches_def sim_arm_def Let_def\<close>)
qed

lemma si_interval_frames [simp]:
  "si_intervalHandle (backfillAllSymbols k o' t' s) = si_intervalHandle s"
  "si_marketClockHandle (backfillAllSymbols k o' t' s) = si_marketClockHandle s"
  "si_currentSessionDateKey (backfillAllSymbols k o' t' s) = si_currentSessionDateKey s"
  "si_lastKnownMarketState (backfillAllSymbols k o' t' s) = si_lastKnownMarketState s"
  by (simp_all add: backfillAllSymbols_def)

lemma sim_timed_session [simp]: "sim_timed s \<Longrightarrow> sim_timed (enter_session st now s)"
  by (simp add: enter_session_def sim_timed_start Let_def case_prod_unfold)

lemma sim_timed_ensure [simp]: "sim_timed s \<Longrightarrow> sim_timed (ensureSessionFor off now s)"
  by (simp add: ensureSessionFor_def split: sum.split)

lemma sim_timed_generateBatch [simp]: "sim_timed s \<Longrightarrow> sim_timed (generateBatch off s)"
  by (simp add: generateBatch_def Let_def)

lemma clock_of_session [simp]:
  "si_marketClockHandle (enter_session st now s) = si_marketClockHandle s"
  "si_marketClockHandle (ensureSessionFor off now s) = si_marketClockHandle s"
proof -
  have d: "si_marketClockHandle (drainSnapshotRequests s) = si_marketClockHandle s" for s
    using sim_clocks_loops(3) [of s] by (simp add: sim_clocks_def)
  show e: "si_marketClockHandle (enter_session st now s) = si_marketClockHandle s" for st
    by (simp add: enter_session_def d start_batches_def stop_batches_def sim_arm_def sim_timers_def Let_def case_prod_unfold split: option.split)
  show "si_marketClockHandle (ensureSessionFor off now s) = si_marketClockHandle s"
    by (simp add: ensureSessionFor_def e split: sum.split)
qed

lemma sim_timed_connect [simp]: "sim_timed s \<Longrightarrow> sim_timed (sim_connect off s)"
proof (cases "si_marketClockHandle s")
  case None
  assume t: "sim_timed s"
  define s4 where "s4 = (let s1 = s\<lparr>si_connectAttempt := si_connectAttempt s + 1\<rparr>;
      s2 = sim_emitStatus (Connecting (si_connectAttempt s1)) s1; n = si_sessionCounter s2 + 1;
      s3 = s2\<lparr>si_sessionCounter := n, si_identityValue := Some \<lparr>id_userId = sg_demoUser (si_config s2),
        id_stream = resolveStream (sg_demoUser (si_config s2)), id_sessionId = ''sim-session-'' @ nat_str n\<rparr>\<rparr>
    in ensureSessionFor off (sim_now s3) s3)"
  have t4: "sim_timed s4" using t by (simp add: s4_def Let_def)
  have n4: "si_marketClockHandle s4 = None" using None by (simp add: s4_def Let_def) (simp add: sim_emitStatus_def sim_emit_def)
  define s6 where "s6 = (snd (sim_arm CbMarketClock MARKET_CLOCK_INTERVAL_MS (Some MARKET_CLOCK_INTERVAL_MS) s4))
    \<lparr>si_marketClockHandle := Some (fst (sim_arm CbMarketClock MARKET_CLOCK_INTERVAL_MS (Some MARKET_CLOCK_INTERVAL_MS) s4)),
     si_backoffAttempt := 0\<rparr>"
  have "sim_timed s6"
    by (rule sim_timed_arm [where cb = CbMarketClock and ms = MARKET_CLOCK_INTERVAL_MS and ev = "Some MARKET_CLOCK_INTERVAL_MS", OF t4])
      (use n4 in \<open>simp_all add: s6_def sim_arm_def\<close>)
  then show ?thesis using None
    by (simp add: sim_connect_def s4_def s6_def Let_def case_prod_unfold)
qed (simp add: sim_connect_def)

lemma sim_timed_snapshot [simp]: "sim_timed s \<Longrightarrow> sim_timed (sim_getSnapshot x s)"
proof -
  assume t: "sim_timed s"
  define s1 where "s1 = s\<lparr>si_snapshotRequests := si_snapshotRequests s @ [x]\<rparr>"
  have t1: "sim_timed s1" using t by (simp add: s1_def)
  have "sim_timed (snd (sim_arm CbDrainSnapshots 0 None s1))"
    using tracks_arm_free [where cb = CbDrainSnapshots and ev = None and ms = 0, OF t1 [unfolded sim_timed_def]]
    by (simp add: sim_timed_def sim_arm_def)
  then show ?thesis using t1 by (simp add: sim_getSnapshot_def s1_def Let_def)
qed

lemma sim_timed_history [simp]: "sim_timed s \<Longrightarrow> sim_timed (snd (sim_getHistory off x s))"
  by (simp add: sim_getHistory_def Let_def split: option.split)

lemma sim_timed_drop [simp]: "sim_timed s \<Longrightarrow> sim_timed (simulateDrop code s)"
proof -
  assume t: "sim_timed s"
  have "sim_timed (snd (sim_arm CbDropReconnect ms None (clearDropReconnectTimer h))
      \<lparr>si_dropReconnectTimer := Some (fst (sim_arm CbDropReconnect ms None (clearDropReconnectTimer h)))\<rparr>)"
    if "sim_timed h" for ms h
    by (rule sim_timed_arm [where cb = CbDropReconnect and ms = ms and ev = None, OF sim_timed_stops(3) [OF that]])
      (simp_all add: sim_arm_def)
  then show ?thesis using t by (simp add: simulateDrop_def Let_def case_prod_unfold)
qed

lemma sim_timed_disconnect [simp]: "sim_timed s \<Longrightarrow> sim_timed (sim_disconnect s)"
  by (simp add: sim_disconnect_def)

lemma sim_tracked_disconnect: "sim_tracked (sim_disconnect s) cb = None"
proof -
  have "sim_tracked (sim_disconnect s) = (sim_tracked s)(CbDropReconnect := None, CbMarketClock := None, CbBatch := None)"
    by (simp add: sim_disconnect_def del: sim_tracked.simps)
  then show ?thesis by (cases cb) simp_all
qed

lemma sim_timed_timer [simp]: "sim_timed s \<Longrightarrow> sim_timed (sim_do off s (SimTimer h))"
proof (cases "due_timer (sp_timers (si_page s)) h")
  case (Some p)
  obtain cb tm where p: "p = (cb, tm)" by force
  assume "sim_timed s"
  from tracks_due [OF this [unfolded sim_timed_def], of h cb tm] Some p
  have d: "if cb = CbDropReconnect then sim_tracks tm ((sim_tracked s)(cb := None)) else sim_tracks tm (sim_tracked s)"
    by (cases cb) simp_all
  show ?thesis
  proof (cases "cb = CbDropReconnect")
    case True
    have "sim_timed ((sim_timers (\<lambda>_. tm) s)\<lparr>si_dropReconnectTimer := None\<rparr>)" using d True by (simp add: sim_timed_def)
    then show ?thesis using Some p True by simp
  next
    case False
    then have "sim_timed (sim_timers (\<lambda>_. tm) s)" using d by (simp add: sim_timed_def)
    then show ?thesis using Some p False by (cases cb) simp_all
  qed
qed simp

lemma sim_timed_step: "sim_timed s \<Longrightarrow> sim_timed (sim_do off s e)"
proof (cases e)
  case (SimTime d)
  assume "sim_timed s"
  then show ?thesis
    using tracks_advance [where tm = "sp_timers (si_page s)" and tr = "sim_tracked s" and d = d]
    by (simp add: SimTime sim_timed_def)
next
  case (SimTimer h)
  assume "sim_timed s"
  then show ?thesis unfolding SimTimer by (rule sim_timed_timer)
qed simp_all

definition sim_run :: "(int \<Rightarrow> int) \<Rightarrow> SimulatedSource \<Rightarrow> sim_event list \<Rightarrow> SimulatedSource" where
  "sim_run off s es = foldl (sim_do off) s es"

lemma sim_timed_run: "sim_timed s \<Longrightarrow> sim_timed (sim_run off s es)"
  unfolding sim_run_def by (rule foldl_invariant [where P = sim_timed]) (simp_all only: sim_timed_step)

lemma sim_timed_new: "sim_timed (new_simulated symbols config t st)"
  unfolding sim_timed_def new_simulated_def by simp (rule tracks_start, case_tac cb, simp_all)

lemma sim_held:
  assumes "sim_timed s" and "cb \<noteq> CbDrainSnapshots"
  shows "{h. \<exists>x. jget (tm_armed (sp_timers (si_page s))) h = Some x \<and> ti_callback x = cb} = set_option (sim_tracked s cb)"
proof -
  note tr = assms(1) [unfolded sim_timed_def]
  have "(\<exists>x. jget (tm_armed (sp_timers (si_page s))) h = Some x \<and> ti_callback x = cb) = (sim_tracked s cb = Some h)" for h
    using tracks_any [OF tr, of h] tracks_armed [OF tr assms(2), of h] by (auto simp: armed_for_def split: option.splits)
  then show ?thesis by auto
qed

text \<open>One engine at most: after any run the market clock, the tape and the pending retry are each
  exactly the one timer whose handle the source holds, and once it is disconnected none of them is
  left.\<close>

theorem sim_timers_tracked:
  assumes "cb \<noteq> CbDrainSnapshots"
  shows "{h. \<exists>x. jget (tm_armed (sp_timers (si_page (sim_run off (new_simulated symbols config t st) es)))) h = Some x \<and>
       ti_callback x = cb} = set_option (sim_tracked (sim_run off (new_simulated symbols config t st) es) cb) \<and>
    {h. \<exists>x. jget (tm_armed (sp_timers (si_page (sim_run off (new_simulated symbols config t st) (es @ [SimDisconnect]))))) h = Some x \<and>
       ti_callback x = cb} = {}"
proof -
  have "sim_run off (new_simulated symbols config t st) (es @ [SimDisconnect]) =
      sim_disconnect (sim_run off (new_simulated symbols config t st) es)"
    by (simp add: sim_run_def)
  moreover have "sim_tracked (sim_disconnect (sim_run off (new_simulated symbols config t st) es)) cb = None"
    by (rule sim_tracked_disconnect)
  ultimately show ?thesis
    using sim_held [OF sim_timed_run [OF sim_timed_new] assms] sim_held [OF sim_timed_disconnect [OF sim_timed_run [OF sim_timed_new]] assms]
    by simp
qed

section \<open>The session\<close>

lemma drain_requests_session [simp]:
  "si_intervalHandle (drainSnapshotRequests s) = si_intervalHandle s"
  "si_currentSessionDateKey (drainSnapshotRequests s) = si_currentSessionDateKey s"
  "si_lastKnownMarketState (drainSnapshotRequests s) = si_lastKnownMarketState s"
  "si_runtimeBySymbol (drainSnapshotRequests s) = si_runtimeBySymbol s"
  "si_snapshotRequests (drainSnapshotRequests s) = []"
proof -
  have a: "si_currentSessionDateKey (answer_snapshot s x) = si_currentSessionDateKey s"
    "si_lastKnownMarketState (answer_snapshot s x) = si_lastKnownMarketState s"
    "si_runtimeBySymbol (answer_snapshot s x) = si_runtimeBySymbol s"
    "si_snapshotRequests (answer_snapshot s x) = si_snapshotRequests s"
    "si_intervalHandle (answer_snapshot s x) = si_intervalHandle s" for s x
    by (simp_all add: answer_snapshot_def sim_emit_def sim_store_def Let_def split: option.split)
  have f: "si_currentSessionDateKey (foldl answer_snapshot s xs) = si_currentSessionDateKey s \<and>
    si_lastKnownMarketState (foldl answer_snapshot s xs) = si_lastKnownMarketState s \<and>
    si_runtimeBySymbol (foldl answer_snapshot s xs) = si_runtimeBySymbol s \<and>
    si_snapshotRequests (foldl answer_snapshot s xs) = si_snapshotRequests s \<and>
    si_intervalHandle (foldl answer_snapshot s xs) = si_intervalHandle s" for xs s
    by (induction xs arbitrary: s) (simp_all add: a)
  show "si_intervalHandle (drainSnapshotRequests s) = si_intervalHandle s"
    "si_currentSessionDateKey (drainSnapshotRequests s) = si_currentSessionDateKey s"
    "si_lastKnownMarketState (drainSnapshotRequests s) = si_lastKnownMarketState s"
    "si_runtimeBySymbol (drainSnapshotRequests s) = si_runtimeBySymbol s"
    "si_snapshotRequests (drainSnapshotRequests s) = []"
    by (simp_all add: drainSnapshotRequests_def f Let_def)
qed

lemma drain_idle: "si_snapshotRequests s = [] \<Longrightarrow> drainSnapshotRequests s = s"
  by (simp add: drainSnapshotRequests_def)

lemma batches_frames [simp]:
  "si_currentSessionDateKey (start_batches s) = si_currentSessionDateKey s"
  "si_currentSessionDateKey (stop_batches s) = si_currentSessionDateKey s"
  "si_lastKnownMarketState (start_batches s) = si_lastKnownMarketState s"
  "si_lastKnownMarketState (stop_batches s) = si_lastKnownMarketState s"
  "si_runtimeBySymbol (start_batches s) = si_runtimeBySymbol s"
  "si_runtimeBySymbol (stop_batches s) = si_runtimeBySymbol s"
  "si_intervalHandle (start_batches s) = Some (tm_next (sp_timers (si_page s)))" "si_intervalHandle (stop_batches s) = None"
  by (simp_all add: start_batches_def stop_batches_def sim_arm_def sim_timers_def fst_set_timer Let_def split: option.split)

lemma session_entered:
  "si_currentSessionDateKey (enter_session st now s) = Some (fst (session_of st)) \<and>
   si_lastKnownMarketState (enter_session st now s) = Some (market_state_of st) \<and>
   (si_intervalHandle (enter_session st now s) \<noteq> None) = (market_state_of st = IsOpen) \<and>
   si_snapshotRequests (enter_session st now s) = []"
  by (cases "market_state_of st") (auto simp: enter_session_def Let_def case_prod_unfold)

lemma session_again:
  "enter_session st now' (enter_session st now s) = enter_session st now s"
proof -
  have "s' = enter_session st now s \<Longrightarrow> enter_session st now' s' = s'" for s'
  proof -
    assume s': "s' = enter_session st now s"
    note e = session_entered [of st now s, folded s']
    have "s'\<lparr>si_lastKnownMarketState := Some (market_state_of st)\<rparr> = s'" using e by simp
    then show ?thesis using e
      by (cases "market_state_of st") (auto simp: enter_session_def drain_idle Let_def case_prod_unfold)
  qed
  then show ?thesis by simp
qed


section \<open>The figures\<close>

definition tick_of :: "SimSymbol \<Rightarrow> int" where
  "tick_of def = scaledFromDecimal (ss_tickSize def)"

definition runtime_ok :: "SymbolRuntime \<Rightarrow> bool" where
  "runtime_ok r =
     (grid_ok (rt_def r) \<and>
      rt_decimals r = max (decimalPlaces (ss_referencePrice (rt_def r))) (decimalPlaces (ss_tickSize (rt_def r))) \<and>
      walk_ok (tick_of (rt_def r)) (rt_open r) (rt_price r) (rt_high r) (rt_low r) \<and>
      (\<forall>x \<in> set (rt_history r). rt_low r \<le> snd x \<and> snd x \<le> rt_high r \<and> tick_of (rt_def r) dvd snd x))"

definition book_ok :: "(string, SymbolRuntime) jmap \<Rightarrow> WeightedPicker \<Rightarrow> bool" where
  "book_ok m p =
     ((\<forall>k r. jget m k = Some r \<longrightarrow> ss_symbol (rt_def r) = k \<and> runtime_ok r) \<and>
      (\<forall>def \<in> set (wp_symbols p). \<forall>r. jget m (ss_symbol def) = Some r \<longrightarrow> rt_def r = def))"

definition out_valid :: "out \<Rightarrow> bool" where
  "out_valid e = (case e of OutTick _ t \<Rightarrow> isDecimal (tk_p t) | OutGotSnapshot _ (Inr sn) \<Rightarrow> snapshot_ok sn | _ \<Rightarrow> True)"

definition sim_ok :: "SimulatedSource \<Rightarrow> bool" where
  "sim_ok s =
     (book_ok (si_runtimeBySymbol s) (si_picker s) \<and> (\<forall>e \<in> set (si_delayQueue s). isDecimal (tk_p (de_tick e))) \<and>
      list_all out_valid (sp_out (si_page s)))"

lemma runtime_decimals: "runtime_ok r \<Longrightarrow> rt_decimals r \<le> 4"
  using decimalPlaces_le by (auto simp: runtime_ok_def grid_ok_def)

lemma price_text_valid: "runtime_ok r \<Longrightarrow> isDecimal (price_text r x)"
  using runtime_decimals scaled_text_valid by (simp add: price_text_def)

text \<open>On the tick grid the text shows the price exactly.\<close>

lemma price_text_exact: "runtime_ok r \<Longrightarrow> tick_of (rt_def r) dvd x \<Longrightarrow> toScaledInt (price_text r x) = x"
proof -
  assume r: "runtime_ok r" and x: "tick_of (rt_def r) dvd x"
  have "10 ^ (4 - rt_decimals r) dvd tick_of (rt_def r)"
    using r toScaledInt_dvd [of "ss_tickSize (rt_def r)" "rt_decimals r"] runtime_decimals [OF r]
    by (simp add: runtime_ok_def grid_ok_def tick_of_def scaledFromDecimal_eq)
  then have "10 ^ (4 - rt_decimals r) dvd x" using x dvd_trans by blast
  then show ?thesis using fromScaledInt_exact runtime_decimals [OF r] by (simp add: price_text_def scaled_text_eq)
qed

lemma runtime_backfilled: "runtime_ok r \<Longrightarrow> runtime_ok (backfill_one base k o' t' r)"
proof -
  assume r: "runtime_ok r"
  define seed where "seed = hashSeed base (ss_symbol (rt_def r)) k"
  define opn where "opn = auctionOpen (rt_def r) seed"
  define start where "start = \<lparr>bf_open = opn, bf_price = opn, bf_high = opn, bf_low = opn, bf_volume = of_count 0, bf_history = []\<rparr>"
  have g: "grid_ok (rt_def r)" using r by (simp add: runtime_ok_def)
  have "slot_ok (rt_def r) opn (mulberry32 seed, start)"
    using auctionOpen_ok [OF g, of seed] g
    by (simp add: slot_ok_def session_ok_def walk_ok_def grid_ok_def start_def opn_def)
  from foldl_slot_ok [OF this, of "[0..<total_slots o' t' + 1]" o']
  have "session_ok (rt_def r) (computeBackfilledSession (rt_def r) o' t' seed)"
    by (simp add: computeBackfilledSession_def slot_ok_def opn_def start_def Let_def)
  then show ?thesis using r
    by (simp add: backfill_one_def runtime_ok_def session_ok_def tick_of_def seed_def Let_def)
qed

lemma book_okD:
  assumes "book_ok m p"
  shows "jget m k = Some r \<Longrightarrow> ss_symbol (rt_def r) = k" "jget m k = Some r \<Longrightarrow> runtime_ok r"
    "def \<in> set (wp_symbols p) \<Longrightarrow> jget m (ss_symbol def) = Some r \<Longrightarrow> rt_def r = def"
  using assms unfolding book_ok_def by blast+

lemma book_okI:
  assumes "\<And>k r. jget m k = Some r \<Longrightarrow> ss_symbol (rt_def r) = k \<and> runtime_ok r"
    and "\<And>def r. def \<in> set (wp_symbols p) \<Longrightarrow> jget m (ss_symbol def) = Some r \<Longrightarrow> rt_def r = def"
  shows "book_ok m p"
  using assms unfolding book_ok_def by blast

lemma book_update:
  assumes "book_ok m p" and "\<And>r. runtime_ok r \<Longrightarrow> runtime_ok (f r)" and "\<And>r. rt_def (f r) = rt_def r"
  shows "book_ok (jmap_values (\<lambda>_. f) m) p"
proof -
  have old: "\<exists>r0. jget m k = Some r0 \<and> r = f r0" if "jget (jmap_values (\<lambda>_. f) m) k = Some r" for k r
    using that by (cases "jget m k") simp_all
  show ?thesis
  proof (rule book_okI)
    fix k r
    assume "jget (jmap_values (\<lambda>_. f) m) k = Some r"
    then obtain r0 where r0: "jget m k = Some r0" and r: "r = f r0" using old by blast
    show "ss_symbol (rt_def r) = k \<and> runtime_ok r"
      using book_okD(1,2) [OF assms(1) r0] assms(2) [of r0] unfolding r assms(3) by simp
  next
    fix def r
    assume d: "def \<in> set (wp_symbols p)" and "jget (jmap_values (\<lambda>_. f) m) (ss_symbol def) = Some r"
    then obtain r0 where r0: "jget m (ss_symbol def) = Some r0" and r: "r = f r0" using old by blast
    show "rt_def r = def" using book_okD(3) [OF assms(1) d r0] unfolding r assms(3) .
  qed
qed

lemma runtime_sampled: "runtime_ok r \<Longrightarrow> runtime_ok (r\<lparr>rt_history := push_sample (now, rt_price r) (rt_history r)\<rparr>)"
  using set_push_sample [of "(now, rt_price r)" "rt_history r"] by (auto simp: runtime_ok_def walk_ok_def)

lemma sim_ok_backfill: "sim_ok s \<Longrightarrow> sim_ok (backfillAllSymbols k o' t' s)"
proof -
  have "rt_def (backfill_one base k o' t' r) = rt_def r" for base r by (simp add: backfill_one_def Let_def)
  then show "sim_ok s \<Longrightarrow> sim_ok (backfillAllSymbols k o' t' s)"
    by (simp add: sim_ok_def backfillAllSymbols_def book_update runtime_backfilled)
qed

lemma sim_ok_sample: "sim_ok s \<Longrightarrow> sim_ok (sampleHistory now s)"
  by (simp add: sim_ok_def sampleHistory_def book_update runtime_sampled)

lemma snapshot_built: "runtime_ok r \<Longrightarrow> snapshot_ok (buildSnapshot x r s)"
proof -
  assume r: "runtime_ok r"
  then have "isDecimal (ss_referencePrice (rt_def r))" by (simp add: runtime_ok_def grid_ok_def)
  then show ?thesis using price_text_valid [OF r] subtract_props(1) by (simp add: buildSnapshot_def Let_def)
qed

definition books :: "SimulatedSource \<Rightarrow> (string, SymbolRuntime) jmap \<times> WeightedPicker \<times> DelayedEnvelope list \<times> out list" where
  "books s = (si_runtimeBySymbol s, si_picker s, si_delayQueue s, sp_out (si_page s))"

lemma sim_ok_books: "books s' = books s \<Longrightarrow> sim_ok s' = sim_ok s"
  by (simp add: sim_ok_def books_def)

lemma books_updates [simp]:
  "books (s\<lparr>si_connectAttempt := a\<rparr>) = books s" "books (s\<lparr>si_currentConnectionState := b\<rparr>) = books s"
  "books (s\<lparr>si_sessionCounter := c\<rparr>) = books s" "books (s\<lparr>si_identityValue := d\<rparr>) = books s"
  "books (s\<lparr>si_config := e\<rparr>) = books s" "books (s\<lparr>si_prng := f\<rparr>) = books s"
  "books (s\<lparr>si_subscribed := h\<rparr>) = books s" "books (s\<lparr>si_snapshotRequests := j\<rparr>) = books s"
  "books (s\<lparr>si_currentSessionDateKey := k\<rparr>) = books s" "books (s\<lparr>si_lastKnownMarketState := l\<rparr>) = books s"
  "books (s\<lparr>si_lastHistorySampleAt := m\<rparr>) = books s" "books (s\<lparr>si_globalEventSeq := n\<rparr>) = books s"
  "books (s\<lparr>si_dispatcher := p\<rparr>) = books s" "books (s\<lparr>si_backoffAttempt := q\<rparr>) = books s"
  "books (s\<lparr>si_marketClockHandle := t\<rparr>) = books s" "books (s\<lparr>si_intervalHandle := u\<rparr>) = books s"
  "books (s\<lparr>si_dropReconnectTimer := v\<rparr>) = books s"
  by (simp_all add: books_def)

lemma books_outside [simp]:
  "sp_out pg = sp_out (si_page s) \<Longrightarrow> books (s\<lparr>si_page := pg\<rparr>) = books s"
  "books (sim_timers f s) = books s" "books (sim_store f' s) = books s" "books (snd (prng s)) = books s"
  "books (sim_listen k ch s) = books s" "books (snd (sim_arm cb ms ev s)) = books s"
  "books (start_batches s) = books s" "books (stop_batches s) = books s" "books (stop_clock s) = books s"
  "books (clearDropReconnectTimer s) = books s" "books (sim_frame s) = books s" "books (sim_unsubscribe xs s) = books s"
  "books (sim_getSnapshot x s) = books s"
  by (simp_all add: books_def sim_timers_def sim_store_def prng_def sim_listen_def sim_arm_def start_batches_def
      stop_batches_def stop_clock_def clearDropReconnectTimer_def sim_frame_def sim_unsubscribe_def sim_getSnapshot_def
      Let_def case_prod_unfold split: channel.split option.split)

lemmas sim_ok_frames [simp] = books_updates [THEN sim_ok_books] books_outside(2-13) [THEN sim_ok_books]

lemma sim_ok_emit [simp]: "list_all out_valid es \<Longrightarrow> sim_ok s \<Longrightarrow> sim_ok (sim_emit es s)"
  by (simp add: sim_ok_def sim_emit_def)

lemma sim_ok_status [simp]: "sim_ok s \<Longrightarrow> sim_ok (sim_emitStatus st s)" "sim_ok s \<Longrightarrow> sim_ok (sim_emitError c m s)"
  by (simp_all add: sim_emitStatus_def sim_emitError_def list_all_iff out_valid_def Let_def)

lemma sim_ok_emit_tick [simp]: "isDecimal (tk_p t) \<Longrightarrow> sim_ok s \<Longrightarrow> sim_ok (emit_tick t s)"
proof -
  assume "isDecimal (tk_p t)" "sim_ok s"
  then have "sim_ok (sim_emit (map (\<lambda>h. OutTick h t) (si_tickHandlers s)) s)"
    by (simp add: list_all_iff out_valid_def)
  then show ?thesis using \<open>sim_ok s\<close>
    by (simp add: emit_tick_def case_prod_unfold Let_def) (simp add: sim_ok_def)
qed

lemma sim_ok_deliver [simp]: "isDecimal (tk_p t) \<Longrightarrow> sim_ok s \<Longrightarrow> sim_ok (deliver t s)"
  by (simp add: deliver_def) (auto simp: sim_ok_def)

lemma sim_ok_drain_loop:
  "\<forall>e \<in> set q. isDecimal (tk_p (de_tick e)) \<Longrightarrow> sim_ok s \<Longrightarrow> sim_ok (drain_loop t q s)"
proof (induction t q s rule: drain_loop.induct)
  case (1 now s)
  then show ?case by (simp add: sim_ok_def)
next
  case (2 now h q s)
  show ?case
  proof (cases "de_releaseAt h > now")
    case True
    then show ?thesis using 2(2,3) by (simp add: sim_ok_def)
  next
    case False
    then show ?thesis using 2 by simp
  qed
qed

lemma sim_ok_drain [simp]: "sim_ok s \<Longrightarrow> sim_ok (drainDelayedQueue s)"
  unfolding drainDelayedQueue_def by (rule sim_ok_drain_loop) (simp_all add: sim_ok_def)

lemma sim_ok_requests [simp]: "sim_ok s \<Longrightarrow> sim_ok (drainSnapshotRequests s)"
proof -
  have "sim_ok (answer_snapshot s x)" if "sim_ok s" for s x
  proof (cases "jget (si_runtimeBySymbol s) x")
    case (Some r)
    have "book_ok (si_runtimeBySymbol s) (si_picker s)" using that by (simp add: sim_ok_def)
    then have "snapshot_ok (buildSnapshot x r s)" using Some by (intro snapshot_built book_okD(2))
    then show ?thesis using that Some by (simp add: answer_snapshot_def out_valid_def Let_def del: snapshot_ok.simps)
  qed (use that in \<open>simp add: answer_snapshot_def out_valid_def\<close>)
  then have "sim_ok (foldl answer_snapshot s xs)" if "sim_ok s" for s xs
    by (intro foldl_invariant [where P = sim_ok]) (use that in simp_all)
  then show "sim_ok s \<Longrightarrow> sim_ok (drainSnapshotRequests s)" by (simp add: drainSnapshotRequests_def Let_def)
qed

lemma sim_ok_session [simp]: "sim_ok s \<Longrightarrow> sim_ok (enter_session st now s)" "sim_ok s \<Longrightarrow> sim_ok (ensureSessionFor off now s)"
proof -
  show e: "sim_ok s \<Longrightarrow> sim_ok (enter_session st now s)" for st
    by (simp add: enter_session_def sim_ok_backfill Let_def case_prod_unfold)
  show "sim_ok s \<Longrightarrow> sim_ok (ensureSessionFor off now s)" by (simp add: ensureSessionFor_def e split: sum.split)
qed

text \<open>The new state of the symbol an event moved, and the tick that tells of it.\<close>

lemma generate_for_eq:
  "\<exists>k a n v i t tk. let moved = (if rt_price r + tick_of def * k < tick_of def then tick_of def else rt_price r + tick_of def * k);
       r' = r\<lparr>rt_price := moved, rt_high := max (rt_high r) moved, rt_low := min (rt_low r) moved, rt_volume := v,
         rt_lastEventId := i, rt_lastTimestamp := t\<rparr>
     in \<bar>k\<bar> < 4 \<and> tk_s tk = ss_symbol def \<and> tk_p tk = price_text r' moved \<and>
       generate_for def r s = deliver tk (s\<lparr>si_prng := a, si_globalEventSeq := n,
         si_runtimeBySymbol := jset (ss_symbol def) r' (si_runtimeBySymbol s)\<rparr>)"
proof -
  obtain k rng where k: "pickSignedSteps (si_prng s) (rt_price r) (rt_open r) LIVE_MAX_STEPS_PER_TICK = (k, rng)" by force
  obtain x1 a1 where m1: "mulberry_next rng = (x1, a1)" by force
  obtain x2 a2 where m2: "mulberry_next a1 = (x2, a2)" by force
  have b: "\<bar>k\<bar> < 4" using signed_steps_bound [of 4 "si_prng s" "rt_price r" "rt_open r"] k
    by (simp add: LIVE_MAX_STEPS_PER_TICK_def)
  show ?thesis
    unfolding generate_for_def k prng_def Let_def prod.case tick_of_def
    by (intro exI conjI) (simp_all add: m1 m2 b)
qed

lemma sim_ok_generate_for:
  assumes "sim_ok s" and "jget (si_runtimeBySymbol s) (ss_symbol def) = Some r" and "rt_def r = def"
  shows "sim_ok (generate_for def r s)"
proof -
  have b: "book_ok (si_runtimeBySymbol s) (si_picker s)" using assms(1) by (simp add: sim_ok_def)
  have r: "runtime_ok r" by (rule book_okD(2) [OF b assms(2)])
  obtain k a n v i t tk moved r' where moved: "moved = (if rt_price r + tick_of def * k < tick_of def then tick_of def else rt_price r + tick_of def * k)"
    and r': "r' = r\<lparr>rt_price := moved, rt_high := max (rt_high r) moved, rt_low := min (rt_low r) moved, rt_volume := v,
         rt_lastEventId := i, rt_lastTimestamp := t\<rparr>"
    and tk: "tk_p tk = price_text r' moved"
    and g: "generate_for def r s = deliver tk (s\<lparr>si_prng := a, si_globalEventSeq := n,
         si_runtimeBySymbol := jset (ss_symbol def) r' (si_runtimeBySymbol s)\<rparr>)"
    using generate_for_eq [of r def s] unfolding Let_def by blast
  have w: "walk_ok (tick_of def) (rt_open r) moved (max (rt_high r) moved) (min (rt_low r) moved)"
    using r by (intro walk_step [OF _ moved]) (simp add: runtime_ok_def assms(3))
  have ok: "runtime_ok r'"
    using r w by (auto simp: runtime_ok_def r' assms(3) min_le_iff_disj le_max_iff_disj)
  have def': "rt_def r' = def" using assms(3) by (simp add: r')
  have "book_ok (jset (ss_symbol def) r' (si_runtimeBySymbol s)) (si_picker s)"
  proof (rule book_okI)
    fix x r1
    assume "jget (jset (ss_symbol def) r' (si_runtimeBySymbol s)) x = Some r1"
    then have "x = ss_symbol def \<and> r1 = r' \<or> jget (si_runtimeBySymbol s) x = Some r1"
      by (simp split: if_splits)
    then show "ss_symbol (rt_def r1) = x \<and> runtime_ok r1"
    proof
      assume "x = ss_symbol def \<and> r1 = r'"
      then show ?thesis using def' ok by simp
    next
      assume x: "jget (si_runtimeBySymbol s) x = Some r1"
      show ?thesis using book_okD(1,2) [OF b x] by simp
    qed
  next
    fix d r1
    assume d: "d \<in> set (wp_symbols (si_picker s))"
      and j: "jget (jset (ss_symbol def) r' (si_runtimeBySymbol s)) (ss_symbol d) = Some r1"
    show "rt_def r1 = d"
    proof (cases "ss_symbol d = ss_symbol def")
      case True
      have "rt_def r = d" by (rule book_okD(3) [OF b d]) (simp only: True assms(2))
      moreover have "r1 = r'" using j True by simp
      ultimately show ?thesis using def' assms(3) by simp
    next
      case False
      then have "jget (si_runtimeBySymbol s) (ss_symbol d) = Some r1" using j by simp
      then show ?thesis by (rule book_okD(3) [OF b d])
    qed
  qed
  moreover have "isDecimal (tk_p tk)" unfolding tk by (rule price_text_valid [OF ok])
  ultimately show ?thesis using assms(1) unfolding g by (intro sim_ok_deliver) (simp_all add: sim_ok_def)
qed

lemma pick_loop_in: "pick_loop t bs ss = Some d \<Longrightarrow> d \<in> set ss"
  by (induction t bs ss rule: pick_loop.induct) (auto split: if_splits)

lemma pick_in: "pick roll p = Inr d \<Longrightarrow> d \<in> set (wp_symbols p)"
  by (auto simp: pick_def Let_def dest: pick_loop_in split: option.splits list.splits)

lemma sim_ok_generateOne [simp]: "sim_ok s \<Longrightarrow> sim_ok (generateOne s)"
proof -
  assume s: "sim_ok s"
  define s1 where "s1 = snd (prng s)"
  have s1: "sim_ok s1" using s by (simp add: s1_def)
  have "sim_ok (generate_for d r s1)" if d: "pick x (si_picker s1) = Inr d" and r: "jget (si_runtimeBySymbol s1) (ss_symbol d) = Some r" for x d r
  proof (rule sim_ok_generate_for [OF s1 r])
    have "book_ok (si_runtimeBySymbol s1) (si_picker s1)" using s1 by (simp add: sim_ok_def)
    then show "rt_def r = d" by (rule book_okD(3) [OF _ pick_in [OF d] r])
  qed
  then show ?thesis using s1
    by (simp add: generateOne_def case_prod_unfold s1_def [symmetric] Let_def split: sum.split option.split)
qed

lemma sim_ok_batch [simp]: "sim_ok s \<Longrightarrow> sim_ok ((generateOne ^^ n) s)"
  by (induction n) simp_all

lemma sim_ok_generateBatch [simp]: "sim_ok s \<Longrightarrow> sim_ok (generateBatch off s)"
  by (simp add: generateBatch_def sim_ok_sample Let_def)

lemma sim_ok_calls [simp]:
  "sim_ok s \<Longrightarrow> sim_ok (sim_connect off s)" "sim_ok s \<Longrightarrow> sim_ok (sim_disconnect s)"
  "sim_ok s \<Longrightarrow> sim_ok (simulateDrop c s)" "sim_ok s \<Longrightarrow> sim_ok (simulateEntitlementChange u s)"
  "sim_ok s \<Longrightarrow> sim_ok (snd (sim_getHistory off x s))"
  by (simp_all add: sim_connect_def sim_disconnect_def simulateDrop_def simulateEntitlementChange_def sim_getHistory_def
      list_all_iff out_valid_def Let_def case_prod_unfold split: option.split)

lemma sim_ok_subscribe [simp]: "sim_ok s \<Longrightarrow> sim_ok (sim_subscribe xs s)"
  unfolding sim_subscribe_def by (rule foldl_invariant [where P = sim_ok]) simp_all

lemma sim_ok_callback [simp]: "sim_ok s \<Longrightarrow> sim_ok (run_sim_callback off cb s)"
  by (cases cb) simp_all

lemma sim_ok_step: "sim_ok s \<Longrightarrow> sim_ok (sim_do off s e)"
  by (cases e) (simp_all split: option.split)

lemma sim_ok_run: "sim_ok s \<Longrightarrow> sim_ok (sim_run off s es)"
  unfolding sim_run_def by (rule foldl_invariant [where P = sim_ok]) (simp_all only: sim_ok_step)

definition universe_ok :: "SimSymbol list \<Rightarrow> bool" where
  "universe_ok symbols = (list_all grid_ok symbols \<and> distinct (map ss_symbol symbols))"

lemma runtime_new: "grid_ok d \<Longrightarrow> runtime_ok (new_runtime d)"
  by (auto simp: runtime_ok_def new_runtime_def walk_ok_def grid_ok_def tick_of_def Let_def)

lemma jget_built:
  "distinct (map ss_symbol ds) \<Longrightarrow>
   jget (foldl (\<lambda>m d. jset (ss_symbol d) (new_runtime d) m) m ds) k =
     (case find (\<lambda>d. ss_symbol d = k) ds of Some d \<Rightarrow> Some (new_runtime d) | None \<Rightarrow> jget m k)"
proof (induction ds arbitrary: m)
  case (Cons d ds)
  have "find (\<lambda>e. ss_symbol e = ss_symbol d) ds = None"
    using Cons.prems by (auto simp: find_None_iff image_iff)
  then show ?case using Cons by (auto split: option.split)
qed simp

lemma sim_ok_new: "universe_ok symbols \<Longrightarrow> sim_ok (new_simulated symbols config t st)"
proof -
  assume u: "universe_ok symbols"
  have d: "rt_def (new_runtime d) = d" for d by (simp add: new_runtime_def Let_def)
  have "book_ok (foldl (\<lambda>m d. jset (ss_symbol d) (new_runtime d) m) [] symbols) (new_picker symbols)"
  proof (rule book_okI)
    fix k r
    assume "jget (foldl (\<lambda>m d. jset (ss_symbol d) (new_runtime d) m) [] symbols) k = Some r"
    then obtain e where e: "find (\<lambda>d. ss_symbol d = k) symbols = Some e" "r = new_runtime e"
      using u jget_built [of symbols "[]" k] by (auto simp: universe_ok_def split: option.splits)
    then have "ss_symbol e = k" "e \<in> set symbols" by (auto simp: find_Some_iff)
    then show "ss_symbol (rt_def r) = k \<and> runtime_ok r"
      using u e(2) by (simp add: d universe_ok_def list_all_iff runtime_new)
  next
    fix e r
    assume e: "e \<in> set (wp_symbols (new_picker symbols))"
      and "jget (foldl (\<lambda>m d. jset (ss_symbol d) (new_runtime d) m) [] symbols) (ss_symbol e) = Some r"
    then obtain e' where e': "find (\<lambda>d. ss_symbol d = ss_symbol e) symbols = Some e'" "r = new_runtime e'"
      using u jget_built [of symbols "[]" "ss_symbol e"] by (auto simp: universe_ok_def split: option.splits)
    then have "ss_symbol e' = ss_symbol e" "e' \<in> set symbols" by (auto simp: find_Some_iff)
    then have "e' = e" using u e by (auto simp: universe_ok_def new_picker_def distinct_map dest: inj_onD)
    then show "rt_def r = e" using e'(2) by (simp add: d)
  qed
  then show ?thesis by (simp add: sim_ok_def new_simulated_def)
qed

text \<open>Claim C6: the demo's figures stay in order through anything that happens: after any run, every
  instrument's open and last price lie between its low and its high, all four on the tick grid and
  at least one tick, the price text shown for them is the exact figure, every history sample lies
  within the day's range, and every tick and snapshot handed to a listener carries valid decimals.\<close>

theorem live_figures_sound:
  assumes "universe_ok symbols"
  shows "(\<forall>k r. jget (si_runtimeBySymbol (sim_run off (new_simulated symbols config t st) es)) k = Some r \<longrightarrow>
      ss_symbol (rt_def r) = k \<and>
      walk_ok (tick_of (rt_def r)) (rt_open r) (rt_price r) (rt_high r) (rt_low r) \<and>
      (\<forall>x \<in> set (rt_history r). rt_low r \<le> snd x \<and> snd x \<le> rt_high r) \<and>
      toScaledInt (price_text r (rt_price r)) = rt_price r \<and>
      toScaledInt (price_text r (rt_open r)) = rt_open r) \<and>
    list_all out_valid (sp_out (si_page (sim_run off (new_simulated symbols config t st) es)))"
proof -
  define s where "s = sim_run off (new_simulated symbols config t st) es"
  have ok: "sim_ok s" unfolding s_def by (rule sim_ok_run [OF sim_ok_new [OF assms]])
  then have b: "book_ok (si_runtimeBySymbol s) (si_picker s)" by (simp add: sim_ok_def)
  have "ss_symbol (rt_def r) = k \<and> walk_ok (tick_of (rt_def r)) (rt_open r) (rt_price r) (rt_high r) (rt_low r) \<and>
      (\<forall>x \<in> set (rt_history r). rt_low r \<le> snd x \<and> snd x \<le> rt_high r) \<and>
      toScaledInt (price_text r (rt_price r)) = rt_price r \<and> toScaledInt (price_text r (rt_open r)) = rt_open r"
    if j: "jget (si_runtimeBySymbol s) k = Some r" for k r
  proof -
    have r: "runtime_ok r" by (rule book_okD(2) [OF b j])
    then have w: "walk_ok (tick_of (rt_def r)) (rt_open r) (rt_price r) (rt_high r) (rt_low r)"
      "\<forall>x \<in> set (rt_history r). rt_low r \<le> snd x \<and> snd x \<le> rt_high r" by (simp_all add: runtime_ok_def)
    then show ?thesis
      using book_okD(1) [OF b j] price_text_exact [OF r, of "rt_price r"] price_text_exact [OF r, of "rt_open r"]
      by (simp add: walk_ok_def)
  qed
  then show ?thesis using ok unfolding s_def [symmetric] by (simp add: sim_ok_def)
qed

text \<open>A demo page with one instrument at a whole-second instant of 2026.\<close>

definition demo_config :: SimulatedSourceConfig where
  "demo_config = \<lparr>sg_eventsPerSecond = 50, sg_delayedOffsetMs = 900000, sg_seed = of_count 42, sg_demoUser = ''demo''\<rparr>"

definition demo_source :: SimulatedSource where
  "demo_source = new_simulated [comi_symbol] demo_config 1790000000000 empty_store"

lemma comi_universe: "universe_ok [comi_symbol]"
  by (simp add: universe_ok_def comi_grid)

theorem live_figures_sound_witness:
  "\<exists>r. jget (si_runtimeBySymbol (sim_run egypt_2026 demo_source [])) ''COMI'' = Some r \<and>
     toScaledInt (price_text r (rt_price r)) = rt_price r"
proof -
  have "jget (si_runtimeBySymbol (sim_run egypt_2026 demo_source [])) ''COMI'' = Some (new_runtime comi_symbol)"
    by (simp add: sim_run_def demo_source_def new_simulated_def comi_symbol_def jget_def)
  then show ?thesis
    using live_figures_sound [OF comi_universe, of egypt_2026 demo_config 1790000000000 empty_store "[]"]
    unfolding demo_source_def by blast
qed


theorem sim_timers_tracked_witness:
  "\<exists>h. {h. \<exists>x. jget (tm_armed (sp_timers (si_page (sim_run egypt_2026 demo_source [SimConnect])))) h = Some x \<and>
       ti_callback x = CbMarketClock} = {h}"
proof -
  have "si_marketClockHandle demo_source = None" by (simp add: demo_source_def new_simulated_def)
  then have "sim_tracked (sim_connect egypt_2026 demo_source) CbMarketClock \<noteq> None"
    by (simp add: sim_connect_def Let_def case_prod_unfold)
  then show ?thesis
    using sim_timers_tracked [of CbMarketClock egypt_2026 "[comi_symbol]" demo_config 1790000000000 empty_store "[SimConnect]"]
    by (auto simp: sim_run_def demo_source_def)
qed

end
