(* ===== verification/Shared_Source.thy ===== *)
theory Shared_Source
  imports Config Gateway_Timers Simulated_Session
begin

text \<open>
  The app's one shared source (the second half of src/client/Tckr.MarketWatch/src/data/config.ts):
  \<open>getSharedSource\<close> creates and connects it at first access, \<open>resetSharedSource\<close> drops it and
  \<open>reconnectSharedSource\<close> is the manual retry. The module's variable is a record with the page the
  next instance starts on: its clock, its store and its random numbers; what is called on instances
  is logged. Either class can stand behind it, so what the module needs of one is a locale, with
  both classes as its interpretations.

  The lemmas: an instance is created once and connected as it is created, and a manual retry leaves
  no automatic one behind, on either class.
\<close>

section \<open>What the module relies on\<close>

text \<open>A source with an automatic retry: \<open>ok\<close> is its own bookkeeping, \<open>retries\<close> the armed timers that would
  connect by themselves.\<close>

locale retrying_source =
  fixes ok :: "'s \<Rightarrow> bool" and retries :: "'s \<Rightarrow> nat set" and conn :: "'s \<Rightarrow> 's" and disc :: "'s \<Rightarrow> 's"
  assumes ok_conn: "ok s \<Longrightarrow> ok (conn s)"
    and ok_disc: "ok s \<Longrightarrow> ok (disc s)"
    and disc_cancels: "ok s \<Longrightarrow> retries (disc s) = {}"
    and conn_arms_none: "ok s \<Longrightarrow> retries (conn s) = retries s"
begin

lemma reconnect_ok: "ok s \<Longrightarrow> ok (conn (disc s))"
  by (rule ok_conn) (rule ok_disc)

lemma reconnect_no_retry: "ok s \<Longrightarrow> retries (conn (disc s)) = {}"
  using conn_arms_none [OF ok_disc] disc_cancels by simp

end

definition gateway_retries :: "TckrGatewaySource \<Rightarrow> nat set" where
  "gateway_retries g = {h. \<exists>x. jget (tm_armed (pg_timers (gw_page g))) h = Some x \<and> ti_callback x = CbReconnect}"

definition simulated_retries :: "SimulatedSource \<Rightarrow> nat set" where
  "simulated_retries s = {h. \<exists>x. jget (tm_armed (sp_timers (si_page s))) h = Some x \<and> ti_callback x = CbDropReconnect}"

lemma gateway_retries_tracked: "timed g \<Longrightarrow> gateway_retries g = set_option (gw_reconnectTimer g)"
  unfolding timed_def gateway_retries_def by (auto simp: tracks_callback)

lemma simulated_retries_tracked: "sim_timed s \<Longrightarrow> simulated_retries s = set_option (si_dropReconnectTimer s)"
  unfolding simulated_retries_def using sim_held [of s CbDropReconnect] by simp

lemma connect_keeps_retry: "gw_reconnectTimer (connect g) = gw_reconnectTimer g"
  by (simp add: connect_def openSocket_def createSocket_def emitStatus_def emit_def Let_def case_prod_unfold)

interpretation gateway_source: retrying_source timed gateway_retries connect disconnect
proof
  fix g
  assume g: "timed g"
  then show c: "timed (connect g)" "timed (disconnect g)" using timed_step [of g Connect] timed_step [of g Disconnect] by simp_all
  show "gateway_retries (disconnect g) = {}"
    using gateway_retries_tracked [OF c(2)] tracked_disconnect [of g CbReconnect] by simp
  show "gateway_retries (connect g) = gateway_retries g"
    using g c by (simp add: gateway_retries_tracked connect_keeps_retry)
qed
lemma drop_clocks: "sim_clocks s' = sim_clocks s \<Longrightarrow> si_dropReconnectTimer s' = si_dropReconnectTimer s"
  by (simp add: sim_clocks_def)

lemmas drop_frames = sim_clocks_outside(4) [THEN drop_clocks] sim_clocks_ticks(5) [THEN drop_clocks] sim_clocks_loops(3) [THEN drop_clocks]

lemma session_keeps_retry: "si_dropReconnectTimer (ensureSessionFor off now s) = si_dropReconnectTimer s"
  by (simp add: ensureSessionFor_def enter_session_def start_batches_def stop_batches_def sim_arm_def sim_timers_def drop_frames
      Let_def case_prod_unfold split: sum.split option.split)

lemma sim_connect_keeps_retry: "si_dropReconnectTimer (sim_connect off s) = si_dropReconnectTimer s"
  by (simp add: sim_connect_def session_keeps_retry drop_frames sim_arm_def sim_timers_def Let_def case_prod_unfold)

interpretation simulated_source: retrying_source sim_timed simulated_retries "sim_connect off" sim_disconnect for off
proof
  fix s
  assume s: "sim_timed s"
  then show c: "sim_timed (sim_connect off s)" "sim_timed (sim_disconnect s)" by simp_all
  show "simulated_retries (sim_disconnect s) = {}"
    using simulated_retries_tracked [OF c(2)] sim_tracked_disconnect [of s CbDropReconnect] by simp
  show "simulated_retries (sim_connect off s) = simulated_retries s"
    using s c by (simp add: simulated_retries_tracked sim_connect_keeps_retry)
qed

section \<open>The module\<close>

datatype live_source = LiveGateway TckrGatewaySource | LiveSimulated SimulatedSource

datatype shared_call = CallCreate | CallConnect | CallDisconnect

text \<open>What the build fixes, and the page an instance is created on.\<close>

record build =
  bd_offset :: "int \<Rightarrow> int"
  bd_env :: env
  bd_production :: bool
  bd_symbols :: "SimSymbol list"

record shared =
  sh_source :: "live_source option"
  sh_now :: rat
  sh_random :: "nat \<Rightarrow> rat"
  sh_store :: store
  sh_calls :: "shared_call list"

definition new_shared :: "rat \<Rightarrow> (nat \<Rightarrow> rat) \<Rightarrow> shared" where
  "new_shared now rnd = \<lparr>sh_source = None, sh_now = now, sh_random = rnd, sh_store = empty_store, sh_calls = []\<rparr>"

fun live_connect :: "build \<Rightarrow> live_source \<Rightarrow> live_source" where
  "live_connect b (LiveGateway g) = LiveGateway (connect g)"
| "live_connect b (LiveSimulated s) = LiveSimulated (sim_connect (bd_offset b) s)"

fun live_disconnect :: "live_source \<Rightarrow> live_source" where
  "live_disconnect (LiveGateway g) = LiveGateway (disconnect g)"
| "live_disconnect (LiveSimulated s) = LiveSimulated (sim_disconnect s)"

text \<open>The class \<open>createMarketDataSource\<close> instantiates; its numbers are finite.\<close>

definition instance_of :: "build \<Rightarrow> shared \<Rightarrow> created_source \<Rightarrow> live_source" where
  "instance_of b sh created =
     (case created of
        NewGateway cfg \<Rightarrow> LiveGateway (new_gateway cfg (new_page (sh_now sh) (sh_random sh) (sh_store sh)))
      | NewSimulated rate offset seed user \<Rightarrow>
          LiveSimulated (new_simulated (bd_symbols b)
            \<lparr>sg_eventsPerSecond = num_ms rate, sg_delayedOffsetMs = num_ms offset, sg_seed = seed, sg_demoUser = user\<rparr>
            (sh_now sh) (sh_store sh)))"

definition getSharedSource :: "build \<Rightarrow> shared \<Rightarrow> (live_source \<times> shared) exn" where
  "getSharedSource b sh =
     (case sh_source sh of
        Some source \<Rightarrow> Inr (source, sh)
      | None \<Rightarrow>
          bindE (createMarketDataSource (bd_offset b) (bd_env b) (bd_production b) no_overrides \<lfloor>sh_now sh\<rfloor>) (\<lambda>created.
            let source = live_connect b (instance_of b sh created)
            in Inr (source, sh\<lparr>sh_source := Some source, sh_calls := sh_calls sh @ [CallCreate, CallConnect]\<rparr>)))"

fun live_page :: "live_source \<Rightarrow> (nat \<Rightarrow> rat) \<Rightarrow> rat \<times> (nat \<Rightarrow> rat) \<times> store" where
  "live_page (LiveGateway g) rnd =
     (tm_now (pg_timers (gw_page g)), (\<lambda>n. pg_random (gw_page g) (pg_draws (gw_page g) + n)), pg_store (gw_page g))"
| "live_page (LiveSimulated s) rnd = (tm_now (sp_timers (si_page s)), rnd, sp_store (si_page s))"

definition resetSharedSource :: "shared \<Rightarrow> shared" where
  "resetSharedSource sh =
     (case sh_source sh of
        None \<Rightarrow> sh
      | Some source \<Rightarrow>
          let (now, rnd, st) = live_page (live_disconnect source) (sh_random sh)
          in sh\<lparr>sh_source := None, sh_now := now, sh_random := rnd, sh_store := st, sh_calls := sh_calls sh @ [CallDisconnect]\<rparr>)"

definition reconnectSharedSource :: "build \<Rightarrow> shared \<Rightarrow> shared exn" where
  "reconnectSharedSource b sh =
     bindE (getSharedSource b sh) (\<lambda>(source, sh1).
       Inr (sh1\<lparr>sh_source := Some (live_connect b (live_disconnect source)),
                sh_calls := sh_calls sh1 @ [CallDisconnect, CallConnect]\<rparr>))"

section \<open>Runs\<close>

text \<open>Components get the source, reset it or retry by hand; anything else that happens to the instance is
  an event of its class. By the ownership rule components call neither \<open>connect\<close> nor \<open>disconnect\<close>.\<close>

datatype shared_event =
    SharedGet
  | SharedReset
  | SharedReconnect
  | OnGateway gateway_event
  | OnSimulated sim_event

fun live_do :: "build \<Rightarrow> shared_event \<Rightarrow> live_source \<Rightarrow> live_source" where
  "live_do b (OnGateway e) (LiveGateway g) = (if e = Connect \<or> e = Disconnect then LiveGateway g else LiveGateway (gateway_do g e))"
| "live_do b (OnSimulated e) (LiveSimulated s) =
     (if e = SimConnect \<or> e = SimDisconnect then LiveSimulated s else LiveSimulated (sim_do (bd_offset b) s e))"
| "live_do b _ source = source"

text \<open>A call that throws leaves the module as it was.\<close>

definition shared_do :: "build \<Rightarrow> shared \<Rightarrow> shared_event \<Rightarrow> shared" where
  "shared_do b sh e =
     (case e of
        SharedGet \<Rightarrow> (case getSharedSource b sh of Inr r \<Rightarrow> snd r | Inl _ \<Rightarrow> sh)
      | SharedReset \<Rightarrow> resetSharedSource sh
      | SharedReconnect \<Rightarrow> (case reconnectSharedSource b sh of Inr sh1 \<Rightarrow> sh1 | Inl _ \<Rightarrow> sh)
      | _ \<Rightarrow> sh\<lparr>sh_source := map_option (live_do b e) (sh_source sh)\<rparr>)"

definition shared_run :: "build \<Rightarrow> shared \<Rightarrow> shared_event list \<Rightarrow> shared" where
  "shared_run b sh es = foldl (shared_do b) sh es"

section \<open>One instance, one retry\<close>

fun live_ok :: "live_source \<Rightarrow> bool" where
  "live_ok (LiveGateway g) = timed g"
| "live_ok (LiveSimulated s) = sim_timed s"

text \<open>The armed timers that would connect by themselves.\<close>

fun live_retries :: "live_source \<Rightarrow> nat set" where
  "live_retries (LiveGateway g) = gateway_retries g"
| "live_retries (LiveSimulated s) = simulated_retries s"

interpretation live: retrying_source live_ok live_retries "live_connect b" live_disconnect for b
proof
  fix s
  assume ok: "live_ok s"
  show "live_ok (live_connect b s)" "live_ok (live_disconnect s)" "live_retries (live_disconnect s) = {}"
    "live_retries (live_connect b s) = live_retries s"
    using ok gateway_source.ok_conn gateway_source.ok_disc gateway_source.disc_cancels gateway_source.conn_arms_none
      simulated_source.ok_conn simulated_source.ok_disc simulated_source.disc_cancels simulated_source.conn_arms_none
    by (cases s; simp)+
qed

lemma live_ok_new: "live_ok (instance_of b sh created)"
  by (cases created) (simp_all add: instance_of_def timed_new sim_timed_new)

lemma live_ok_do: "live_ok s \<Longrightarrow> live_ok (live_do b e s)"
  by (induction b e s rule: live_do.induct) (simp_all add: timed_step sim_timed_step)

definition shared_ok :: "shared \<Rightarrow> bool" where
  "shared_ok sh = pred_option live_ok (sh_source sh)"

text \<open>The log of calls, one instance after the other: created and connected, then disconnects each
  followed by a connect, and a last disconnect if it was dropped.\<close>

fun instance_calls :: "nat \<Rightarrow> shared_call list" where
  "instance_calls n = CallCreate # CallConnect # concat (replicate n [CallDisconnect, CallConnect])"

definition calls_in_turn :: "shared \<Rightarrow> bool" where
  "calls_in_turn sh =
     (\<exists>past now. sh_calls sh = concat (map (\<lambda>n. instance_calls n @ [CallDisconnect]) past) @
        (case sh_source sh of None \<Rightarrow> [] | Some _ \<Rightarrow> instance_calls now))"

lemma instance_calls_reconnect: "instance_calls n @ [CallDisconnect, CallConnect] = instance_calls (Suc n)"
  by (simp add: replicate_append_same [symmetric] del: replicate.simps) (induction n; simp)

lemma turn_get:
  assumes "calls_in_turn sh" and "shared_ok sh" and "getSharedSource b sh = Inr (source, sh1)"
  shows "calls_in_turn sh1" and "shared_ok sh1" and "sh_source sh1 = Some source"
proof -
  have "calls_in_turn sh1 \<and> shared_ok sh1 \<and> sh_source sh1 = Some source"
  proof (cases "sh_source sh")
    case (Some s)
    then show ?thesis using assms by (auto simp: getSharedSource_def)
  next
    case None
    obtain created where c: "source = live_connect b (instance_of b sh created)"
      "sh1 = sh\<lparr>sh_source := Some source, sh_calls := sh_calls sh @ [CallCreate, CallConnect]\<rparr>"
      using assms(3) by (auto simp: getSharedSource_def None exn_simps Let_def)
    obtain past where "sh_calls sh = concat (map (\<lambda>n. instance_calls n @ [CallDisconnect]) past)"
      using assms(1) None by (auto simp: calls_in_turn_def)
    then have "calls_in_turn sh1" unfolding calls_in_turn_def by (intro exI [of _ past] exI [of _ 0]) (simp add: c(2))
    moreover have "live_ok source" unfolding c(1) by (rule live.ok_conn) (rule live_ok_new)
    ultimately show ?thesis by (simp add: shared_ok_def c(2))
  qed
  then show "calls_in_turn sh1" "shared_ok sh1" "sh_source sh1 = Some source" by simp_all
qed

lemma turn_reconnect:
  assumes "calls_in_turn sh" and "shared_ok sh" and "reconnectSharedSource b sh = Inr sh2"
  shows "calls_in_turn sh2 \<and> shared_ok sh2 \<and> pred_option (\<lambda>s. live_retries s = {}) (sh_source sh2)"
proof -
  obtain source sh1 where g: "getSharedSource b sh = Inr (source, sh1)"
    "sh2 = sh1\<lparr>sh_source := Some (live_connect b (live_disconnect source)), sh_calls := sh_calls sh1 @ [CallDisconnect, CallConnect]\<rparr>"
    using assms(3) by (auto simp: reconnectSharedSource_def exn_simps)
  note t = turn_get [OF assms(1,2) g(1)]
  have ok: "live_ok source" using t(2,3) by (simp add: shared_ok_def)
  obtain past n where "sh_calls sh1 = concat (map (\<lambda>n. instance_calls n @ [CallDisconnect]) past) @ instance_calls n"
    using t(1,3) by (auto simp: calls_in_turn_def)
  then have "calls_in_turn sh2" unfolding calls_in_turn_def g(2)
    by (intro exI [of _ past] exI [of _ "Suc n"]) (simp add: instance_calls_reconnect [symmetric] del: instance_calls.simps)
  then show ?thesis using live.reconnect_ok [OF ok] live.reconnect_no_retry [OF ok] by (simp add: g(2) shared_ok_def)
qed

lemma turn_reset:
  assumes "calls_in_turn sh" and "shared_ok sh"
  shows "calls_in_turn (resetSharedSource sh) \<and> shared_ok (resetSharedSource sh)"
proof (cases "sh_source sh")
  case None
  then show ?thesis using assms by (simp add: resetSharedSource_def)
next
  case (Some s)
  obtain past n where "sh_calls sh = concat (map (\<lambda>n. instance_calls n @ [CallDisconnect]) past) @ instance_calls n"
    using assms Some by (auto simp: calls_in_turn_def)
  then show ?thesis unfolding calls_in_turn_def shared_ok_def
    by (intro conjI exI [of _ "past @ [n]"]) (simp_all add: resetSharedSource_def Some case_prod_unfold Let_def del: instance_calls.simps)
qed

lemma turn_step:
  assumes "calls_in_turn sh \<and> shared_ok sh"
  shows "calls_in_turn (shared_do b sh e) \<and> shared_ok (shared_do b sh e)"
proof -
  have live: "calls_in_turn (sh\<lparr>sh_source := map_option (live_do b e) (sh_source sh)\<rparr>) \<and>
      shared_ok (sh\<lparr>sh_source := map_option (live_do b e) (sh_source sh)\<rparr>)"
    using assms live_ok_do by (cases "sh_source sh") (auto simp: calls_in_turn_def shared_ok_def)
  show ?thesis
  proof (cases e)
    case SharedGet
    then show ?thesis using assms turn_get [of sh b] by (auto simp: shared_do_def split: sum.split)
  next
    case SharedReset
    then show ?thesis using assms turn_reset [of sh] by (simp add: shared_do_def)
  next
    case SharedReconnect
    then show ?thesis using assms turn_reconnect [of sh b] by (auto simp: shared_do_def split: sum.split)
  qed (use live in \<open>simp_all add: shared_do_def\<close>)
qed

lemma turn_run: "calls_in_turn (shared_run b (new_shared now rnd) es) \<and> shared_ok (shared_run b (new_shared now rnd) es)"
  unfolding shared_run_def
proof (rule foldl_invariant [where P = "\<lambda>sh. calls_in_turn sh \<and> shared_ok sh"])
  show "calls_in_turn (new_shared now rnd) \<and> shared_ok (new_shared now rnd)"
    by (auto simp: calls_in_turn_def shared_ok_def new_shared_def)
qed (rule turn_step)

text \<open>The app has one source at a time, whatever class stands behind it: each instance is created
  once, connected as it is created, disconnected before every further connect, and dropped before
  the next is created; and after a manual retry no timer is left armed that would connect by
  itself.\<close>

theorem one_shared_source:
  "calls_in_turn (shared_run b (new_shared now rnd) es) \<and>
   pred_option (\<lambda>source. live_retries source = {}) (sh_source (shared_run b (new_shared now rnd) (es @ [SharedReconnect])))"
proof -
  define sh where "sh = shared_run b (new_shared now rnd) es"
  have ok: "calls_in_turn sh" "shared_ok sh" using turn_run [of b now rnd es] by (simp_all add: sh_def)
  have run: "shared_run b (new_shared now rnd) (es @ [SharedReconnect]) = shared_do b sh SharedReconnect"
    by (simp add: shared_run_def sh_def)
  have "pred_option (\<lambda>source. live_retries source = {}) (sh_source (shared_do b sh SharedReconnect))"
  proof (cases "reconnectSharedSource b sh")
    case (Inr sh2)
    then show ?thesis using turn_reconnect [OF ok Inr] by (simp add: shared_do_def)
  next
    case (Inl e)
    then have "sh_source sh = None" by (cases "sh_source sh") (auto simp: reconnectSharedSource_def getSharedSource_def)
    then show ?thesis using Inl by (simp add: shared_do_def)
  qed
  then show ?thesis using ok(1) unfolding run sh_def [symmetric] by simp
qed

section \<open>A manual retry while connected\<close>


end
