(* ===== verification/Gateway_Traffic.thy ===== *)
theory Gateway_Traffic
  imports Gateway "HOL-Library.Multiset"
begin

text \<open>
  What the gateway source writes to its sockets. \<open>sends\<close> lists the frames written, newest first;
  \<open>traffic\<close> is all that says about frames (written, waiting, the request counter) and \<open>gate\<close>
  all that decides whether one may be written. Most methods leave the traffic alone;
  the few that send keep the gate (\<open>gate_send\<close>).
\<close>

definition sends :: "TckrGatewaySource \<Rightarrow> (nat \<times> ClientMessage) list" where
  "sends g = concat (map (\<lambda>e. case e of OutSend sid m _ \<Rightarrow> [(sid, m)] | _ \<Rightarrow> []) (pg_out (gw_page g)))"

definition traffic :: "TckrGatewaySource \<Rightarrow> (nat \<times> ClientMessage) list \<times> ClientMessage list \<times> nat" where
  "traffic g = (sends g, gw_pendingOutbound g, gw_requestSeq g)"

definition gate :: "TckrGatewaySource \<Rightarrow> bool \<times> rat \<times> rat \<times> nat option \<times> (nat, nat) jmap" where
  "gate g = (gw_authenticated g, clock_now g, gw_throttledUntil g, gw_socket g, pg_sockets (gw_page g))"

lemma may_send_gate: "gate g' = gate g \<Longrightarrow> may_send g' = may_send g"
  by (simp add: gate_def may_send_def readyState_def split: option.split)

section \<open>Frames\<close>

abbreviation no_send :: "out \<Rightarrow> bool" where
  "no_send e \<equiv> (case e of OutSend _ _ _ \<Rightarrow> False | _ \<Rightarrow> True)"

lemma sends_emit [simp]: "list_all no_send es \<Longrightarrow> sends (emit es g) = sends g"
  unfolding sends_def emit_def by (induction es arbitrary: g) (auto split: out.splits)

lemma traffic_emit [simp]: "list_all no_send es \<Longrightarrow> traffic (emit es g) = traffic g"
  by (simp add: traffic_def) (simp add: emit_def)

lemma traffic_on_timers [simp]: "traffic (on_timers f g) = traffic g"
  by (simp add: traffic_def sends_def on_timers_def)

lemma traffic_on_store [simp]: "traffic (on_store f g) = traffic g"
  by (simp add: traffic_def sends_def on_store_def)

lemma traffic_updates [simp]:
  "traffic (g\<lparr>gw_lastStatus := a\<rparr>) = traffic g" "traffic (g\<lparr>gw_throttleTimer := b\<rparr>) = traffic g"
  "traffic (g\<lparr>gw_subscribedSymbols := c\<rparr>) = traffic g" "traffic (g\<lparr>gw_universeInFlight := d\<rparr>) = traffic g"
  "traffic (g\<lparr>gw_heartbeatWatchdog := e\<rparr>) = traffic g" "traffic (g\<lparr>gw_pingTimer := f\<rparr>) = traffic g"
  "traffic (g\<lparr>gw_socket := h\<rparr>) = traffic g" "traffic (g\<lparr>gw_authenticated := i\<rparr>) = traffic g"
  "traffic (g\<lparr>gw_connectResolvers := j\<rparr>) = traffic g" "traffic (g\<lparr>gw_intentionalClose := k\<rparr>) = traffic g"
  "traffic (g\<lparr>gw_connectAttempts := l\<rparr>) = traffic g" "traffic (g\<lparr>gw_reconnectTimer := m\<rparr>) = traffic g"
  "traffic (g\<lparr>gw_backoffAttempt := n\<rparr>) = traffic g" "traffic (g\<lparr>gw_authWaiters := p\<rparr>) = traffic g"
  "traffic (g\<lparr>gw_identityValue := q\<rparr>) = traffic g" "traffic (g\<lparr>gw_heartbeatIntervalMs := r\<rparr>) = traffic g"
  "traffic (g\<lparr>gw_throttledUntil := s\<rparr>) = traffic g" "traffic (g\<lparr>gw_dispatcher := t\<rparr>) = traffic g"
  "traffic (g\<lparr>gw_universeCache := u\<rparr>) = traffic g"
  by (simp_all add: traffic_def sends_def)

lemma traffic_page [simp]: "pg_out pg = pg_out (gw_page g) \<Longrightarrow> traffic (g\<lparr>gw_page := pg\<rparr>) = traffic g"
  by (simp add: traffic_def sends_def)

lemma traffic_events [simp]:
  "traffic (emitStatus state g) = traffic g" "traffic (emitError code msg rid g) = traffic g"
  by (simp_all add: emitStatus_def emitError_def Let_def list_all_iff)

lemma traffic_timers [simp]:
  "traffic (scheduleThrottleFlush g) = traffic g" "traffic (clearThrottleTimer g) = traffic g"
  "traffic (stopHeartbeat g) = traffic g" "traffic (stopPing g) = traffic g" "traffic (pulse g) = traffic g"
  "traffic (clearReconnectTimer g) = traffic g"
  by (simp_all add: scheduleThrottleFlush_def clearThrottleTimer_def arm_timer_def stopHeartbeat_def stopPing_def
      pulse_def clearReconnectTimer_def Let_def case_prod_unfold split: option.split)

lemma traffic_starts [simp]:
  "traffic (startHeartbeatMonitor g) = traffic g" "traffic (startPing g) = traffic g"
  by (simp_all add: startHeartbeatMonitor_def startPing_def arm_timer_def Let_def case_prod_unfold split: option.split)

lemma traffic_fetch [simp]:
  "traffic (start_fetch r url g) = traffic g" "traffic (getSnapshot x g) = traffic g" "traffic (getHistory x g) = traffic g"
  "traffic (getUniverse g) = traffic g"
  by (simp_all add: start_fetch_def getSnapshot_def getHistory_def getUniverse_def fetchUniverse_def Let_def split: option.split)

lemma traffic_sockets [simp]:
  "traffic (socket_close sid c r g) = traffic g" "traffic (openSocket res g) = traffic g"
  "traffic (set_readyState sid n g) = traffic g"
  by (simp_all add: socket_close_def openSocket_def createSocket_def set_readyState_def Let_def)

lemma traffic_close [simp]:
  "traffic (scheduleReconnect g) = traffic g" "traffic (handleClose code reason g) = traffic g"
  "traffic (forceLocalClose code reason g) = traffic g" "traffic (heartbeat_missed g) = traffic g"
  "traffic (connect g) = traffic g" "traffic (disconnect g) = traffic g" "traffic (reconnectNow g) = traffic g"
proof -
  show s: "traffic (scheduleReconnect g) = traffic g" for g
    by (simp add: scheduleReconnect_def draw_random_def arm_timer_def Let_def)
  show h: "traffic (handleClose code reason g) = traffic g" for g code reason
    by (simp add: handleClose_def s Let_def)
  show f: "traffic (forceLocalClose code reason g) = traffic g" for g code reason
    by (simp add: forceLocalClose_def h split: option.split)
  show "traffic (heartbeat_missed g) = traffic g"
    by (simp add: heartbeat_missed_def f split: option.split)
  show "traffic (connect g) = traffic g" "traffic (reconnectNow g) = traffic g" "traffic (disconnect g) = traffic g"
    by (simp_all add: connect_def reconnectNow_def disconnect_def Let_def split: option.split)
qed

lemma traffic_messages [simp]:
  "traffic (handleSubscribed m g) = traffic g" "traffic (handleTick t g) = traffic g"
  "traffic (handleError er g) = traffic g" "traffic (handleEntitlementChanged en g) = traffic g"
  "traffic (ingestSnapshot sn b g) = traffic g"
proof -
  show "traffic (handleSubscribed m g) = traffic g"
    unfolding handleSubscribed_def by (rule foldl_frame) simp
qed (simp_all add: handleTick_def handleError_def handleEntitlementChanged_def ingestSnapshot_def Let_def list_all_iff case_prod_unfold)

lemma traffic_done [simp]:
  "traffic (universe_done res g) = traffic g" "traffic (snapshot_done x res g) = traffic g"
  "traffic (history_done x res g) = traffic g" "traffic (fetch_done fid res g) = traffic g"
proof -
  show u: "traffic (universe_done res g) = traffic g" for g
    by (simp add: universe_done_def Let_def list_all_iff split: sum.split)
  show s: "traffic (snapshot_done x res g) = traffic g" for x g
    by (simp add: snapshot_done_def Let_def split: sum.split)
  show h: "traffic (history_done x res g) = traffic g" for x g
    by (simp add: history_done_def)
  show "traffic (fetch_done fid res g) = traffic g"
    by (simp add: fetch_done_def u s h Let_def split: option.split request.split)
qed

lemma traffic_listen [simp]: "traffic (listen f c g) = traffic g"
  by (simp add: listen_def traffic_def sends_def split: channel.split)

lemma traffic_frame_delivered [simp]: "traffic (frame_delivered g) = traffic g"
  by (simp add: frame_delivered_def Let_def case_prod_unfold)

section \<open>Sending\<close>

definition sending :: "TckrGatewaySource \<Rightarrow> TckrGatewaySource \<Rightarrow> bool" where
  "sending g g' = (gate g' = gate g \<and>
     (\<exists>new. sends g' = new @ sends g \<and> (\<forall>x \<in> set new. may_send g = Some (fst x))))"

lemma sending_refl [simp]: "sending g g"
  by (simp add: sending_def)

lemma sending_trans: "sending g g' \<Longrightarrow> sending g' g'' \<Longrightarrow> sending g g''"
  unfolding sending_def by (metis Un_iff append.assoc may_send_gate set_append)

lemma sending_frame: "gate g' = gate g \<Longrightarrow> sends g' = sends g \<Longrightarrow> sending g g'"
  by (simp add: sending_def)

lemma sending_foldl: "(\<And>g x. sending g (f g x)) \<Longrightarrow> sending g (foldl f g xs)"
  by (induction xs arbitrary: g) (auto intro: sending_trans)

lemma sending_funpow: "(\<And>g. sending g (f g)) \<Longrightarrow> sending g ((f ^^ n) g)"
  by (induction n) (auto intro: sending_trans)

lemma gate_emit [simp]: "gate (emit es g) = gate g"
  by (simp add: gate_def emit_def clock_now_def)

lemma gate_updates [simp]:
  "gate (g\<lparr>gw_pendingOutbound := a\<rparr>) = gate g" "gate (g\<lparr>gw_requestSeq := b\<rparr>) = gate g"
  "gate (g\<lparr>gw_subscribedSymbols := c\<rparr>) = gate g" "gate (g\<lparr>gw_throttleTimer := d\<rparr>) = gate g"
  by (simp_all add: gate_def clock_now_def)

lemma sends_updates [simp]:
  "sends (g\<lparr>gw_pendingOutbound := a\<rparr>) = sends g" "sends (g\<lparr>gw_requestSeq := b\<rparr>) = sends g"
  "sends (g\<lparr>gw_subscribedSymbols := c\<rparr>) = sends g"
  by (simp_all add: sends_def)

lemma sends_traffic: "traffic g' = traffic g \<Longrightarrow> sends g' = sends g"
  by (simp add: traffic_def)

lemma gate_schedule [simp]: "gate (scheduleThrottleFlush g) = gate g"
  by (simp add: scheduleThrottleFlush_def arm_timer_def gate_def clock_now_def on_timers_def set_timer_def Let_def)

lemma gate_fetch [simp]: "gate (start_fetch r url g) = gate g"
  by (simp add: start_fetch_def emit_def gate_def clock_now_def Let_def)

lemma sends_socket_send [simp]: "sends (socket_send sid msg g) = (sid, msg) # sends g"
  by (simp add: socket_send_def emit_def sends_def)

lemma gate_socket_send [simp]: "gate (socket_send sid msg g) = gate g"
  by (simp add: socket_send_def)

lemma flush_fold_sends:
  "sends (foldl (\<lambda>g msg. socket_send sid msg g) g msgs) = rev (map (Pair sid) msgs) @ sends g"
  by (induction msgs arbitrary: g) simp_all

lemma flush_fold_gate: "gate (foldl (\<lambda>g msg. socket_send sid msg g) g msgs) = gate g"
  by (rule foldl_frame) simp

lemma sending_send: "sending g (send msg g)"
proof (cases "may_send g")
  case None
  have "sends (scheduleThrottleFlush h) = sends h" for h by (rule sends_traffic) simp
  then show ?thesis using None by (intro sending_frame) (simp_all add: send_def Let_def)
qed (simp add: sending_def send_def)

lemma sending_flush: "sending g (flushOutbound g)"
  by (auto simp: flushOutbound_def sending_def flush_fold_sends flush_fold_gate Let_def split: option.split)

lemma sending_snapshot: "sending g (getSnapshot x g)"
  by (intro sending_frame sends_traffic) (simp_all add: getSnapshot_def)

lemma sending_subscribe: "sending g (subscribe xs g)" "sending g (unsubscribe xs g)"
proof -
  have "sending g (send m (g\<lparr>gw_subscribedSymbols := ss, gw_requestSeq := n\<rparr>))" for m ss n
    by (rule sending_trans [OF sending_frame sending_send]) simp_all
  then show "sending g (subscribe xs g)" "sending g (unsubscribe xs g)"
    by (simp_all add: subscribe_def unsubscribe_def nextRequestId_def Let_def)
qed

lemma sending_resubscribe: "sending g (resubscribe g)"
  unfolding resubscribe_def Let_def
  by (auto intro!: sending_trans [OF sending_subscribe(1) sending_foldl] sending_snapshot)

lemma sending_ping: "sending g (send_ping g)"
proof -
  have "sending g (send m (g\<lparr>gw_requestSeq := n\<rparr>))" for m n
    by (rule sending_trans [OF sending_frame sending_send]) simp_all
  then show ?thesis by (simp add: send_ping_def nextRequestId_def Let_def)
qed

text \<open>An event first changes the state without sending, then sends without changing the gate.\<close>

definition then_sends :: "TckrGatewaySource \<Rightarrow> TckrGatewaySource \<Rightarrow> bool" where
  "then_sends g g' = (\<exists>g0. traffic g0 = traffic g \<and> sending g0 g')"

lemma then_sends_quiet: "traffic g' = traffic g \<Longrightarrow> then_sends g g'"
  unfolding then_sends_def using sending_refl by blast

lemma then_sends_now: "traffic g0 = traffic g \<Longrightarrow> sending g0 g' \<Longrightarrow> then_sends g g'"
  unfolding then_sends_def by blast

lemma then_sends_after: "traffic h = traffic g \<Longrightarrow> then_sends h g' \<Longrightarrow> then_sends g g'"
  by (simp add: then_sends_def)

lemma then_sends_connected: "then_sends g (handleConnected m g)"
  unfolding handleConnected_def Let_def
  by (rule then_sends_now [OF _ sending_trans [OF sending_flush sending_trans [OF sending_frame sending_funpow]]])
    (simp_all add: sending_resubscribe gate_def clock_now_def sends_def)

lemma then_sends_timer: "then_sends g (run_callback cb (on_timers f g))"
proof (cases cb)
  case CbThrottle
  have "then_sends h (throttle_expires h)" for h
    unfolding throttle_expires_def Let_def
    by (auto intro!: then_sends_quiet then_sends_now [OF _ sending_flush])
  then have "then_sends g (throttle_expires (on_timers f g))" by (rule then_sends_after [OF traffic_on_timers])
  then show ?thesis by (simp add: CbThrottle)
next
  case CbPing
  then show ?thesis by (simp add: then_sends_now [OF _ sending_ping])
qed (simp_all add: then_sends_quiet)

lemma then_sends_step: "then_sends g (gateway_do g e)"
proof (cases e)
  case (SubscribeCall xs)
  then show ?thesis by (simp add: then_sends_now [OF _ sending_subscribe(1)])
next
  case (UnsubscribeCall xs)
  then show ?thesis by (simp add: then_sends_now [OF _ sending_subscribe(2)])
next
  case (SocketOpened sid)
  have "then_sends h (socket_onopen h)" for h
    unfolding socket_onopen_def waitForAuthenticated_def Let_def
    by (auto intro!: then_sends_quiet then_sends_now [OF _ sending_resubscribe] split: option.split resolver.split)
  then have "then_sends g (socket_onopen (set_readyState sid SOCKET_OPEN g))"
    by (rule then_sends_after [OF traffic_sockets(3)])
  then show ?thesis by (simp add: SocketOpened then_sends_quiet)
next
  case (SocketMessage sid raw)
  have "then_sends g (handleMessage raw g)"
    unfolding handleMessage_def
    by (auto intro!: then_sends_quiet then_sends_connected split: sum.split ServerMessage.split)
  then show ?thesis by (simp add: SocketMessage then_sends_quiet)
next
  case (TimerFires h)
  then show ?thesis
    by (auto simp: timer_fires_def then_sends_timer then_sends_quiet split: option.split)
qed (simp_all add: then_sends_quiet)


section \<open>Every request is written once or still waiting\<close>

fun request_id :: "ClientMessage \<Rightarrow> string option" where
  "request_id (Subscribe _ r) = r"
| "request_id (Unsubscribe _ r) = r"
| "request_id (Ping r) = r"

definition gw_id :: "nat \<Rightarrow> string option" where
  "gw_id n = Some (''gw-'' @ nat_str n)"

definition ids :: "TckrGatewaySource \<Rightarrow> string option multiset" where
  "ids g = mset (map (request_id \<circ> snd) (sends g)) + mset (map request_id (gw_pendingOutbound g))"

definition conserved :: "TckrGatewaySource \<Rightarrow> bool" where
  "conserved g = (ids g = mset (map gw_id [1..<gw_requestSeq g + 1]))"

lemma traffic_conserved: "traffic g' = traffic g \<Longrightarrow> conserved g' = conserved g"
  by (simp add: conserved_def ids_def traffic_def)

lemmas conserved_frames [simp] =
  traffic_emit [THEN traffic_conserved] traffic_on_timers [THEN traffic_conserved]
  traffic_updates [THEN traffic_conserved] traffic_timers [THEN traffic_conserved]
  traffic_starts [THEN traffic_conserved] traffic_events [THEN traffic_conserved]
  traffic_fetch [THEN traffic_conserved] traffic_sockets [THEN traffic_conserved]
  traffic_close [THEN traffic_conserved] traffic_messages [THEN traffic_conserved]
  traffic_done [THEN traffic_conserved] traffic_listen [THEN traffic_conserved]
  traffic_frame_delivered [THEN traffic_conserved]

lemma ids_traffic: "traffic g' = traffic g \<Longrightarrow> ids g' = ids g \<and> gw_requestSeq g' = gw_requestSeq g"
  by (simp add: ids_def traffic_def)

lemma ids_send: "ids (send m g) = add_mset (request_id m) (ids g) \<and> gw_requestSeq (send m g) = gw_requestSeq g"
proof (cases "may_send g")
  case None
  define g1 where "g1 = g\<lparr>gw_pendingOutbound := gw_pendingOutbound g @ [m]\<rparr>"
  have "traffic (send m g) = traffic g1" using None by (simp add: send_def g1_def Let_def)
  then show ?thesis using ids_traffic [of "send m g" g1] by (simp add: ids_def g1_def)
next
  case (Some sid)
  then show ?thesis by (simp add: send_def ids_def) (simp add: socket_send_def emit_def)
qed

lemma conserved_send: "conserved g \<Longrightarrow> conserved (send m (g\<lparr>gw_requestSeq := gw_requestSeq g + 1\<rparr>))"
  if "request_id m = gw_id (gw_requestSeq g + 1)"
proof -
  assume c: "conserved g"
  have "ids (g\<lparr>gw_requestSeq := gw_requestSeq g + 1\<rparr>) = ids g" by (simp add: ids_def)
  then show ?thesis using c that ids_send [of m "g\<lparr>gw_requestSeq := gw_requestSeq g + 1\<rparr>"]
    by (simp add: conserved_def)
qed

lemma conserved_subscribe: "conserved g \<Longrightarrow> conserved (subscribe xs g)" "conserved g \<Longrightarrow> conserved (unsubscribe xs g)"
proof -
  assume c: "conserved g"
  have "conserved (g\<lparr>gw_subscribedSymbols := ss\<rparr>)" for ss using c by simp
  from conserved_send [OF _ this] show "conserved (subscribe xs g)" "conserved (unsubscribe xs g)"
    using c by (simp_all add: subscribe_def unsubscribe_def nextRequestId_def gw_id_def Let_def)
qed

lemma conserved_ping: "conserved g \<Longrightarrow> conserved (send_ping g)"
  using conserved_send [of "Ping (gw_id (gw_requestSeq g + 1))" g] by (simp add: send_ping_def nextRequestId_def gw_id_def)

lemma conserved_flush: "conserved g \<Longrightarrow> conserved (flushOutbound g)"
proof -
  assume c: "conserved g"
  have f: "gw_requestSeq (foldl (\<lambda>g msg. socket_send sid msg g) h msgs) = gw_requestSeq h \<and>
      gw_pendingOutbound (foldl (\<lambda>g msg. socket_send sid msg g) h msgs) = gw_pendingOutbound h" for sid h msgs
    by (induction msgs arbitrary: h) (simp_all add: socket_send_def emit_def)
  have r: "map (request_id \<circ> snd) (rev (map (Pair sid) q)) = rev (map request_id q)" for sid q
    by (simp add: rev_map)
  have "ids (flushOutbound g) = ids g \<and> gw_requestSeq (flushOutbound g) = gw_requestSeq g"
    by (simp add: flushOutbound_def ids_def flush_fold_sends f r Let_def mset_map [symmetric] del: mset_map split: option.split)
  then show ?thesis using c by (simp add: conserved_def)
qed

lemma conserved_resubscribe: "conserved g \<Longrightarrow> conserved (resubscribe g)"
proof -
  assume "conserved g"
  then have "conserved (foldl (\<lambda>g symbol. getSnapshot symbol g) (subscribe (gw_subscribedSymbols g) g) (gw_subscribedSymbols g))"
    by (intro foldl_invariant [where P = conserved] conserved_subscribe) simp_all
  then show ?thesis using \<open>conserved g\<close> by (simp add: resubscribe_def Let_def)
qed

lemma conserved_opened: "conserved g \<Longrightarrow> conserved (socket_onopen g)"
  by (simp add: socket_onopen_def waitForAuthenticated_def conserved_resubscribe Let_def
      split: option.split resolver.split)

lemma conserved_connected: "conserved g \<Longrightarrow> conserved (handleConnected m g)"
proof -
  have pow: "conserved h \<Longrightarrow> conserved ((resubscribe ^^ n) h)" for n h
    by (induction n) (simp_all add: conserved_resubscribe)
  have keep: "conserved h \<Longrightarrow> conserved (h\<lparr>gw_identityValue := i, gw_heartbeatIntervalMs := n, gw_backoffAttempt := b, gw_authenticated := a\<rparr>)"
    for h i n b a by (simp add: conserved_def ids_def sends_def)
  assume "conserved g"
  then show ?thesis unfolding handleConnected_def Let_def by (simp add: pow conserved_flush keep)
qed

lemma conserved_callback: "conserved g \<Longrightarrow> conserved (run_callback cb g)"
  by (cases cb) (simp_all add: throttle_expires_def conserved_ping conserved_flush Let_def)

lemma conserved_message: "conserved g \<Longrightarrow> conserved (handleMessage raw g)"
  by (simp add: handleMessage_def conserved_connected split: sum.split ServerMessage.split)

lemma conserved_step: "conserved g \<Longrightarrow> conserved (gateway_do g e)"
  by (cases e) (simp_all add: timer_fires_def conserved_subscribe conserved_message conserved_opened conserved_callback
      split: option.split)


end
