(* ===== verification/Gateway_Faults.thy ===== *)
theory Gateway_Faults
  imports Gateway_Traffic
begin

text \<open>
  Runs of the gateway source (theory Gateway) that end where the code does not mean to: what the
  tick dispatcher still holds when the server moves the client to another stream, what a
  connection that closes before it is authenticated leaves waiting, and a request that overtakes
  those queued before it.
\<close>

section \<open>A change of stream\<close>

text \<open>Claim C19: a tick of the old stream that waits for its frame when the server changes the stream is
  painted after the change: right after the change the store shows nothing for its symbol, as it
  should, but the next frame puts the old stream's price back, while the source reports the new
  stream.\<close>

theorem old_tick_outlives_stream:
  assumes "jget (so_meta (pg_store (gw_page g))) (tk_s tick) = Some symbolMeta" and "gw_dispatcher g = new_dispatcher"
    and "gw_identityValue g = Some i" and "id_stream i \<noteq> en_stream m"
    and "after = handleEntitlementChanged m (handleTick tick g)"
  shows "getSymbolSnapshot (tk_s tick) (pg_store (gw_page after)) = None \<and>
    map_option id_stream (identity after) = Some (en_stream m) \<and>
    (\<exists>v. getSymbolSnapshot (tk_s tick) (pg_store (gw_page (frame_delivered after))) = Some v \<and>
      sv_price v = tk_p tick \<and> sv_stream v = tk_st tick)"
proof -
  have e: "gw_dispatcher (emit es g) = gw_dispatcher g" "gw_identityValue (emit es g) = gw_identityValue g"
    "pg_store (gw_page (emit es g)) = pg_store (gw_page g)" "pg_frames (gw_page (emit es g)) = pg_frames (gw_page g)"
    "gw_dispatcher (on_store f g) = gw_dispatcher g" "gw_identityValue (on_store f g) = gw_identityValue g"
    "pg_store (gw_page (on_store f g)) = f (pg_store (gw_page g))" "pg_frames (gw_page (on_store f g)) = pg_frames (gw_page g)"
    for es f g by (simp_all add: emit_def on_store_def)
  have p: "push tick new_dispatcher = (new_dispatcher\<lparr>dp_received := 1, dp_pending := [(tk_s tick, tick)], dp_frameRequested := True\<rparr>, True)"
    by (simp add: push_def new_dispatcher_def)
  have store: "pg_store (gw_page after) = resetStream (pg_store (gw_page g))" and frames: "pg_frames (gw_page after) \<noteq> 0"
    and d: "dp_pending (gw_dispatcher after) = [(tk_s tick, tick)]" and i: "map_option id_stream (identity after) = Some (en_stream m)"
    using assms(2,3,4) by (simp_all add: assms(5) handleEntitlementChanged_def handleTick_def Let_def e p identity_def)
  have cleared: "getSymbolSnapshot (tk_s tick) (resetStream s) = None" for s
    using reset_views_eq(1) [of "tk_s tick" s] by (simp add: resetStream_def Let_def getSymbolSnapshot_def)
  have meta: "jget (so_meta (resetStream (pg_store (gw_page g)))) (tk_s tick) \<noteq> None"
    using assms(1) by (simp add: resetStream_def Let_def reset_views_eq(2))
  have "pg_store (gw_page (frame_delivered after)) =
      applyTick tick (clock_now after) (resetStream (pg_store (gw_page g)))"
    using frames by (simp add: frame_delivered_def Let_def case_prod_unfold flushNow_eq d store jvalues_def)
  then show ?thesis using i cleared meta by (auto simp: store applyTick_def Let_def)
qed

definition switching_tick :: Tick where
  "switching_tick = \<lparr>tk_s = ''COMI'', tk_p = ''80.20'', tk_q = of_count 250, tk_k = TRADE, tk_t = ''2026-03-02T10:00:01.000Z'',
     tk_id = ''2'', tk_st = LIVE\<rparr>"

definition live_gateway :: TckrGatewaySource where
  "live_gateway = demo_gateway
     \<lparr>gw_identityValue := Some \<lparr>id_userId = ''user-001'', id_stream = LIVE, id_sessionId = ''1''\<rparr>,
      gw_page := (gw_page demo_gateway)\<lparr>pg_store := primeUniverse [(''COMI'', ''Commercial International Bank'', ''80.00'')] empty_store\<rparr>\<rparr>"

definition to_delayed :: EntitlementChanged where
  "to_delayed = \<lparr>en_stream = DELAYED, en_resubscribeRequired = False, en_effectiveFrom = ''2026-03-02T10:00:01.500Z''\<rparr>"

theorem old_tick_outlives_stream_witness:
  "\<exists>v. getSymbolSnapshot ''COMI'' (pg_store (gw_page (frame_delivered
     (handleEntitlementChanged to_delayed
       (handleTick switching_tick live_gateway))))) = Some v \<and> sv_price v = ''80.20'' \<and> sv_stream v = LIVE"
proof -
  have m: "jget (so_meta (pg_store (gw_page live_gateway))) (tk_s switching_tick) =
      Some \<lparr>sm_name = ''Commercial International Bank'', sm_referencePrice = ''80.00'', sm_baseline = ''80.00''\<rparr>" by code_simp
  show ?thesis
    using old_tick_outlives_stream [OF m _ _ _ refl, where i = "\<lparr>id_userId = ''user-001'', id_stream = LIVE, id_sessionId = ''1''\<rparr>"
        and m = "to_delayed"]
    by (simp add: live_gateway_def demo_gateway_def new_gateway_def switching_tick_def to_delayed_def)
qed

section \<open>Order of requests\<close>

text \<open>A request made when the throttle has run out but its timer has not run yet goes out at once, before
  those queued during the throttle: an unsubscribe overtakes the subscribe it follows.\<close>

lemma request_overtakes_queue:
  assumes "gw_pendingOutbound g = [queued]" and "may_send g = Some sid"
  shows "pg_out (gw_page (flushOutbound (send msg g))) =
    OutSend sid queued (client_text queued) # OutSend sid msg (client_text msg) # pg_out (gw_page g)"
proof -
  have "may_send (socket_send sid msg g) = Some sid"
  proof -
    have f: "gw_authenticated (socket_send sid msg g) = gw_authenticated g" "gw_throttledUntil (socket_send sid msg g) = gw_throttledUntil g"
      "gw_socket (socket_send sid msg g) = gw_socket g" "clock_now (socket_send sid msg g) = clock_now g"
      "readyState (socket_send sid msg g) x = readyState g x" for x
      by (simp_all add: socket_send_def emit_def clock_now_def readyState_def)
    show ?thesis using assms(2) by (auto simp: may_send_def f split: option.splits if_splits)
  qed
  then show ?thesis using assms by (simp add: send_def flushOutbound_def socket_send_def emit_def Let_def)
qed

section \<open>Waiters of a connection that closed\<close>

text \<open>Each retry whose socket opens and closes again before the server has authenticated it leaves one
  waiter behind; the connection that is authenticated at last resubscribes once for each.\<close>

lemma waiters_frames [simp]:
  "gw_authWaiters (emitStatus st g) = gw_authWaiters g" "gw_authWaiters (emit es g) = gw_authWaiters g"
  "gw_authWaiters (clearThrottleTimer g) = gw_authWaiters g" "gw_authWaiters (stopPing g) = gw_authWaiters g"
  "gw_authWaiters (stopHeartbeat g) = gw_authWaiters g" "gw_authWaiters (clearReconnectTimer g) = gw_authWaiters g"
  "gw_authWaiters (snd (draw_random g)) = gw_authWaiters g" "gw_authWaiters (snd (arm_timer cb ms ev g)) = gw_authWaiters g"
  by (simp_all add: emitStatus_def emit_def clearThrottleTimer_def stopPing_def stopHeartbeat_def clearReconnectTimer_def
      draw_random_def arm_timer_def on_timers_def Let_def case_prod_unfold split: option.split)

lemma waiters_pile_up:
  "gw_authWaiters (handleClose code reason g) = gw_authWaiters g"
  "gw_connectResolvers g = Some ReconnectNow \<Longrightarrow> \<not> gw_authenticated g \<Longrightarrow> gw_authWaiters (socket_onopen g) = gw_authWaiters g + 1"
proof -
  show "gw_authWaiters (handleClose code reason g) = gw_authWaiters g"
    by (simp add: handleClose_def scheduleReconnect_def Let_def case_prod_unfold)
qed (simp add: socket_onopen_def waitForAuthenticated_def)

end
