(* ===== verification/Js_Sort.thy ===== *)
theory Js_Sort
  imports Js_Number "HOL-Library.Multiset"
begin

text \<open>
  \<open>Array.prototype.sort\<close> with a comparator. JavaScript's sort is stable, and for a consistent
  comparator the stable order is the only possible result; insertion sort computes it. What a
  consistent comparator promises is the locale \<open>comparator\<close>, and the sort's laws are proved in it.
  A comparator's result counts by its sign only, and \<open>NaN\<close> counts as zero.
\<close>

fun insert_by :: "('a \<Rightarrow> 'a \<Rightarrow> int) \<Rightarrow> 'a \<Rightarrow> 'a list \<Rightarrow> 'a list" where
  "insert_by cmp x [] = [x]"
| "insert_by cmp x (y # ys) = (if cmp x y \<le> 0 then x # y # ys else y # insert_by cmp x ys)"

definition sort_by :: "('a \<Rightarrow> 'a \<Rightarrow> int) \<Rightarrow> 'a list \<Rightarrow> 'a list" where
  "sort_by cmp xs = foldr (insert_by cmp) xs []"

definition num_sign :: "number \<Rightarrow> int" where
  "num_sign x = (case x of Fin a \<Rightarrow> (if a < 0 then - 1 else if 0 < a then 1 else 0) | PInf \<Rightarrow> 1 | NInf \<Rightarrow> - 1 | NaN \<Rightarrow> 0)"

lemma mset_insert_by [simp]: "mset (insert_by cmp x ys) = add_mset x (mset ys)"
  by (induction ys) auto

lemma mset_sort_by [simp]: "mset (sort_by cmp xs) = mset xs"
  unfolding sort_by_def by (induction xs) auto

lemma set_insert_by [simp]: "set (insert_by cmp x ys) = insert x (set ys)"
  by (induction ys) auto

lemma set_sort_by [simp]: "set (sort_by cmp xs) = set xs"
  unfolding sort_by_def by (induction xs) auto

lemma length_insert_by [simp]: "length (insert_by cmp x ys) = Suc (length ys)"
  by (induction ys) auto

lemma length_sort_by [simp]: "length (sort_by cmp xs) = length xs"
  unfolding sort_by_def by (induction xs) auto

text \<open>A consistent comparator: a total preorder given by its sign.\<close>

locale comparator =
  fixes cmp :: "'a \<Rightarrow> 'a \<Rightarrow> int"
  assumes flip_sign: "cmp y x \<le> 0 \<longleftrightarrow> 0 \<le> cmp x y"
    and trans: "cmp x y \<le> 0 \<Longrightarrow> cmp y z \<le> 0 \<Longrightarrow> cmp x z \<le> 0"
begin

lemma sorted_insert_by:
  "sorted_wrt (\<lambda>a b. cmp a b \<le> 0) ys \<Longrightarrow> sorted_wrt (\<lambda>a b. cmp a b \<le> 0) (insert_by cmp x ys)"
proof (induction ys)
  case (Cons y ys)
  have "cmp y x \<le> 0" if "\<not> cmp x y \<le> 0" using flip_sign [of y x] that by linarith
  then show ?case using Cons trans [of x y] by auto
qed simp

lemma sorted_sort_by: "sorted_wrt (\<lambda>a b. cmp a b \<le> 0) (sort_by cmp xs)"
  unfolding sort_by_def by (induction xs) (simp_all add: sorted_insert_by)

text \<open>Elements that compare equal to \<open>k\<close> keep their order.\<close>

lemma stable_insert_by:
  "filter (\<lambda>a. cmp k a = 0) (insert_by cmp x ys) = (if cmp k x = 0 then [x] else []) @ filter (\<lambda>a. cmp k a = 0) ys"
proof (induction ys)
  case (Cons y ys)
  have "cmp x y \<le> 0" if "cmp k x = 0" "cmp k y = 0"
    using flip_sign [of x k] trans [of x k y] that by simp
  then show ?case using Cons by auto
qed simp

lemma stable_sort_by: "filter (\<lambda>a. cmp k a = 0) (sort_by cmp xs) = filter (\<lambda>a. cmp k a = 0) xs"
  unfolding sort_by_def by (induction xs) (simp_all add: stable_insert_by)

end

text \<open>A comparator read off a key.\<close>

lemma comparator_key:
  assumes "\<And>x y. sgn (cmp x y) = sgn (c (f x) (f y))" and "comparator c"
  shows "comparator cmp"
proof -
  have s: "cmp x y \<le> 0 \<longleftrightarrow> c (f x) (f y) \<le> 0" "0 \<le> cmp x y \<longleftrightarrow> 0 \<le> c (f x) (f y)" for x y
    using assms(1) [of x y] by (auto simp: sgn_if split: if_splits)
  show ?thesis unfolding comparator_def s
    using assms(2) unfolding comparator_def by blast
qed

lemma comparator_reverse: "comparator cmp \<Longrightarrow> comparator (\<lambda>x y. - cmp x y)"
proof -
  assume c: "comparator cmp"
  have f: "cmp y x \<le> 0 \<longleftrightarrow> 0 \<le> cmp x y" for x y by (rule comparator.flip_sign [OF c])
  show ?thesis
  proof
    show "- cmp y x \<le> 0 \<longleftrightarrow> 0 \<le> - cmp x y" for x y using f [of x y] by simp
    show "- cmp x y \<le> 0 \<Longrightarrow> - cmp y z \<le> 0 \<Longrightarrow> - cmp x z \<le> 0" for x y z
      using f [of y x] f [of z y] f [of z x] comparator.trans [OF c, of z y x] by simp
  qed
qed

interpretation int_order: comparator "\<lambda>x y :: int. x - y"
  by unfold_locales linarith+

text \<open>The sign of a difference of doubles is the sign of the comparison: an inexact difference of two
  different doubles never rounds to zero.\<close>

lemma fl_diff_neg:
  assumes "double_rep a" and "double_rep b" and "a < b"
  shows "fl (a - b) < 0"
proof -
  obtain m e n k where a: "a = of_int m * pow2 e" "- 1074 \<le> e" and b: "b = of_int n * pow2 k" "- 1074 \<le> k"
    using assms(1,2) by (auto simp: double_rep_def)
  define u where "u = pow2 (- 1074)"
  have u: "0 < u" by (simp add: u_def)
  have shift: "pow2 j = of_int (2 ^ nat (j + 1074)) * u" if "- 1074 \<le> j" for j
    using pow2_add_nat [of "- 1074" "nat (j + 1074)"] that by (simp add: u_def mult.commute)
  obtain i j where i: "a = of_int i * u" and j: "b = of_int j * u"
  proof
    show "a = of_int (m * 2 ^ nat (e + 1074)) * u" using a shift by (simp add: mult.assoc)
    show "b = of_int (n * 2 ^ nat (k + 1074)) * u" using b shift by (simp add: mult.assoc)
  qed
  have "i < j" using assms(3) u by (simp add: i j)
  then have "of_int (i - j) * u \<le> of_int (- 1) * u" using u by (intro mult_right_mono) auto
  then have "a - b \<le> - u" by (simp add: i j left_diff_distrib)
  moreover have "double_rep (- u)" unfolding double_rep_def u_def by (rule exI [of _ "- 1"], rule exI [of _ "- 1074"]) simp
  ultimately have "fl (a - b) \<le> - u" by (rule fl_le_rep)
  then show ?thesis using u by linarith
qed

lemma sign_sub:
  assumes "double_rep a" and "double_rep b"
  shows "num_sign (num_sub (Fin a) (Fin b)) = (if a < b then - 1 else if b < a then 1 else 0)"
proof -
  have neg: "fl (a - b) < 0" if "a < b" using fl_diff_neg [OF assms that] .
  have pos: "0 < fl (a - b)" if "b < a"
    using fl_diff_neg [OF assms(2,1) that] fl_minus [of "b - a"] by simp
  have big: "(0 :: rat) < 2 ^ 1024" by (rule zero_less_power) simp
  have e: "num_sub (Fin a) (Fin b) = to_number (a - b)" by (simp add: num_sub_def)
  consider "a < b" | "b < a" | "a = b" by linarith
  then show ?thesis
  proof cases
    case 1
    then have "num_sign (to_number (a - b)) = - 1"
      using neg big unfolding to_number_def Let_def num_sign_def by (auto split: if_splits)
    then show ?thesis using 1 by (simp add: e)
  next
    case 2
    have "\<not> fl (a - b) \<le> - (2 ^ 1024)" using pos [OF 2] big by linarith
    then have "num_sign (to_number (a - b)) = 1"
      using pos [OF 2] unfolding to_number_def Let_def num_sign_def by (auto split: if_splits)
    then show ?thesis using 2 by (simp add: e)
  next
    case 3
    have "num_sign (to_number 0) = 0" by code_simp
    then show ?thesis unfolding e using 3 by simp
  qed
qed

end
