(* ===== verification/Board_Search.thy ===== *)
theory Board_Search
  imports Js_Sort Js_Timers Messages
begin

text \<open>
  Searching the board: the closest instruments to a query that matched nothing
  (src/client/Tckr.MarketWatch/src/pages/closestInstruments.ts) and the search box with its
  debounce (useBoardSearch.ts). \<open>localeCompare\<close> is the browser's collation, an argument here.

  The lemmas: the one-row dynamic programme computes the least number of edits, suggestions are
  few, close and ranked, and the list is filtered by the last text typed and no other.
\<close>

section \<open>Edit distance\<close>

text \<open>The array \<open>row\<close> is a list updated in place; \<open>diagonal\<close> is the cell the update overwrote last.\<close>

definition ed_cell :: "char \<Rightarrow> string \<Rightarrow> nat list \<times> nat \<Rightarrow> nat \<Rightarrow> nat list \<times> nat" where
  "ed_cell c b st j =
     (let (row, diagonal) = st; above = row ! j
      in (row[j := min (min (row ! j + 1) (row ! (j - 1) + 1)) (diagonal + (if c = b ! (j - 1) then 0 else 1))], above))"

definition ed_row :: "string \<Rightarrow> string \<Rightarrow> nat list \<Rightarrow> nat \<Rightarrow> nat list" where
  "ed_row a b row i =
     (let diagonal = row ! 0; row1 = row[0 := i]
      in fst (foldl (ed_cell (a ! (i - 1)) b) (row1, diagonal) [1..<length b + 1]))"

definition editDistance :: "string \<Rightarrow> string \<Rightarrow> nat" where
  "editDistance a b = foldl (ed_row a b) [0..<length b + 1] [1..<length a + 1] ! length b"

section \<open>Suggestions\<close>

text \<open>\<open>split(/\s+/)\<close>.\<close>

function split_spaces :: "string \<Rightarrow> string list" where
  "split_spaces s =
     takeWhile (\<lambda>c. \<not> is_space c) s #
       (case dropWhile (\<lambda>c. \<not> is_space c) s of [] \<Rightarrow> [] | c # rest \<Rightarrow> split_spaces (dropWhile is_space rest))"
  by pat_completeness auto
termination
proof (relation "measure length")
  fix s c rest
  assume "dropWhile (\<lambda>c. \<not> is_space c) s = c # rest"
  then have "length (c # rest) \<le> length s" by (metis length_dropWhile_le)
  then show "(dropWhile is_space rest, s) \<in> measure length"
    using length_dropWhile_le [of is_space rest] by simp
qed simp

declare split_spaces.simps [simp del]

record candidate =
  ca_def :: SymbolDefinition
  ca_distance :: nat
  ca_rank :: nat

definition min_list_of :: "nat list \<Rightarrow> nat" where
  "min_list_of xs = foldr min (tl xs) (hd xs)"

definition name_distance :: "string \<Rightarrow> SymbolDefinition \<Rightarrow> nat" where
  "name_distance q def =
     (let nameWordStarts = map (take (length q)) (split_spaces (toLowerCase (sd_name def)))
      in min_list_of (map (editDistance q) nameWordStarts))"

definition candidate_of :: "string \<Rightarrow> SymbolDefinition \<Rightarrow> candidate" where
  "candidate_of q def =
     (let symbolDistance = editDistance q (toLowerCase (sd_symbol def)); nameDistance = name_distance q def
      in \<lparr>ca_def = def, ca_distance = min symbolDistance nameDistance,
          ca_rank = min (symbolDistance * 2) (nameDistance * 2 + 1)\<rparr>)"

definition ticker_shaped :: "string \<Rightarrow> bool" where
  "ticker_shaped q =
     (2 \<le> length q \<and> length q \<le> 6 \<and>
      list_all (\<lambda>c. (97 \<le> (of_char c :: nat) \<and> (of_char c :: nat) \<le> 122) \<or> is_digit c) q)"

definition by_rank :: "(string \<Rightarrow> string \<Rightarrow> int) \<Rightarrow> candidate \<Rightarrow> candidate \<Rightarrow> int" where
  "by_rank localeCompare a b =
     (let d = int (ca_rank a) - int (ca_rank b)
      in if d \<noteq> 0 then d else localeCompare (sd_symbol (ca_def a)) (sd_symbol (ca_def b)))"

definition closestInstruments ::
    "(string \<Rightarrow> string \<Rightarrow> int) \<Rightarrow> string \<Rightarrow> SymbolDefinition list \<Rightarrow> nat \<Rightarrow> SymbolDefinition list" where
  "closestInstruments localeCompare query universe limit =
     (let q = toLowerCase (trim query)
      in if length q < 2 then []
         else let allowed = max 1 (length q div 3);
                  candidates = filter (\<lambda>c. ca_distance c \<le> allowed) (map (candidate_of q) universe);
                  tickerShaped = ticker_shaped q;
                  tickerMatches = filter (\<lambda>c. editDistance q (toLowerCase (sd_symbol (ca_def c))) \<le> allowed) candidates
              in map ca_def (take limit (sort_by (by_rank localeCompare)
                   (if tickerShaped \<and> tickerMatches \<noteq> [] then tickerMatches else candidates))))"

section \<open>The edit distance is the least number of edits\<close>

text \<open>One edit inserts, deletes or replaces one character; \<open>edits n a b\<close>: \<open>n\<close> of them turn \<open>a\<close> into \<open>b\<close>.\<close>

inductive edit1 :: "'a list \<Rightarrow> 'a list \<Rightarrow> bool" where
  Ins: "edit1 (xs @ ys) (xs @ c # ys)"
| Del: "edit1 (xs @ c # ys) (xs @ ys)"
| Rep: "edit1 (xs @ c # ys) (xs @ d # ys)"

inductive edits :: "nat \<Rightarrow> 'a list \<Rightarrow> 'a list \<Rightarrow> bool" where
  Done: "edits 0 a a"
| Edit: "edit1 a b \<Longrightarrow> edits n b c \<Longrightarrow> edits (Suc n) a c"

fun lev :: "'a list \<Rightarrow> 'a list \<Rightarrow> nat" where
  "lev [] bs = length bs"
| "lev as [] = length as"
| "lev (a # as) (b # bs) = min (min (lev as (b # bs) + 1) (lev (a # as) bs + 1)) (lev as bs + (if a = b then 0 else 1))"

lemma lev_Nil2 [simp]: "lev as [] = length as"
  by (cases as) simp_all

lemma lev_ins: "lev (c # as) bs \<le> lev as bs + 1"
  by (cases bs) auto

lemma lev_ins2: "lev as (c # bs) \<le> lev as bs + 1"
  by (cases as) auto

lemma lev_del: "lev as bs \<le> lev (c # as) bs + 1"
proof (induction bs)
  case (Cons b bs)
  have "lev as (b # bs) \<le> lev as bs + 1" by (rule lev_ins2)
  then show ?case using Cons by auto
qed simp

lemma lev_rep: "lev (c # as) bs \<le> lev (d # as) bs + 1"
proof (induction bs)
  case (Cons b bs)
  then show ?case by auto
qed simp

lemma lev_context:
  assumes "\<And>bs. lev as bs \<le> lev as' bs + 1"
  shows "lev (xs @ as) bs \<le> lev (xs @ as') bs + 1"
proof (induction xs arbitrary: bs)
  case (Cons x xs)
  show ?case
  proof (induction bs)
    case Nil
    then show ?case using assms [of "[]"] by simp
  next
    case (Cons b bs)
    show ?case using Cons \<open>\<And>bs. lev (xs @ as) bs \<le> lev (xs @ as') bs + 1\<close> [of "b # bs"]
        \<open>\<And>bs. lev (xs @ as) bs \<le> lev (xs @ as') bs + 1\<close> [of bs] by auto
  qed
qed (use assms in simp)

lemma lev_edit1: "edit1 a b \<Longrightarrow> lev a c \<le> lev b c + 1"
proof (induction rule: edit1.induct)
  case (Ins xs ys d)
  show ?case by (rule lev_context) (rule lev_del)
next
  case (Del xs d ys)
  show ?case by (rule lev_context) (rule lev_ins)
next
  case (Rep xs c1 ys d)
  show ?case by (rule lev_context) (rule lev_rep)
qed

lemma lev_self [simp]: "lev a a = 0"
  by (induction a) auto

lemma lev_le_edits: "edits n a b \<Longrightarrow> lev a b \<le> n"
proof (induction rule: edits.induct)
  case (Edit a b n c)
  then show ?case using lev_edit1 [of a b c] by simp
qed simp

lemma edit1_Cons: "edit1 a b \<Longrightarrow> edit1 (x # a) (x # b)"
  by (induction rule: edit1.induct) (metis Ins Del Rep append_Cons)+

lemma edits_Cons: "edits n a b \<Longrightarrow> edits n (x # a) (x # b)"
  by (induction rule: edits.induct) (auto intro: edits.intros edit1_Cons)

lemma edits_lev: "edits (lev a b) a b"
proof (induction a b rule: lev.induct)
  case (1 bs)
  show ?case
  proof (induction bs)
    case Nil
    then show ?case by (simp add: edits.Done)
  next
    case (Cons b bs)
    then have "edits (length bs) [b] (b # bs)" using edits_Cons [of _ "[]" bs b] by simp
    then show ?case using edits.Edit [OF Ins [of "[]" "[]" b]] by simp
  qed
next
  case (2 a as)
  have "edits (length xs) xs []" for xs :: "'a list"
  proof (induction xs)
    case Nil
    then show ?case by (simp add: edits.Done)
  next
    case (Cons x xs)
    then show ?case using edits.Edit [OF Del [of "[]" x xs]] by simp
  qed
  from this [of "a # as"] show ?case by simp
next
  case (3 a as b bs)
  have d: "edits (Suc (lev as (b # bs))) (a # as) (b # bs)" using edits.Edit [OF Del [of "[]" a as]] 3(1) by simp
  have i: "edits (Suc (lev (a # as) bs)) (a # as) (b # bs)"
    using edits.Edit [OF Ins [of "[]" "a # as" b]] edits_Cons [OF 3(2), of b] by simp
  have r: "edits (lev as bs + (if a = b then 0 else 1)) (a # as) (b # bs)"
  proof (cases "a = b")
    case True
    then show ?thesis using edits_Cons [OF 3(3), of b] by simp
  next
    case False
    then show ?thesis using edits.Edit [OF Rep [of "[]" a as b]] edits_Cons [OF 3(3), of b] by simp
  qed
  show ?case using d i r by (simp add: min_def)
qed

lemma edit1_rev: "edit1 a b \<Longrightarrow> edit1 (rev a) (rev b)"
  by (induction rule: edit1.induct) (metis (no_types, lifting) Ins Del Rep append.assoc append_Cons append_Nil rev.simps(2) rev_append)+

lemma edits_rev: "edits n a b \<Longrightarrow> edits n (rev a) (rev b)"
  by (induction rule: edits.induct) (auto intro: edits.intros edit1_rev)

text \<open>The rows of the programme are the distances between prefixes.\<close>

definition prefix_lev :: "string \<Rightarrow> string \<Rightarrow> nat \<Rightarrow> nat \<Rightarrow> nat" where
  "prefix_lev a b i j = lev (rev (take i a)) (rev (take j b))"

lemma prefix_lev_edge: "i \<le> length a \<Longrightarrow> prefix_lev a b i 0 = i" "j \<le> length b \<Longrightarrow> prefix_lev a b 0 j = j"
  by (simp_all add: prefix_lev_def)

lemma prefix_lev_step:
  assumes "i < length a" and "j < length b"
  shows "prefix_lev a b (Suc i) (Suc j) =
    min (min (prefix_lev a b i (Suc j) + 1) (prefix_lev a b (Suc i) j + 1)) (prefix_lev a b i j + (if a ! i = b ! j then 0 else 1))"
  using assms by (simp add: prefix_lev_def take_Suc_conv_app_nth)

lemma ed_cells:
  assumes "i < length a" and "j \<le> length b" and "length row = length b + 1"
    and "\<And>k. k \<le> length b \<Longrightarrow> row ! k = prefix_lev a b i k"
  shows "length (fst (foldl (ed_cell (a ! i) b) (row[0 := Suc i], row ! 0) [1..<j + 1])) = length b + 1 \<and>
    (\<forall>k \<le> length b. fst (foldl (ed_cell (a ! i) b) (row[0 := Suc i], row ! 0) [1..<j + 1]) ! k =
       prefix_lev a b (if k \<le> j then Suc i else i) k) \<and>
    snd (foldl (ed_cell (a ! i) b) (row[0 := Suc i], row ! 0) [1..<j + 1]) = prefix_lev a b i j"
  using assms(2)
proof (induction j)
  case 0
  then show ?case using assms prefix_lev_edge(1) [of "Suc i" a b] by (simp add: nth_list_update)
next
  case (Suc j)
  define st where "st = foldl (ed_cell (a ! i) b) (row[0 := Suc i], row ! 0) [1..<j + 1]"
  have IH: "length (fst st) = length b + 1" "\<And>k. k \<le> length b \<Longrightarrow> fst st ! k = prefix_lev a b (if k \<le> j then Suc i else i) k"
    "snd st = prefix_lev a b i j" using Suc by (simp_all add: st_def)
  have "foldl (ed_cell (a ! i) b) (row[0 := Suc i], row ! 0) [1..<Suc j + 1] = ed_cell (a ! i) b st (Suc j)"
    by (simp add: st_def)
  moreover have "fst (ed_cell (a ! i) b st (Suc j)) = (fst st)[Suc j := prefix_lev a b (Suc i) (Suc j)]"
    using prefix_lev_step [of i a j b] assms(1) Suc.prems IH(2) [of "Suc j"] IH(2) [of j] IH(3)
    by (simp add: ed_cell_def case_prod_unfold Let_def)
  moreover have "snd (ed_cell (a ! i) b st (Suc j)) = prefix_lev a b i (Suc j)"
    using Suc.prems IH(2) [of "Suc j"] by (simp add: ed_cell_def case_prod_unfold Let_def)
  ultimately show ?case using IH Suc.prems by (auto simp: nth_list_update)
qed

lemma ed_rows:
  "i \<le> length a \<Longrightarrow>
   length (foldl (ed_row a b) [0..<length b + 1] [1..<i + 1]) = length b + 1 \<and>
   (\<forall>k \<le> length b. foldl (ed_row a b) [0..<length b + 1] [1..<i + 1] ! k = prefix_lev a b i k)"
proof (induction i)
  case 0
  then show ?case by (simp add: prefix_lev_edge del: upt_Suc)
next
  case (Suc i)
  define row where "row = foldl (ed_row a b) [0..<length b + 1] [1..<i + 1]"
  have r: "length row = length b + 1" "\<And>k. k \<le> length b \<Longrightarrow> row ! k = prefix_lev a b i k"
    using Suc by (simp_all add: row_def)
  have step: "foldl (ed_row a b) [0..<length b + 1] [1..<Suc i + 1] = ed_row a b row (Suc i)"
    by (simp add: row_def)
  have cells: "ed_row a b row (Suc i) = fst (foldl (ed_cell (a ! i) b) (row[0 := Suc i], row ! 0) [1..<length b + 1])"
    by (simp add: ed_row_def Let_def del: upt_Suc)
  have "i < length a" using Suc.prems by simp
  from ed_cells [OF this order_refl r] show ?case unfolding step cells by (simp del: upt_Suc)
qed

lemma editDistance_lev: "editDistance a b = lev (rev a) (rev b)"
  using ed_rows [of "length a" a b] by (simp add: editDistance_def prefix_lev_def)

text \<open>Claim C34: the edit distance is what its name says: the least number of single-character insertions,
  deletions and replacements that turn one text into the other, and that many do.\<close>

theorem edit_distance_least:
  "edits (editDistance a b) a b \<and> editDistance a b = (LEAST n. edits n a b)"
proof -
  have e: "edits (editDistance a b) a b"
    using edits_rev [OF edits_lev, of "rev a" "rev b"] by (simp add: editDistance_lev)
  have "editDistance a b \<le> n" if "edits n a b" for n
    using lev_le_edits [OF edits_rev [OF that]] by (simp add: editDistance_lev)
  then have "(LEAST n. edits n a b) = editDistance a b" using e by (intro Least_equality)
  then show ?thesis using e by simp
qed

section \<open>What is suggested\<close>

lemma comparator_rank:
  assumes "comparator localeCompare"
  shows "comparator (by_rank localeCompare)"
proof
  show "by_rank localeCompare b a \<le> 0 \<longleftrightarrow> 0 \<le> by_rank localeCompare a b" for a b
    using comparator.flip_sign [OF assms] by (auto simp: by_rank_def Let_def)
  show "by_rank localeCompare a b \<le> 0 \<Longrightarrow> by_rank localeCompare b c \<le> 0 \<Longrightarrow> by_rank localeCompare a c \<le> 0" for a b c
    using comparator.trans [OF assms, of "sd_symbol (ca_def a)" "sd_symbol (ca_def b)" "sd_symbol (ca_def c)"]
    by (auto simp: by_rank_def Let_def split: if_splits)
qed

lemma sorted_take_rest:
  assumes "sorted_wrt P xs" and "x \<in> set (take n xs)" and "y \<in> set (drop n xs)"
  shows "P x y"
  using assms by (metis append_take_drop_id sorted_wrt_append)

definition eligible :: "string \<Rightarrow> SymbolDefinition \<Rightarrow> bool" where
  "eligible q def = (ca_distance (candidate_of q def) \<le> max 1 (length q div 3))"

definition ticker_close :: "string \<Rightarrow> SymbolDefinition \<Rightarrow> bool" where
  "ticker_close q def = (editDistance q (toLowerCase (sd_symbol def)) \<le> max 1 (length q div 3))"

text \<open>The suggestions for a query that matched nothing are instruments of the universe, at most
  as many as asked for, each within the allowed distance by its ticker or the start of a word of
  its name, in order of rank (the collation between equals), and none that is left out ranks
  before one that is shown; a query shaped like a ticker with a close ticker gets tickers only,
  and a query of one character none.\<close>

theorem suggestions_close:
  assumes "comparator localeCompare" and "q = toLowerCase (trim query)"
    and "shown = closestInstruments localeCompare query universe limit"
    and "wanted = (\<lambda>d. eligible q d \<and> (ticker_shaped q \<and> list_ex (\<lambda>e. eligible q e \<and> ticker_close q e) universe \<longrightarrow> ticker_close q d))"
  shows "length shown \<le> limit \<and> (length q < 2 \<longrightarrow> shown = []) \<and>
    (\<forall>d \<in> set shown. d \<in> set universe \<and> wanted d) \<and>
    sorted_wrt (\<lambda>d e. by_rank localeCompare (candidate_of q d) (candidate_of q e) \<le> 0) shown \<and>
    (2 \<le> length q \<longrightarrow> (\<forall>d \<in> set shown. \<forall>e \<in> set universe - set shown. wanted e \<longrightarrow>
       by_rank localeCompare (candidate_of q d) (candidate_of q e) \<le> 0))"
proof (cases "length q < 2")
  case True
  then show ?thesis using assms(2,3) by (simp add: closestInstruments_def)
next
  case False
  define pool where "pool = map (candidate_of q) (filter wanted universe)"
  define ranked where "ranked = sort_by (by_rank localeCompare) pool"
  have d: "ca_def (candidate_of q x) = x" for x by (simp add: candidate_of_def Let_def)
  have "pool = (let candidates = filter (\<lambda>c. ca_distance c \<le> max 1 (length q div 3)) (map (candidate_of q) universe);
        tickerMatches = filter (\<lambda>c. editDistance q (toLowerCase (sd_symbol (ca_def c))) \<le> max 1 (length q div 3)) candidates
      in if ticker_shaped q \<and> tickerMatches \<noteq> [] then tickerMatches else candidates)"
    by (auto simp: pool_def assms(4) filter_map comp_def d eligible_def ticker_close_def Let_def filter_empty_conv list_ex_iff
        intro!: arg_cong [where f = "map _"] filter_cong)
  then have shown: "shown = map ca_def (take limit ranked)"
    using False assms(2,3) by (simp add: closestInstruments_def ranked_def Let_def)
  have sorted: "sorted_wrt (\<lambda>a b. by_rank localeCompare a b \<le> 0) ranked"
    unfolding ranked_def by (rule comparator.sorted_sort_by [OF comparator_rank [OF assms(1)]])
  have mem: "c \<in> set ranked \<Longrightarrow> c = candidate_of q (ca_def c) \<and> ca_def c \<in> set universe \<and> wanted (ca_def c)" for c
    by (auto simp: ranked_def pool_def d)
  have key: "by_rank localeCompare (candidate_of q (ca_def a)) (candidate_of q (ca_def b)) = by_rank localeCompare a b"
    if "a \<in> set ranked" "b \<in> set ranked" for a b
    using mem [OF that(1)] mem [OF that(2)] by metis
  have rest: "by_rank localeCompare (candidate_of q x) (candidate_of q e) \<le> 0"
    if x: "x \<in> set shown" and e: "e \<in> set universe - set shown" "wanted e" for x e
  proof -
    obtain a where a: "a \<in> set (take limit ranked)" "x = ca_def a" using x by (auto simp: shown)
    have "candidate_of q e \<in> set ranked" using e by (auto simp: ranked_def pool_def)
    moreover have "candidate_of q e \<notin> set (take limit ranked)"
      using e(1) d [of e] by (auto simp: shown image_iff)
    ultimately have "candidate_of q e \<in> set (drop limit ranked)"
      by (metis append_take_drop_id Un_iff set_append)
    then show ?thesis
      using sorted_take_rest [OF sorted a(1)] mem [OF in_set_takeD [OF a(1)]] a(2) by metis
  qed
  have order: "sorted_wrt (\<lambda>d e. by_rank localeCompare (candidate_of q d) (candidate_of q e) \<le> 0) shown"
    unfolding shown sorted_wrt_map
  proof (rule sorted_wrt_mono_rel [OF _ sorted_wrt_take [OF sorted]])
    fix a b
    assume "a \<in> set (take limit ranked)" "b \<in> set (take limit ranked)" "by_rank localeCompare a b \<le> 0"
    then show "by_rank localeCompare (candidate_of q (ca_def a)) (candidate_of q (ca_def b)) \<le> 0"
      using key [OF in_set_takeD in_set_takeD] by simp
  qed
  have few: "length shown \<le> limit" by (simp add: shown)
  have kept: "\<forall>d \<in> set shown. d \<in> set universe \<and> wanted d"
  proof
    fix e
    assume "e \<in> set shown"
    then obtain a where a: "a \<in> set (take limit ranked)" "e = ca_def a" by (auto simp: shown)
    show "e \<in> set universe \<and> wanted e" unfolding a(2) using mem [OF in_set_takeD [OF a(1)]] by blast
  qed
  have "\<forall>d \<in> set shown. \<forall>e \<in> set universe - set shown. wanted e \<longrightarrow>
      by_rank localeCompare (candidate_of q d) (candidate_of q e) \<le> 0" using rest by simp
  then show ?thesis using few kept order False by simp
qed

definition shop :: "string \<Rightarrow> string \<Rightarrow> SymbolDefinition" where
  "shop x n = \<lparr>sd_symbol = x, sd_name = n, sd_currency = ''EGP'', sd_tickSize = ''0.01'', sd_lotSize = of_count 1,
     sd_referencePrice = ''1''\<rparr>"

lemma by_length: "comparator (\<lambda>x y :: string. int (length x) - int (length y))"
  by unfold_locales linarith+

theorem suggestions_close_witness:
  "closestInstruments (\<lambda>x y. int (length x) - int (length y)) '' comy '' [shop ''ARCC'' ''Arabian Cement Company'', shop ''COMI'' ''Commercial''] 3 =
     [shop ''COMI'' ''Commercial'']"
proof -
  have e: "map sd_symbol (closestInstruments (\<lambda>x y. int (length x) - int (length y)) '' comy ''
      [shop ''ARCC'' ''Arabian Cement Company'', shop ''COMI'' ''Commercial''] 3) = [''COMI'']" by code_simp
  have "set (closestInstruments (\<lambda>x y. int (length x) - int (length y)) '' comy ''
      [shop ''ARCC'' ''Arabian Cement Company'', shop ''COMI'' ''Commercial''] 3) \<subseteq>
      set [shop ''ARCC'' ''Arabian Cement Company'', shop ''COMI'' ''Commercial'']"
    using suggestions_close [OF by_length refl refl refl] by blast
  then show ?thesis using e by (auto simp: map_eq_Cons_conv shop_def)
qed

section \<open>The search box\<close>

fun string_includes :: "string \<Rightarrow> string \<Rightarrow> bool" where
  "string_includes [] needle = (needle = [])"
| "string_includes (c # hay) needle = (starts_with needle (c # hay) \<or> string_includes hay needle)"

datatype search_callback = CbDebounce string

record board_search =
  bs_rawQuery :: string
  bs_debouncedQuery :: string
  bs_handle :: "nat option"
  bs_timers :: "search_callback timers"

text \<open>The effect that runs when the raw query changes: the cleanup of the last one, then a new timer.\<close>

definition debounce :: "board_search \<Rightarrow> board_search" where
  "debounce s =
     (let (h, tm) = setTimeout (clear_handle (bs_timers s) (bs_handle s)) (CbDebounce (bs_rawQuery s)) 150
      in s\<lparr>bs_handle := Some h, bs_timers := tm\<rparr>)"

definition mount_search :: "rat \<Rightarrow> board_search" where
  "mount_search now = debounce \<lparr>bs_rawQuery = '''', bs_debouncedQuery = '''', bs_handle = None, bs_timers = start_timers now\<rparr>"

definition setRawQuery :: "string \<Rightarrow> board_search \<Rightarrow> board_search" where
  "setRawQuery q s = (if q = bs_rawQuery s then s else debounce (s\<lparr>bs_rawQuery := q\<rparr>))"

definition clearSearch :: "board_search \<Rightarrow> board_search" where
  "clearSearch s = setRawQuery '''' s"

definition search_filtered :: "SymbolDefinition list option \<Rightarrow> board_search \<Rightarrow> SymbolDefinition list" where
  "search_filtered universe s =
     (case universe of
        None \<Rightarrow> []
      | Some symbols \<Rightarrow>
          let query = toLowerCase (trim (bs_debouncedQuery s))
          in if query = '''' then symbols
             else filter (\<lambda>def. string_includes (toLowerCase (sd_symbol def)) query \<or> string_includes (toLowerCase (sd_name def)) query) symbols)"

definition search_suggestions ::
    "(string \<Rightarrow> string \<Rightarrow> int) \<Rightarrow> SymbolDefinition list option \<Rightarrow> board_search \<Rightarrow> SymbolDefinition list" where
  "search_suggestions localeCompare universe s =
     (case universe of
        None \<Rightarrow> []
      | Some symbols \<Rightarrow>
          if search_filtered universe s = [] then closestInstruments localeCompare (bs_debouncedQuery s) symbols 3 else [])"

datatype search_event = Typed string | Cleared | SearchTime rat | SearchTimer nat

fun search_do :: "board_search \<Rightarrow> search_event \<Rightarrow> board_search" where
  "search_do s (Typed q) = setRawQuery q s"
| "search_do s Cleared = clearSearch s"
| "search_do s (SearchTime d) = s\<lparr>bs_timers := advance (bs_timers s) d\<rparr>"
| "search_do s (SearchTimer h) =
     (case due_timer (bs_timers s) h of
        None \<Rightarrow> s
      | Some (CbDebounce q, tm) \<Rightarrow> s\<lparr>bs_timers := tm, bs_debouncedQuery := q\<rparr>)"

definition search_ok :: "board_search \<Rightarrow> bool" where
  "search_ok s = (timers_ok (bs_timers s) \<and>
     (\<forall>h t. jget (tm_armed (bs_timers s)) h = Some t \<longrightarrow>
        bs_handle s = Some h \<and> ti_callback t = CbDebounce (bs_rawQuery s) \<and> ti_every t = None))"

lemma search_ok_debounce:
  assumes "\<forall>h t. jget (tm_armed (bs_timers s)) h = Some t \<longrightarrow> bs_handle s = Some h" and "timers_ok (bs_timers s)"
  shows "search_ok (debounce s)"
proof -
  have "jget (tm_armed (clear_handle (bs_timers s) (bs_handle s))) h = None" for h
    using assms(1) by (cases "bs_handle s"; cases "jget (tm_armed (bs_timers s)) h") (auto simp: clear_handle_def)
  then show ?thesis
    using assms(2) by (auto simp: search_ok_def debounce_def setTimeout_def set_timer_def timers_ok_def clear_handle_def
        split: if_splits option.splits)
qed

lemma search_ok_type: "search_ok s \<Longrightarrow> search_ok (setRawQuery q s)"
proof -
  assume "search_ok s"
  then have "search_ok (debounce (s\<lparr>bs_rawQuery := q\<rparr>))" by (intro search_ok_debounce) (simp_all add: search_ok_def)
  then show ?thesis using \<open>search_ok s\<close> by (simp add: setRawQuery_def)
qed

lemma search_ok_step: "search_ok s \<Longrightarrow> search_ok (search_do s e)"
proof (cases e)
  case (SearchTimer h)
  assume ok: "search_ok s"
  show ?thesis
  proof (cases "jget (tm_armed (bs_timers s)) h")
    case None
    then show ?thesis using ok by (simp add: SearchTimer due_timer_def)
  next
    case (Some t)
    have "jget (tm_armed (bs_timers s)) k = None" if "k \<noteq> h" for k
    proof (rule ccontr)
      assume "jget (tm_armed (bs_timers s)) k \<noteq> None"
      then obtain t' where "jget (tm_armed (bs_timers s)) k = Some t'" by auto
      then have "bs_handle s = Some k" "bs_handle s = Some h" using ok Some unfolding search_ok_def by blast+
      then show False using that by simp
    qed
    then show ?thesis using ok Some
      by (auto simp: SearchTimer search_ok_def due_timer_def timers_ok_def split: search_callback.split)
  qed
next
  case (SearchTime d)
  assume "search_ok s"
  then show ?thesis by (simp add: SearchTime search_ok_def advance_def timers_ok_def)
qed (simp_all add: clearSearch_def search_ok_type)

lemma search_ok_mount: "search_ok (mount_search now)"
  unfolding mount_search_def by (rule search_ok_debounce) (simp_all add: start_timers_def timers_ok_def)

text \<open>The list is filtered by the text that stands in the box: a timer that fires applies the last text
  typed, and no earlier text is applied after a later one was typed.\<close>

lemma debounce_applies_last:
  assumes "due_timer (bs_timers (foldl search_do (mount_search now) es)) h \<noteq> None"
  shows "bs_debouncedQuery (foldl search_do (mount_search now) (es @ [SearchTimer h])) =
    bs_rawQuery (foldl search_do (mount_search now) es)"
proof -
  define s where "s = foldl search_do (mount_search now) es"
  have "search_ok s" unfolding s_def
    by (rule foldl_invariant [where P = search_ok, OF search_ok_mount]) (rule search_ok_step)
  then show ?thesis using assms unfolding s_def [symmetric]
    by (auto simp: s_def [symmetric] search_ok_def due_timer_def split: option.splits if_splits search_callback.split)
qed

end
