(* ===== verification/Ring_Buffer.thy ===== *)
theory Ring_Buffer
  imports Json Decimal
begin

text \<open>
  The chart's point buffer (src/client/Tckr.MarketWatch/src/chart/ringBuffer.ts) and how it is
  seeded at mount (chartSeed.ts). The two \<open>Float64Array\<close>s are lists of the buffer's capacity that
  are only ever updated in place; what the chart draws is their first \<open>count\<close> entries.

  The lemmas: the buffer holds the newest points in the order they came, exactly as many as fit
  (a refinement of a bounded log), and what seeding leaves to draw.
\<close>

section \<open>The buffer\<close>

record RingBuffer =
  rb_times :: "number list"
  rb_values :: "number list"
  rb_capacity :: nat
  rb_count :: nat

definition new_ring :: "number \<Rightarrow> RingBuffer exn" where
  "new_ring capacity =
     (case capacity of
        Fin c \<Rightarrow>
          if c \<noteq> of_int \<lfloor>c\<rfloor> \<or> c \<le> 0
          then Inl (RangeError (''RingBuffer capacity must be a positive integer, got '' @ number_text capacity))
          else Inr \<lparr>rb_times = replicate (nat \<lfloor>c\<rfloor>) (Fin 0), rb_values = replicate (nat \<lfloor>c\<rfloor>) (Fin 0),
                 rb_capacity = nat \<lfloor>c\<rfloor>, rb_count = 0\<rparr>
      | _ \<Rightarrow> Inl (RangeError (''RingBuffer capacity must be a positive integer, got '' @ number_text capacity)))"

text \<open>\<open>copyWithin(0, 1)\<close>: every entry moves one slot down, the last one stays where it is too.\<close>

definition copyWithin_0_1 :: "number list \<Rightarrow> number list" where
  "copyWithin_0_1 xs = tl xs @ [last xs]"

definition ring_push :: "number \<Rightarrow> number \<Rightarrow> RingBuffer \<Rightarrow> RingBuffer" where
  "ring_push timeMs price b =
     (if rb_count b < rb_capacity b then
        b\<lparr>rb_times := (rb_times b)[rb_count b := timeMs], rb_values := (rb_values b)[rb_count b := price],
          rb_count := rb_count b + 1\<rparr>
      else
        b\<lparr>rb_times := (copyWithin_0_1 (rb_times b))[rb_capacity b - 1 := timeMs],
          rb_values := (copyWithin_0_1 (rb_values b))[rb_capacity b - 1 := price]\<rparr>)"

definition ring_clear :: "RingBuffer \<Rightarrow> RingBuffer" where
  "ring_clear b = b\<lparr>rb_count := 0\<rparr>"

definition ring_length :: "RingBuffer \<Rightarrow> nat" where
  "ring_length b = rb_count b"

text \<open>\<open>Number(price)\<close> of a price text.\<close>

definition toPlotValue :: "decimal \<Rightarrow> number" where
  "toPlotValue price = to_number (of_int (toScaledInt price) / 10 ^ SCALE_DIGITS)"

section \<open>Seeding\<close>

definition seedFlatPoint :: "number \<Rightarrow> number \<Rightarrow> RingBuffer \<Rightarrow> RingBuffer" where
  "seedFlatPoint timeMs price b = ring_push timeMs price (ring_push (num_sub timeMs (Fin 1000)) price b)"

text \<open>A history point: its instant and its price text.\<close>

type_synonym ChartHistoryPoint = "number \<times> decimal"

definition seedBuffer :: "ChartHistoryPoint list option \<Rightarrow> ChartHistoryPoint option \<Rightarrow> RingBuffer \<Rightarrow> RingBuffer" where
  "seedBuffer history seed b =
     (let b1 = foldl (\<lambda>b point. ring_push (fst point) (toPlotValue (snd point)) b) b
            (case history of Some points \<Rightarrow> points | None \<Rightarrow> [])
      in case seed of
           Some s \<Rightarrow>
             if ring_length b1 = 0 then seedFlatPoint (fst s) (toPlotValue (snd s)) b1
             else if num_less (rb_times b1 ! (ring_length b1 - 1)) (fst s)
             then ring_push (fst s) (toPlotValue (snd s)) b1
             else b1
         | None \<Rightarrow>
             if ring_length b1 = 1 then
               let onlyT = rb_times b1 ! 0; onlyV = rb_values b1 ! 0
               in seedFlatPoint onlyT onlyV (ring_clear b1)
             else b1)"

section \<open>The bounded log it implements\<close>

datatype ring_op = Push number number | Clear

fun ring_do :: "RingBuffer \<Rightarrow> ring_op \<Rightarrow> RingBuffer" where
  "ring_do b (Push t v) = ring_push t v b"
| "ring_do b Clear = ring_clear b"

definition points_of :: "RingBuffer \<Rightarrow> (number \<times> number) list" where
  "points_of b = zip (take (rb_count b) (rb_times b)) (take (rb_count b) (rb_values b))"

definition ring_ok :: "RingBuffer \<Rightarrow> bool" where
  "ring_ok b = (length (rb_times b) = rb_capacity b \<and> length (rb_values b) = rb_capacity b \<and>
     rb_count b \<le> rb_capacity b \<and> 0 < rb_capacity b)"

definition keep_last :: "nat \<Rightarrow> 'a list \<Rightarrow> 'a list" where
  "keep_last n xs = drop (length xs - n) xs"

fun log_do :: "nat \<Rightarrow> (number \<times> number) list \<Rightarrow> ring_op \<Rightarrow> (number \<times> number) list" where
  "log_do n ps (Push t v) = keep_last n (ps @ [(t, v)])"
| "log_do n ps Clear = []"

lemma length_keep_last [simp]: "length (keep_last n xs) = min n (length xs)"
  by (simp add: keep_last_def)

lemma keep_last_all: "length xs \<le> n \<Longrightarrow> keep_last n xs = xs"
  by (simp add: keep_last_def)

lemma keep_last_twice: "keep_last n (keep_last n xs @ ys) = keep_last n (xs @ ys)"
  by (cases "length xs \<le> n") (simp_all add: keep_last_def add.commute)

lemma take_set_next: "n < length xs \<Longrightarrow> take (Suc n) (xs[n := x]) = take n xs @ [x]"
  by (simp add: take_Suc_conv_app_nth)

lemma shifted: "xs \<noteq> [] \<Longrightarrow> (copyWithin_0_1 xs)[length xs - 1 := x] = tl xs @ [x]"
  by (cases xs) (simp_all add: copyWithin_0_1_def list_update_append)

lemma ring_push_ok: "ring_ok b \<Longrightarrow> ring_ok (ring_push t v b) \<and> rb_capacity (ring_push t v b) = rb_capacity b"
  by (auto simp: ring_ok_def ring_push_def copyWithin_0_1_def)

lemma length_points: "ring_ok b \<Longrightarrow> length (points_of b) = rb_count b"
  by (simp add: points_of_def ring_ok_def)

lemma points_push:
  assumes "ring_ok b"
  shows "points_of (ring_push t v b) = keep_last (rb_capacity b) (points_of b @ [(t, v)])"
proof (cases "rb_count b < rb_capacity b")
  case True
  then have "points_of (ring_push t v b) = points_of b @ [(t, v)]"
    using assms by (simp add: points_of_def ring_push_def ring_ok_def take_set_next)
  then show ?thesis using assms True by (simp add: keep_last_all length_points)
next
  case False
  then have c: "rb_count b = rb_capacity b" "length (rb_times b) = rb_capacity b" "length (rb_values b) = rb_capacity b"
    "rb_times b \<noteq> []" "rb_values b \<noteq> []"
    using assms by (auto simp: ring_ok_def)
  have "points_of (ring_push t v b) = zip (tl (rb_times b) @ [t]) (tl (rb_values b) @ [v])"
    using c shifted [of "rb_times b" t] shifted [of "rb_values b" v] assms
    by (simp add: points_of_def ring_push_def ring_ok_def)
  also have "\<dots> = tl (zip (rb_times b) (rb_values b)) @ [(t, v)]"
    using c by (cases "rb_times b"; cases "rb_values b") simp_all
  finally have "points_of (ring_push t v b) = tl (points_of b) @ [(t, v)]" using c by (simp add: points_of_def)
  moreover have "length (points_of b) = rb_capacity b" "0 < rb_capacity b"
    using length_points [OF assms] c assms by (simp_all add: ring_ok_def)
  ultimately show ?thesis by (simp add: keep_last_def drop_Suc)
qed

lemma ring_step:
  "ring_ok b \<Longrightarrow> ring_ok (ring_do b e) \<and> rb_capacity (ring_do b e) = rb_capacity b \<and>
     points_of (ring_do b e) = log_do (rb_capacity b) (points_of b) e"
  by (cases e) (simp_all add: ring_push_ok points_push, simp_all add: ring_clear_def ring_ok_def points_of_def)

lemma ring_run:
  "ring_ok b \<Longrightarrow> ring_ok (foldl ring_do b es) \<and> rb_capacity (foldl ring_do b es) = rb_capacity b \<and>
     points_of (foldl ring_do b es) = foldl (log_do (rb_capacity b)) (points_of b) es"
proof (induction es arbitrary: b)
  case (Cons e es)
  then show ?case using ring_step [of b e] by simp
qed simp

lemma new_ring_ok:
  "new_ring c = Inr b \<Longrightarrow> ring_ok b \<and> c = of_count (int (rb_capacity b)) \<and> points_of b = []"
proof (cases c)
  case (Fin x)
  assume "new_ring c = Inr b"
  then have i: "x = of_int \<lfloor>x\<rfloor>" "0 < x"
    and b: "b = \<lparr>rb_times = replicate (nat \<lfloor>x\<rfloor>) (Fin 0), rb_values = replicate (nat \<lfloor>x\<rfloor>) (Fin 0),
      rb_capacity = nat \<lfloor>x\<rfloor>, rb_count = 0\<rparr>"
    by (auto simp: new_ring_def Fin split: if_splits)
  have "0 < \<lfloor>x\<rfloor>" using i by linarith
  then show ?thesis using i(1) by (simp add: b Fin ring_ok_def points_of_def of_count_def)
qed (simp_all add: new_ring_def)

lemma new_ring_Inr: "0 < n \<Longrightarrow> \<exists>b. new_ring (of_count (int n)) = Inr b \<and> rb_capacity b = n"
  by (simp add: new_ring_def of_count_def)

text \<open>The points pushed since the buffer was last cleared.\<close>

fun since_clear :: "ring_op list \<Rightarrow> (number \<times> number) list" where
  "since_clear [] = []"
| "since_clear (Push t v # es) = (if Clear \<in> set es then since_clear es else (t, v) # since_clear es)"
| "since_clear (Clear # es) = since_clear es"

lemma since_clear_snoc:
  "since_clear (es @ [Push t v]) = since_clear es @ [(t, v)]" "since_clear (es @ [Clear]) = []"
  by (induction es rule: since_clear.induct) auto

lemma log_since_clear: "foldl (log_do n) [] es = keep_last n (since_clear es)"
proof (induction es rule: rev_induct)
  case Nil
  then show ?case by (simp add: keep_last_def)
next
  case (snoc e es)
  then show ?case by (cases e) (simp_all add: since_clear_snoc keep_last_twice, simp add: keep_last_def)
qed

text \<open>Claim C29: the chart's buffer is the bounded log: only a positive integer capacity makes one, and
  after any pushes and clears it holds exactly the newest points since the last clear, oldest
  first, as many as the capacity allows, in arrays that never change size.\<close>

theorem ring_keeps_newest:
  assumes "new_ring capacity = Inr b"
  shows "capacity = of_count (int (rb_capacity b)) \<and> 0 < rb_capacity b \<and>
    points_of (foldl ring_do b es) = keep_last (rb_capacity b) (since_clear es) \<and>
    ring_length (foldl ring_do b es) = min (rb_capacity b) (length (since_clear es)) \<and>
    length (rb_times (foldl ring_do b es)) = rb_capacity b \<and> length (rb_values (foldl ring_do b es)) = rb_capacity b"
proof -
  have b: "ring_ok b" "capacity = of_count (int (rb_capacity b))" "points_of b = []" using new_ring_ok [OF assms] by auto
  have r: "ring_ok (foldl ring_do b es)" "rb_capacity (foldl ring_do b es) = rb_capacity b"
    "points_of (foldl ring_do b es) = keep_last (rb_capacity b) (since_clear es)"
    using ring_run [OF b(1), of es] by (simp_all add: b(3) log_since_clear)
  show ?thesis using b(1,2) r length_points [OF r(1)] by (simp add: ring_ok_def ring_length_def)
qed

theorem ring_keeps_newest_witness:
  "\<exists>b. new_ring (of_count 2) = Inr b \<and>
     points_of (foldl ring_do b [Push (Fin 9) (Fin 9), Clear, Push (Fin 1) (Fin 5), Push (Fin 2) (Fin 6), Push (Fin 3) (Fin 7)]) =
       [(Fin 2, Fin 6), (Fin 3, Fin 7)]"
proof -
  obtain b where b: "new_ring (of_count 2) = Inr b" "rb_capacity b = 2" using new_ring_Inr [of 2] by auto
  define es where "es = [Push (Fin 9) (Fin 9), Clear, Push (Fin 1) (Fin 5), Push (Fin 2) (Fin 6), Push (Fin 3) (Fin 7)]"
  have "keep_last 2 (since_clear es) = [(Fin 2, Fin 6), (Fin 3, Fin 7)]" by (simp add: es_def keep_last_def)
  then have "points_of (foldl ring_do b es) = [(Fin 2, Fin 6), (Fin 3, Fin 7)]"
    using ring_keeps_newest [OF b(1), of es] unfolding b(2) by (simp only:)
  then show ?thesis using b(1) unfolding es_def by blast
qed

section \<open>What seeding leaves to draw\<close>

definition plot_points :: "ChartHistoryPoint list \<Rightarrow> (number \<times> number) list" where
  "plot_points ps = map (\<lambda>(t, p). (t, toPlotValue p)) ps"

definition flat_line :: "number \<times> number \<Rightarrow> (number \<times> number) list" where
  "flat_line p = [(num_sub (fst p) (Fin 1000), snd p), p]"

definition seeded :: "(number \<times> number) list \<Rightarrow> (number \<times> number) option \<Rightarrow> (number \<times> number) list" where
  "seeded ps seed =
     (case seed of
        Some s \<Rightarrow> if ps = [] then flat_line s else if num_less (fst (last ps)) (fst s) then ps @ [s] else ps
      | None \<Rightarrow> if length ps = 1 then flat_line (hd ps) else ps)"

lemma history_pushed:
  "ring_ok b \<Longrightarrow>
   ring_ok (foldl (\<lambda>b point. ring_push (fst point) (toPlotValue (snd point)) b) b ps) \<and>
   rb_capacity (foldl (\<lambda>b point. ring_push (fst point) (toPlotValue (snd point)) b) b ps) = rb_capacity b \<and>
   points_of (foldl (\<lambda>b point. ring_push (fst point) (toPlotValue (snd point)) b) b ps) =
     (if ps = [] then points_of b else keep_last (rb_capacity b) (points_of b @ plot_points ps))"
proof (induction ps arbitrary: b)
  case (Cons p ps)
  show ?case
    using Cons.IH [of "ring_push (fst p) (toPlotValue (snd p)) b"] ring_push_ok [OF Cons.prems, of "fst p" "toPlotValue (snd p)"]
      points_push [OF Cons.prems, of "fst p" "toPlotValue (snd p)"]
    by (simp add: plot_points_def case_prod_unfold keep_last_twice)
qed simp

lemma points_nth:
  "ring_ok b \<Longrightarrow> i < rb_count b \<Longrightarrow> points_of b ! i = (rb_times b ! i, rb_values b ! i)"
  by (simp add: points_of_def ring_ok_def)

lemma points_flat:
  assumes "ring_ok b" and "2 \<le> rb_capacity b" and "points_of b = []"
  shows "points_of (seedFlatPoint t v b) = flat_line (t, v)"
proof -
  have "points_of (ring_push (num_sub t (Fin 1000)) v b) = [(num_sub t (Fin 1000), v)]"
    using points_push [OF assms(1)] assms by (simp add: keep_last_def)
  then show ?thesis
    using points_push [of "ring_push (num_sub t (Fin 1000)) v b" t v] ring_push_ok [OF assms(1), of "num_sub t (Fin 1000)" v] assms(2)
    by (simp add: seedFlatPoint_def flat_line_def keep_last_def)
qed

lemma last_keep_last: "xs \<noteq> [] \<Longrightarrow> 0 < n \<Longrightarrow> last (keep_last n xs) = last xs"
  by (simp add: keep_last_def)

lemma keep_last_Nil: "0 < n \<Longrightarrow> (keep_last n xs = []) = (xs = [])"
  by (cases xs) (auto simp: keep_last_def)

lemma seed_points:
  assumes "ring_ok b" and "points_of b = []" and "2 \<le> rb_capacity b"
  shows "points_of (seedBuffer (Some history) seed b) =
      keep_last (rb_capacity b) (seeded (plot_points history) (map_option (\<lambda>(t, p). (t, toPlotValue p)) seed))"
proof -
  define ps where "ps = plot_points history"
  define b1 where "b1 = foldl (\<lambda>b point. ring_push (fst point) (toPlotValue (snd point)) b) b history"
  note b = assms(1,2)
  have b1: "ring_ok b1" "rb_capacity b1 = rb_capacity b" "points_of b1 = keep_last (rb_capacity b) ps"
    using history_pushed [OF b(1), of history] by (simp_all add: b1_def b(2) ps_def plot_points_def keep_last_def)
  have n: "ring_length b1 = length (points_of b1)" using length_points [OF b1(1)] by (simp add: ring_length_def)
  have pos: "0 < rb_capacity b" using assms(3) by simp
  have len: "length ps = length history" by (simp add: ps_def plot_points_def)
  have last: "rb_times b1 ! (ring_length b1 - 1) = fst (last ps)" if "history \<noteq> []"
  proof -
    have ne: "ps \<noteq> []" using that len by auto
    then have k: "keep_last (rb_capacity b) ps \<noteq> []" by (simp only: keep_last_Nil [OF pos] not_False_eq_True)
    then have l: "ring_length b1 - 1 < rb_count b1" using n b1(3)
      by (cases "rb_count b1") (simp_all add: ring_length_def del: length_keep_last)
    have "points_of b1 ! (ring_length b1 - 1) = last (points_of b1)" using k n by (simp add: b1(3) last_conv_nth)
    then show ?thesis using points_nth [OF b1(1) l] last_keep_last [OF ne pos] by (metis b1(3) fst_conv)
  qed
  have "points_of (seedBuffer (Some history) seed b) =
      keep_last (rb_capacity b) (seeded ps (map_option (\<lambda>(t, p). (t, toPlotValue p)) seed))"
  proof (cases seed)
    case None
    show ?thesis
    proof (cases "length history = 1")
      case True
      then obtain p where p: "ps = [p]" using len by (metis One_nat_def length_0_conv length_Suc_conv)
      then have one: "points_of b1 = [p]" using b1(3) assms(3) by (simp add: keep_last_all)
      then have "rb_times b1 ! 0 = fst p \<and> rb_values b1 ! 0 = snd p"
        using points_nth [OF b1(1), of 0] length_points [OF b1(1)] by auto
      moreover have "ring_ok (ring_clear b1)" "points_of (ring_clear b1) = []" "rb_capacity (ring_clear b1) = rb_capacity b"
        using b1 by (simp_all add: ring_clear_def ring_ok_def points_of_def)
      ultimately show ?thesis using points_flat [of "ring_clear b1" "fst p" "snd p"] one n assms(3) p
        by (simp add: seedBuffer_def b1_def [symmetric] None seeded_def keep_last_all flat_line_def)
    next
      case False
      then have "ring_length b1 \<noteq> 1" using n b1(3) len assms(3) by simp
      then show ?thesis using False len by (simp add: seedBuffer_def b1_def [symmetric] None seeded_def b1(3))
    qed
  next
    case (Some s)
    show ?thesis
    proof (cases "history = []")
      case True
      then have p: "ps = []" "b1 = b" using len by (simp_all add: b1_def)
      then show ?thesis using points_flat [OF b(1) assms(3) b(2)] n b(2) assms(3)
        by (simp add: seedBuffer_def b1_def [symmetric] Some seeded_def flat_line_def keep_last_all case_prod_unfold)
    next
      case False
      then have ne: "ps \<noteq> []" using len by auto
      then have "ring_length b1 \<noteq> 0" using n b1(3) pos by simp
      then show ?thesis using ne last [OF False] points_push [OF b1(1)] b1
        by (simp add: seedBuffer_def b1_def [symmetric] Some seeded_def case_prod_unfold keep_last_twice)
    qed
  qed
  then show ?thesis by (simp only: ps_def)
qed

lemma seeded_short:
  "(length (seeded (plot_points history) (map_option (\<lambda>(t, p). (t, toPlotValue p)) seed)) < 2) =
      (history = [] \<and> seed = None \<or> (\<exists>h s. history = [h] \<and> seed = Some s \<and> \<not> num_less (fst h) (fst s)))"
proof (cases history rule: remdups_adj.cases)
  case 1
  then show ?thesis by (cases seed) (simp_all add: plot_points_def seeded_def flat_line_def)
next
  case (2 h)
  then show ?thesis
    by (cases seed) (simp_all add: plot_points_def seeded_def flat_line_def case_prod_unfold)
next
  case (3 h h' hs)
  then show ?thesis
    by (cases seed) (simp_all add: plot_points_def seeded_def flat_line_def case_prod_unfold)
qed

text \<open>What the chart starts from is the session's history with the live price after it when that
  is newer, cut to the newest points that fit; and with a point to show at all there is a line to
  draw (two points or more), except for a history of one point with a live price that is not newer,
  which is left as the single point that cannot be drawn.\<close>

theorem seeding_draws_line:
  assumes "new_ring capacity = Inr b" and "2 \<le> rb_capacity b"
  shows "points_of (seedBuffer (Some history) seed b) =
      keep_last (rb_capacity b) (seeded (plot_points history) (map_option (\<lambda>(t, p). (t, toPlotValue p)) seed)) \<and>
    (length (points_of (seedBuffer (Some history) seed b)) < 2) =
      (history = [] \<and> seed = None \<or>
       (\<exists>h s. history = [h] \<and> seed = Some s \<and> \<not> num_less (fst h) (fst s)))"
  using new_ring_ok [OF assms(1)] seed_points [OF _ _ assms(2)] assms(2) seeded_short [of history seed]
  by (simp add: min_less_iff_disj)

theorem seeding_draws_line_witness:
  "\<exists>b. new_ring (of_count 5) = Inr b \<and>
     length (points_of (seedBuffer (Some [(Fin 1000, ''85.10'')]) (Some (Fin 1000, ''85.10'')) b)) < 2"
proof -
  obtain b where b: "new_ring (of_count 5) = Inr b" "rb_capacity b = 5" using new_ring_Inr [of 5] by auto
  have "2 \<le> rb_capacity b" using b(2) by simp
  from seeding_draws_line [OF b(1) this, of "[(Fin 1000, ''85.10'')]" "Some (Fin 1000, ''85.10'')", THEN conjunct2]
  have "length (points_of (seedBuffer (Some [(Fin 1000, ''85.10'')]) (Some (Fin 1000, ''85.10'')) b)) < 2" by simp
  then show ?thesis using b(1) by blast
qed

end
