(* ===== verification/Detail_Quote.thy ===== *)
theory Detail_Quote
  imports Board_Search Ring_Buffer Js_Date "HOL-Library.Char_ord" "HOL-Library.List_Lexorder"
begin

text \<open>
  The detail page's quote (src/client/Tckr.MarketWatch/src/pages/detailQuote.ts) and the life of the
  page's data for one symbol (useDetailQuote.ts): the hook's states and refs are one record, and
  what happens to it is an event: an answer of the source, a pushed message, a beat, a commit of
  React, a frame, a change of symbol. Timestamps are compared as texts, in code unit order, as the
  code does. The text of a percentage (\<open>Intl.NumberFormat\<close>) and the collation are the browser's,
  and arguments here.

  React runs a state's updater either when it is queued or with the next render; here it runs when
  it is queued. The effects that follow a commit are the event \<open>Committed\<close>; two quotes with the same
  figures are the same quote to it. An answer carries the number of the mount that asked for it:
  the flag \<open>cancelled\<close> its closure reads is set when that mount ends.

  The lemmas: a quote shown never goes back in time and never mixes streams, a symbol that is not
  found stays so, the page asks and unsubscribes for one symbol at a time, and what the volume on
  show counts.
\<close>

section \<open>The quote\<close>

record DetailQuote =
  qu_price :: decimal
  qu_change :: decimal
  qu_changePercentText :: string
  qu_volume :: number
  qu_exchangeTimestamp :: IsoUtc
  qu_stream :: Stream

record OhlcExtras =
  ox_open :: decimal
  ox_baseline :: decimal
  ox_baselineIsPreviousClose :: bool
  ox_high :: decimal
  ox_low :: decimal
  ox_exchangeTimestamp :: IsoUtc

datatype Phase = Loading | Ready | NotFound

definition snapshotBaseline :: "Snapshot \<Rightarrow> decimal" where
  "snapshotBaseline snapshot = (case sn_previousClose snapshot of Some p \<Rightarrow> p | None \<Rightarrow> sn_open snapshot)"

definition quoteFromSnapshot :: "(number \<Rightarrow> string) \<Rightarrow> Snapshot \<Rightarrow> DetailQuote" where
  "quoteFromSnapshot formatPercentFigure snapshot =
     (let baseline = snapshotBaseline snapshot
      in \<lparr>qu_price = sn_price snapshot, qu_change = subtract (sn_price snapshot) baseline,
          qu_changePercentText = formatPercentFigure (percentChange baseline (sn_price snapshot)),
          qu_volume = sn_volume snapshot, qu_exchangeTimestamp = sn_exchangeTimestamp snapshot,
          qu_stream = sn_stream snapshot\<rparr>)"

definition mergeTickIntoQuote ::
    "(number \<Rightarrow> string) \<Rightarrow> DetailQuote option \<Rightarrow> Tick \<Rightarrow> decimal option \<Rightarrow> number \<Rightarrow> DetailQuote option" where
  "mergeTickIntoQuote formatPercentFigure prev tick baseline volume =
     (if (case prev of Some p \<Rightarrow> tk_t tick \<le> qu_exchangeTimestamp p | None \<Rightarrow> False) then prev
      else let effectiveBaseline = (case baseline of Some b \<Rightarrow> b | None \<Rightarrow> tk_p tick);
               change = subtract (tk_p tick) effectiveBaseline;
               changePercentText = formatPercentFigure (percentChange effectiveBaseline (tk_p tick))
           in Some \<lparr>qu_price = tk_p tick, qu_change = change, qu_changePercentText = changePercentText,
                qu_volume = volume, qu_exchangeTimestamp = tk_t tick, qu_stream = tk_st tick\<rparr>)"

section \<open>The hook's state\<close>

datatype source_request = AskSnapshot string | AskSubscribe string | AskHistory string | AskUniverse | AskUnsubscribe string

record detail =
  dq_symbol :: string
  dq_phase :: Phase
  dq_quote :: "DetailQuote option"
  dq_extras :: "OhlcExtras option"
  dq_universeDef :: "SymbolDefinition option"
  dq_suggestions :: "SymbolDefinition list"
  dq_historyPoints :: "(number \<times> decimal) list option"
  dq_phaseRef :: Phase
  dq_baseline :: "decimal option"
  dq_queuedTick :: "Tick option"
  dq_volumeBaseline :: number
  dq_volumeSinceBaseline :: number
  dq_pendingTick :: "Tick option"
  dq_mount :: nat
  dq_cancelled :: bool
  dq_committed :: "(Phase \<times> DetailQuote option \<times> string) option"
  dq_frames :: "nat option"
  dq_requests :: "source_request list"
  dq_flushed :: "string list"

text \<open>What the render of a new symbol and the body of the mount effect set and ask for.\<close>

definition mount_effect :: "string \<Rightarrow> detail \<Rightarrow> detail" where
  "mount_effect symbol d =
     d\<lparr>dq_symbol := symbol, dq_phase := Loading, dq_quote := None, dq_extras := None, dq_universeDef := None,
       dq_suggestions := [], dq_historyPoints := None, dq_phaseRef := Loading, dq_baseline := None,
       dq_queuedTick := None, dq_volumeBaseline := Fin 0, dq_volumeSinceBaseline := Fin 0, dq_pendingTick := None,
       dq_mount := dq_mount d + 1, dq_cancelled := False,
       dq_requests := dq_requests d @ [AskSnapshot symbol, AskSubscribe symbol, AskHistory symbol, AskUniverse]\<rparr>"

text \<open>The cleanup of the mount effect.\<close>

definition unmount_effect :: "detail \<Rightarrow> detail" where
  "unmount_effect d =
     (if dq_cancelled d then d
      else d\<lparr>dq_cancelled := True, dq_requests := dq_requests d @ [AskUnsubscribe (dq_symbol d)]\<rparr>)"

definition new_detail :: "string \<Rightarrow> detail" where
  "new_detail symbol =
     mount_effect symbol
       \<lparr>dq_symbol = symbol, dq_phase = Loading, dq_quote = None, dq_extras = None, dq_universeDef = None,
        dq_suggestions = [], dq_historyPoints = None, dq_phaseRef = Loading, dq_baseline = None, dq_queuedTick = None,
        dq_volumeBaseline = Fin 0, dq_volumeSinceBaseline = Fin 0, dq_pendingTick = None, dq_mount = 0,
        dq_cancelled = True, dq_committed = None, dq_frames = None, dq_requests = [], dq_flushed = []\<rparr>"

section \<open>Handlers\<close>

definition markNotFound :: "detail \<Rightarrow> detail" where
  "markNotFound d =
     (if dq_cancelled d \<or> dq_phaseRef d = NotFound then d else d\<lparr>dq_phaseRef := NotFound, dq_phase := NotFound\<rparr>)"

definition detail_ingestSnapshot :: "(number \<Rightarrow> string) \<Rightarrow> Snapshot \<Rightarrow> detail \<Rightarrow> detail" where
  "detail_ingestSnapshot fmt snapshot d =
     (if dq_cancelled d \<or> sn_symbol snapshot \<noteq> dq_symbol d \<or> dq_phaseRef d = NotFound then d
      else d\<lparr>dq_baseline := Some (snapshotBaseline snapshot), dq_volumeBaseline := sn_volume snapshot,
             dq_volumeSinceBaseline := Fin 0,
             dq_extras :=
               (if (case dq_extras d of Some prev \<Rightarrow> sn_exchangeTimestamp snapshot < ox_exchangeTimestamp prev | None \<Rightarrow> False)
                then dq_extras d
                else Some \<lparr>ox_open = sn_open snapshot, ox_baseline = snapshotBaseline snapshot,
                  ox_baselineIsPreviousClose = (sn_previousClose snapshot \<noteq> None), ox_high = sn_high snapshot,
                  ox_low = sn_low snapshot, ox_exchangeTimestamp = sn_exchangeTimestamp snapshot\<rparr>),
             dq_quote :=
               (if (case dq_quote d of Some prev \<Rightarrow> sn_exchangeTimestamp snapshot < qu_exchangeTimestamp prev | None \<Rightarrow> False)
                then dq_quote d else Some (quoteFromSnapshot fmt snapshot)),
             dq_phaseRef := Ready, dq_phase := Ready\<rparr>)"

definition throttledApplyTick :: "Tick \<Rightarrow> detail \<Rightarrow> detail" where
  "throttledApplyTick tick d =
     (if (case dq_pendingTick d of None \<Rightarrow> True | Some p \<Rightarrow> tk_t p \<le> tk_t tick) then d\<lparr>dq_pendingTick := Some tick\<rparr> else d)"

definition total_volume :: "detail \<Rightarrow> number" where
  "total_volume d = num_add (dq_volumeBaseline d) (dq_volumeSinceBaseline d)"

definition detail_beat :: "(number \<Rightarrow> string) \<Rightarrow> detail \<Rightarrow> detail" where
  "detail_beat fmt d =
     (case dq_pendingTick d of
        None \<Rightarrow> d
      | Some tick \<Rightarrow>
          if dq_cancelled d then d
          else d\<lparr>dq_pendingTick := None,
                 dq_quote := mergeTickIntoQuote fmt (dq_quote d) tick (dq_baseline d) (total_volume d)\<rparr>)"

definition on_tick :: "Tick \<Rightarrow> detail \<Rightarrow> detail" where
  "on_tick tick d =
     (if tk_s tick \<noteq> dq_symbol d \<or> dq_cancelled d \<or> dq_phaseRef d = NotFound then d
      else let d1 = d\<lparr>dq_volumeSinceBaseline := num_add (dq_volumeSinceBaseline d) (tk_q tick)\<rparr>
           in if dq_phaseRef d1 = Loading then d1\<lparr>dq_queuedTick := Some tick\<rparr> else throttledApplyTick tick d1)"

definition on_error :: "ErrorMsg \<Rightarrow> detail \<Rightarrow> detail" where
  "on_error err d = (if dq_cancelled d then d else if er_code err = UNKNOWN_SYMBOL then markNotFound d else d)"

definition on_entitlement :: "detail \<Rightarrow> detail" where
  "on_entitlement d =
     (if dq_cancelled d then d
      else d\<lparr>dq_queuedTick := None, dq_pendingTick := None, dq_baseline := None, dq_volumeBaseline := Fin 0,
             dq_volumeSinceBaseline := Fin 0, dq_quote := None, dq_extras := None\<rparr>)"

section \<open>Answers\<close>

definition snapshot_answered :: "(number \<Rightarrow> string) \<Rightarrow> nat \<Rightarrow> Snapshot option \<Rightarrow> detail \<Rightarrow> detail" where
  "snapshot_answered fmt mount answer d =
     (if mount \<noteq> dq_mount d then d
      else case answer of Some snapshot \<Rightarrow> detail_ingestSnapshot fmt snapshot d | None \<Rightarrow> markNotFound d)"

text \<open>\<open>Date.parse\<close> of a timestamp in the contract's form (\<open>toISOString\<close>'s, with milliseconds and a Z); a
  text of another form counts as invalid.\<close>

definition date_parse :: "string \<Rightarrow> number" where
  "date_parse s =
     (let field = (\<lambda>i n. take n (drop i s)); num = (\<lambda>i n. int (str_nat (field i n)))
      in if length s = 24 \<and> s ! 4 = CHR ''-'' \<and> s ! 7 = CHR ''-'' \<and> s ! 10 = CHR ''T'' \<and> s ! 13 = CHR '':'' \<and> s ! 16 = CHR '':'' \<and>
            s ! 19 = CHR ''.'' \<and> s ! 23 = CHR ''Z'' \<and>
            list_all is_digit (field 0 4 @ field 5 2 @ field 8 2 @ field 11 2 @ field 14 2 @ field 17 2 @ field 20 3) \<and>
            1 \<le> num 5 2 \<and> num 5 2 \<le> 12 \<and> 1 \<le> num 8 2 \<and> num 8 2 \<le> 31 \<and> num 11 2 \<le> 23 \<and> num 14 2 \<le> 59 \<and> num 17 2 \<le> 59
         then Fin (of_int (day_number (num 0 4) (num 5 2) (num 8 2) * MS_DAY + num 11 2 * 3600000 + num 14 2 * 60000 +
                num 17 2 * 1000 + num 20 3))
         else NaN)"

definition history_answered :: "nat \<Rightarrow> SymbolHistoryResponse option \<Rightarrow> detail \<Rightarrow> detail" where
  "history_answered mount answer d =
     (if mount \<noteq> dq_mount d \<or> dq_cancelled d then d
      else d\<lparr>dq_historyPoints := Some (case answer of
               Some history \<Rightarrow> map (\<lambda>point. (date_parse (hp_t point), hp_p point)) (hr_points history)
             | None \<Rightarrow> [])\<rparr>)"

definition universe_answered ::
    "(string \<Rightarrow> string \<Rightarrow> int) \<Rightarrow> nat \<Rightarrow> SymbolUniverseResponse option \<Rightarrow> detail \<Rightarrow> detail" where
  "universe_answered localeCompare mount answer d =
     (if mount \<noteq> dq_mount d \<or> dq_cancelled d then d
      else case answer of
        None \<Rightarrow> d
      | Some universe \<Rightarrow>
          (case find (\<lambda>candidate. sd_symbol candidate = dq_symbol d) (ur_symbols universe) of
             None \<Rightarrow>
               markNotFound (d\<lparr>dq_suggestions := closestInstruments localeCompare (dq_symbol d) (ur_symbols universe) 3\<rparr>)
           | Some def \<Rightarrow> d\<lparr>dq_universeDef := Some def\<rparr>))"

section \<open>Effects after a commit\<close>

definition apply_queued_tick :: "(number \<Rightarrow> string) \<Rightarrow> detail \<Rightarrow> detail" where
  "apply_queued_tick fmt d =
     (if dq_phase d \<noteq> Ready then d
      else case dq_queuedTick d of
        None \<Rightarrow> d
      | Some queued \<Rightarrow>
          d\<lparr>dq_queuedTick := None,
            dq_quote := mergeTickIntoQuote fmt (dq_quote d) queued (dq_baseline d) (total_volume d)\<rparr>)"

definition request_flush :: "Phase \<Rightarrow> DetailQuote option \<Rightarrow> detail \<Rightarrow> detail" where
  "request_flush phase quote d = d\<lparr>dq_frames := (if phase \<noteq> Ready \<or> quote = None then None else Some 2)\<rparr>"

definition committed :: "(number \<Rightarrow> string) \<Rightarrow> detail \<Rightarrow> detail" where
  "committed fmt d =
     (if dq_cancelled d then d
      else let before = dq_committed d; phase = dq_phase d; quote = dq_quote d; symbol = dq_symbol d;
               d1 = d\<lparr>dq_committed := Some (phase, quote, symbol)\<rparr>;
               d2 = (if (case before of Some (p, _, s) \<Rightarrow> p = phase \<and> s = symbol | None \<Rightarrow> False) then d1
                     else apply_queued_tick fmt d1)
           in if before = Some (phase, quote, symbol) then d2 else request_flush phase quote d2)"

definition frame :: "detail \<Rightarrow> detail" where
  "frame d =
     (case dq_frames d of
        None \<Rightarrow> d
      | Some n \<Rightarrow>
          if 1 < n then d\<lparr>dq_frames := Some (n - 1)\<rparr>
          else d\<lparr>dq_frames := None, dq_flushed := dq_flushed d @ [dq_symbol d]\<rparr>)"

text \<open>A change of symbol: the cleanups run, then the effects of the render that shows the new symbol.\<close>

definition navigate :: "string \<Rightarrow> detail \<Rightarrow> detail" where
  "navigate symbol d =
     (if symbol = dq_symbol d \<and> \<not> dq_cancelled d then d
      else (mount_effect symbol (unmount_effect d))\<lparr>dq_frames := None, dq_committed := Some (Loading, None, symbol)\<rparr>)"

definition leave :: "detail \<Rightarrow> detail" where
  "leave d = (unmount_effect d)\<lparr>dq_frames := None\<rparr>"

section \<open>Runs\<close>

datatype detail_event =
    SnapshotAnswered nat "Snapshot option"
  | HistoryAnswered nat "SymbolHistoryResponse option"
  | UniverseAnswered nat "SymbolUniverseResponse option"
  | SnapshotPushed Snapshot
  | TickPushed Tick
  | ErrorPushed ErrorMsg
  | EntitlementPushed
  | Beat
  | Committed
  | Frame
  | Navigate string
  | Leave

record browser =
  br_percent :: "number \<Rightarrow> string"
  br_collate :: "string \<Rightarrow> string \<Rightarrow> int"

fun detail_do :: "browser \<Rightarrow> detail \<Rightarrow> detail_event \<Rightarrow> detail" where
  "detail_do br d (SnapshotAnswered m a) = snapshot_answered (br_percent br) m a d"
| "detail_do br d (HistoryAnswered m a) = history_answered m a d"
| "detail_do br d (UniverseAnswered m a) = universe_answered (br_collate br) m a d"
| "detail_do br d (SnapshotPushed s) = detail_ingestSnapshot (br_percent br) s d"
| "detail_do br d (TickPushed t) = on_tick t d"
| "detail_do br d (ErrorPushed e) = on_error e d"
| "detail_do br d EntitlementPushed = on_entitlement d"
| "detail_do br d Beat = detail_beat (br_percent br) d"
| "detail_do br d Committed = committed (br_percent br) d"
| "detail_do br d Frame = frame d"
| "detail_do br d (Navigate symbol) = navigate symbol d"
| "detail_do br d Leave = leave d"

definition detail_run :: "browser \<Rightarrow> string \<Rightarrow> detail_event list \<Rightarrow> detail" where
  "detail_run br symbol es = foldl (detail_do br) (new_detail symbol) es"

section \<open>Where the figures on show come from\<close>

text \<open>What the page has been told of its symbol: the price, instant and stream of each snapshot and tick
  since it was opened on this symbol or, later, since the stream changed. An answer counts for the
  opening that asked for it, and nothing counts once the page is left.\<close>

type_synonym figure = "decimal \<times> IsoUtc \<times> Stream"

record feed =
  fd_symbol :: string
  fd_mount :: nat
  fd_left :: bool
  fd_figures :: "figure list"

definition tick_figure :: "Tick \<Rightarrow> figure" where
  "tick_figure t = (tk_p t, tk_t t, tk_st t)"

definition snapshot_figure :: "Snapshot \<Rightarrow> figure" where
  "snapshot_figure s = (sn_price s, sn_exchangeTimestamp s, sn_stream s)"

definition quote_figure :: "DetailQuote \<Rightarrow> figure" where
  "quote_figure q = (qu_price q, qu_exchangeTimestamp q, qu_stream q)"

definition hear :: "string \<Rightarrow> figure \<Rightarrow> feed \<Rightarrow> feed" where
  "hear symbol f fd = (if symbol = fd_symbol fd then fd\<lparr>fd_figures := fd_figures fd @ [f]\<rparr> else fd)"

fun follow :: "feed \<Rightarrow> detail_event \<Rightarrow> feed" where
  "follow fd (Navigate symbol) =
     (if symbol = fd_symbol fd \<and> \<not> fd_left fd then fd
      else fd\<lparr>fd_symbol := symbol, fd_mount := fd_mount fd + 1, fd_left := False, fd_figures := []\<rparr>)"
| "follow fd Leave = fd\<lparr>fd_left := True\<rparr>"
| "follow fd (SnapshotAnswered m a) =
     (case a of Some s \<Rightarrow> if m = fd_mount fd \<and> \<not> fd_left fd then hear (sn_symbol s) (snapshot_figure s) fd else fd | None \<Rightarrow> fd)"
| "follow fd (SnapshotPushed s) = (if fd_left fd then fd else hear (sn_symbol s) (snapshot_figure s) fd)"
| "follow fd (TickPushed t) = (if fd_left fd then fd else hear (tk_s t) (tick_figure t) fd)"
| "follow fd EntitlementPushed = (if fd_left fd then fd else fd\<lparr>fd_figures := []\<rparr>)"
| "follow fd _ = fd"

definition feed_of :: "string \<Rightarrow> detail_event list \<Rightarrow> feed" where
  "feed_of symbol es = foldl follow \<lparr>fd_symbol = symbol, fd_mount = 1, fd_left = False, fd_figures = []\<rparr> es"

definition fed :: "feed \<Rightarrow> detail \<Rightarrow> bool" where
  "fed fd d =
     (dq_symbol d = fd_symbol fd \<and> dq_mount d = fd_mount fd \<and> dq_cancelled d = fd_left fd \<and>
      pred_option (\<lambda>q. quote_figure q \<in> set (fd_figures fd)) (dq_quote d) \<and>
      pred_option (\<lambda>t. tick_figure t \<in> set (fd_figures fd)) (dq_queuedTick d) \<and>
      pred_option (\<lambda>t. tick_figure t \<in> set (fd_figures fd)) (dq_pendingTick d))"

lemma merge_figure:
  assumes "pred_option (\<lambda>q. quote_figure q \<in> F) prev" and "tick_figure t \<in> F"
  shows "pred_option (\<lambda>q. quote_figure q \<in> F) (mergeTickIntoQuote fmt prev t b v)"
  using assms by (auto simp: mergeTickIntoQuote_def Let_def quote_figure_def tick_figure_def)

lemma fed_weaken:
  assumes "fed fd d" and "set (fd_figures fd) \<subseteq> set (fd_figures fd')" and "fd_symbol fd' = fd_symbol fd"
    and "fd_mount fd' = fd_mount fd" and "fd_left fd' = fd_left fd"
  shows "fed fd' d"
  using assms by (cases "dq_quote d"; cases "dq_queuedTick d"; cases "dq_pendingTick d") (auto simp: fed_def)

lemma hear_simps [simp]:
  "fd_symbol (hear x f fd) = fd_symbol fd" "fd_mount (hear x f fd) = fd_mount fd" "fd_left (hear x f fd) = fd_left fd"
  "set (fd_figures fd) \<subseteq> set (fd_figures (hear x f fd))"
  "x = fd_symbol fd \<Longrightarrow> f \<in> set (fd_figures (hear x f fd))"
  by (auto simp: hear_def)

lemma fed_hear: "fed fd d \<Longrightarrow> fed (hear x f fd) d"
  by (erule fed_weaken) simp_all

lemma fed_ingest:
  assumes "fed fd d"
  shows "fed (if fd_left fd then fd else hear (sn_symbol s) (snapshot_figure s) fd) (detail_ingestSnapshot fmt s d)"
proof -
  have "quote_figure (quoteFromSnapshot fmt s) = snapshot_figure s"
    by (simp add: quote_figure_def quoteFromSnapshot_def snapshot_figure_def Let_def)
  then show ?thesis
    using assms fed_hear [OF assms, of "sn_symbol s" "snapshot_figure s"] by (auto simp: fed_def detail_ingestSnapshot_def)
qed

lemma fed_tick:
  assumes "fed fd d"
  shows "fed (if fd_left fd then fd else hear (tk_s t) (tick_figure t) fd) (on_tick t d)"
  using assms fed_hear [OF assms, of "tk_s t" "tick_figure t"]
  by (auto simp: fed_def on_tick_def throttledApplyTick_def Let_def)

lemma fed_markNotFound: "fed fd d \<Longrightarrow> fed fd (markNotFound d)"
  by (simp add: fed_def markNotFound_def)

lemma fed_committed:
  assumes "fed fd d"
  shows "fed fd (committed fmt d)"
proof -
  have "fed fd (apply_queued_tick fmt d1)" if "fed fd d1" for d1
    using that merge_figure [of "set (fd_figures fd)"] by (auto simp: fed_def apply_queued_tick_def split: option.split)
  moreover have "fed fd (d\<lparr>dq_committed := c\<rparr>)" for c using assms by (simp add: fed_def)
  ultimately show ?thesis using assms by (auto simp: committed_def Let_def request_flush_def fed_def split: option.split)
qed

lemma fed_beat: "fed fd d \<Longrightarrow> fed fd (detail_beat fmt d)"
  using merge_figure [of "set (fd_figures fd)"] by (auto simp: fed_def detail_beat_def split: option.split)

lemma fed_others:
  assumes "fed fd d"
  shows "fed fd (history_answered m a d)" "fed fd (universe_answered c m u d)" "fed fd (frame d)" "fed fd (on_error e d)"
    "fed (follow fd EntitlementPushed) (on_entitlement d)" "fed (follow fd Leave) (leave d)"
    "fed (follow fd (Navigate x)) (navigate x d)"
proof -
  have "fed fd (d\<lparr>dq_suggestions := ss\<rparr>)" for ss using assms by (simp add: fed_def)
  then show "fed fd (universe_answered c m u d)"
    using assms fed_markNotFound by (auto simp: universe_answered_def fed_def split: option.split)
  show "fed fd (on_error e d)" using assms fed_markNotFound by (simp add: on_error_def)
qed (use assms in \<open>auto simp: fed_def history_answered_def frame_def on_entitlement_def leave_def unmount_effect_def
    navigate_def mount_effect_def split: option.split\<close>)

lemma fed_step: "fed fd d \<Longrightarrow> fed (follow fd e) (detail_do br d e)"
proof (cases e)
  case (SnapshotAnswered m a)
  assume f: "fed fd d"
  have "m = fd_mount fd \<longleftrightarrow> m = dq_mount d" using f by (auto simp: fed_def)
  then show ?thesis using f fed_ingest [OF f, of "the a" "br_percent br"] fed_markNotFound [OF f]
    by (cases a; cases "fd_left fd") (simp_all add: SnapshotAnswered snapshot_answered_def)
qed (simp_all add: fed_ingest fed_tick fed_beat fed_committed fed_others del: follow.simps(1,2,6))

lemma fed_run: "fed (feed_of symbol es) (detail_run br symbol es)"
proof (induction es rule: rev_induct)
  case Nil
  then show ?case by (simp add: fed_def feed_of_def detail_run_def new_detail_def mount_effect_def)
next
  case (snoc e es)
  then show ?case using fed_step by (simp add: feed_of_def detail_run_def)
qed

definition resets :: "detail_event \<Rightarrow> bool" where
  "resets e = (case e of EntitlementPushed \<Rightarrow> True | Navigate _ \<Rightarrow> True | _ \<Rightarrow> False)"

lemma merge_newer:
  "\<exists>q'. mergeTickIntoQuote fmt (Some q) t b v = Some q' \<and> qu_exchangeTimestamp q \<le> qu_exchangeTimestamp q'"
  by (auto simp: mergeTickIntoQuote_def Let_def)

lemma quote_step:
  assumes "dq_quote d = Some q" and "\<not> resets e"
  shows "\<exists>q'. dq_quote (detail_do br d e) = Some q' \<and> qu_exchangeTimestamp q \<le> qu_exchangeTimestamp q'"
proof -
  have ingest: "\<exists>q'. dq_quote (detail_ingestSnapshot fmt s d) = Some q' \<and> qu_exchangeTimestamp q \<le> qu_exchangeTimestamp q'" for fmt s
    using assms(1) by (auto simp: detail_ingestSnapshot_def quoteFromSnapshot_def Let_def)
  have mark: "dq_quote (markNotFound d') = dq_quote d'" for d' by (simp add: markNotFound_def)
  have queued: "\<exists>q'. dq_quote (apply_queued_tick fmt d') = Some q' \<and> qu_exchangeTimestamp q \<le> qu_exchangeTimestamp q'"
    if "dq_quote d' = Some q" for fmt d'
    using that merge_newer by (auto simp: apply_queued_tick_def split: option.split)
  show ?thesis
  proof (cases e)
    case Committed
    then show ?thesis using assms(1) queued by (auto simp: committed_def Let_def request_flush_def)
  next
    case Beat
    then show ?thesis using assms(1) merge_newer by (auto simp: detail_beat_def split: option.split)
  qed (use assms in \<open>auto simp: ingest mark resets_def snapshot_answered_def history_answered_def universe_answered_def
      on_tick_def throttledApplyTick_def on_error_def frame_def leave_def unmount_effect_def Let_def split: option.split\<close>)
qed

text \<open>Claim C18: whatever happens, the price, instant and stream on show are those of one snapshot or tick
  of this very symbol, received since the page was opened on it and since the last change of
  stream, so no figure outlives its stream or its symbol; and until the next such change the quote
  on show stays and never goes back in time.\<close>

theorem quote_true_to_feed:
  assumes "dq_quote (detail_run br symbol es) = Some q" and "\<not> resets e"
  shows "quote_figure q \<in> set (fd_figures (feed_of symbol es)) \<and>
    (\<exists>q'. dq_quote (detail_run br symbol (es @ [e])) = Some q' \<and> qu_exchangeTimestamp q \<le> qu_exchangeTimestamp q')"
  using fed_run [of symbol es br] quote_step [OF assms] assms(1) by (simp add: fed_def detail_run_def)

definition demo_snapshot :: Snapshot where
  "demo_snapshot = \<lparr>sn_symbol = ''COMI'', sn_stream = LIVE, sn_price = ''80.10'', sn_change = ''0.10'', sn_changePercent = ''0.13'',
     sn_open = ''80.00'', sn_previousClose = Some ''79.50'', sn_high = ''80.50'', sn_low = ''79.90'', sn_volume = of_count 1000,
     sn_lastEventId = ''1'', sn_exchangeTimestamp = ''2026-03-02T10:00:00.000Z'', sn_snapshotAge = Fin 0, sn_simulated = False\<rparr>"

definition demo_tick :: Tick where
  "demo_tick = \<lparr>tk_s = ''COMI'', tk_p = ''80.20'', tk_q = of_count 250, tk_k = TRADE, tk_t = ''2026-03-02T10:00:01.000Z'',
     tk_id = ''2'', tk_st = LIVE\<rparr>"

definition demo_browser :: browser where
  "demo_browser = \<lparr>br_percent = (\<lambda>_. ''0.00''), br_collate = (\<lambda>_ _. 0)\<rparr>"

theorem quote_true_to_feed_witness:
  "\<exists>q. dq_quote (detail_run demo_browser ''COMI'' [SnapshotPushed demo_snapshot]) = Some q \<and>
     (\<exists>q'. dq_quote (detail_run demo_browser ''COMI'' ([SnapshotPushed demo_snapshot] @ [TickPushed demo_tick])) = Some q' \<and>
        qu_exchangeTimestamp q \<le> qu_exchangeTimestamp q')"
proof -
  have "dq_quote (detail_run demo_browser ''COMI'' [SnapshotPushed demo_snapshot]) = Some (quoteFromSnapshot (br_percent demo_browser) demo_snapshot)"
    by (simp add: detail_run_def new_detail_def mount_effect_def detail_ingestSnapshot_def demo_snapshot_def)
  then show ?thesis using quote_true_to_feed [of demo_browser "''COMI''" "[SnapshotPushed demo_snapshot]" _ "TickPushed demo_tick"]
    by (auto simp: resets_def)
qed

section \<open>Subscriptions and the end of a page\<close>

definition subscribing :: "source_request \<Rightarrow> bool" where
  "subscribing r = (case r of AskSubscribe _ \<Rightarrow> True | AskUnsubscribe _ \<Rightarrow> True | _ \<Rightarrow> False)"

definition navigates :: "detail_event \<Rightarrow> bool" where
  "navigates e = (case e of Navigate _ \<Rightarrow> True | _ \<Rightarrow> False)"

lemma requests_frame:
  "\<not> navigates e \<Longrightarrow> e \<noteq> Leave \<Longrightarrow> dq_requests (detail_do br d e) = dq_requests d \<and>
     dq_symbol (detail_do br d e) = dq_symbol d \<and> dq_cancelled (detail_do br d e) = dq_cancelled d"
  by (cases e) (simp_all add: navigates_def snapshot_answered_def detail_ingestSnapshot_def markNotFound_def history_answered_def
      universe_answered_def on_tick_def throttledApplyTick_def on_error_def on_entitlement_def detail_beat_def committed_def
      apply_queued_tick_def request_flush_def frame_def Let_def split: option.split)

definition one_subscription :: "detail \<Rightarrow> bool" where
  "one_subscription d =
     (\<exists>past. filter subscribing (dq_requests d) =
        concat (map (\<lambda>x. [AskSubscribe x, AskUnsubscribe x]) past) @ (if dq_cancelled d then [] else [AskSubscribe (dq_symbol d)]))"

lemma one_subscription_unmount: "one_subscription d \<Longrightarrow> one_subscription (unmount_effect d)"
proof -
  assume "one_subscription d"
  then obtain past where p: "filter subscribing (dq_requests d) =
      concat (map (\<lambda>x. [AskSubscribe x, AskUnsubscribe x]) past) @ (if dq_cancelled d then [] else [AskSubscribe (dq_symbol d)])"
    by (auto simp: one_subscription_def)
  show ?thesis unfolding one_subscription_def
    by (rule exI [of _ "if dq_cancelled d then past else past @ [dq_symbol d]"])
      (simp add: unmount_effect_def p subscribing_def)
qed

lemma one_subscription_mount:
  assumes "one_subscription d" and "dq_cancelled d"
  shows "one_subscription (mount_effect x d)"
  using assms by (auto simp: one_subscription_def mount_effect_def subscribing_def)

lemma one_subscription_step:
  assumes "one_subscription d"
  shows "one_subscription (detail_do br d e)"
proof -
  have c: "dq_cancelled (unmount_effect d)" by (simp add: unmount_effect_def)
  have same: "one_subscription (d'\<lparr>dq_frames := f, dq_committed := k\<rparr>) = one_subscription d'"
    "one_subscription (d'\<lparr>dq_frames := f\<rparr>) = one_subscription d'" for d' f k by (simp_all add: one_subscription_def)
  show ?thesis
  proof (cases "navigates e \<or> e = Leave")
    case True
    then show ?thesis using assms one_subscription_unmount [OF assms] one_subscription_mount [OF _ c]
      by (auto simp: navigates_def navigate_def leave_def same split: detail_event.splits)
  next
    case False
    then show ?thesis using assms requests_frame [of e br d] by (auto simp: one_subscription_def)
  qed
qed

lemma one_subscription_run: "one_subscription (detail_run br symbol es)"
  unfolding detail_run_def
proof (rule foldl_invariant [where P = one_subscription])
  show "one_subscription (new_detail symbol)"
    by (auto simp: one_subscription_def new_detail_def mount_effect_def subscribing_def intro: exI [of _ "[]"])
qed (rule one_subscription_step)

lemma left_inert:
  assumes "dq_cancelled d \<and> dq_frames d = None" and "\<not> navigates e"
  shows "detail_do br d e = d"
  using assms by (cases e) (simp_all add: navigates_def snapshot_answered_def detail_ingestSnapshot_def markNotFound_def history_answered_def
      universe_answered_def on_tick_def on_error_def on_entitlement_def detail_beat_def committed_def frame_def leave_def
      unmount_effect_def split: option.split)

definition phases_agree :: "detail \<Rightarrow> bool" where
  "phases_agree d = (dq_phaseRef d = dq_phase d)"

lemma phases_step:
  assumes "phases_agree d"
  shows "phases_agree (detail_do br d e) \<and> (dq_phase d = NotFound \<and> \<not> navigates e \<longrightarrow> dq_phase (detail_do br d e) = NotFound)"
  using assms by (cases e) (simp_all add: phases_agree_def navigates_def snapshot_answered_def detail_ingestSnapshot_def
      markNotFound_def history_answered_def universe_answered_def on_tick_def throttledApplyTick_def on_error_def
      on_entitlement_def detail_beat_def committed_def apply_queued_tick_def request_flush_def frame_def leave_def
      unmount_effect_def navigate_def mount_effect_def Let_def split: option.split)

lemma phases_run: "phases_agree (detail_run br symbol es)"
  unfolding detail_run_def
proof (rule foldl_invariant [where P = phases_agree])
  show "phases_agree (new_detail symbol)" by (simp add: phases_agree_def new_detail_def mount_effect_def)
qed (use phases_step in blast)

text \<open>The page holds one subscription at a time: its subscription requests are opened and closed
  in turn, one symbol after the other, and the one still open is the symbol on show, or none once
  the page is left. A page that was left changes no more, whatever still arrives, until it is
  opened again; and a symbol that was not found stays not found until another one is opened.\<close>

theorem page_holds_one_subscription:
  assumes "list_all (\<lambda>e. \<not> navigates e) later"
  shows "one_subscription (detail_run br symbol es) \<and>
    detail_run br symbol (es @ Leave # later) = detail_run br symbol (es @ [Leave]) \<and>
    (dq_phase (detail_run br symbol es) = NotFound \<longrightarrow> dq_phase (detail_run br symbol (es @ later)) = NotFound)"
proof -
  have "foldl (detail_do br) d later = d" if "dq_cancelled d \<and> dq_frames d = None" for d
    using assms that by (induction later) (simp_all add: left_inert)
  moreover have "dq_cancelled (leave d) \<and> dq_frames (leave d) = None" for d by (simp add: leave_def unmount_effect_def)
  ultimately have left: "detail_run br symbol (es @ Leave # later) = detail_run br symbol (es @ [Leave])"
    by (simp add: detail_run_def)
  have "dq_phase (foldl (detail_do br) d later) = NotFound" if "phases_agree d" "dq_phase d = NotFound" for d
    using assms that
  proof (induction later arbitrary: d)
    case (Cons e later)
    then show ?case using phases_step [of d br e] by simp
  qed simp
  then show ?thesis using left one_subscription_run phases_run [of br symbol es] by (simp add: detail_run_def)
qed

theorem page_holds_one_subscription_witness:
  "dq_requests (detail_run demo_browser ''COMI'' ([Navigate ''ABUK''] @ Leave # [TickPushed demo_tick, Beat])) =
     [AskSnapshot ''COMI'', AskSubscribe ''COMI'', AskHistory ''COMI'', AskUniverse, AskUnsubscribe ''COMI'',
      AskSnapshot ''ABUK'', AskSubscribe ''ABUK'', AskHistory ''ABUK'', AskUniverse, AskUnsubscribe ''ABUK'']"
proof -
  have "list_all (\<lambda>e. \<not> navigates e) [TickPushed demo_tick, Beat]" by (simp add: navigates_def)
  from page_holds_one_subscription [OF this, of demo_browser "''COMI''" "[Navigate ''ABUK'']"]
  have "detail_run demo_browser ''COMI'' ([Navigate ''ABUK''] @ Leave # [TickPushed demo_tick, Beat]) =
      detail_run demo_browser ''COMI'' ([Navigate ''ABUK''] @ [Leave])" by blast
  then show ?thesis
    by (simp add: detail_run_def new_detail_def mount_effect_def navigate_def unmount_effect_def leave_def)
qed

section \<open>What the volume on show counts\<close>

text \<open>A tick that came while the snapshot was on its way, and is newer than it, is shown with its price
  and time, but its quantity is lost: ingesting the snapshot restarts the count.\<close>

lemma queued_tick_quantity_lost:
  assumes "sn_symbol snapshot = symbol" and "tk_s tick = symbol" and "sn_exchangeTimestamp snapshot < tk_t tick"
    and "sn_volume snapshot = of_count n" and "\<bar>n\<bar> \<le> 2 ^ 53"
  shows "\<exists>q. dq_quote (detail_run br symbol [TickPushed tick, SnapshotAnswered 1 (Some snapshot), Committed]) = Some q \<and>
    qu_price q = tk_p tick \<and> qu_exchangeTimestamp q = tk_t tick \<and> qu_volume q = sn_volume snapshot"
proof -
  have v: "num_add (of_count n) (Fin 0) = of_count n"
    using num_add_counts [of n 0] assms(5) by (simp add: of_count_def)
  have t: "\<not> tk_t tick \<le> sn_exchangeTimestamp snapshot" using assms(3) by (simp add: not_le)
  show ?thesis using assms(1,2,4) t
    by (simp add: detail_run_def new_detail_def mount_effect_def on_tick_def snapshot_answered_def detail_ingestSnapshot_def
        committed_def apply_queued_tick_def request_flush_def mergeTickIntoQuote_def total_volume_def quoteFromSnapshot_def
        Let_def v)
qed

text \<open>Ticks between two beats: each is counted, the newest one waits.\<close>

lemma ticks_wait:
  assumes "dq_phaseRef d = Ready" and "\<not> dq_cancelled d" and "list_all (\<lambda>t. tk_s t = dq_symbol d) ts"
    and "pred_option (\<lambda>p. P p) (dq_pendingTick d)" and "list_all P ts" and "ts \<noteq> [] \<or> dq_pendingTick d \<noteq> None"
  shows "\<exists>t. foldl (\<lambda>d t. on_tick t d) d ts =
      d\<lparr>dq_volumeSinceBaseline := foldl num_add (dq_volumeSinceBaseline d) (map tk_q ts), dq_pendingTick := Some t\<rparr> \<and> P t \<and>
    list_all (\<lambda>u. tk_t u \<le> tk_t t) ts \<and> pred_option (\<lambda>u. tk_t u \<le> tk_t t) (dq_pendingTick d)"
  using assms
proof (induction ts arbitrary: d)
  case Nil
  then obtain p where p: "dq_pendingTick d = Some p" by blast
  then have "d\<lparr>dq_volumeSinceBaseline := dq_volumeSinceBaseline d, dq_pendingTick := Some p\<rparr> = d" by (cases d) simp
  then show ?case using p Nil.prems(4) by (intro exI [of _ p]) simp
next
  case (Cons u ts)
  define d1 where "d1 = on_tick u d"
  obtain p where p: "dq_pendingTick d1 = Some p" "P p" "tk_t u \<le> tk_t p" "pred_option (\<lambda>v. tk_t v \<le> tk_t p) (dq_pendingTick d)"
    "d1 = d\<lparr>dq_volumeSinceBaseline := num_add (dq_volumeSinceBaseline d) (tk_q u), dq_pendingTick := Some p\<rparr>"
  proof (cases "case dq_pendingTick d of None \<Rightarrow> True | Some p \<Rightarrow> tk_t p \<le> tk_t u")
    case True
    then show ?thesis using Cons.prems by (intro that [of u])
        (auto simp: d1_def on_tick_def throttledApplyTick_def Let_def pred_option_def split: option.splits)
  next
    case False
    then obtain q where "dq_pendingTick d = Some q" "\<not> tk_t q \<le> tk_t u" by (auto split: option.splits)
    then show ?thesis using Cons.prems by (intro that [of q]) (auto simp: d1_def on_tick_def throttledApplyTick_def Let_def)
  qed
  have "\<exists>t. foldl (\<lambda>d t. on_tick t d) d1 ts =
      d1\<lparr>dq_volumeSinceBaseline := foldl num_add (dq_volumeSinceBaseline d1) (map tk_q ts), dq_pendingTick := Some t\<rparr> \<and> P t \<and>
    list_all (\<lambda>u. tk_t u \<le> tk_t t) ts \<and> pred_option (\<lambda>u. tk_t u \<le> tk_t t) (dq_pendingTick d1)"
    by (rule Cons.IH) (use Cons.prems p(1,2) in \<open>simp_all add: p(5)\<close>)
  then obtain t where t: "foldl (\<lambda>d t. on_tick t d) d1 ts =
      d1\<lparr>dq_volumeSinceBaseline := foldl num_add (dq_volumeSinceBaseline d1) (map tk_q ts), dq_pendingTick := Some t\<rparr>"
    "P t" "list_all (\<lambda>u. tk_t u \<le> tk_t t) ts" "tk_t p \<le> tk_t t" using p(1) by auto
  have "pred_option (\<lambda>u. tk_t u \<le> tk_t t) (dq_pendingTick d)"
    using p(4) t(4) by (cases "dq_pendingTick d") (auto intro: order_trans)
  then show ?case using t p(3,5) by (intro exI [of _ t]) (auto simp: d1_def [symmetric] intro: order_trans)
qed

text \<open>Claim C21: while the page is ready, a beat paints the newest of all the ticks that came since the last
  one, with a volume that counts the quantity of every single one of them on top of what was
  counted, also of those whose price is never shown; the change is measured from the baseline of
  the last snapshot, and ticks older than the quote on show leave it as it is.\<close>

theorem beat_counts_every_tick:
  assumes "dq_phaseRef d = Ready" and "\<not> dq_cancelled d" and "dq_pendingTick d = None" and "ts \<noteq> []"
    and "list_all (\<lambda>t. tk_s t = dq_symbol d) ts" and "dq_quote d = Some old" and "dq_baseline d = Some b"
    and "after = foldl (detail_do br) d (map TickPushed ts @ [Beat])"
  shows "\<exists>t. t \<in> set ts \<and> list_all (\<lambda>u. tk_t u \<le> tk_t t) ts \<and>
    dq_quote after = (if tk_t t \<le> qu_exchangeTimestamp old then Some old
      else Some \<lparr>qu_price = tk_p t, qu_change = subtract (tk_p t) b, qu_changePercentText = br_percent br (percentChange b (tk_p t)),
        qu_volume = num_add (dq_volumeBaseline d) (foldl num_add (dq_volumeSinceBaseline d) (map tk_q ts)),
        qu_exchangeTimestamp = tk_t t, qu_stream = tk_st t\<rparr>)"
proof -
  have "\<exists>t. foldl (\<lambda>d t. on_tick t d) d ts =
      d\<lparr>dq_volumeSinceBaseline := foldl num_add (dq_volumeSinceBaseline d) (map tk_q ts), dq_pendingTick := Some t\<rparr> \<and> t \<in> set ts \<and>
    list_all (\<lambda>u. tk_t u \<le> tk_t t) ts \<and> pred_option (\<lambda>u. tk_t u \<le> tk_t t) (dq_pendingTick d)"
    by (rule ticks_wait) (use assms in \<open>simp_all add: list_all_iff\<close>)
  moreover have "foldl (detail_do br) d (map TickPushed ts) = foldl (\<lambda>d t. on_tick t d) d ts" by (simp add: foldl_map)
  ultimately obtain t where t: "t \<in> set ts" "list_all (\<lambda>u. tk_t u \<le> tk_t t) ts"
    "foldl (detail_do br) d (map TickPushed ts) =
      d\<lparr>dq_volumeSinceBaseline := foldl num_add (dq_volumeSinceBaseline d) (map tk_q ts), dq_pendingTick := Some t\<rparr>" by auto
  then show ?thesis using assms(2,6,7)
    by (intro exI [of _ t]) (simp add: assms(8) detail_beat_def mergeTickIntoQuote_def total_volume_def Let_def)
qed

theorem beat_counts_every_tick_witness:
  "\<exists>q. dq_quote (foldl (detail_do demo_browser) (detail_run demo_browser ''COMI'' [SnapshotPushed demo_snapshot])
     (map TickPushed [demo_tick, demo_tick\<lparr>tk_q := of_count 50\<rparr>] @ [Beat])) = Some q \<and> qu_volume q = of_count 1300"
proof -
  define d where "d = detail_run demo_browser ''COMI'' [SnapshotPushed demo_snapshot]"
  define fresh where "fresh = new_detail ''COMI''"
  have fresh: "dq_extras fresh = None" "dq_quote fresh = None" "dq_cancelled fresh = False" "dq_symbol fresh = ''COMI''"
    "dq_phaseRef fresh = Loading" "dq_pendingTick fresh = None" by (simp_all add: fresh_def new_detail_def mount_effect_def)
  have s: "sn_symbol demo_snapshot = ''COMI''" "sn_volume demo_snapshot = of_count 1000" by (simp_all add: demo_snapshot_def)
  have "d = detail_ingestSnapshot (br_percent demo_browser) demo_snapshot fresh" by (simp add: d_def detail_run_def fresh_def)
  then have d: "dq_phaseRef d = Ready" "dq_cancelled d = False" "dq_pendingTick d = None" "dq_symbol d = ''COMI''"
    "dq_quote d = Some (quoteFromSnapshot (br_percent demo_browser) demo_snapshot)"
    "dq_baseline d = Some (snapshotBaseline demo_snapshot)" "dq_volumeBaseline d = of_count 1000" "dq_volumeSinceBaseline d = Fin 0"
    by (simp_all add: detail_ingestSnapshot_def fresh s)
  have v: "num_add (of_count 1000) (foldl num_add (Fin 0) (map tk_q [demo_tick, demo_tick\<lparr>tk_q := of_count 50\<rparr>])) = of_count 1300"
    by code_simp
  have older: "\<not> tk_t demo_tick \<le> sn_exchangeTimestamp demo_snapshot" by code_simp
  have "\<exists>t. t \<in> set [demo_tick, demo_tick\<lparr>tk_q := of_count 50\<rparr>] \<and>
      list_all (\<lambda>u. tk_t u \<le> tk_t t) [demo_tick, demo_tick\<lparr>tk_q := of_count 50\<rparr>] \<and>
    dq_quote (foldl (detail_do demo_browser) d (map TickPushed [demo_tick, demo_tick\<lparr>tk_q := of_count 50\<rparr>] @ [Beat])) =
     (if tk_t t \<le> qu_exchangeTimestamp (quoteFromSnapshot (br_percent demo_browser) demo_snapshot)
      then Some (quoteFromSnapshot (br_percent demo_browser) demo_snapshot)
      else Some \<lparr>qu_price = tk_p t, qu_change = subtract (tk_p t) (snapshotBaseline demo_snapshot),
        qu_changePercentText = br_percent demo_browser (percentChange (snapshotBaseline demo_snapshot) (tk_p t)),
        qu_volume = num_add (dq_volumeBaseline d) (foldl num_add (dq_volumeSinceBaseline d)
          (map tk_q [demo_tick, demo_tick\<lparr>tk_q := of_count 50\<rparr>])),
        qu_exchangeTimestamp = tk_t t, qu_stream = tk_st t\<rparr>)"
    by (rule beat_counts_every_tick) (simp_all add: d demo_tick_def)
  then show ?thesis unfolding d_def [symmetric] using older v
    by (auto simp: d quoteFromSnapshot_def Let_def)
qed

end
