(* ===== verification/Board_Page.thy ===== *)
theory Board_Page
  imports Shared_Source Detail_Quote
begin

text \<open>
  The board page's hold on the market data: src/client/Tckr.MarketWatch/src/pages/useBoardUniverse.ts
  (the instrument list, the subscriptions, the sparkline histories, the retry), and the page as a
  whole, where the detail pane (theory Detail_Quote, a child route of the board) is open beside the
  board and both share the app's one source. A source follows a set of symbols; what both classes
  do to it is the interface \<open>followed_symbols\<close>.

  The lemmas: what the source follows is never more than the board and the pane asked for, and
  nothing once the page is left; and closing the pane takes its symbol away from the board too.
\<close>

section \<open>The symbols a source follows\<close>

text \<open>The empty string is no symbol.\<close>

locale followed_symbols =
  fixes held :: "'s \<Rightarrow> string set" and follow :: "string list \<Rightarrow> 's \<Rightarrow> 's" and unfollow :: "string list \<Rightarrow> 's \<Rightarrow> 's"
    and known :: "'s \<Rightarrow> string set"
  assumes follow_held: "held (follow xs s) = held s \<union> (set xs \<inter> known s)"
    and unfollow_held: "held (unfollow xs s) = held s - set xs"
begin

lemma follow_unfollow: "held (unfollow xs (follow xs s)) = held s - set xs"
  by (auto simp: unfollow_held follow_held)

lemma held_within: "held s \<subseteq> A \<Longrightarrow> held (follow xs s) \<subseteq> A \<union> set xs" "held s \<subseteq> A \<union> set xs \<Longrightarrow> held (unfollow xs s) \<subseteq> A"
  by (auto simp: unfollow_held follow_held)

end

definition gateway_held :: "TckrGatewaySource \<Rightarrow> string set" where
  "gateway_held g = set (gw_subscribedSymbols g) - {''''}"

definition simulated_held :: "SimulatedSource \<Rightarrow> string set" where
  "simulated_held s = set (si_subscribed s) - {''''}"

subsection \<open>The gateway source\<close>

lemma subs_outside [simp]:
  "gw_subscribedSymbols (emit es g) = gw_subscribedSymbols g" "gw_subscribedSymbols (on_store f g) = gw_subscribedSymbols g"
  "gw_subscribedSymbols (socket_close sid c r g) = gw_subscribedSymbols g" "gw_subscribedSymbols (socket_send sid m g) = gw_subscribedSymbols g"
  "gw_subscribedSymbols (start_fetch rq url g) = gw_subscribedSymbols g" "gw_subscribedSymbols (set_readyState sid n g) = gw_subscribedSymbols g"
  "gw_subscribedSymbols (openSocket res g) = gw_subscribedSymbols g" "gw_subscribedSymbols (listen k ch g) = gw_subscribedSymbols g"
  "gw_subscribedSymbols (on_timers h g) = gw_subscribedSymbols g" "gw_subscribedSymbols (snd (arm_timer cb ms ev g)) = gw_subscribedSymbols g"
  "gw_subscribedSymbols (snd (draw_random g)) = gw_subscribedSymbols g" "gw_subscribedSymbols (snd (nextRequestId g)) = gw_subscribedSymbols g"
  by (simp_all add: emit_def on_store_def socket_close_def socket_send_def start_fetch_def set_readyState_def arm_timer_def
      openSocket_def createSocket_def listen_def on_timers_def draw_random_def nextRequestId_def Let_def split: channel.split)

lemma subs_timers [simp]:
  "gw_subscribedSymbols (scheduleThrottleFlush g) = gw_subscribedSymbols g" "gw_subscribedSymbols (clearThrottleTimer g) = gw_subscribedSymbols g"
  "gw_subscribedSymbols (clearReconnectTimer g) = gw_subscribedSymbols g" "gw_subscribedSymbols (stopHeartbeat g) = gw_subscribedSymbols g"
  "gw_subscribedSymbols (startHeartbeatMonitor g) = gw_subscribedSymbols g" "gw_subscribedSymbols (pulse g) = gw_subscribedSymbols g"
  "gw_subscribedSymbols (stopPing g) = gw_subscribedSymbols g" "gw_subscribedSymbols (startPing g) = gw_subscribedSymbols g"
proof -
  show s: "gw_subscribedSymbols (stopHeartbeat g) = gw_subscribedSymbols g" "gw_subscribedSymbols (stopPing g) = gw_subscribedSymbols g" for g
    by (simp_all add: stopHeartbeat_def stopPing_def split: option.split)
  show "gw_subscribedSymbols (startHeartbeatMonitor g) = gw_subscribedSymbols g" "gw_subscribedSymbols (startPing g) = gw_subscribedSymbols g"
    by (simp_all add: startHeartbeatMonitor_def startPing_def s Let_def case_prod_unfold split: option.split)
qed (simp_all add: scheduleThrottleFlush_def clearThrottleTimer_def clearReconnectTimer_def pulse_def Let_def case_prod_unfold split: option.split)

lemma subs_simple [simp]:
  "gw_subscribedSymbols (emitStatus state g) = gw_subscribedSymbols g" "gw_subscribedSymbols (emitError code msg rid g) = gw_subscribedSymbols g"
  "gw_subscribedSymbols (getSnapshot x g) = gw_subscribedSymbols g" "gw_subscribedSymbols (getHistory x g) = gw_subscribedSymbols g"
  "gw_subscribedSymbols (getUniverse g) = gw_subscribedSymbols g" "gw_subscribedSymbols (ingestSnapshot sn b g) = gw_subscribedSymbols g"
  "gw_subscribedSymbols (handleTick t g) = gw_subscribedSymbols g" "gw_subscribedSymbols (handleEntitlementChanged en g) = gw_subscribedSymbols g"
  "gw_subscribedSymbols (connect g) = gw_subscribedSymbols g" "gw_subscribedSymbols (frame_delivered g) = gw_subscribedSymbols g"
  "gw_subscribedSymbols (send m g) = gw_subscribedSymbols g" "gw_subscribedSymbols (handleError er g) = gw_subscribedSymbols g"
  by (simp_all add: emitStatus_def emitError_def getSnapshot_def getHistory_def getUniverse_def fetchUniverse_def send_def handleError_def
      ingestSnapshot_def handleTick_def handleEntitlementChanged_def connect_def frame_delivered_def Let_def
      case_prod_unfold split: option.split)

lemma subs_closing [simp]:
  "gw_subscribedSymbols (disconnect g) = gw_subscribedSymbols g" "gw_subscribedSymbols (scheduleReconnect g) = gw_subscribedSymbols g"
  "gw_subscribedSymbols (handleClose c r g) = gw_subscribedSymbols g" "gw_subscribedSymbols (heartbeat_missed g) = gw_subscribedSymbols g"
  "gw_subscribedSymbols (reconnectNow g) = gw_subscribedSymbols g" "gw_subscribedSymbols (send_ping g) = gw_subscribedSymbols g"
proof -
  show s: "gw_subscribedSymbols (scheduleReconnect g) = gw_subscribedSymbols g" for g
    by (simp add: scheduleReconnect_def Let_def case_prod_unfold)
  show h: "gw_subscribedSymbols (handleClose c r g) = gw_subscribedSymbols g" for c r g
    by (simp add: handleClose_def s Let_def)
  show "gw_subscribedSymbols (heartbeat_missed g) = gw_subscribedSymbols g"
    by (simp add: heartbeat_missed_def forceLocalClose_def h split: option.split)
qed (simp_all add: disconnect_def reconnectNow_def send_ping_def Let_def case_prod_unfold split: option.split)

lemma subs_loops [simp]:
  "gw_subscribedSymbols (foldl (\<lambda>g msg. socket_send sid msg g) g msgs) = gw_subscribedSymbols g"
  "gw_subscribedSymbols (flushOutbound g) = gw_subscribedSymbols g" "gw_subscribedSymbols (throttle_expires g) = gw_subscribedSymbols g"
  "gw_subscribedSymbols (fetch_done fid res g) = gw_subscribedSymbols g"
proof -
  show f: "gw_subscribedSymbols (foldl (\<lambda>g msg. socket_send sid msg g) g msgs) = gw_subscribedSymbols g" for sid g msgs
    by (rule foldl_frame) simp
  show o': "gw_subscribedSymbols (flushOutbound g) = gw_subscribedSymbols g" for g
    by (simp add: flushOutbound_def f Let_def split: option.split)
  show "gw_subscribedSymbols (throttle_expires g) = gw_subscribedSymbols g" by (simp add: throttle_expires_def o' Let_def)
qed (simp add: fetch_done_def universe_done_def snapshot_done_def history_done_def Let_def split: option.split request.split sum.split)

lemma foldl_sets [simp]:
  "set (foldl (\<lambda>s x. sadd x s) ss xs) = set ss \<union> set xs" "set (foldl (\<lambda>s x. sdelete x s) ss xs) = set ss - set xs"
  by (induction xs arbitrary: ss) auto

lemma subscribe_held: "gateway_held (subscribe xs g) = gateway_held g \<union> (set xs - {''''})"
  by (auto simp: gateway_held_def subscribe_def Let_def nextRequestId_def filter_empty_conv)

lemma unsubscribe_held: "gateway_held (unsubscribe xs g) = gateway_held g - set xs"
  by (auto simp: gateway_held_def unsubscribe_def Let_def nextRequestId_def filter_empty_conv)

interpretation gateway_follows: followed_symbols gateway_held subscribe unsubscribe "\<lambda>_. - {''''}"
  by unfold_locales (auto simp: subscribe_held unsubscribe_held)

lemma resubscribe_held: "gateway_held (resubscribe g) = gateway_held g"
proof -
  have "gw_subscribedSymbols (foldl (\<lambda>g symbol. getSnapshot symbol g) g' xs) = gw_subscribedSymbols g'" for g' xs
    by (rule foldl_frame) simp
  then have "gateway_held (foldl (\<lambda>g symbol. getSnapshot symbol g) g' xs) = gateway_held g'" for g' xs
    by (simp add: gateway_held_def)
  then show ?thesis using gateway_follows.follow_held [of "gw_subscribedSymbols g" g]
    by (auto simp: resubscribe_def gateway_held_def Let_def)
qed

lemma resubscribes_held: "gateway_held ((resubscribe ^^ n) g) = gateway_held g"
  by (induction n) (simp_all add: resubscribe_held)

lemma subs_held: "gw_subscribedSymbols g' = gw_subscribedSymbols g \<Longrightarrow> gateway_held g' = gateway_held g"
  by (simp add: gateway_held_def)

lemma handleSubscribed_held: "gateway_held (handleSubscribed m g) \<subseteq> gateway_held g"
  unfolding handleSubscribed_def
  by (rule foldl_invariant [where P = "\<lambda>g'. gateway_held g' \<subseteq> gateway_held g"]) (auto simp: gateway_held_def)

lemma gateway_event_held:
  assumes "\<forall>xs. e \<noteq> SubscribeCall xs"
  shows "gateway_held (gateway_do g e) \<subseteq> gateway_held g"
proof -
  have w: "gateway_held (waitForAuthenticated g) = gateway_held g" for g
    by (simp add: waitForAuthenticated_def resubscribe_held) (simp add: gateway_held_def)
  have o': "gateway_held (socket_onopen g) = gateway_held g" for g
    by (simp add: socket_onopen_def w Let_def split: option.split resolver.split) (simp add: gateway_held_def)
  have c: "gateway_held (handleConnected m g) = gateway_held g" for m g
    by (simp add: handleConnected_def resubscribes_held Let_def) (simp add: gateway_held_def)
  have m: "gateway_held (handleMessage raw g) \<subseteq> gateway_held g" for raw g
    using handleSubscribed_held [of _ g] c
    by (simp add: handleMessage_def split: sum.split ServerMessage.split) (simp add: gateway_held_def)
  have r: "gateway_held (run_callback cb g) = gateway_held g" for cb g
    by (cases cb) (simp_all add: gateway_held_def)
  have t: "gateway_held (timer_fires h g) = gateway_held g" for h
    by (simp add: timer_fires_def r split: option.split prod.split) (simp add: gateway_held_def)
  show ?thesis
    using assms m [of _ g] unsubscribe_held [of _ g] o' [of "set_readyState _ _ g"] t
    by (cases e) (simp_all add: gateway_held_def)
qed

subsection \<open>The demo source\<close>

lemma si_subs_outside [simp]:
  "si_subscribed (sim_emit es s) = si_subscribed s" "si_subscribed (sim_store f s) = si_subscribed s"
  "si_subscribed (sim_emitStatus st s) = si_subscribed s" "si_subscribed (sim_emitError c m s) = si_subscribed s"
  "si_subscribed (snd (prng s)) = si_subscribed s" "si_subscribed (sim_listen k ch s) = si_subscribed s"
  "si_subscribed (sim_timers h s) = si_subscribed s" "si_subscribed (snd (sim_arm cb ms ev s)) = si_subscribed s"
  by (simp_all add: sim_emit_def sim_store_def sim_emitStatus_def sim_emitError_def prng_def sim_listen_def sim_timers_def
      sim_arm_def Let_def case_prod_unfold split: channel.split)

lemma si_subs_ticks [simp]:
  "si_subscribed (emit_tick t s) = si_subscribed s" "si_subscribed (deliver t s) = si_subscribed s"
  "si_subscribed (answer_snapshot s x) = si_subscribed s" "si_subscribed (sampleHistory now s) = si_subscribed s"
  "si_subscribed (backfillAllSymbols k o' t' s) = si_subscribed s" "si_subscribed (sim_frame s) = si_subscribed s"
  "si_subscribed (simulateEntitlementChange u s) = si_subscribed s"
  "si_subscribed (stop_batches s) = si_subscribed s" "si_subscribed (start_batches s) = si_subscribed s"
  "si_subscribed (stop_clock s) = si_subscribed s" "si_subscribed (clearDropReconnectTimer s) = si_subscribed s"
proof -
  show e: "si_subscribed (emit_tick t s) = si_subscribed s"
    by (simp add: emit_tick_def case_prod_unfold Let_def)
  then show "si_subscribed (deliver t s) = si_subscribed s" by (simp add: deliver_def)
qed (simp_all add: answer_snapshot_def sampleHistory_def backfillAllSymbols_def sim_frame_def stop_batches_def start_batches_def
      stop_clock_def clearDropReconnectTimer_def simulateEntitlementChange_def case_prod_unfold Let_def split: option.split)

lemma si_subs_loops [simp]:
  "si_subscribed (drainDelayedQueue s) = si_subscribed s" "si_subscribed (drainSnapshotRequests s) = si_subscribed s"
  "si_subscribed ((generateOne ^^ n) s) = si_subscribed s"
proof -
  have d: "si_subscribed (drain_loop t q s) = si_subscribed s" for t q s by (induction t q s rule: drain_loop.induct) simp_all
  then show "si_subscribed (drainDelayedQueue s) = si_subscribed s" by (simp add: drainDelayedQueue_def)
  have "si_subscribed (foldl answer_snapshot s xs) = si_subscribed s" for s xs by (rule foldl_frame) simp
  then show "si_subscribed (drainSnapshotRequests s) = si_subscribed s" by (simp add: drainSnapshotRequests_def Let_def)
  have g: "si_subscribed (generate_for d r s) = si_subscribed s" for d r s
    by (simp add: generate_for_def Let_def case_prod_unfold prng_def)
  have "si_subscribed (generateOne s) = si_subscribed s" for s
    by (simp add: generateOne_def g Let_def case_prod_unfold split: sum.split option.split)
  then show "si_subscribed ((generateOne ^^ n) s) = si_subscribed s" by (induction n) simp_all
qed

lemma si_subs_sessions [simp]:
  "si_subscribed (ensureSessionFor off now s) = si_subscribed s" "si_subscribed (generateBatch off s) = si_subscribed s"
  "si_subscribed (sim_connect off s) = si_subscribed s" "si_subscribed (sim_disconnect s) = si_subscribed s"
  "si_subscribed (simulateDrop code s) = si_subscribed s" "si_subscribed (sim_getSnapshot x s) = si_subscribed s"
proof -
  show e: "si_subscribed (ensureSessionFor off now s) = si_subscribed s" for now s
    by (simp add: ensureSessionFor_def enter_session_def Let_def case_prod_unfold split: sum.split)
  show "si_subscribed (generateBatch off s) = si_subscribed s" "si_subscribed (sim_connect off s) = si_subscribed s"
    by (simp_all add: generateBatch_def sim_connect_def e Let_def case_prod_unfold)
qed (simp_all add: sim_disconnect_def simulateDrop_def sim_getSnapshot_def Let_def case_prod_unfold)

lemma sim_subscribe_known:
  "set (si_subscribed (sim_subscribe xs s)) = set (si_subscribed s) \<union> (set xs \<inter> {x. jget (si_runtimeBySymbol s) x \<noteq> None})"
proof (induction xs arbitrary: s)
  case (Cons x xs)
  define s1 where "s1 = (if jget (si_runtimeBySymbol s) x = None then sim_emitError UNKNOWN_SYMBOL (''Unknown symbol: '' @ x) s
       else s\<lparr>si_subscribed := sadd x (si_subscribed s)\<rparr>)"
  have "sim_subscribe (x # xs) s = sim_subscribe xs s1" by (simp add: sim_subscribe_def s1_def)
  moreover have "si_runtimeBySymbol s1 = si_runtimeBySymbol s" by (simp add: s1_def sim_emitError_def sim_emit_def Let_def)
  moreover have "set (si_subscribed s1) = set (si_subscribed s) \<union> ({x} \<inter> {x. jget (si_runtimeBySymbol s) x \<noteq> None})"
    by (auto simp: s1_def)
  ultimately show ?case using Cons.IH [of s1] by auto
qed (simp add: sim_subscribe_def)

definition simulated_known :: "SimulatedSource \<Rightarrow> string set" where
  "simulated_known s = {x. x \<noteq> '''' \<and> jget (si_runtimeBySymbol s) x \<noteq> None}"

interpretation simulated_follows: followed_symbols simulated_held sim_subscribe sim_unsubscribe simulated_known
  by unfold_locales (auto simp: simulated_held_def simulated_known_def sim_subscribe_known sim_unsubscribe_def)

lemma sim_event_held:
  assumes "\<forall>xs. e \<noteq> SimSubscribe xs"
  shows "simulated_held (sim_do off s e) \<subseteq> simulated_held s"
proof -
  have c: "si_subscribed (run_sim_callback off cb s) = si_subscribed s" for cb s by (cases cb) simp_all
  have h: "si_subscribed (snd (sim_getHistory off x s)) = si_subscribed s" for x
    by (simp add: sim_getHistory_def Let_def case_prod_unfold split: option.split)
  show ?thesis using assms simulated_follows.unfollow_held [of _ s]
    by (cases e) (auto simp: simulated_held_def c h split: option.split prod.split)
qed

subsection \<open>Either class\<close>

fun live_follow :: "string list \<Rightarrow> live_source \<Rightarrow> live_source" where
  "live_follow xs (LiveGateway g) = LiveGateway (subscribe xs g)"
| "live_follow xs (LiveSimulated s) = LiveSimulated (sim_subscribe xs s)"

fun live_unfollow :: "string list \<Rightarrow> live_source \<Rightarrow> live_source" where
  "live_unfollow xs (LiveGateway g) = LiveGateway (unsubscribe xs g)"
| "live_unfollow xs (LiveSimulated s) = LiveSimulated (sim_unsubscribe xs s)"

fun live_held :: "live_source \<Rightarrow> string set" where
  "live_held (LiveGateway g) = gateway_held g"
| "live_held (LiveSimulated s) = simulated_held s"

fun live_known :: "live_source \<Rightarrow> string set" where
  "live_known (LiveGateway g) = - {''''}"
| "live_known (LiveSimulated s) = simulated_known s"

interpretation live_follows: followed_symbols live_held live_follow live_unfollow live_known
proof
  fix xs s
  show "live_held (live_follow xs s) = live_held s \<union> (set xs \<inter> live_known s)" "live_held (live_unfollow xs s) = live_held s - set xs"
    using gateway_follows.follow_held gateway_follows.unfollow_held simulated_follows.follow_held simulated_follows.unfollow_held
    by (cases s; simp)+
qed

text \<open>What a component asks of the source; the demo source answers the instrument list at once.\<close>

datatype source_call =
    GetUniverse
  | Follow "string list"
  | Unfollow "string list"
  | GetSnapshot string
  | GetHistory string

fun live_call :: "build \<Rightarrow> live_source \<Rightarrow> source_call \<Rightarrow> live_source" where
  "live_call b s (Follow xs) = live_follow xs s"
| "live_call b s (Unfollow xs) = live_unfollow xs s"
| "live_call b (LiveGateway g) GetUniverse = LiveGateway (getUniverse g)"
| "live_call b (LiveSimulated s) GetUniverse = LiveSimulated s"
| "live_call b (LiveGateway g) (GetSnapshot x) = LiveGateway (getSnapshot x g)"
| "live_call b (LiveSimulated s) (GetSnapshot x) = LiveSimulated (sim_getSnapshot x s)"
| "live_call b (LiveGateway g) (GetHistory x) = LiveGateway (getHistory x g)"
| "live_call b (LiveSimulated s) (GetHistory x) = LiveSimulated (snd (sim_getHistory (bd_offset b) x s))"

lemma live_call_held:
  "live_held (live_call b s c) = (case c of Follow xs \<Rightarrow> live_held s \<union> (set xs \<inter> live_known s) | Unfollow xs \<Rightarrow> live_held s - set xs | _ \<Rightarrow> live_held s)"
proof (cases c)
  case (Follow xs)
  then show ?thesis using live_follows.follow_held [of xs s] by simp
next
  case (Unfollow xs)
  then show ?thesis using live_follows.unfollow_held [of xs s] by simp
next
  case GetUniverse
  then show ?thesis by (cases s) (simp_all add: gateway_held_def)
next
  case (GetSnapshot x)
  then show ?thesis by (cases s) (simp_all add: gateway_held_def simulated_held_def)
next
  case (GetHistory x)
  have "si_subscribed (snd (sim_getHistory off x s)) = si_subscribed s" for off s
    by (simp add: sim_getHistory_def Let_def case_prod_unfold split: option.split)
  then show ?thesis using GetHistory by (cases s) (simp_all add: gateway_held_def simulated_held_def)
qed

lemmas follow_laws = live_call_held live_follows.follow_held live_follows.unfollow_held

section \<open>useBoardUniverse\<close>

text \<open>The hook's state, its ref and the effect of its current attempt: whether that was cancelled, and
  whether its \<open>getUniverse\<close> is still unsettled. A leaving page is one whose effect was cancelled.\<close>

record board =
  bu_universe :: "SymbolDefinition list option"
  bu_universeFailed :: bool
  bu_sessionTrends :: "(string, number list) jmap"
  bu_subscribedRef :: "string list"
  bu_universeAttempt :: nat
  bu_cancelled :: bool
  bu_waiting :: bool

definition start_attempt :: "board \<Rightarrow> board \<times> source_call list" where
  "start_attempt b =
     (b\<lparr>bu_universeAttempt := bu_universeAttempt b + 1, bu_cancelled := False, bu_waiting := True\<rparr>, [GetUniverse])"

definition end_attempt :: "board \<Rightarrow> board \<times> source_call list" where
  "end_attempt b =
     (if bu_subscribedRef b = [] then (b\<lparr>bu_cancelled := True\<rparr>, [])
      else (b\<lparr>bu_cancelled := True, bu_subscribedRef := []\<rparr>, [Unfollow (bu_subscribedRef b)]))"

definition mount_board :: "nat \<Rightarrow> board \<times> source_call list" where
  "mount_board attempts =
     start_attempt \<lparr>bu_universe = None, bu_universeFailed = False, bu_sessionTrends = [], bu_subscribedRef = [],
       bu_universeAttempt = attempts, bu_cancelled = True, bu_waiting = False\<rparr>"

text \<open>\<open>getUniverse\<close> settles: with the list, or rejected.\<close>

definition universe_settled :: "nat \<Rightarrow> SymbolUniverseResponse option \<Rightarrow> board \<Rightarrow> board \<times> source_call list" where
  "universe_settled attempt answer b =
     (if attempt \<noteq> bu_universeAttempt b \<or> \<not> bu_waiting b then (b, [])
      else let b1 = b\<lparr>bu_waiting := False\<rparr>
           in if bu_cancelled b1 then (b1, [])
              else case answer of
                None \<Rightarrow> (b1\<lparr>bu_universeFailed := True\<rparr>, [])
              | Some response \<Rightarrow>
                  let symbols = map sd_symbol (ur_symbols response)
                  in (b1\<lparr>bu_subscribedRef := symbols, bu_universe := Some (ur_symbols response)\<rparr>,
                      Follow symbols # map GetSnapshot symbols @ map GetHistory symbols))"

text \<open>The histories, one result per symbol in order; a rejected one is \<open>None\<close>.\<close>

definition histories_settled :: "nat \<Rightarrow> SymbolHistoryResponse option list \<Rightarrow> board \<Rightarrow> board" where
  "histories_settled attempt results b =
     (if attempt \<noteq> bu_universeAttempt b \<or> bu_cancelled b then b
      else let trends = foldl (\<lambda>m (symbol, result).
                 case result of
                   None \<Rightarrow> m
                 | Some history \<Rightarrow>
                     if 1 < length (hr_points history) then jset symbol (map (\<lambda>point. toPlotValue (hp_p point)) (hr_points history)) m
                     else m) [] (zip (bu_subscribedRef b) results)
           in if trends = [] then b else b\<lparr>bu_sessionTrends := trends\<rparr>)"

definition retryUniverse :: "board \<Rightarrow> board \<times> source_call list" where
  "retryUniverse b =
     (if bu_cancelled b then (b, [])
      else let (b1, released) = end_attempt (b\<lparr>bu_universeFailed := False\<rparr>); (b2, asked) = start_attempt b1
           in (b2, released @ asked))"

definition leave_board :: "board \<Rightarrow> board \<times> source_call list" where
  "leave_board b = (if bu_cancelled b then (b, []) else end_attempt b)"

section \<open>The page\<close>

text \<open>The pane is there once a symbol has been opened; what it asks goes to the same source.\<close>

record board_page =
  bp_board :: board
  bp_pane :: "detail option"
  bp_source :: live_source

fun pane_call :: "source_request \<Rightarrow> source_call" where
  "pane_call (AskSnapshot x) = GetSnapshot x"
| "pane_call (AskSubscribe x) = Follow [x]"
| "pane_call (AskHistory x) = GetHistory x"
| "pane_call AskUniverse = GetUniverse"
| "pane_call (AskUnsubscribe x) = Unfollow [x]"

definition board_acts :: "build \<Rightarrow> board \<times> source_call list \<Rightarrow> board_page \<Rightarrow> board_page" where
  "board_acts bd r p = p\<lparr>bp_board := fst r, bp_source := foldl (live_call bd) (bp_source p) (snd r)\<rparr>"

text \<open>What the pane has asked since its last step.\<close>

definition pane_acts :: "build \<Rightarrow> nat \<Rightarrow> detail \<Rightarrow> board_page \<Rightarrow> board_page" where
  "pane_acts bd asked d p =
     p\<lparr>bp_pane := Some d, bp_source := foldl (live_call bd) (bp_source p) (map pane_call (drop asked (dq_requests d)))\<rparr>"

datatype page_event =
    UniverseSettled nat "SymbolUniverseResponse option"
  | HistoriesSettled nat "SymbolHistoryResponse option list"
  | RetryUniverse
  | OpenPane string
  | PaneDoes detail_event
  | LeavePage
  | EnterPage
  | SourceDoes shared_event
  | ManualRetry

text \<open>What happens at the source of itself: anything but a component's subscribing.\<close>

definition of_itself :: "shared_event \<Rightarrow> bool" where
  "of_itself e =
     (case e of
        OnGateway (SubscribeCall _) \<Rightarrow> False
      | OnGateway (UnsubscribeCall _) \<Rightarrow> False
      | OnSimulated (SimSubscribe _) \<Rightarrow> False
      | OnSimulated (SimUnsubscribe _) \<Rightarrow> False
      | _ \<Rightarrow> True)"

text \<open>The pane is a child route: it opens on a mounted board only and leaves with it, after it.\<close>

definition pane_does :: "browser \<Rightarrow> build \<Rightarrow> detail_event \<Rightarrow> board_page \<Rightarrow> board_page" where
  "pane_does br bd e p =
     (case bp_pane p of
        None \<Rightarrow> (case e of Navigate symbol \<Rightarrow> pane_acts bd 0 (new_detail symbol) p | _ \<Rightarrow> p)
      | Some d \<Rightarrow> pane_acts bd (length (dq_requests d)) (detail_do br d e) p)"

fun page_do :: "browser \<Rightarrow> build \<Rightarrow> board_page \<Rightarrow> page_event \<Rightarrow> board_page" where
  "page_do br bd p (UniverseSettled n answer) = board_acts bd (universe_settled n answer (bp_board p)) p"
| "page_do br bd p (HistoriesSettled n results) = board_acts bd (histories_settled n results (bp_board p), []) p"
| "page_do br bd p RetryUniverse = board_acts bd (retryUniverse (bp_board p)) p"
| "page_do br bd p (OpenPane symbol) = (if bu_cancelled (bp_board p) then p else pane_does br bd (Navigate symbol) p)"
| "page_do br bd p (PaneDoes e) = (case e of Navigate _ \<Rightarrow> p | _ \<Rightarrow> pane_does br bd e p)"
| "page_do br bd p LeavePage = pane_does br bd Leave (board_acts bd (leave_board (bp_board p)) p)"
| "page_do br bd p EnterPage =
     (if bu_cancelled (bp_board p) then board_acts bd (mount_board (bu_universeAttempt (bp_board p))) p else p)"
| "page_do br bd p (SourceDoes e) = (if of_itself e then p\<lparr>bp_source := live_do bd e (bp_source p)\<rparr> else p)"
| "page_do br bd p ManualRetry = p\<lparr>bp_source := live_connect bd (live_disconnect (bp_source p))\<rparr>"

definition open_page :: "build \<Rightarrow> live_source \<Rightarrow> board_page" where
  "open_page bd source =
     (let (b, calls) = mount_board 0 in \<lparr>bp_board = b, bp_pane = None, bp_source = foldl (live_call bd) source calls\<rparr>)"

definition page_run :: "browser \<Rightarrow> build \<Rightarrow> board_page \<Rightarrow> page_event list \<Rightarrow> board_page" where
  "page_run br bd p es = foldl (page_do br bd) p es"

section \<open>Nothing is followed that was not asked for\<close>

definition pane_symbols :: "detail option \<Rightarrow> string set" where
  "pane_symbols pane = (case pane of Some d \<Rightarrow> if dq_cancelled d then {} else {dq_symbol d} | None \<Rightarrow> {})"

definition page_ok :: "board_page \<Rightarrow> bool" where
  "page_ok p =
     (live_held (bp_source p) \<subseteq> set (bu_subscribedRef (bp_board p)) \<union> pane_symbols (bp_pane p) \<and>
      (bu_waiting (bp_board p) \<longrightarrow> bu_subscribedRef (bp_board p) = []) \<and>
      (bu_cancelled (bp_board p) \<longrightarrow> bu_subscribedRef (bp_board p) = [] \<and> pane_symbols (bp_pane p) = {}))"

lemma calls_held: "live_held (foldl (live_call bd) s (map GetSnapshot xs @ map GetHistory ys)) = live_held s"
proof -
  have "live_held (foldl (live_call bd) s cs) = live_held s" if "\<forall>c \<in> set cs. \<exists>x. c = GetSnapshot x \<or> c = GetHistory x" for cs s
    using that by (induction cs arbitrary: s) (auto simp: live_call_held)
  then show ?thesis by auto
qed

lemma of_itself_cases:
  "of_itself (OnGateway g) \<Longrightarrow> \<forall>xs. g \<noteq> SubscribeCall xs" "of_itself (OnSimulated e) \<Longrightarrow> \<forall>xs. e \<noteq> SimSubscribe xs"
  by (auto simp: of_itself_def)

lemma live_do_held: "of_itself e \<Longrightarrow> live_held (live_do b e s) \<subseteq> live_held s"
proof (cases s)
  case (LiveGateway g)
  then show "live_held (live_do b e s) \<subseteq> live_held s" if "of_itself e"
    using that of_itself_cases(1) gateway_event_held by (cases e) auto
next
  case (LiveSimulated s')
  then show "live_held (live_do b e s) \<subseteq> live_held s" if "of_itself e"
    using that of_itself_cases(2) sim_event_held by (cases e) auto
qed

lemma live_retry_held: "live_held (live_connect b (live_disconnect s)) = live_held s"
  by (cases s) (simp_all add: gateway_held_def simulated_held_def)

text \<open>A step of the pane follows at most the symbol it then shows, and lets go of the one it showed
  before.\<close>

lemma pane_step_held:
  fixes d e br
  defines "d' \<equiv> detail_do br d e"
  shows "live_held (bp_source (pane_acts bd (length (dq_requests d)) d' p)) \<subseteq>
    (live_held (bp_source p) - (pane_symbols (Some d) - pane_symbols (Some d'))) \<union> pane_symbols (Some d')"
proof (cases "navigates e \<or> e = Leave")
  case False
  then show ?thesis using requests_frame [of e br d] by (auto simp: d'_def pane_acts_def pane_symbols_def)
next
  case True
  then consider (left) "e = Leave" | (moved) x where "e = Navigate x"
    by (auto simp: navigates_def split: detail_event.splits)
  then show ?thesis
  proof cases
    case left
    then show ?thesis by (auto simp: d'_def leave_def unmount_effect_def pane_acts_def pane_symbols_def follow_laws)
  next
    case moved
    then show ?thesis
      by (auto simp: d'_def navigate_def mount_effect_def unmount_effect_def pane_acts_def pane_symbols_def follow_laws)
  qed
qed

lemma pane_open_held:
  "live_held (bp_source (pane_acts bd 0 (new_detail x) p)) \<subseteq> live_held (bp_source p) \<union> pane_symbols (Some (new_detail x))"
  by (auto simp: new_detail_def mount_effect_def pane_acts_def pane_symbols_def follow_laws)

lemma board_acts_simps [simp]:
  "bp_board (board_acts bd r p) = fst r" "bp_pane (board_acts bd r p) = bp_pane p" "bp_board (pane_acts bd n d p) = bp_board p"
  "bp_pane (pane_acts bd n d p) = Some d" "bp_source (board_acts bd r p) = foldl (live_call bd) (bp_source p) (snd r)"
  by (simp_all add: board_acts_def pane_acts_def)

lemma page_ok_pane_step:
  assumes "page_ok p" and "bp_pane p = Some d" and "bu_cancelled (bp_board p) \<longrightarrow> pane_symbols (Some (detail_do br d e)) = {}"
  shows "page_ok (pane_acts bd (length (dq_requests d)) (detail_do br d e) p)"
  using assms pane_step_held [of bd d br e p] by (auto simp: page_ok_def)

lemma page_ok_pane:
  assumes "page_ok p" and "bu_cancelled (bp_board p) \<longrightarrow> \<not> navigates e"
  shows "page_ok (pane_does br bd e p)"
proof (cases "bp_pane p")
  case None
  then show ?thesis
  proof (cases "navigates e")
    case True
    then obtain x where e: "e = Navigate x" by (auto simp: navigates_def split: detail_event.splits)
    show ?thesis using None e assms True pane_open_held [of bd x p]
      by (auto simp: pane_does_def page_ok_def pane_symbols_def [of None])
  next
    case False
    then show ?thesis using None assms by (auto simp: pane_does_def navigates_def split: detail_event.splits)
  qed
next
  case (Some d)
  have "pane_symbols (Some (detail_do br d e)) = {}" if "pane_symbols (Some d) = {}" "\<not> navigates e"
    using that requests_frame [of e br d] by (cases "e = Leave") (auto simp: pane_symbols_def leave_def unmount_effect_def split: if_splits)
  then have "bu_cancelled (bp_board p) \<longrightarrow> pane_symbols (Some (detail_do br d e)) = {}"
    using assms Some by (auto simp: page_ok_def)
  then show ?thesis using page_ok_pane_step [OF assms(1) Some] Some by (simp add: pane_does_def)
qed

lemma pane_left: "pane_symbols (bp_pane (pane_does br bd Leave p)) = {}"
  by (cases "bp_pane p") (auto simp: pane_does_def pane_symbols_def leave_def unmount_effect_def)

lemma page_ok_end:
  assumes "page_ok p" and "end_attempt (bp_board p) = r"
  shows "live_held (foldl (live_call bd) (bp_source p) (snd r)) \<subseteq> pane_symbols (bp_pane p) \<and> bu_subscribedRef (fst r) = [] \<and>
    bu_cancelled (fst r)"
  using assms by (auto simp: end_attempt_def page_ok_def follow_laws split: if_splits)

lemma page_ok_step:
  assumes "page_ok p"
  shows "page_ok (page_do br bd p e)"
proof (cases e)
  case (UniverseSettled n answer)
  define b where "b = bp_board p"
  have b: "live_held (bp_source p) \<subseteq> set (bu_subscribedRef b) \<union> pane_symbols (bp_pane p)"
    "bu_waiting b \<longrightarrow> bu_subscribedRef b = []"
    "bu_cancelled b \<longrightarrow> bu_subscribedRef b = [] \<and> pane_symbols (bp_pane p) = {}"
    using assms by (simp_all add: page_ok_def b_def)
  consider (stale) "n \<noteq> bu_universeAttempt b \<or> \<not> bu_waiting b"
    | (cancelled) "n = bu_universeAttempt b" "bu_waiting b" "bu_cancelled b"
    | (rejected) "n = bu_universeAttempt b" "bu_waiting b" "\<not> bu_cancelled b" "answer = None"
    | (arrived) response where "n = bu_universeAttempt b" "bu_waiting b" "\<not> bu_cancelled b" "answer = Some response" by blast
  then show ?thesis
  proof cases
    case arrived
    define xs where "xs = map sd_symbol (ur_symbols response)"
    have "live_held (foldl (live_call bd) (live_follow xs (bp_source p)) (map GetSnapshot xs @ map GetHistory xs)) \<subseteq>
        live_held (bp_source p) \<union> set xs"
      unfolding calls_held by (auto simp: live_follows.follow_held)
    then have "live_held (foldl (live_call bd) (live_follow xs (bp_source p)) (map GetSnapshot xs @ map GetHistory xs)) \<subseteq>
        set xs \<union> pane_symbols (bp_pane p)" using b(1,2) arrived(2) by auto
    moreover have "universe_settled n answer b = (b\<lparr>bu_waiting := False, bu_subscribedRef := xs, bu_universe := Some (ur_symbols response)\<rparr>,
        Follow xs # map GetSnapshot xs @ map GetHistory xs)"
      using arrived by (simp add: universe_settled_def Let_def xs_def)
    ultimately show ?thesis using arrived(3)
      by (simp add: UniverseSettled page_ok_def b_def [symmetric] del: foldl_append)
  qed (use b in \<open>simp_all add: UniverseSettled page_ok_def b_def [symmetric] universe_settled_def Let_def\<close>)
next
  case (HistoriesSettled n results)
  then show ?thesis using assms by (simp add: page_ok_def histories_settled_def Let_def)
next
  case RetryUniverse
  show ?thesis
  proof (cases "bu_cancelled (bp_board p)")
    case False
    define q where "q = p\<lparr>bp_board := (bp_board p)\<lparr>bu_universeFailed := False\<rparr>\<rparr>"
    have "page_ok q" using assms by (simp add: q_def page_ok_def)
    from page_ok_end [OF this refl, of bd] False show ?thesis
      by (auto simp: RetryUniverse q_def page_ok_def retryUniverse_def start_attempt_def case_prod_unfold Let_def live_call_held)
  qed (use assms in \<open>auto simp: RetryUniverse page_ok_def retryUniverse_def\<close>)
next
  case LeavePage
  define q where "q = board_acts bd (leave_board (bp_board p)) p"
  have q: "live_held (bp_source q) \<subseteq> pane_symbols (bp_pane q) \<and> bu_subscribedRef (bp_board q) = [] \<and> bu_cancelled (bp_board q)"
    using page_ok_end [OF assms refl, of bd] assms by (auto simp: q_def leave_board_def page_ok_def)
  have "live_held (bp_source (pane_does br bd Leave q)) = {}"
  proof (cases "bp_pane q")
    case (Some d)
    have "live_held (bp_source (pane_does br bd Leave q)) \<subseteq> pane_symbols (Some (detail_do br d Leave))"
      using pane_step_held [of bd d br Leave q] q Some by (auto simp: pane_does_def)
    then show ?thesis using pane_left [of br bd q] Some by (simp add: pane_does_def)
  qed (use q in \<open>simp add: pane_does_def pane_symbols_def\<close>)
  moreover have "bp_board (pane_does br bd Leave q) = bp_board q" by (cases "bp_pane q") (simp_all add: pane_does_def)
  ultimately show ?thesis using q pane_left [of br bd q] LeavePage
    by (simp add: page_ok_def q_def [symmetric] leave_board_def q_def)
next
  case EnterPage
  then show ?thesis using assms by (auto simp: page_ok_def mount_board_def start_attempt_def live_call_held)
next
  case (SourceDoes ev)
  then show ?thesis using assms live_do_held [of ev bd "bp_source p"] by (auto simp: page_ok_def)
next
  case ManualRetry
  then show ?thesis using assms by (simp add: page_ok_def live_retry_held)
next
  case (OpenPane x)
  then show ?thesis using assms page_ok_pane [OF assms, of "Navigate x" br bd] by simp
next
  case (PaneDoes ev)
  then show ?thesis using assms page_ok_pane [OF assms, of ev br bd] by (cases ev) (simp_all add: navigates_def)
qed

lemma page_ok_run: "page_ok p \<Longrightarrow> page_ok (page_run br bd p es)"
  unfolding page_run_def by (rule foldl_invariant [where P = page_ok]) (use page_ok_step in blast)+

lemma page_ok_open: "live_held source = {} \<Longrightarrow> page_ok (open_page bd source)"
  by (simp add: open_page_def mount_board_def start_attempt_def page_ok_def pane_symbols_def live_call_held)

text \<open>Claim C12: the board page asks for no more than it shows: whatever happens on it and at the source, the
  source follows at most the board's instruments and the pane's symbol; when the page is left it
  follows nothing, though retries, switches of symbol and answers that come late all happened.\<close>

theorem page_releases_everything:
  assumes "live_held source = {}"
  shows "live_held (bp_source (page_run br bd (open_page bd source) es)) \<subseteq>
      set (bu_subscribedRef (bp_board (page_run br bd (open_page bd source) es))) \<union>
      pane_symbols (bp_pane (page_run br bd (open_page bd source) es)) \<and>
    live_held (bp_source (page_run br bd (open_page bd source) (es @ [LeavePage]))) = {}"
proof -
  define p where "p = page_run br bd (open_page bd source) es"
  have ok: "page_ok p" unfolding p_def by (rule page_ok_run) (rule page_ok_open [OF assms])
  have next_p: "page_run br bd (open_page bd source) (es @ [LeavePage]) = page_do br bd p LeavePage"
    by (simp add: page_run_def p_def)
  have "page_ok (page_do br bd p LeavePage)" by (rule page_ok_step [OF ok])
  moreover have "bu_cancelled (bp_board (page_do br bd p LeavePage))"
    by (cases "bp_pane p") (auto simp: pane_does_def leave_board_def end_attempt_def)
  ultimately have "live_held (bp_source (page_do br bd p LeavePage)) = {}" by (auto simp: page_ok_def)
  then show ?thesis using ok unfolding next_p p_def [symmetric] by (simp add: page_ok_def)
qed

definition demo_build :: build where
  "demo_build = \<lparr>bd_offset = (\<lambda>_. 7200000), bd_env = (\<lambda>_. None), bd_production = False, bd_symbols = []\<rparr>"

definition demo_list :: SymbolUniverseResponse where
  "demo_list = \<lparr>ur_asOf = ''2026-07-14T10:00:00.000Z'', ur_simulated = False,
     ur_symbols = map (\<lambda>x. \<lparr>sd_symbol = x, sd_name = x, sd_currency = ''EGP'', sd_tickSize = ''0.01'',
       sd_lotSize = Fin 1, sd_referencePrice = ''10.00''\<rparr>) [''COMI'', ''ABUK'']\<rparr>"

abbreviation demo_page :: "page_event list \<Rightarrow> board_page" where
  "demo_page \<equiv> page_run demo_browser demo_build (open_page demo_build (LiveGateway demo_gateway))"

theorem page_releases_everything_witness:
  "live_held (bp_source (demo_page [UniverseSettled 1 (Some demo_list), OpenPane ''ABUK''])) = {''COMI'', ''ABUK''} \<and>
   live_held (bp_source (demo_page ([UniverseSettled 1 (Some demo_list), OpenPane ''ABUK''] @ [LeavePage]))) = {}"
proof -
  have "live_held (LiveGateway demo_gateway) = {}" by code_simp
  from page_releases_everything [OF this, of demo_browser demo_build "[UniverseSettled 1 (Some demo_list), OpenPane ''ABUK'']"]
  have "live_held (bp_source (demo_page ([UniverseSettled 1 (Some demo_list), OpenPane ''ABUK''] @ [LeavePage]))) = {}" by blast
  moreover have "live_held (bp_source (demo_page [UniverseSettled 1 (Some demo_list), OpenPane ''ABUK''])) = {''COMI'', ''ABUK''}"
    by code_simp
  ultimately show ?thesis by simp
qed

section \<open>The pane takes its symbol along\<close>

text \<open>Nothing that would ask for the symbol again, nor anything at the board's own list.\<close>

definition leaves_alone :: "string \<Rightarrow> page_event \<Rightarrow> bool" where
  "leaves_alone symbol e =
     (case e of
        OpenPane x \<Rightarrow> x \<noteq> symbol
      | PaneDoes _ \<Rightarrow> True
      | HistoriesSettled _ _ \<Rightarrow> True
      | SourceDoes _ \<Rightarrow> True
      | ManualRetry \<Rightarrow> True
      | _ \<Rightarrow> False)"

definition let_go :: "string \<Rightarrow> board_page \<Rightarrow> bool" where
  "let_go symbol p = (symbol \<notin> live_held (bp_source p) \<and> symbol \<notin> pane_symbols (bp_pane p))"

lemma pane_elsewhere:
  assumes "e \<noteq> Navigate symbol" and "bp_pane p = Some d" and "symbol \<notin> pane_symbols (Some d)"
  shows "symbol \<notin> pane_symbols (Some (detail_do br d e))"
proof (cases "navigates e \<or> e = Leave")
  case False
  then show ?thesis using assms requests_frame [of e br d] by (auto simp: pane_symbols_def)
next
  case True
  then show ?thesis using assms
    by (auto simp: navigates_def pane_symbols_def navigate_def mount_effect_def leave_def unmount_effect_def split: detail_event.splits if_splits)
qed

lemma let_go_pane:
  assumes "let_go symbol p" and "e \<noteq> Navigate symbol"
  shows "let_go symbol (pane_does br bd e p)"
proof (cases "bp_pane p")
  case None
  have "symbol \<notin> pane_symbols (Some (new_detail x))" if "e = Navigate x" for x
    using that assms(2) by (auto simp: pane_symbols_def new_detail_def mount_effect_def)
  then show ?thesis using None assms pane_open_held [of bd _ p]
    by (fastforce simp: pane_does_def let_go_def split: detail_event.splits)
next
  case (Some d)
  then show ?thesis using assms pane_elsewhere [OF assms(2) Some, of br] pane_step_held [of bd d br e p]
    by (auto simp: pane_does_def let_go_def)
qed

lemma let_go_step:
  assumes "let_go symbol p" and "leaves_alone symbol e"
  shows "let_go symbol (page_do br bd p e) \<and> bu_universe (bp_board (page_do br bd p e)) = bu_universe (bp_board p) \<and>
    bu_subscribedRef (bp_board (page_do br bd p e)) = bu_subscribedRef (bp_board p)"
proof -
  have board: "bp_board (pane_does br bd x q) = bp_board q" for x q
    by (cases "bp_pane q") (auto simp: pane_does_def split: detail_event.split)
  show ?thesis
  proof (cases e)
    case (OpenPane x)
    then show ?thesis using assms let_go_pane [OF assms(1), of "Navigate x" br bd] by (simp add: board leaves_alone_def)
  next
    case (PaneDoes x)
    then show ?thesis using assms let_go_pane [OF assms(1), of x br bd] by (cases x) (simp_all add: board)
  next
    case (HistoriesSettled n results)
    then show ?thesis using assms by (simp add: histories_settled_def let_go_def Let_def)
  next
    case (SourceDoes x)
    then show ?thesis using assms live_do_held [of x bd "bp_source p"] by (auto simp: let_go_def)
  next
    case ManualRetry
    then show ?thesis using assms by (simp add: let_go_def live_retry_held)
  qed (use assms in \<open>simp_all add: leaves_alone_def\<close>)
qed

lemma let_go_run:
  assumes "let_go symbol p" and "list_all (leaves_alone symbol) es"
  shows "let_go symbol (page_run br bd p es) \<and> bu_universe (bp_board (page_run br bd p es)) = bu_universe (bp_board p) \<and>
    bu_subscribedRef (bp_board (page_run br bd p es)) = bu_subscribedRef (bp_board p)"
  using assms
proof (induction es arbitrary: p)
  case (Cons e es)
  have step: "let_go symbol (page_do br bd p e)" "bu_universe (bp_board (page_do br bd p e)) = bu_universe (bp_board p)"
    "bu_subscribedRef (bp_board (page_do br bd p e)) = bu_subscribedRef (bp_board p)"
    using let_go_step [of symbol p e br bd] Cons.prems by simp_all
  have "page_run br bd p (e # es) = page_run br bd (page_do br bd p e) es" by (simp add: page_run_def)
  then show ?case using Cons.IH [OF step(1)] Cons.prems step by simp
qed (simp add: page_run_def)

text \<open>Claim C10: closing the pane on a symbol, or switching it to another, takes the symbol away from the
  board as well: the board still lists it and counts it among the symbols it is subscribed to, but
  the source follows it no longer, through manual retries and new connections, until the pane is
  opened on it again; the demo source then passes over every tick of it, so its row stands still.\<close>

theorem closing_pane_freezes_row:
  assumes "bp_pane p = Some d" and "dq_symbol d = symbol" and "\<not> dq_cancelled d" and "\<not> bu_cancelled (bp_board p)"
    and "closing = PaneDoes Leave \<or> (\<exists>x. closing = OpenPane x \<and> x \<noteq> symbol)"
    and "list_all (leaves_alone symbol) later" and "symbol \<noteq> ''''"
  shows "symbol \<notin> live_held (bp_source (page_run br bd p (closing # later))) \<and>
    bu_universe (bp_board (page_run br bd p (closing # later))) = bu_universe (bp_board p) \<and>
    bu_subscribedRef (bp_board (page_run br bd p (closing # later))) = bu_subscribedRef (bp_board p) \<and>
    (\<forall>s tick. bp_source (page_run br bd p (closing # later)) = LiveSimulated s \<longrightarrow> tk_s tick = symbol \<longrightarrow> emit_tick tick s = s)"
proof -
  have "\<exists>e. page_do br bd p closing = pane_acts bd (length (dq_requests d)) (detail_do br d e) p \<and>
      symbol \<notin> pane_symbols (Some (detail_do br d e))"
    using assms(5)
  proof
    assume "closing = PaneDoes Leave"
    then show ?thesis using assms(1)
      by (intro exI [of _ Leave]) (simp add: pane_does_def pane_symbols_def leave_def unmount_effect_def)
  next
    assume "\<exists>x. closing = OpenPane x \<and> x \<noteq> symbol"
    then obtain x where x: "closing = OpenPane x" "x \<noteq> symbol" by blast
    have "dq_symbol (detail_do br d (Navigate x)) = x"
      by (simp add: navigate_def mount_effect_def)
    then show ?thesis using x assms(1,4)
      by (intro exI [of _ "Navigate x"]) (simp add: pane_does_def pane_symbols_def)
  qed
  then obtain e where do_it: "page_do br bd p closing = pane_acts bd (length (dq_requests d)) (detail_do br d e) p"
    and gone: "symbol \<notin> pane_symbols (Some (detail_do br d e))" by blast
  have "symbol \<in> pane_symbols (Some d)" using assms(2,3) by (simp add: pane_symbols_def)
  then have "let_go symbol (page_do br bd p closing)"
    using gone pane_step_held [of bd d br e p] by (auto simp: let_go_def do_it)
  from let_go_run [OF this assms(6), of br bd]
  have run: "let_go symbol (page_run br bd p (closing # later)) \<and>
      bu_universe (bp_board (page_run br bd p (closing # later))) = bu_universe (bp_board p) \<and>
      bu_subscribedRef (bp_board (page_run br bd p (closing # later))) = bu_subscribedRef (bp_board p)"
    by (simp add: page_run_def do_it)
  then have "emit_tick tick s = s" if "bp_source (page_run br bd p (closing # later)) = LiveSimulated s" "tk_s tick = symbol" for s tick
    using that assms(7) by (simp add: let_go_def simulated_held_def emit_tick_def)
  then show ?thesis using run by (simp add: let_go_def)
qed

theorem closing_pane_freezes_row_witness:
  "live_held (bp_source (demo_page [UniverseSettled 1 (Some demo_list), OpenPane ''ABUK''])) = {''COMI'', ''ABUK''} \<and>
   ''ABUK'' \<notin> live_held (bp_source (demo_page ([UniverseSettled 1 (Some demo_list), OpenPane ''ABUK''] @ [PaneDoes Leave, ManualRetry]))) \<and>
   bu_subscribedRef (bp_board (demo_page ([UniverseSettled 1 (Some demo_list), OpenPane ''ABUK''] @ [PaneDoes Leave, ManualRetry]))) = [''COMI'', ''ABUK'']"
proof -
  define p where "p = demo_page [UniverseSettled 1 (Some demo_list), OpenPane ''ABUK'']"
  define d where "d = the (bp_pane p)"
  have d: "bp_pane p = Some d" "dq_symbol d = ''ABUK''" "\<not> dq_cancelled d" "\<not> bu_cancelled (bp_board p)" and ref: "bu_subscribedRef (bp_board p) = [''COMI'', ''ABUK'']"
    unfolding d_def p_def by code_simp+
  have "''ABUK'' \<notin> live_held (bp_source (page_run demo_browser demo_build p [PaneDoes Leave, ManualRetry])) \<and>
    bu_subscribedRef (bp_board (page_run demo_browser demo_build p [PaneDoes Leave, ManualRetry])) = [''COMI'', ''ABUK'']"
    using closing_pane_freezes_row [OF d, of "PaneDoes Leave" "[ManualRetry]" demo_browser demo_build] by (simp add: leaves_alone_def ref)
  moreover have "demo_page ([UniverseSettled 1 (Some demo_list), OpenPane ''ABUK''] @ [PaneDoes Leave, ManualRetry]) =
      page_run demo_browser demo_build p [PaneDoes Leave, ManualRetry]"
    by (simp add: p_def page_run_def)
  moreover have "live_held (bp_source p) = {''COMI'', ''ABUK''}" unfolding p_def by code_simp
  ultimately show ?thesis by (simp add: p_def)
qed

end
