(* ===== verification/Market_Hours.thy ===== *)
theory Market_Hours
  imports Calendar Js_Timers
begin

text \<open>
  The market's status as the pages show it (src/client/Tckr.MarketWatch/src/components/useMarketStatus.ts):
  the state, the poll and the timer that wakes at the next bell, over the event loop's timers. The
  hook lives as long as its page; an effect runs at once after the state it depends on changes.

  The lemmas: a status of the calendar stays right until the bell it names, and so the status shown
  is the calendar's at every moment, but for a few milliseconds after a bell.
\<close>

section \<open>A status holds until its bell\<close>

fun nextTransitionAt :: "MarketStatus \<Rightarrow> int" where
  "nextTransitionAt (Open _ _ sessionCloseAt) = sessionCloseAt"
| "nextTransitionAt (Closed _ _ _ nextOpenAt) = nextOpenAt"

lemma week_gap: "trading p \<Longrightarrow> trading q \<Longrightarrow> p < q \<Longrightarrow> (\<And>r. p < r \<Longrightarrow> r < q \<Longrightarrow> \<not> trading r) \<Longrightarrow> q \<le> p + 3"
proof (rule ccontr)
  assume "trading p" and none: "\<And>r. p < r \<Longrightarrow> r < q \<Longrightarrow> \<not> trading r" and "\<not> q \<le> p + 3"
  then have "\<not> trading (p + 1)" "\<not> trading (p + 2)" "\<not> trading (p + 3)" by simp_all
  then show False using \<open>trading p\<close> unfolding trading_iff by presburger
qed

text \<open>The session a status names, and the day of the next one if it is closed.\<close>

definition status_days :: "(int \<Rightarrow> int) \<Rightarrow> int \<Rightarrow> MarketStatus \<Rightarrow> bool" where
  "status_days D now st =
     (\<exists>p q. trading p \<and> trading q \<and> p < q \<and> (\<forall>r. p < r \<and> r < q \<longrightarrow> \<not> trading r) \<and>
        (st = Open (key_of p) (wall D p 36000000) (wall D p 52200000) \<and> wall D p 36000000 \<le> now \<and> now < wall D p 52200000 \<or>
         st = Closed (key_of p) (wall D p 36000000) (wall D p 52200000) (wall D q 36000000) \<and>
           wall D p 52200000 \<le> now \<and> now < wall D q 36000000))"

lemma status_daysI:
  assumes "trading p" "trading q" "p < q" "\<forall>r. p < r \<and> r < q \<longrightarrow> \<not> trading r"
  shows "wall D p 36000000 \<le> now \<Longrightarrow> now < wall D p 52200000 \<Longrightarrow>
      status_days D now (Open (key_of p) (wall D p 36000000) (wall D p 52200000))"
    and "wall D p 52200000 \<le> now \<Longrightarrow> now < wall D q 36000000 \<Longrightarrow>
      status_days D now (Closed (key_of p) (wall D p 36000000) (wall D p 52200000) (wall D q 36000000))"
  unfolding status_days_def by (rule exI [of _ p], rule exI [of _ q], use assms in simp)+

lemma status_days_now:
  assumes "cairo_zone off D" and "0 \<le> now"
  shows "\<exists>st. getMarketStatus off now = Inr st \<and> status_days D now st"
proof -
  define n where "n = (now + off now) div MS_DAY"
  obtain st where st: "getMarketStatus off now = Inr st" and right: "status_right D now n ((now + off now) mod MS_DAY) st"
    unfolding n_def using market_status_right [OF assms] by blast
  have "status_days D now st"
  proof (cases st)
    case (Open k a b)
    then have o': "trading n" "k = key_of n" "a = wall D n 36000000" "b = wall D n 52200000" "a \<le> now" "now < b"
      using right by (simp_all add: status_right_def)
    have q: "trading (next_trading n)" "n < next_trading n" "\<forall>r. n < r \<and> r < next_trading n \<longrightarrow> \<not> trading r"
      using next_trading_props [of n] by blast+
    show ?thesis unfolding Open o'(2-4) using status_daysI(1) [OF o'(1) q] o'(3-6) by simp
  next
    case (Closed k a b nxt)
    then obtain p q where c: "trading p" "trading q" "p < q" "\<forall>r. p < r \<and> r < q \<longrightarrow> \<not> trading r"
      and f: "k = key_of p" "a = wall D p 36000000" "b = wall D p 52200000" "nxt = wall D q 36000000" "b \<le> now" "now < nxt"
      using right by (auto simp: status_right_def)
    show ?thesis unfolding Closed f(1-4) using status_daysI(2) [OF c] f(3-6) by simp
  qed
  then show ?thesis using st by blast
qed

lemma wall_mono: "cairo_zone off D \<Longrightarrow> w < v \<Longrightarrow> wall D n w < wall D n v"
  by (simp add: wall_def)

lemma wall_le:
  assumes "cairo_zone off D" and "m \<le> n" and "0 \<le> w" "w < 72000000" "14400000 \<le> v" "w \<le> v"
  shows "wall D m w \<le> wall D n v"
  using wall_order [OF assms(1), of m n w v] assms(2-) by (cases "m = n") (auto simp: wall_def)

text \<open>Two statuses that hold at once are the same.\<close>

lemma status_days_unique:
  assumes z: "cairo_zone off D" and "status_days D now st" and "status_days D now' st'"
    and "now \<le> now'" "now' < nextTransitionAt st"
  shows "st' = st"
proof -
  obtain p q where a: "trading p" "trading q" "p < q" "\<forall>r. p < r \<and> r < q \<longrightarrow> \<not> trading r"
    "st = Open (key_of p) (wall D p 36000000) (wall D p 52200000) \<and> wall D p 36000000 \<le> now \<and> now < wall D p 52200000 \<or>
     st = Closed (key_of p) (wall D p 36000000) (wall D p 52200000) (wall D q 36000000) \<and> wall D p 52200000 \<le> now \<and> now < wall D q 36000000"
    using assms(2) unfolding status_days_def by blast
  obtain p' q' where b: "trading p'" "trading q'" "p' < q'" "\<forall>r. p' < r \<and> r < q' \<longrightarrow> \<not> trading r"
    "st' = Open (key_of p') (wall D p' 36000000) (wall D p' 52200000) \<and> wall D p' 36000000 \<le> now' \<and> now' < wall D p' 52200000 \<or>
     st' = Closed (key_of p') (wall D p' 36000000) (wall D p' 52200000) (wall D q' 36000000) \<and> wall D p' 52200000 \<le> now' \<and> now' < wall D q' 36000000"
    using assms(3) unfolding status_days_def by blast
  have at_p: "wall D p 36000000 \<le> now'" using a(5) assms(4) wall_mono [OF z, of 36000000 52200000 p] by auto
  have before_q: "now' < wall D q 36000000"
    using a(3,5) assms(5) wall_order [OF z, of p q 52200000 36000000] by auto
  have at_p': "wall D p' 36000000 \<le> now'" "now' < wall D q' 36000000"
    using b(3,5) wall_mono [OF z, of 36000000 52200000 p'] wall_order [OF z, of p' q' 52200000 36000000] by auto
  have "\<not> p < p'"
  proof
    assume "p < p'"
    then have "q \<le> p'" using a(4) b(1) by (meson not_less)
    then have "wall D q 36000000 \<le> wall D p' 36000000" by (intro wall_le [OF z]) simp_all
    then show False using before_q at_p'(1) by simp
  qed
  moreover have "\<not> p' < p"
  proof
    assume "p' < p"
    then have "q' \<le> p" using b(4) a(1) by (meson not_less)
    then have "wall D q' 36000000 \<le> wall D p 36000000" by (intro wall_le [OF z]) simp_all
    then show False using at_p at_p'(2) by simp
  qed
  ultimately have pp: "p' = p" by simp
  have "\<not> q < q'" using a(2,3) b(4) pp by blast
  moreover have "\<not> q' < q" using b(2,3) a(4) pp by blast
  ultimately have "q' = q" by simp
  then show ?thesis using a(5) b(5) assms(4,5) pp by auto
qed

lemma status_until_bell:
  assumes "cairo_zone off D" and "0 \<le> now" and "getMarketStatus off now = Inr st" and "now \<le> u" "u < nextTransitionAt st"
  shows "getMarketStatus off u = Inr st"
proof -
  have "status_days D now st" using status_days_now [OF assms(1,2)] assms(3) by auto
  moreover obtain st' where "getMarketStatus off u = Inr st'" "status_days D u st'"
    using status_days_now [OF assms(1), of u] assms(2,4) by auto
  ultimately show ?thesis using status_days_unique [OF assms(1)] assms(4,5) by metis
qed

text \<open>The next bell is ahead, and never further than a few days.\<close>

lemma bell_ahead:
  assumes "cairo_zone off D" and "0 \<le> now" and "getMarketStatus off now = Inr st"
  shows "now < nextTransitionAt st" "nextTransitionAt st < now + 500000000"
proof -
  obtain p q where a: "trading p" "trading q" "p < q" "\<forall>r. p < r \<and> r < q \<longrightarrow> \<not> trading r"
    "st = Open (key_of p) (wall D p 36000000) (wall D p 52200000) \<and> wall D p 36000000 \<le> now \<and> now < wall D p 52200000 \<or>
     st = Closed (key_of p) (wall D p 36000000) (wall D p 52200000) (wall D q 36000000) \<and> wall D p 52200000 \<le> now \<and> now < wall D q 36000000"
    using status_days_now [OF assms(1,2)] assms(3) unfolding status_days_def by auto
  have q: "q \<le> p + 3" using a(1-4) by (intro week_gap) auto
  have D: "D p = 7200000 \<or> D p = 10800000" "D q = 7200000 \<or> D q = 10800000" using zone_cases(2) [OF assms(1)] by blast+
  have "q * MS_DAY \<le> (p + 3) * MS_DAY" using q by (simp add: MS_DAY_def)
  then have "wall D q 36000000 < wall D p 52200000 + 300000000" using D by (auto simp: wall_def MS_DAY_def)
  then show "now < nextTransitionAt st" "nextTransitionAt st < now + 500000000"
    using a(5) by (auto simp: wall_def)
qed

section \<open>The hook\<close>

definition MARKET_STATUS_REFRESH_MS :: rat where
  "MARKET_STATUS_REFRESH_MS = 30000"

definition MAX_TIMEOUT_MS :: rat where
  "MAX_TIMEOUT_MS = 2147483647"

datatype hours_callback = CbPoll | CbWake

record hours =
  hr_status :: MarketStatus
  hr_poll :: nat
  hr_wake :: nat
  hr_timers :: "hours_callback timers"

definition wake_delay :: "int \<Rightarrow> int \<Rightarrow> rat" where
  "wake_delay transition now = min (of_int (max 0 (transition - now) + 5)) MAX_TIMEOUT_MS"

definition date_of :: "hours_callback timers \<Rightarrow> int" where
  "date_of tm = \<lfloor>tm_now tm\<rfloor>"

definition useMarketStatus :: "(int \<Rightarrow> int) \<Rightarrow> rat \<Rightarrow> hours exn" where
  "useMarketStatus off now =
     (let tm = start_timers now
      in bindE (getMarketStatus off (date_of tm)) (\<lambda>status.
        let (poll, tm1) = setInterval tm CbPoll MARKET_STATUS_REFRESH_MS;
            (wake, tm2) = setTimeout tm1 CbWake (wake_delay (nextTransitionAt status) (date_of tm1))
        in Inr \<lparr>hr_status = status, hr_poll = poll, hr_wake = wake, hr_timers = tm2\<rparr>))"

text \<open>\<open>setStatus\<close>, and the second effect when the next transition has changed.\<close>

definition setStatus :: "MarketStatus \<Rightarrow> hours \<Rightarrow> hours" where
  "setStatus status h =
     (if nextTransitionAt status = nextTransitionAt (hr_status h) then h\<lparr>hr_status := status\<rparr>
      else let tm = clearTimeout (hr_timers h) (hr_wake h);
               (wake, tm1) = setTimeout tm CbWake (wake_delay (nextTransitionAt status) (date_of tm))
           in h\<lparr>hr_status := status, hr_wake := wake, hr_timers := tm1\<rparr>)"

text \<open>Both timers run the same callback.\<close>

definition hours_timer :: "(int \<Rightarrow> int) \<Rightarrow> nat \<Rightarrow> hours \<Rightarrow> hours" where
  "hours_timer off k h =
     (case due_timer (hr_timers h) k of
        None \<Rightarrow> h
      | Some (cb, tm) \<Rightarrow>
          let h1 = h\<lparr>hr_timers := tm\<rparr>
          in case getMarketStatus off (date_of tm) of Inl _ \<Rightarrow> h1 | Inr status \<Rightarrow> setStatus status h1)"

datatype hours_event = HoursTime rat | HoursTimer nat

fun hours_do :: "(int \<Rightarrow> int) \<Rightarrow> hours \<Rightarrow> hours_event \<Rightarrow> hours" where
  "hours_do off h (HoursTime d) = h\<lparr>hr_timers := advance (hr_timers h) d\<rparr>"
| "hours_do off h (HoursTimer k) = hours_timer off k h"

definition hours_run :: "(int \<Rightarrow> int) \<Rightarrow> hours \<Rightarrow> hours_event list \<Rightarrow> hours" where
  "hours_run off h es = foldl (hours_do off) h es"

section \<open>The status shown is right\<close>

definition overdue :: "hours \<Rightarrow> bool" where
  "overdue h = (\<exists>k. due_timer (hr_timers h) k \<noteq> None)"

definition hours_ok :: "(int \<Rightarrow> int) \<Rightarrow> hours \<Rightarrow> bool" where
  "hours_ok off h =
     (let tm = hr_timers h; bell = nextTransitionAt (hr_status h)
      in timers_ok tm \<and> (\<exists>since. 0 \<le> since \<and> since \<le> date_of tm \<and> getMarketStatus off since = Inr (hr_status h)) \<and>
        hr_poll h \<noteq> hr_wake h \<and>
        (\<exists>t. jget (tm_armed tm) (hr_poll h) = Some t \<and> ti_every t \<noteq> None) \<and>
        (\<exists>t. jget (tm_armed tm) (hr_wake h) = Some t \<and> ti_every t = None \<and> of_int bell + 5 \<le> ti_due t \<and> ti_due t < of_int bell + 6) \<and>
        (\<forall>k. k \<noteq> hr_poll h \<and> k \<noteq> hr_wake h \<longrightarrow> jget (tm_armed tm) k = None))"

lemma wake_due:
  assumes "cairo_zone off D" and "0 \<le> now" and "getMarketStatus off \<lfloor>now\<rfloor> = Inr st"
  shows "of_int (nextTransitionAt st) + 5 \<le> now + timer_delay (wake_delay (nextTransitionAt st) \<lfloor>now\<rfloor>)"
    and "now + timer_delay (wake_delay (nextTransitionAt st) \<lfloor>now\<rfloor>) < of_int (nextTransitionAt st) + 6"
proof -
  define gap where "gap = nextTransitionAt st - \<lfloor>now\<rfloor>"
  have g: "0 < gap" "gap < 500000000" using bell_ahead [OF assms(1) _ assms(3)] assms(2) by (simp_all add: gap_def)
  have "(of_int (gap + 5) :: rat) \<le> of_int 2147483647" using g by (subst of_int_le_iff) simp
  then have "wake_delay (nextTransitionAt st) \<lfloor>now\<rfloor> = of_int (gap + 5)"
    using g by (simp add: wake_delay_def gap_def [symmetric] MAX_TIMEOUT_MS_def)
  moreover have "timer_delay (of_int (gap + 5)) = of_int (gap + 5)"
  proof -
    have "(of_int (gap + 5) :: rat) < of_int 2147483648" using g by (subst of_int_less_iff) simp
    then show ?thesis using g timer_delay_small [of "of_int (gap + 5)"] by simp
  qed
  moreover have "now - of_int \<lfloor>now\<rfloor> < 1" "of_int \<lfloor>now\<rfloor> \<le> now" by linarith+
  ultimately show "of_int (nextTransitionAt st) + 5 \<le> now + timer_delay (wake_delay (nextTransitionAt st) \<lfloor>now\<rfloor>)"
    "now + timer_delay (wake_delay (nextTransitionAt st) \<lfloor>now\<rfloor>) < of_int (nextTransitionAt st) + 6"
    by (simp_all add: gap_def)
qed

lemma hours_ok_mount:
  assumes "cairo_zone off D" and "0 \<le> now" and "useMarketStatus off now = Inr h"
  shows "hours_ok off h"
proof -
  obtain st where st: "getMarketStatus off \<lfloor>now\<rfloor> = Inr st" using status_days_now [OF assms(1), of "\<lfloor>now\<rfloor>"] assms(2) by auto
  then have "\<exists>since\<ge>0. since \<le> \<lfloor>now\<rfloor> \<and> getMarketStatus off since = Inr st"
    using assms(2) by (intro exI [of _ "\<lfloor>now\<rfloor>"]) simp
  then show ?thesis using st assms(2,3) wake_due [OF assms(1,2) st]
    by (auto simp: useMarketStatus_def Let_def hours_ok_def date_of_def start_timers_def setInterval_def setTimeout_def
        set_timer_def timers_ok_def jget_Cons split: if_splits)
qed

text \<open>A new status read at a time when the wake timer is gone or not yet due.\<close>

lemma hours_ok_set:
  assumes "cairo_zone off D" and "timers_ok (hr_timers h)" and "0 \<le> date_of (hr_timers h)"
    and "getMarketStatus off (date_of (hr_timers h)) = Inr st" and "hr_poll h \<noteq> hr_wake h"
    and "\<exists>t. jget (tm_armed (hr_timers h)) (hr_poll h) = Some t \<and> ti_every t \<noteq> None"
    and "\<forall>k. k \<noteq> hr_poll h \<and> k \<noteq> hr_wake h \<longrightarrow> jget (tm_armed (hr_timers h)) k = None"
    and "nextTransitionAt st = nextTransitionAt (hr_status h) \<Longrightarrow>
      \<exists>t. jget (tm_armed (hr_timers h)) (hr_wake h) = Some t \<and> ti_every t = None \<and>
        of_int (nextTransitionAt st) + 5 \<le> ti_due t \<and> ti_due t < of_int (nextTransitionAt st) + 6"
  shows "hours_ok off (setStatus st h)"
proof (cases "nextTransitionAt st = nextTransitionAt (hr_status h)")
  case True
  then show ?thesis using assms by (auto simp: setStatus_def hours_ok_def Let_def)
next
  case False
  define tm where "tm = clearTimeout (hr_timers h) (hr_wake h)"
  have tm: "timers_ok tm" "tm_now tm = tm_now (hr_timers h)" using assms(2) by (simp_all add: tm_def)
  have now: "0 \<le> tm_now tm" "getMarketStatus off \<lfloor>tm_now tm\<rfloor> = Inr st" using assms(3,4) by (simp_all add: tm date_of_def)
  obtain t where t: "jget (tm_armed tm) (hr_poll h) = Some t" "ti_every t \<noteq> None" using assms(5,6) by (auto simp: tm_def)
  have fresh: "jget (tm_armed tm) (tm_next tm) = None" using timers_ok_fresh [OF tm(1)] .
  have gone: "jget (tm_armed tm) k = None" if "k \<noteq> hr_poll h" for k using that assms(7) by (auto simp: tm_def)
  have "hr_poll h \<noteq> tm_next tm" using t fresh by auto
  moreover have "\<exists>since\<ge>0. since \<le> \<lfloor>tm_now tm\<rfloor> \<and> getMarketStatus off since = Inr st"
    using now by (intro exI [of _ "\<lfloor>tm_now tm\<rfloor>"]) simp
  ultimately show ?thesis using False tm t gone assms(3,4) wake_due [OF assms(1) now]
    by (auto simp: setStatus_def hours_ok_def Let_def tm_def [symmetric] date_of_def setTimeout_def set_timer_def timers_ok_def
        jget_jset less_Suc_eq)
qed

lemma hours_ok_timer:
  assumes "cairo_zone off D" and "hours_ok off h"
  shows "hours_ok off (hours_timer off k h)"
proof (cases "due_timer (hr_timers h) k")
  case None
  then show ?thesis using assms(2) by (simp add: hours_timer_def)
next
  case (Some r)
  obtain cb tm where r: "r = (cb, tm)" by (cases r)
  obtain p where p: "jget (tm_armed (hr_timers h)) (hr_poll h) = Some p" "ti_every p \<noteq> None"
    using assms(2) by (auto simp: hours_ok_def Let_def)
  obtain w where w: "jget (tm_armed (hr_timers h)) (hr_wake h) = Some w" "ti_every w = None"
    "of_int (nextTransitionAt (hr_status h)) + 5 \<le> ti_due w" "ti_due w < of_int (nextTransitionAt (hr_status h)) + 6"
    using assms(2) by (auto simp: hours_ok_def Let_def)
  have ok: "timers_ok (hr_timers h)" "0 \<le> date_of (hr_timers h)" "hr_poll h \<noteq> hr_wake h"
    "\<forall>k. k \<noteq> hr_poll h \<and> k \<noteq> hr_wake h \<longrightarrow> jget (tm_armed (hr_timers h)) k = None"
    using assms(2) by (auto simp: hours_ok_def Let_def)
  obtain st where st: "getMarketStatus off (date_of (hr_timers h)) = Inr st" using status_days_now [OF assms(1) ok(2)] by auto
  obtain t where t: "jget (tm_armed (hr_timers h)) k = Some t" "ti_due t \<le> tm_now (hr_timers h)"
    and tm: "tm = (case ti_every t of None \<Rightarrow> clearTimeout (hr_timers h) k
       | Some p \<Rightarrow> (hr_timers h)\<lparr>tm_armed := jset k (t\<lparr>ti_due := tm_now (hr_timers h) + timer_delay p\<rparr>) (tm_armed (hr_timers h))\<rparr>)"
    using Some r by (auto simp: due_timer_def not_less split: option.splits if_splits)
  have which: "k = hr_poll h \<or> k = hr_wake h" using ok(4) t(1) by auto
  have now: "date_of tm = date_of (hr_timers h)" by (auto simp: tm date_of_def split: option.split)
  have tmok: "timers_ok tm" using ok(1) t(1) by (auto simp: tm timers_ok_def jget_jset split: option.split)
  have "hours_ok off (setStatus st (h\<lparr>hr_timers := tm\<rparr>))"
  proof (rule hours_ok_set [OF assms(1)])
    show "\<exists>t. jget (tm_armed (hr_timers (h\<lparr>hr_timers := tm\<rparr>))) (hr_poll (h\<lparr>hr_timers := tm\<rparr>)) = Some t \<and> ti_every t \<noteq> None"
      using which p w t ok(3) by (auto simp: tm jget_jset split: option.split)
    show "\<forall>j. j \<noteq> hr_poll (h\<lparr>hr_timers := tm\<rparr>) \<and> j \<noteq> hr_wake (h\<lparr>hr_timers := tm\<rparr>) \<longrightarrow>
        jget (tm_armed (hr_timers (h\<lparr>hr_timers := tm\<rparr>))) j = None"
      using which ok(4) by (auto simp: tm jget_jset split: option.split)
    show "\<exists>x. jget (tm_armed (hr_timers (h\<lparr>hr_timers := tm\<rparr>))) (hr_wake (h\<lparr>hr_timers := tm\<rparr>)) = Some x \<and> ti_every x = None \<and>
        of_int (nextTransitionAt st) + 5 \<le> ti_due x \<and> ti_due x < of_int (nextTransitionAt st) + 6"
      if same: "nextTransitionAt st = nextTransitionAt (hr_status (h\<lparr>hr_timers := tm\<rparr>))"
    proof (cases "k = hr_wake h")
      case True
      then have "of_int (nextTransitionAt st) \<le> tm_now (hr_timers h)" using same t w by simp
      then have "nextTransitionAt st \<le> date_of (hr_timers h)" by (simp add: date_of_def le_floor_iff)
      then show ?thesis using bell_ahead(1) [OF assms(1) ok(2) st] by simp
    next
      case False
      then have "jget (tm_armed tm) (hr_wake h) = Some w" using w(1) by (auto simp: tm jget_jset split: option.split)
      then show ?thesis using w same by simp
    qed
  qed (use ok st tmok now in simp_all)
  then show ?thesis by (simp add: hours_timer_def Some r now st Let_def)
qed

lemma hours_ok_run:
  assumes "cairo_zone off D" and "hours_ok off h"
  shows "hours_ok off (hours_run off h es)"
  unfolding hours_run_def
proof (rule foldl_invariant [where P = "hours_ok off"])
  fix h e
  assume ok: "hours_ok off h"
  show "hours_ok off (hours_do off h e)"
  proof (cases e)
    case (HoursTime d)
    have "date_of (hr_timers h) \<le> date_of (advance (hr_timers h) d)" by (simp add: date_of_def advance_def floor_mono)
    then show ?thesis using ok HoursTime by (fastforce simp: hours_ok_def Let_def)
  qed (use hours_ok_timer [OF assms(1) ok] in simp)
qed (rule assms(2))

text \<open>Claim C13: the market's status on a page is the calendar's: whenever the event loop is not behind, that
  is no timer of the page is overdue, the status shown is what \<open>getMarketStatus\<close> gives for this very
  moment, or a bell has just rung, no more than 6 ms ago, and the status is the one that held until
  then. So an open page turns at the bell and not at the next poll.\<close>

theorem status_turns_at_bell:
  assumes "cairo_zone off D" and "0 \<le> now" and "useMarketStatus off now = Inr h"
    and "r = hours_run off h es" and "\<not> overdue r"
  shows "getMarketStatus off (date_of (hr_timers r)) = Inr (hr_status r) \<or>
    of_int (nextTransitionAt (hr_status r)) \<le> tm_now (hr_timers r) \<and>
    tm_now (hr_timers r) < of_int (nextTransitionAt (hr_status r)) + 6 \<and>
    getMarketStatus off (nextTransitionAt (hr_status r) - 1) = Inr (hr_status r)"
proof -
  have ok: "hours_ok off r" unfolding assms(4) by (rule hours_ok_run [OF assms(1) hours_ok_mount [OF assms(1-3)]])
  then obtain since where since: "0 \<le> since" "since \<le> date_of (hr_timers r)" "getMarketStatus off since = Inr (hr_status r)"
    by (auto simp: hours_ok_def Let_def)
  obtain w where w: "jget (tm_armed (hr_timers r)) (hr_wake r) = Some w" "ti_due w < of_int (nextTransitionAt (hr_status r)) + 6"
    using ok by (auto simp: hours_ok_def Let_def)
  have "due_timer (hr_timers r) (hr_wake r) = None" using assms(5) unfolding overdue_def by blast
  then have late: "tm_now (hr_timers r) < of_int (nextTransitionAt (hr_status r)) + 6"
    using w by (simp add: due_timer_def split: if_splits)
  show ?thesis
  proof (cases "date_of (hr_timers r) < nextTransitionAt (hr_status r)")
    case True
    then show ?thesis using status_until_bell [OF assms(1) since(1,3,2)] by simp
  next
    case False
    then have "of_int (nextTransitionAt (hr_status r)) \<le> tm_now (hr_timers r)" by (simp add: date_of_def le_floor_iff not_less)
    moreover have "getMarketStatus off (nextTransitionAt (hr_status r) - 1) = Inr (hr_status r)"
      using status_until_bell [OF assms(1) since(1,3)] bell_ahead(1) [OF assms(1) since(1,3)] by simp
    ultimately show ?thesis using late by simp
  qed
qed

lemma status_at:
  assumes "cairo_zone off D" and "0 \<le> now" and "status_days D now st" and "now < nextTransitionAt st"
  shows "getMarketStatus off now = Inr st"
  using status_days_now [OF assms(1,2)] status_days_unique [OF assms(1,3)] assms(4) by auto

text \<open>A minute before the open of 20 September 2026, and ten milliseconds after it.\<close>

definition demo_hours :: "hours_event list \<Rightarrow> hours" where
  "demo_hours es = (case useMarketStatus egypt_2026 1789887540000 of Inr h \<Rightarrow> hours_run egypt_2026 h es | Inl _ \<Rightarrow> undefined)"

lemma demo_statuses:
  "getMarketStatus egypt_2026 1789887540000 = Inr (Closed (key_of 20713) 1789628400000 1789644600000 1789887600000)"
  "getMarketStatus egypt_2026 1789887600010 = Inr (Open (key_of 20716) 1789887600000 1789903800000)"
proof -
  have t: "trading 20713" "trading 20716" "trading 20717" by (simp_all add: trading_iff)
  have "\<not> trading r" if "20713 < r" "r < 20716" for r using that unfolding trading_iff by presburger
  then have gap: "\<forall>r. 20713 < r \<and> r < 20716 \<longrightarrow> \<not> trading r" "\<forall>r. 20716 < r \<and> r < (20717 :: int) \<longrightarrow> \<not> trading r" by auto
  have w: "wall egypt_2026_day 20713 36000000 = 1789628400000" "wall egypt_2026_day 20713 52200000 = 1789644600000"
    "wall egypt_2026_day 20716 36000000 = 1789887600000" "wall egypt_2026_day 20716 52200000 = 1789903800000"
    by (simp_all add: wall_def MS_DAY_def egypt_2026_day_def)
  show "getMarketStatus egypt_2026 1789887540000 = Inr (Closed (key_of 20713) 1789628400000 1789644600000 1789887600000)"
    using status_daysI(2) [OF t(1,2) _ gap(1), of egypt_2026_day 1789887540000] by (intro status_at [OF egypt_2026_zone]) (simp_all add: w)
  show "getMarketStatus egypt_2026 1789887600010 = Inr (Open (key_of 20716) 1789887600000 1789903800000)"
    using status_daysI(1) [OF t(2,3) _ gap(2), of egypt_2026_day 1789887600010] by (intro status_at [OF egypt_2026_zone]) (simp_all add: w)
qed

theorem status_turns_at_bell_witness:
  "hr_status (demo_hours []) = Closed (key_of 20713) 1789628400000 1789644600000 1789887600000 \<and>
   getMarketStatus egypt_2026 1789887600010 = Inr (hr_status (demo_hours [HoursTime 60010, HoursTimer 0, HoursTimer 1])) \<and>
   hr_status (demo_hours [HoursTime 60010, HoursTimer 0, HoursTimer 1]) = Open (key_of 20716) 1789887600000 1789903800000"
proof -
  define es where "es = [HoursTime 60010, HoursTimer 0, HoursTimer 1]"
  have d: "timer_delay 30000 = 30000" "timer_delay (wake_delay 1789887600000 1789887540000) = 60005"
    "timer_delay (wake_delay 1789903800000 1789887600010) = 16199995" by code_simp+
  obtain h where h: "useMarketStatus egypt_2026 1789887540000 = Inr h"
    by (simp add: useMarketStatus_def Let_def date_of_def start_timers_def case_prod_unfold demo_statuses)
  have start: "h = \<lparr>hr_status = Closed (key_of 20713) 1789628400000 1789644600000 1789887600000, hr_poll = 0, hr_wake = 1,
      hr_timers = \<lparr>tm_now = 1789887540000, tm_next = 2,
        tm_armed = [(0, \<lparr>ti_due = 1789887570000, ti_every = Some 30000, ti_callback = CbPoll\<rparr>),
          (1, \<lparr>ti_due = 1789887600005, ti_every = None, ti_callback = CbWake\<rparr>)]\<rparr>\<rparr>"
    using h by (simp add: useMarketStatus_def Let_def date_of_def start_timers_def demo_statuses setInterval_def setTimeout_def
        set_timer_def MARKET_STATUS_REFRESH_MS_def d numeral_2_eq_2)
  have r: "hours_run egypt_2026 h es = \<lparr>hr_status = Open (key_of 20716) 1789887600000 1789903800000, hr_poll = 0, hr_wake = 2,
      hr_timers = \<lparr>tm_now = 1789887600010, tm_next = 3,
        tm_armed = [(0, \<lparr>ti_due = 1789887630010, ti_every = Some 30000, ti_callback = CbPoll\<rparr>),
          (2, \<lparr>ti_due = 1789903800005, ti_every = None, ti_callback = CbWake\<rparr>)]\<rparr>\<rparr>"
    by (simp add: hours_run_def es_def start advance_def hours_timer_def due_timer_def jget_Cons demo_statuses setStatus_def date_of_def
        setTimeout_def set_timer_def clearTimeout_def jdelete_def Let_def d numeral_2_eq_2 numeral_3_eq_3)
  have "\<not> overdue (hours_run egypt_2026 h es)" by (auto simp: overdue_def due_timer_def r jget_Cons split: if_splits)
  with status_turns_at_bell [OF egypt_2026_zone _ h refl, of es]
  have "getMarketStatus egypt_2026 1789887600010 = Inr (hr_status (hours_run egypt_2026 h es))"
    by (simp add: r date_of_def)
  moreover have e: "demo_hours es = hours_run egypt_2026 h es" "demo_hours [] = h"
    by (simp_all add: demo_hours_def h hours_run_def)
  moreover have "hr_status (demo_hours es) = Open (key_of 20716) 1789887600000 1789903800000" unfolding e(1) r by simp
  moreover have "hr_status h = Closed (key_of 20713) 1789628400000 1789644600000 1789887600000" unfolding start by simp
  ultimately show ?thesis unfolding es_def [symmetric] by simp
qed

end
