(* ===== verification/Number_Text.thy ===== *)
theory Number_Text
  imports Json
begin

text \<open>
  The text JavaScript prints for a whole number below 2^53 is its decimal digits: what the shortest
  round-trip search of \<open>Number.prototype.toString\<close> (theory Json) comes to on integers.
\<close>

lemma nat_str_bounds: "n < 10 ^ length (nat_str n)" "0 < n \<Longrightarrow> 10 ^ (length (nat_str n) - 1) \<le> n"
proof -
  show "n < 10 ^ length (nat_str n)" using str_nat_less [of "nat_str n"] nat_str_digits [of _ n] by simp
  show "10 ^ (length (nat_str n) - 1) \<le> n" if "0 < n"
  proof (rule ccontr)
    assume c: "\<not> 10 ^ (length (nat_str n) - 1) \<le> n"
    then have "length (nat_str n) - 1 \<noteq> 0" using that by (cases "length (nat_str n) - 1") auto
    then have "length (nat_str n) \<le> length (nat_str n) - 1" using c by (intro length_nat_str_le) auto
    then show False using length_nat_str_pos [of n] by linarith
  qed
qed

lemma quotient_of_nat: "quotient_of (of_nat n) = (int n, 1)"
  using quotient_of_int [of "int n"] by (simp add: Rat.of_int_def)

lemma pow10_nat: "pow10 (int k) = of_nat (10 ^ k)"
  by (simp add: pow10_def)

lemma dec_expo_nat: "0 < n \<Longrightarrow> dec_expo (of_nat n) = int (length (nat_str n))"
proof -
  assume n: "0 < n"
  have one: "nat_str (Suc 0) = [digit_char 1]" by (simp add: nat_str.simps [of "Suc 0"])
  have "pow10 (int (length (nat_str n)) - 1) = of_nat (10 ^ (length (nat_str n) - 1))"
    using pow10_nat [of "length (nat_str n) - 1"] length_nat_str_pos [of n] by (simp add: of_nat_diff)
  moreover have "of_nat (10 ^ (length (nat_str n) - 1)) \<le> (of_nat n :: rat)"
    using nat_str_bounds(2) [OF n] by (simp only: of_nat_le_iff)
  ultimately show ?thesis by (simp only: dec_expo_def quotient_of_nat Let_def prod.case nat_int) (simp add: one)
qed

text \<open>Below 2^53 a rounded candidate is the number only if it is equal to it.\<close>

lemma fl_hit: "n < 2 ^ 53 \<Longrightarrow> (fl (of_nat m) = of_nat n) = (m = n)"
proof
  assume n: "n < 2 ^ 53" and f: "fl (of_nat m) = of_nat n"
  show "m = n"
  proof (cases "m \<le> 2 ^ 53")
    case True
    then have "fl (of_int (int m)) = of_int (int m)" by (intro fl_of_int) (simp flip: of_nat_power)
    then show ?thesis using f by simp
  next
    case False
    have "of_int (2 ^ 53) \<le> (of_nat m :: rat)" using False by (simp flip: of_nat_le_iff)
    then have "of_int (2 ^ 53) \<le> fl (of_nat m)" by (rule fl_ge_rep) (rule double_rep_of_int, simp)
    then have "(2 :: rat) ^ 53 \<le> of_nat n" using f by simp
    then have "2 ^ 53 \<le> n" by (simp flip: of_nat_le_iff)
    then show ?thesis using n by simp
  qed
next
  assume "n < 2 ^ 53" "m = n"
  then show "fl (of_nat m) = of_nat n" using fl_of_int [of "int n"] by simp
qed

lemma shortest_nat:
  fixes n L :: nat
  assumes "0 < n" and "n < 2 ^ 53" and "L = length (nat_str n)" and "1 \<le> k" and "k \<le> L" and "L < k + more"
  shows "\<exists>s j. shortest_from (of_nat n) (int L) k more = (int s, j) \<and> j \<le> L \<and> s * 10 ^ (L - j) = n"
  using assms(4-)
proof (induction more arbitrary: k)
  case (Suc more)
  define u where "u = (10 :: nat) ^ (L - k)"
  have unit: "pow10 (int L - int k) = of_nat u" using pow10_nat [of "L - k"] Suc.prems by (simp add: u_def of_nat_diff)
  have u: "0 < u" by (simp add: u_def)
  have lo: "\<lfloor>of_nat n / (of_nat u :: rat)\<rfloor> = int (n div u)"
    using floor_divide_of_nat_eq [of n u] by simp
  define near where "near = (if of_nat n / of_nat u - of_int (int (n div u)) \<le> (1 / 2 :: rat)
    then [int (n div u), int (n div u) + 1] else [int (n div u) + 1, int (n div u)])"
  define hits where "hits = filter (\<lambda>s. fl (of_int s * of_nat u) = (of_nat n :: rat)) near"
  have hit: "s = int (n div u) \<and> n div u * u = n" if "s \<in> set hits" for s
  proof -
    have s: "s \<in> {int (n div u), int (n div u) + 1}" "fl (of_int s * of_nat u) = (of_nat n :: rat)"
      using that by (auto simp: hits_def near_def split: if_splits)
    then have "s = int (n div u) \<or> s = int (n div u + 1)" by auto
    then obtain m where m: "s = int m" "m = n div u \<or> m = n div u + 1" by blast
    then have "m * u = n" using s(2) fl_hit [OF assms(2), of "m * u"] by simp
    moreover have "n < (n div u + 1) * u" using u by (simp add: div_times_less_eq_dividend dividend_less_div_times)
    ultimately have "m * u < (n div u + 1) * u" by simp
    then have "m < n div u + 1" using u by (simp only: mult_less_cancel2)
    then show ?thesis using m \<open>m * u = n\<close> by auto
  qed
  have step: "shortest_from (of_nat n) (int L) k (Suc more) =
      (case hits of [] \<Rightarrow> shortest_from (of_nat n) (int L) (k + 1) more | s # _ \<Rightarrow> (s, k))"
    by (simp add: unit lo near_def hits_def Let_def)
  show ?case
  proof (cases hits)
    case Nil
    have "k \<noteq> L"
    proof
      assume "k = L"
      then have "u = 1" by (simp add: u_def)
      then have "int n \<in> set hits" using fl_hit [OF assms(2), of n] by (simp add: hits_def near_def)
      then show False using Nil by simp
    qed
    then show ?thesis using Suc.IH [of "k + 1"] Suc.prems step Nil by simp
  next
    case (Cons s hs)
    then show ?thesis using hit [of s] step Suc.prems by (auto simp: u_def intro!: exI [of _ "n div u"])
  qed
qed simp

lemma positive_text_nat:
  assumes "0 < n" and "n < 2 ^ 53"
  shows "positive_text (of_nat n) = nat_str n"
proof -
  define L where "L = length (nat_str n)"
  have L: "1 \<le> L" "L \<le> 16" using length_nat_str_pos [of n] length_nat_str_le [of 16 n] assms(2) by (auto simp: L_def Suc_le_eq)
  obtain s j where sh: "shortest_from (of_nat n) (int L) 1 16 = (int s, j)" "j \<le> L" "s * 10 ^ (L - j) = n"
    using shortest_nat [OF assms L_def, of 1 16] L by auto
  define ds where "ds = nat_str s"
  have s: "0 < s" using sh(3) assms(1) by (cases s) auto
  have "\<forall>c \<in> set (ds @ replicate (L - j) (CHR ''0'')). is_digit c"
    using nat_str_digits [of _ s] by (auto simp: ds_def)
  then have "nat_str (str_nat (ds @ replicate (L - j) (CHR ''0''))) = ds @ replicate (L - j) (CHR ''0'')"
    using hd_nat_str [OF s] by (intro nat_str_str_nat) (auto simp: ds_def)
  then have n: "nat_str n = ds @ replicate (L - j) (CHR ''0'')" using sh(3) by (simp add: ds_def)
  have j: "length ds = j" using arg_cong [OF n, of length] sh(2) by (simp add: L_def)
  define z where "z = takeWhile (\<lambda>c. c = CHR ''0'') (rev ds)"
  define d where "d = take (length ds - length z) ds"
  have z: "z = replicate (length z) (CHR ''0'')"
    unfolding z_def by (rule replicate_eqI) (auto dest: set_takeWhileD)
  have "rev ds = z @ drop (length z) (rev ds)"
    unfolding z_def by (metis append_eq_conv_conj takeWhile_dropWhile_id)
  then have "ds = rev (drop (length z) (rev ds)) @ rev z" by (metis rev_append rev_rev_ident)
  then have "ds = d @ rev z" by (simp add: d_def rev_drop)
  then have ds: "ds = d @ replicate (length z) (CHR ''0'')" using z by (metis rev_replicate)
  have ld: "length d \<le> L" "L - length d = length z + (L - j)" using arg_cong [OF ds, of length] j sh(2) by simp_all
  have "d @ replicate (L - length d) (CHR ''0'') = nat_str n"
    unfolding n ld(2) replicate_add by (subst ds) simp
  moreover have "nat (int L - int (length d)) = L - length d" using ld(1) by linarith
  ultimately show ?thesis
    unfolding positive_text_def dec_expo_nat [OF assms(1)] L_def [symmetric] Let_def sh(1) prod.case nat_int
      ds_def [symmetric] z_def [symmetric] d_def [symmetric]
    using L ld(1) j by simp
qed

lemma number_text_nat: "n < 2 ^ 53 \<Longrightarrow> number_text (Fin (of_nat n)) = nat_str n"
proof (cases "n = 0")
  case True
  then show ?thesis using digit_char_val [of "CHR ''0''"] by (simp add: nat_str.simps [of 0])
next
  case False
  assume "n < 2 ^ 53"
  then show ?thesis using positive_text_nat [of n] False by simp
qed

end
