(* ===== verification/Chart_Axes.thy ===== *)
theory Chart_Axes
  imports Ring_Buffer Calendar Number_Text
begin

text \<open>
  The chart's axis and scale arithmetic (src/client/Tckr.MarketWatch/src/chart/axes.ts and
  chartScale.ts). Axis positions are doubles: a finite one is a rational rounded by \<open>fl\<close> after
  every operation; the magnitudes here (screen pixels, instants in milliseconds, prices) are far
  from the overflow threshold. \<open>timeAxisSplits\<close> is a loop that need not end for every increment, so
  its value is an option, \<open>None\<close> for a loop that runs on.

  The lemmas: the loop ends for every whole increment and puts its labels where the comment says,
  and a price label loses no digit between the rounded magnitude and its text.
\<close>

section \<open>Labels\<close>

definition decimalsForTickSize :: "decimal \<Rightarrow> nat" where
  "decimalsForTickSize tickSize = decimalPlaces tickSize"

fun num_abs :: "number \<Rightarrow> number" where
  "num_abs (Fin a) = Fin \<bar>a\<bar>"
| "num_abs NInf = PInf"
| "num_abs x = x"

text \<open>A product with a positive finite double.\<close>

fun num_scale :: "number \<Rightarrow> rat \<Rightarrow> number" where
  "num_scale (Fin a) k = to_number (a * k)"
| "num_scale x k = x"

fun math_round :: "number \<Rightarrow> number" where
  "math_round (Fin a) = Fin (of_int \<lfloor>a + 1 / 2\<rfloor>)"
| "math_round x = x"

definition formatAxisPrice :: "number \<Rightarrow> nat \<Rightarrow> string exn" where
  "formatAxisPrice value decimals =
     (let scale = 10 ^ decimals;
          roundedMagnitude = math_round (num_scale (num_abs value) scale);
          digits = padStart (decimals + 1) (CHR ''0'') (number_text roundedMagnitude);
          cut = take (length digits - decimals) digits;
          intPart = (if cut = '''' then ''0'' else cut);
          fracPart = (if decimals > 0 then drop (length digits - decimals) digits else '''');
          body = (if decimals > 0 then intPart @ ''.'' @ fracPart else intPart);
          negative = (num_less value (Fin 0) \<and> roundedMagnitude \<noteq> Fin 0)
      in bindE (toDecimal ((if negative then ''-'' else '''') @ body)) (\<lambda>decimalString.
           Inr (format decimalString (Some decimals) False)))"

definition formatYAxisLabel :: "number \<Rightarrow> decimal \<Rightarrow> string exn" where
  "formatYAxisLabel value tickSize = formatAxisPrice value (decimalsForTickSize tickSize)"

definition formatClockTime :: "(int \<Rightarrow> int) \<Rightarrow> int \<Rightarrow> string" where
  "formatClockTime off epochMs = formatCairoClock off epochMs"

definition formatXAxisLabel :: "(int \<Rightarrow> int) \<Rightarrow> int \<Rightarrow> string" where
  "formatXAxisLabel off epochMs = formatClockTime off epochMs"

definition formatXAxisTick :: "(int \<Rightarrow> int) \<Rightarrow> int \<Rightarrow> rat \<Rightarrow> string" where
  "formatXAxisTick off epochMs stepMs =
     (if stepMs \<ge> 60000 then formatCairoTimeShort off epochMs else formatClockTime off epochMs)"

section \<open>Where the time axis puts its labels\<close>

partial_function (option) axis_loop ::
    "rat \<Rightarrow> rat \<Rightarrow> rat \<Rightarrow> rat \<Rightarrow> rat \<Rightarrow> rat list \<Rightarrow> rat list option" where
  "axis_loop minMs maxMs incrMs minGapMs t splits =
     (if t < maxMs then
        axis_loop minMs maxMs incrMs minGapMs (fl (t + incrMs))
          (if fl (t - minMs) \<ge> minGapMs \<and> fl (maxMs - t) \<ge> minGapMs then splits @ [t] else splits)
      else Some splits)"

text \<open>A zero increment makes the start \<open>NaN\<close>, which is not less than the end: no label in between.\<close>

definition timeAxisSplits :: "rat \<Rightarrow> rat \<Rightarrow> rat \<Rightarrow> rat \<Rightarrow> rat list option" where
  "timeAxisSplits minMs maxMs incrMs minGapMs =
     (if \<not> minMs < maxMs then Some [minMs]
      else case (if incrMs = 0 then Some [minMs]
                 else axis_loop minMs maxMs incrMs minGapMs (fl (of_int \<lceil>fl (minMs / incrMs)\<rceil> * incrMs)) [minMs]) of
        None \<Rightarrow> None
      | Some splits \<Rightarrow> Some (splits @ [maxMs]))"

definition X_AXIS_INCREMENTS_MS :: "int list" where
  "X_AXIS_INCREMENTS_MS =
     [1000, 2000, 5000, 10000, 15000, 30000, 60000, 120000, 300000, 600000, 900000, 1800000, 3600000,
      7200000, 14400000, 28800000]"

section \<open>The price scale\<close>

definition AXIS_TAG_HEIGHT_PX :: rat where
  "AXIS_TAG_HEIGHT_PX = 18"

definition chartYRange :: "rat option \<Rightarrow> rat option \<Rightarrow> rat option \<Rightarrow> rat \<Rightarrow> rat \<times> rat" where
  "chartYRange mn mx reference tick =
     (case (case mn of Some x \<Rightarrow> Some x | None \<Rightarrow> reference, case mx of Some x \<Rightarrow> Some x | None \<Rightarrow> reference) of
        (Some lo0, Some hi0) \<Rightarrow>
          let lo = (case reference of Some r \<Rightarrow> min lo0 r | None \<Rightarrow> lo0);
              hi = (case reference of Some r \<Rightarrow> max hi0 r | None \<Rightarrow> hi0);
              mid = fl (fl (lo + hi) / 2);
              minSpan = max (fl (tick * 8)) (fl (\<bar>mid\<bar> * fl (1 / 100)));
              widen = (fl (hi - lo) < minSpan);
              lo' = (if widen then fl (mid - fl (minSpan / 2)) else lo);
              hi' = (if widen then fl (mid + fl (minSpan / 2)) else hi);
              pad = fl (fl (hi' - lo') * fl (1 / 10))
          in (fl (lo' - pad), fl (hi' + pad))
      | _ \<Rightarrow> (0, 1))"

definition placeAxisTags :: "rat option \<Rightarrow> rat option \<Rightarrow> rat option \<times> rat option" where
  "placeAxisTags lastPos refPos =
     (case (refPos, lastPos) of
        (Some r, Some l) \<Rightarrow>
          if \<bar>fl (r - l)\<bar> \<ge> AXIS_TAG_HEIGHT_PX then (lastPos, refPos)
          else (lastPos, Some (if r \<ge> l then fl (l + AXIS_TAG_HEIGHT_PX) else fl (l - AXIS_TAG_HEIGHT_PX)))
      | _ \<Rightarrow> (lastPos, refPos))"

definition isUnderAxisTag :: "rat \<Rightarrow> rat option list \<Rightarrow> bool" where
  "isUnderAxisTag pos tagPositions =
     list_ex (\<lambda>tag. case tag of Some t \<Rightarrow> \<bar>fl (pos - t)\<bar> < AXIS_TAG_HEIGHT_PX | None \<Rightarrow> False) tagPositions"

section \<open>The label loop ends\<close>

text \<open>The steps the loop visits, over the integers.\<close>

function steps :: "int \<Rightarrow> int \<Rightarrow> int \<Rightarrow> int list" where
  "steps t stop incr = (if 0 < incr \<and> t < stop then t # steps (t + incr) stop incr else [])"
  by auto
termination by (relation "measure (\<lambda>(t, stop, incr). nat (stop - t))") auto

declare steps.simps [simp del]

lemma set_steps: "0 < incr \<Longrightarrow> set (steps t stop incr) = {x. t \<le> x \<and> x < stop \<and> incr dvd x - t}"
proof (induction t stop incr rule: steps.induct)
  case (1 t stop incr)
  show ?case
  proof (cases "t < stop")
    case True
    have "x = t \<or> t + incr \<le> x" if "t \<le> x" "incr dvd x - t" for x
      using that zdvd_imp_le [of incr "x - t"] by (cases "x = t") auto
    moreover have "incr dvd x - t" if "incr dvd x - (t + incr)" for x
      using dvd_add [OF that, of incr] by simp
    moreover have "incr dvd x - (t + incr)" if "incr dvd x - t" for x
      using dvd_diff [OF that, of incr] by (simp add: algebra_simps)
    ultimately show ?thesis
      using 1 True by (subst steps.simps) (auto; force)
  qed (simp add: steps.simps)
qed

lemma sorted_steps: "0 < incr \<Longrightarrow> sorted_wrt (<) (steps t stop incr)"
proof (induction t stop incr rule: steps.induct)
  case (1 t stop incr)
  then show ?case by (subst steps.simps) (auto simp: set_steps)
qed

definition label_fits :: "int \<Rightarrow> int \<Rightarrow> rat \<Rightarrow> int \<Rightarrow> bool" where
  "label_fits lo hi gap x = (gap \<le> of_int (x - lo) \<and> gap \<le> of_int (hi - x))"

lemma axis_loop_steps:
  assumes "\<bar>lo\<bar> \<le> 2 ^ 51"
  shows "\<bar>hi\<bar> \<le> 2 ^ 51 \<Longrightarrow> 0 < incr \<Longrightarrow> incr \<le> 2 ^ 51 \<Longrightarrow> lo - incr \<le> t \<Longrightarrow>
    axis_loop (of_int lo) (of_int hi) (of_int incr) gap (of_int t) acc =
    Some (acc @ map of_int (filter (label_fits lo hi gap) (steps t hi incr)))"
proof (induction t hi incr arbitrary: acc rule: steps.induct)
  case (1 t hi incr)
  show ?case
  proof (cases "t < hi")
    case True
    have e: "fl (of_int t + of_int incr) = of_int (t + incr)" "fl (of_int t - of_int lo) = of_int (t - lo)"
      "fl (of_int hi - of_int t) = of_int (hi - t)"
      using fl_of_int [of "t + incr"] fl_of_int [of "t - lo"] fl_of_int [of "hi - t"] assms 1(2-5) True
      by simp_all
    have s: "steps t hi incr = t # steps (t + incr) hi incr" using True 1(3) by (subst steps.simps) simp
    have "lo - incr \<le> t + incr" using 1(3,5) by linarith
    note IH = 1(1) [OF _ 1(2,3,4) this]
    show ?thesis unfolding axis_loop.simps [of _ _ _ _ "of_int t"] e s
      using True 1(3) by (simp add: IH label_fits_def del: of_int_add of_int_diff)
  next
    case False
    then show ?thesis by (subst axis_loop.simps, subst steps.simps) simp
  qed
qed

lemma abs_div_le:
  fixes a i :: int
  assumes "0 < i"
  shows "\<bar>a div i\<bar> \<le> \<bar>a\<bar>"
proof (cases "0 \<le> a")
  case True
  then have q: "0 \<le> a div i" using assms by (simp add: pos_imp_zdiv_nonneg_iff)
  then have "a div i * 1 \<le> a div i * i" using assms by (intro mult_left_mono) auto
  also have "\<dots> \<le> a" using assms minus_mod_eq_div_mult [of a i] pos_mod_sign [of i a] by linarith
  finally show ?thesis using q True by simp
next
  case False
  then have "a div i < 0" using assms by (simp add: pos_imp_zdiv_neg_iff)
  then have q: "a div i + 1 \<le> 0" by linarith
  then have "(a div i + 1) * i \<le> (a div i + 1) * 1" using assms by (intro mult_left_mono_neg) auto
  moreover have "a < (a div i + 1) * i"
    using assms minus_mod_eq_div_mult [of a i] pos_mod_bound [of i a]
    unfolding distrib_right mult_1 by linarith
  ultimately show ?thesis using q False by simp
qed

lemma ceiling_start:
  assumes "\<bar>lo\<bar> \<le> 2 ^ 51" and "0 < incr"
  shows "lo - incr \<le> \<lceil>fl (of_int lo / of_int incr)\<rceil> * incr \<and> \<lceil>fl (of_int lo / of_int incr)\<rceil> * incr < lo + incr"
proof -
  define f where "f = lo div incr"
  define g where "g = - ((- lo) div incr)"
  have f: "f * incr \<le> lo" "lo - incr \<le> f * incr"
    using minus_mod_eq_div_mult [of lo incr] pos_mod_sign [OF assms(2), of lo] pos_mod_bound [OF assms(2), of lo]
    unfolding f_def by linarith+
  have g: "lo \<le> g * incr" "g * incr < lo + incr"
    using minus_mod_eq_div_mult [of "- lo" incr] pos_mod_sign [OF assms(2), of "- lo"] pos_mod_bound [OF assms(2), of "- lo"]
    unfolding g_def mult_minus_left by linarith+
  have b: "\<bar>f\<bar> \<le> 2 ^ 53" "\<bar>g\<bar> \<le> 2 ^ 53"
    using abs_div_le [OF assms(2), of lo] abs_div_le [OF assms(2), of "- lo"] assms(1)
      power_increasing [of 51 53 "2 :: int"]
    unfolding f_def g_def abs_minus_cancel by auto
  have q: "of_int f \<le> of_int lo / (of_int incr :: rat)" "of_int lo / (of_int incr :: rat) \<le> of_int g"
    using f(1) g(1) assms(2) by (simp_all add: pos_le_divide_eq pos_divide_le_eq flip: of_int_mult)
  have "of_int f \<le> fl (of_int lo / of_int incr)" "fl (of_int lo / of_int incr) \<le> of_int g"
    using fl_ge_rep [OF q(1) double_rep_of_int [OF b(1)]] fl_le_rep [OF q(2) double_rep_of_int [OF b(2)]] .
  then have "f \<le> \<lceil>fl (of_int lo / of_int incr)\<rceil>" "\<lceil>fl (of_int lo / of_int incr)\<rceil> \<le> g"
    by (simp_all add: le_ceiling_iff ceiling_le_iff)
  then have "f * incr \<le> \<lceil>fl (of_int lo / of_int incr)\<rceil> * incr" "\<lceil>fl (of_int lo / of_int incr)\<rceil> * incr \<le> g * incr"
    using assms(2) by (simp_all add: mult_right_mono)
  then show ?thesis using f(2) g(2) by linarith
qed

text \<open>Claim C35: the time axis is always labelled, and labelled where it should be: for whole instants and a
  whole positive increment the loop ends, the first label is the start, the last the end, the
  labels are in strictly increasing order, and those in between are exactly the multiples of the
  increment at least the minimal gap away from both ends.\<close>

theorem time_axis_labels:
  assumes "\<bar>lo\<bar> \<le> 2 ^ 51" and "\<bar>hi\<bar> \<le> 2 ^ 51" and "0 < incr" and "incr \<le> 2 ^ 51" and "0 < gap" and "lo < hi"
  shows "\<exists>inner. timeAxisSplits (of_int lo) (of_int hi) (of_int incr) gap = Some (map of_int (lo # inner @ [hi])) \<and>
    sorted_wrt (<) (lo # inner @ [hi]) \<and>
    set inner = {x. incr dvd x \<and> gap \<le> of_int (x - lo) \<and> gap \<le> of_int (hi - x)}"
proof -
  define c where "c = \<lceil>fl (of_int lo / of_int incr)\<rceil> * incr"
  define inner where "inner = filter (label_fits lo hi gap) (steps c hi incr)"
  have c: "lo - incr \<le> c" "c < lo + incr" "incr dvd c"
    using ceiling_start [OF assms(1,3)] by (simp_all add: c_def)
  have fits: "lo < x \<and> x < hi" if "label_fits lo hi gap x" for x
  proof -
    have "0 < (of_int (x - lo) :: rat)" "0 < (of_int (hi - x) :: rat)"
      using that assms(5) by (simp_all only: label_fits_def) linarith+
    then show ?thesis by (simp only: of_int_0_less_iff) linarith
  qed
  have "\<bar>c\<bar> \<le> 2 ^ 53" using c(1,2) assms(1,4) by simp
  then have start: "fl (of_int \<lceil>fl (of_int lo / of_int incr)\<rceil> * of_int incr) = of_int c"
    using fl_of_int [of c] by (simp add: c_def)
  have "timeAxisSplits (of_int lo) (of_int hi) (of_int incr) gap = Some (map of_int (lo # inner @ [hi]))"
    using assms(3,6) axis_loop_steps [OF assms(1,2,3,4) c(1), of gap "[of_int lo]"]
    by (simp add: timeAxisSplits_def start inner_def)
  moreover have "sorted_wrt (<) (lo # inner @ [hi])"
    using fits sorted_steps [OF assms(3), of c hi] assms(6)
    by (auto simp: inner_def sorted_wrt_append intro: sorted_wrt_filter)
  moreover have "set inner = {x. incr dvd x \<and> gap \<le> of_int (x - lo) \<and> gap \<le> of_int (hi - x)}"
  proof (rule set_eqI)
    fix x
    have d: "(incr dvd x - c) = (incr dvd x)" using dvd_add_left_iff [of incr "- c" x] c(3) by simp
    have "c \<le> x" if "incr dvd x" "lo < x"
    proof (rule ccontr)
      assume "\<not> c \<le> x"
      moreover have "incr dvd c - x" using c(3) that(1) by (rule dvd_diff)
      ultimately show False using zdvd_imp_le [of incr "c - x"] c(2) that(2) by linarith
    qed
    then have "x \<in> set inner \<longleftrightarrow> incr dvd x \<and> label_fits lo hi gap x"
      using fits [of x] set_steps [OF assms(3), of c hi] d by (auto simp: inner_def)
    then show "x \<in> set inner \<longleftrightarrow> x \<in> {x. incr dvd x \<and> gap \<le> of_int (x - lo) \<and> gap \<le> of_int (hi - x)}"
      by (simp only: label_fits_def mem_Collect_eq)
  qed
  ultimately show ?thesis by blast
qed

theorem time_axis_labels_witness:
  "\<exists>inner. timeAxisSplits 1790000000000 1790000007500 2000 500 = Some (map of_int (1790000000000 # inner @ [1790000007500])) \<and>
     1790000002000 \<in> set inner"
  using time_axis_labels [of 1790000000000 1790000007500 2000 500] by auto

section \<open>Price labels\<close>

definition rounded_magnitude :: "rat \<Rightarrow> nat \<Rightarrow> int" where
  "rounded_magnitude v d = \<lfloor>fl (\<bar>v\<bar> * 10 ^ d) + 1 / 2\<rfloor>"

lemma round_scaled:
  assumes "rounded_magnitude v d < 2 ^ 53"
  shows "math_round (num_scale (num_abs (Fin v)) (10 ^ d)) = Fin (of_nat (nat (rounded_magnitude v d)))"
    and "0 \<le> rounded_magnitude v d"
proof -
  define y where "y = fl (\<bar>v\<bar> * 10 ^ d)"
  have y: "0 \<le> y" unfolding y_def by (rule fl_nonneg) simp
  then show p: "0 \<le> rounded_magnitude v d" by (simp add: rounded_magnitude_def y_def [symmetric])
  have "\<lfloor>y + 1 / 2\<rfloor> < 2 ^ 53" using assms by (simp only: rounded_magnitude_def y_def [symmetric])
  then have "y + 1 / 2 < of_int (2 ^ 53)" by (simp only: floor_less_iff)
  then have "y < 2 ^ 53" by simp
  also have "\<dots> \<le> (2 :: rat) ^ 1024" by (rule power_increasing) simp_all
  finally have "\<not> 2 ^ 1024 \<le> y" by (simp only: not_le)
  moreover have "\<not> y \<le> - (2 ^ 1024)"
  proof -
    have "(0 :: rat) < 2 ^ 1024" by (rule zero_less_power) simp
    then show ?thesis using y by linarith
  qed
  ultimately have "to_number (\<bar>v\<bar> * 10 ^ d) = Fin y" by (simp only: to_number_def y_def [symmetric] Let_def if_False)
  then show "math_round (num_scale (num_abs (Fin v)) (10 ^ d)) = Fin (of_nat (nat (rounded_magnitude v d)))"
    using p by (simp add: rounded_magnitude_def y_def [symmetric])
qed

lemma axis_text:
  fixes m d :: nat
  assumes "d \<le> 4" and "sg \<in> {'''', ''-''}" and "D = padStart (d + 1) (CHR ''0'') (nat_str m)"
  shows "take (length D - d) D \<noteq> ''''"
    and "parts_ok sg (take (length D - d) D) (drop (length D - d) D)"
    and "toScaledInt (decimal_text sg (take (length D - d) D) (drop (length D - d) D)) =
      (if sg = ''-'' then - 1 else 1) * int m * 10 ^ (4 - d)"
proof -
  have len: "d + 1 \<le> length D" by (simp add: assms(3))
  then show "take (length D - d) D \<noteq> ''''" by (cases D) auto
  have "parts_ok sg (take (length D - d) D) (drop (length D - d) D) \<and>
      toScaledInt (decimal_text sg (take (length D - d) D) (drop (length D - d) D)) =
        (if sg = ''-'' then - 1 else 1) * int m * 10 ^ (4 - d)"
  proof (cases "d = 0")
    case True
    have "\<forall>c \<in> set D. is_digit c" unfolding assms(3) using pad_digits(1) nat_str_digits by blast
    then have p: "parts_ok sg D ''''" using assms(2) len by (auto simp: parts_ok_def list_all_iff)
    then show ?thesis using toScaledInt_text [OF p] True by (simp add: assms(3))
  next
    case False
    then show ?thesis using padded_units_text [of d sg m] assms(1,2) unfolding assms(3) by blast
  qed
  then show "parts_ok sg (take (length D - d) D) (drop (length D - d) D)"
    and "toScaledInt (decimal_text sg (take (length D - d) D) (drop (length D - d) D)) =
      (if sg = ''-'' then - 1 else 1) * int m * 10 ^ (4 - d)" by blast+
qed

lemma axis_price_text:
  assumes "d \<le> 4" and "rounded_magnitude v d < 2 ^ 53"
  shows "formatAxisPrice (Fin v) d =
    Inr (fromScaledInt ((if v < 0 then - 1 else 1) * rounded_magnitude v d * 10 ^ (4 - d)) d)"
proof -
  define m where "m = nat (rounded_magnitude v d)"
  have m: "int m = rounded_magnitude v d" "math_round (num_scale (num_abs (Fin v)) (10 ^ d)) = Fin (of_nat m)" "m < 2 ^ 53"
    using round_scaled [OF assms(2)] assms(2) by (auto simp: m_def nat_less_iff)
  define sg where "sg = (if v < 0 \<and> m \<noteq> 0 then ''-'' else '''')"
  define D where "D = padStart (d + 1) (CHR ''0'') (nat_str m)"
  have t: "number_text (Fin (of_nat m)) = nat_str m" by (rule number_text_nat [OF m(3)])
  have "sg \<in> {'''', ''-''}" by (simp add: sg_def)
  note T = axis_text [OF assms(1) this D_def]
  have body: "sg @ (if d > 0 then take (length D - d) D @ ''.'' @ drop (length D - d) D else take (length D - d) D) =
      decimal_text sg (take (length D - d) D) (drop (length D - d) D)"
    by (auto simp: decimal_text_def D_def)
  have neg: "(if num_less (Fin v) (Fin 0) \<and> Fin (of_nat m) \<noteq> Fin 0 then ''-'' else '''') = sg" by (simp add: sg_def)
  have s: "(if sg = ''-'' then - 1 else 1) * int m * 10 ^ (4 - d) =
      (if v < 0 then - 1 else 1) * rounded_magnitude v d * 10 ^ (4 - d)"
    by (simp add: sg_def m(1) [symmetric])
  have "formatAxisPrice (Fin v) d = bindE (toDecimal (decimal_text sg (take (length D - d) D) (drop (length D - d) D)))
      (\<lambda>decimalString. Inr (format decimalString (Some d) False))"
    unfolding formatAxisPrice_def Let_def m(2) t D_def [symmetric] neg if_not_P [OF T(1)]
    using body by (cases "d > 0") simp_all
  also have "\<dots> = Inr (format (decimal_text sg (take (length D - d) D) (drop (length D - d) D)) (Some d) False)"
    using isDecimal_text [OF T(2)] by (simp add: toDecimal_def)
  finally show ?thesis by (simp only: format_text T(3) s if_False simp_thms option.case append_Nil)
qed

text \<open>A price label on the axis is the rounded position itself: for a finite position whose
  magnitude in units of the last shown digit stays below 2^53 a label is printed, a valid decimal
  with exactly the asked number of places whose value is the double product rounded to a whole
  number of those units, negative only for a negative position that does not round to zero.\<close>

theorem axis_price_exact:
  assumes "d \<le> 4" and "rounded_magnitude v d < 2 ^ 53"
  shows "\<exists>txt. formatAxisPrice (Fin v) d = Inr txt \<and> isDecimal txt \<and> decimalPlaces txt = d \<and>
    toScaledInt txt = (if v < 0 then - 1 else 1) * rounded_magnitude v d * 10 ^ (4 - d) \<and>
    (take 1 txt = ''-'') = (v < 0 \<and> rounded_magnitude v d \<noteq> 0)"
proof -
  define s where "s = (if v < 0 then - 1 else 1) * rounded_magnitude v d * 10 ^ (4 - d)"
  have neg: "(s < 0) = (v < 0 \<and> rounded_magnitude v d \<noteq> 0)"
    using round_scaled(2) [OF assms(2)] by (auto simp: s_def mult_less_0_iff)
  have "10 ^ (4 - d) dvd s" by (simp add: s_def)
  moreover have "(take 1 (fromScaledInt s d) = ''-'') = (s < 0)"
    using sign_of_text(1) [OF int_frac_values(4) [OF assms(1)], of "if s < 0 then ''-'' else ''''" "nat \<bar>s\<bar>"]
    by (simp add: fromScaledInt_text [OF assms(1)])
  ultimately show ?thesis
    using axis_price_text [OF assms, folded s_def] fromScaledInt_props(1,2) [OF assms(1), of s]
      fromScaledInt_exact [OF assms(1), of s] neg
    by (simp add: s_def [symmetric])
qed

theorem axis_price_exact_witness: "\<exists>lbl. formatAxisPrice (Fin (- 1 / 4)) 1 = Inr lbl \<and> toScaledInt lbl = - 3000"
proof -
  have r: "rounded_magnitude (- 1 / 4) 1 = 3" by code_simp
  have "(1 :: nat) \<le> 4" "rounded_magnitude (- 1 / 4) 1 < 2 ^ 53" unfolding r by simp_all
  from axis_price_exact [OF this, unfolded r] show ?thesis by auto
qed

end
