(* ===== verification/Paced_Views.thy ===== *)
theory Paced_Views
  imports Store Js_Timers
begin

text \<open>
  The board's painted views (src/client/Tckr.MarketWatch/src/display/pacedViews.ts, with the beat's
  length from throttle.ts): one view per watched symbol, taken from the store on a wall-clock beat
  and at once when the stream is discarded. The module's variables are one record, together with
  the store it reads and the event loop's timers; an entry has an identity of its own, which is
  what the cleanup function a subscription returns compares. Callbacks are logged in the order
  they are called; they only schedule renders, so they do not call back into the module.

  Two views are the same object when their figures are: the store makes a new view for every
  change, and a repaint of equal figures shows nothing new.

  The lemmas: the beat's timer is armed exactly while something listens, what the board shows moves
  only on beats, and an old stream's figures never outlive its discard.
\<close>

section \<open>State\<close>

datatype paced_callback = CbBeat

datatype paced_call = CallPaced nat string | CallBeat nat

record PacedEntry =
  pe_id :: nat
  pe_view :: "SymbolView option"
  pe_listeners :: "nat jset"

record paced =
  pv_store :: store
  pv_timers :: "paced_callback timers"
  pv_entries :: "(string, PacedEntry) jmap"
  pv_beatListeners :: "nat jset"
  pv_beatTimer :: "nat option"
  pv_stopDiscardWatch :: bool
  pv_nextEntry :: nat
  pv_calls :: "paced_call list"

definition new_paced :: "store \<Rightarrow> rat \<Rightarrow> paced" where
  "new_paced st t = \<lparr>pv_store = st, pv_timers = start_timers t, pv_entries = [], pv_beatListeners = [],
     pv_beatTimer = None, pv_stopDiscardWatch = False, pv_nextEntry = 0, pv_calls = []\<rparr>"

definition DISPLAY_REFRESH_INTERVAL_MS :: int where
  "DISPLAY_REFRESH_INTERVAL_MS = 10000"

text \<open>The listener the module registers with the store: \<open>publishAll\<close> itself, one function.\<close>

definition publishAll_listener :: Listener where
  "publishAll_listener = 0"

section \<open>Publishing\<close>

definition publish :: "string \<Rightarrow> PacedEntry \<Rightarrow> paced \<Rightarrow> paced" where
  "publish symbol entry s =
     (let nxt = getSymbolSnapshot symbol (pv_store s)
      in if nxt = pe_view entry then s
         else s\<lparr>pv_entries := jset symbol (entry\<lparr>pe_view := nxt\<rparr>) (pv_entries s),
                pv_calls := pv_calls s @ map (\<lambda>l. CallPaced l symbol) (pe_listeners entry)\<rparr>)"

definition publish_symbol :: "paced \<Rightarrow> string \<Rightarrow> paced" where
  "publish_symbol s symbol =
     (case jget (pv_entries s) symbol of None \<Rightarrow> s | Some entry \<Rightarrow> publish symbol entry s)"

definition publishAll :: "paced \<Rightarrow> paced" where
  "publishAll s = foldl publish_symbol s (jkeys (pv_entries s))"

definition schedule :: "paced \<Rightarrow> paced" where
  "schedule s =
     (if pv_beatTimer s \<noteq> None \<or> (pv_entries s = [] \<and> pv_beatListeners s = []) then s
      else let now = \<lfloor>tm_now (pv_timers s)\<rfloor>;
               nextSlot = (now div DISPLAY_REFRESH_INTERVAL_MS + 1) * DISPLAY_REFRESH_INTERVAL_MS;
               (h, tm) = setTimeout (pv_timers s) CbBeat (of_int (nextSlot - now))
           in s\<lparr>pv_timers := tm, pv_beatTimer := Some h\<rparr>)"

definition beat :: "paced \<Rightarrow> paced" where
  "beat s =
     (let s1 = publishAll (s\<lparr>pv_beatTimer := None\<rparr>)
      in schedule (s1\<lparr>pv_calls := pv_calls s1 @ map CallBeat (pv_beatListeners s1)\<rparr>))"

definition start :: "paced \<Rightarrow> paced" where
  "start s =
     schedule (if pv_stopDiscardWatch s then s
       else s\<lparr>pv_store := onStreamDiscard publishAll_listener (pv_store s), pv_stopDiscardWatch := True\<rparr>)"

definition stopIfIdle :: "paced \<Rightarrow> paced" where
  "stopIfIdle s =
     (if pv_entries s \<noteq> [] \<or> pv_beatListeners s \<noteq> [] then s
      else let s1 = (case pv_beatTimer s of
                 Some h \<Rightarrow> s\<lparr>pv_timers := clearTimeout (pv_timers s) h, pv_beatTimer := None\<rparr>
               | None \<Rightarrow> s)
           in s1\<lparr>pv_store := (if pv_stopDiscardWatch s1 then offStreamDiscard publishAll_listener (pv_store s1) else pv_store s1),
                 pv_stopDiscardWatch := False\<rparr>)"

section \<open>What components call\<close>

definition getPacedSymbolSnapshot :: "string \<Rightarrow> paced \<Rightarrow> SymbolView option" where
  "getPacedSymbolSnapshot symbol s =
     (case jget (pv_entries s) symbol of Some entry \<Rightarrow> pe_view entry | None \<Rightarrow> getSymbolSnapshot symbol (pv_store s))"

definition flushPacedSymbol :: "string \<Rightarrow> paced \<Rightarrow> paced" where
  "flushPacedSymbol symbol s = publish_symbol s symbol"

text \<open>The function a subscription returns is the entry it captured, with the symbol and the callback.\<close>

type_synonym paced_handle = "nat \<times> string \<times> nat"

definition subscribePacedSymbol :: "string \<Rightarrow> nat \<Rightarrow> paced \<Rightarrow> paced_handle \<times> paced" where
  "subscribePacedSymbol symbol cb s =
     (let (entry, s1) = (case jget (pv_entries s) symbol of
            Some entry \<Rightarrow> (entry, s)
          | None \<Rightarrow>
              let entry = \<lparr>pe_id = pv_nextEntry s, pe_view = getSymbolSnapshot symbol (pv_store s), pe_listeners = []\<rparr>
              in (entry, s\<lparr>pv_entries := jset symbol entry (pv_entries s), pv_nextEntry := pv_nextEntry s + 1\<rparr>));
          s2 = s1\<lparr>pv_entries := jset symbol (entry\<lparr>pe_listeners := sadd cb (pe_listeners entry)\<rparr>) (pv_entries s1)\<rparr>
      in ((pe_id entry, symbol, cb), start s2))"

definition unsubscribePaced :: "paced_handle \<Rightarrow> paced \<Rightarrow> paced" where
  "unsubscribePaced u s =
     (let (active, symbol, cb) = u
      in stopIfIdle (case jget (pv_entries s) symbol of
           Some entry \<Rightarrow>
             if pe_id entry = active then
               let listeners = sdelete cb (pe_listeners entry)
               in if listeners = [] then s\<lparr>pv_entries := jdelete symbol (pv_entries s)\<rparr>
                  else s\<lparr>pv_entries := jset symbol (entry\<lparr>pe_listeners := listeners\<rparr>) (pv_entries s)\<rparr>
             else s
         | None \<Rightarrow> s))"

definition subscribeBeat :: "nat \<Rightarrow> paced \<Rightarrow> paced" where
  "subscribeBeat cb s = start (s\<lparr>pv_beatListeners := sadd cb (pv_beatListeners s)\<rparr>)"

definition unsubscribeBeat :: "nat \<Rightarrow> paced \<Rightarrow> paced" where
  "unsubscribeBeat cb s = stopIfIdle (s\<lparr>pv_beatListeners := sdelete cb (pv_beatListeners s)\<rparr>)"

definition beatNowForTests :: "paced \<Rightarrow> paced" where
  "beatNowForTests s =
     beat (case pv_beatTimer s of
       Some h \<Rightarrow> s\<lparr>pv_timers := clearTimeout (pv_timers s) h, pv_beatTimer := None\<rparr>
     | None \<Rightarrow> s)"

section \<open>Runs\<close>

text \<open>What happens on the page: components come and go, the data layer writes to the store, time
  passes and the beat's timer fires. A stream reset calls the store's discard listeners.\<close>

datatype paced_event =
    PvSubscribe string nat | PvUnsubscribe paced_handle | PvBeat nat | PvUnbeat nat | PvFlush string
  | PvPrime "universe_entry list" | PvSnapshot Snapshot rat | PvTick Tick rat | PvReset
  | PvTime rat | PvTimer nat | PvBeatNow

definition discardStream :: "paced \<Rightarrow> paced" where
  "discardStream s =
     (let s1 = s\<lparr>pv_store := resetStream (pv_store s)\<rparr>
      in if publishAll_listener \<in> set (so_streamDiscardListeners (pv_store s)) then publishAll s1 else s1)"

fun paced_do :: "paced \<Rightarrow> paced_event \<Rightarrow> paced" where
  "paced_do s (PvSubscribe x cb) = snd (subscribePacedSymbol x cb s)"
| "paced_do s (PvUnsubscribe u) = unsubscribePaced u s"
| "paced_do s (PvBeat cb) = subscribeBeat cb s"
| "paced_do s (PvUnbeat cb) = unsubscribeBeat cb s"
| "paced_do s (PvFlush x) = flushPacedSymbol x s"
| "paced_do s (PvPrime ds) = s\<lparr>pv_store := primeUniverse ds (pv_store s)\<rparr>"
| "paced_do s (PvSnapshot sn now) = s\<lparr>pv_store := applySnapshot sn now (pv_store s)\<rparr>"
| "paced_do s (PvTick t now) = s\<lparr>pv_store := applyTick t now (pv_store s)\<rparr>"
| "paced_do s PvReset = discardStream s"
| "paced_do s (PvTime d) = s\<lparr>pv_timers := advance (pv_timers s) d\<rparr>"
| "paced_do s (PvTimer h) =
     (case due_timer (pv_timers s) h of None \<Rightarrow> s | Some (_, tm) \<Rightarrow> beat (s\<lparr>pv_timers := tm\<rparr>))"
| "paced_do s PvBeatNow = beatNowForTests s"

definition paced_run :: "paced \<Rightarrow> paced_event list \<Rightarrow> paced" where
  "paced_run s es = foldl paced_do s es"

section \<open>What publishing does\<close>

lemma publish_symbol_frame [simp]:
  "pv_store (publish_symbol s x) = pv_store s" "pv_timers (publish_symbol s x) = pv_timers s"
  "pv_beatListeners (publish_symbol s x) = pv_beatListeners s" "pv_beatTimer (publish_symbol s x) = pv_beatTimer s"
  "pv_stopDiscardWatch (publish_symbol s x) = pv_stopDiscardWatch s"
  "jkeys (pv_entries (publish_symbol s x)) = jkeys (pv_entries s)"
  by (auto simp: publish_symbol_def publish_def Let_def jkeys_jset_present dest: jget_Some_key split: option.split)

lemma publish_symbol_entries:
  "jget (pv_entries (publish_symbol s x)) y =
     (if y = x then map_option (\<lambda>e. e\<lparr>pe_view := getSymbolSnapshot x (pv_store s)\<rparr>) (jget (pv_entries s) x)
      else jget (pv_entries s) y)"
  by (auto simp: publish_symbol_def publish_def Let_def split: option.split)

lemma publish_fold:
  "pv_store (foldl publish_symbol s xs) = pv_store s \<and> pv_timers (foldl publish_symbol s xs) = pv_timers s \<and>
   pv_beatListeners (foldl publish_symbol s xs) = pv_beatListeners s \<and> pv_beatTimer (foldl publish_symbol s xs) = pv_beatTimer s \<and>
   pv_stopDiscardWatch (foldl publish_symbol s xs) = pv_stopDiscardWatch s \<and>
   jkeys (pv_entries (foldl publish_symbol s xs)) = jkeys (pv_entries s) \<and>
   jget (pv_entries (foldl publish_symbol s xs)) y =
     (if y \<in> set xs then map_option (\<lambda>e. e\<lparr>pe_view := getSymbolSnapshot y (pv_store s)\<rparr>) (jget (pv_entries s) y)
      else jget (pv_entries s) y)"
  by (induction xs arbitrary: s) (auto simp: publish_symbol_entries option.map_comp comp_def cong: option.map_cong)

lemma publishAll_frame [simp]:
  "pv_store (publishAll s) = pv_store s" "pv_timers (publishAll s) = pv_timers s"
  "pv_beatListeners (publishAll s) = pv_beatListeners s" "pv_beatTimer (publishAll s) = pv_beatTimer s"
  "pv_stopDiscardWatch (publishAll s) = pv_stopDiscardWatch s" "jkeys (pv_entries (publishAll s)) = jkeys (pv_entries s)"
  using publish_fold [of s "jkeys (pv_entries s)"] by (simp_all add: publishAll_def)

lemma publishAll_entries [simp]:
  "jget (pv_entries (publishAll s)) y = map_option (\<lambda>e. e\<lparr>pe_view := getSymbolSnapshot y (pv_store s)\<rparr>) (jget (pv_entries s) y)"
  using publish_fold [of s "jkeys (pv_entries s)" y] jget_None_iff [of "pv_entries s" y]
  by (cases "y \<in> set (jkeys (pv_entries s))") (simp_all add: publishAll_def)

lemma no_keys [simp]: "(jkeys m = []) = (m = [])"
  by (simp add: jkeys_def)

definition watched :: "paced \<Rightarrow> bool" where
  "watched s = (pv_entries s \<noteq> [] \<or> pv_beatListeners s \<noteq> [])"

lemma watched_publish [simp]: "watched (publishAll s) = watched s" "watched (publish_symbol s x) = watched s"
  using publishAll_frame(6) [of s] publish_symbol_frame(6) [of s x] no_keys
  unfolding watched_def by (metis publishAll_frame(3), metis publish_symbol_frame(3))

section \<open>The beat runs exactly while it is needed\<close>

abbreviation beat_tracks :: "paced_callback timers \<Rightarrow> nat option \<Rightarrow> bool" where
  "beat_tracks tm h \<equiv> tracks (\<lambda>_. False) (\<lambda>_. True) tm (\<lambda>_. h)"

definition on_slot :: "paced_callback timers \<Rightarrow> bool" where
  "on_slot tm = (\<forall>h t. jget (tm_armed tm) h = Some t \<longrightarrow> DISPLAY_REFRESH_INTERVAL_MS dvd \<lfloor>ti_due t\<rfloor>)"

definition watch_ok :: "paced \<Rightarrow> bool" where
  "watch_ok s = (beat_tracks (pv_timers s) (pv_beatTimer s) \<and> on_slot (pv_timers s) \<and>
     pv_stopDiscardWatch s = (publishAll_listener \<in> set (so_streamDiscardListeners (pv_store s))) \<and>
     (\<forall>x e. jget (pv_entries s) x = Some e \<longrightarrow> pe_listeners e \<noteq> []))"

definition paced_ok :: "paced \<Rightarrow> bool" where
  "paced_ok s = (watch_ok s \<and> (pv_beatTimer s \<noteq> None) = watched s \<and> pv_stopDiscardWatch s = watched s)"

lemma one_callback: "(f :: paced_callback \<Rightarrow> 'a)(CbBeat := v) = (\<lambda>_. v)"
proof
  fix x
  show "(f(CbBeat := v)) x = v" by (cases x) simp
qed

lemma slot_ahead:
  fixes t :: rat
  defines "d \<equiv> (\<lfloor>t\<rfloor> div 10000 + 1) * 10000 - \<lfloor>t\<rfloor>"
  shows "10000 dvd \<lfloor>t + timer_delay (of_int d)\<rfloor>"
proof -
  have "0 < d" "d \<le> 10000"
    using minus_mod_eq_div_mult [of "\<lfloor>t\<rfloor>" 10000] pos_mod_sign [of 10000 "\<lfloor>t\<rfloor>"] pos_mod_bound [of 10000 "\<lfloor>t\<rfloor>"]
    unfolding d_def distrib_right by linarith+
  then have "timer_delay (of_int d) = of_int d" by (simp add: timer_delay_def to_int32_def)
  then have "\<lfloor>t + timer_delay (of_int d)\<rfloor> = \<lfloor>t\<rfloor> + d" by simp
  also have "\<dots> = (\<lfloor>t\<rfloor> div 10000 + 1) * 10000" by (simp add: d_def)
  finally show ?thesis by simp
qed

lemma watch_ok_schedule:
  assumes "watch_ok s" and "pv_beatTimer s \<noteq> None \<Longrightarrow> watched s"
  shows "watch_ok (schedule s) \<and> (pv_beatTimer (schedule s) \<noteq> None) = watched s \<and> watched (schedule s) = watched s \<and>
    pv_stopDiscardWatch (schedule s) = pv_stopDiscardWatch s"
proof (cases "pv_beatTimer s \<noteq> None \<or> \<not> watched s")
  case True
  then have "schedule s = s" by (auto simp: schedule_def watched_def)
  then show ?thesis using True assms by auto
next
  case False
  define ms where "ms = (of_int ((\<lfloor>tm_now (pv_timers s)\<rfloor> div 10000 + 1) * 10000 - \<lfloor>tm_now (pv_timers s)\<rfloor>) :: rat)"
  define h where "h = fst (set_timer (pv_timers s) CbBeat ms None)"
  define tm where "tm = snd (set_timer (pv_timers s) CbBeat ms None)"
  have e: "schedule s = s\<lparr>pv_timers := tm, pv_beatTimer := Some h\<rparr>"
    using False by (auto simp: schedule_def watched_def DISPLAY_REFRESH_INTERVAL_MS_def setTimeout_def Let_def
        case_prod_unfold h_def tm_def ms_def)
  have "tracks (\<lambda>_. False) (\<lambda>_. True) tm ((\<lambda>_. pv_beatTimer s)(CbBeat := Some h))"
    unfolding tm_def h_def by (rule tracks_arm) (use assms(1) False in \<open>simp_all add: watch_ok_def\<close>)
  then have "beat_tracks tm (Some h)" by (simp add: one_callback)
  moreover have "on_slot tm"
    using assms(1) slot_ahead [of "tm_now (pv_timers s)"]
    by (auto simp: on_slot_def watch_ok_def tm_def set_timer_def ms_def DISPLAY_REFRESH_INTERVAL_MS_def split: if_splits)
  ultimately show ?thesis using assms(1) False by (simp add: e watch_ok_def watched_def)
qed

lemma paced_ok_start:
  assumes "watch_ok s" and "watched s"
  shows "paced_ok (start s)"
proof -
  define s1 where "s1 = (if pv_stopDiscardWatch s then s
       else s\<lparr>pv_store := onStreamDiscard publishAll_listener (pv_store s), pv_stopDiscardWatch := True\<rparr>)"
  have "watch_ok s1" "watched s1" "pv_stopDiscardWatch s1"
    using assms by (auto simp: s1_def watch_ok_def watched_def onStreamDiscard_def)
  then show ?thesis using watch_ok_schedule [of s1] by (simp add: start_def s1_def [symmetric] paced_ok_def)
qed

lemma paced_ok_stopIfIdle:
  assumes "watch_ok s" and "watched s \<Longrightarrow> paced_ok s"
  shows "paced_ok (stopIfIdle s)"
proof (cases "watched s")
  case True
  then show ?thesis using assms by (auto simp: stopIfIdle_def watched_def)
next
  case False
  define s1 where "s1 = (case pv_beatTimer s of
      Some h \<Rightarrow> s\<lparr>pv_timers := clearTimeout (pv_timers s) h, pv_beatTimer := None\<rparr> | None \<Rightarrow> s)"
  have s1: "watch_ok s1" "pv_beatTimer s1 = None" "\<not> watched s1"
  proof -
    show "pv_beatTimer s1 = None" "\<not> watched s1"
      using False by (auto simp: s1_def watched_def split: option.split)
    show "watch_ok s1"
    proof (cases "pv_beatTimer s")
      case (Some h)
      have t: "tracks (\<lambda>_. False) (\<lambda>_. True) (clearTimeout (pv_timers s) h) ((\<lambda>_. pv_beatTimer s)(CbBeat := None))"
        by (rule tracks_clear) (use assms(1) Some in \<open>simp_all add: watch_ok_def\<close>)
      then have "beat_tracks (clearTimeout (pv_timers s) h) None" by (simp add: one_callback)
      moreover have "on_slot (clearTimeout (pv_timers s) h)"
        using assms(1) by (auto simp: on_slot_def watch_ok_def clearTimeout_def split: if_splits)
      ultimately show ?thesis using assms(1) Some by (simp add: s1_def watch_ok_def)
    qed (use assms(1) in \<open>simp add: s1_def\<close>)
  qed
  then show ?thesis using False
    by (auto simp: stopIfIdle_def s1_def [symmetric] Let_def paced_ok_def watch_ok_def watched_def offStreamDiscard_def)
qed

lemma discard_listeners [simp]:
  "so_streamDiscardListeners (primeUniverse ds st) = so_streamDiscardListeners st"
  "so_streamDiscardListeners (applySnapshot sn now st) = so_streamDiscardListeners st"
  "so_streamDiscardListeners (applyTick t now st) = so_streamDiscardListeners st"
  "so_streamDiscardListeners (resetStream st) = so_streamDiscardListeners st"
proof -
  have "so_streamDiscardListeners (foldl prime_one st ds) = so_streamDiscardListeners st"
    by (rule foldl_frame) (simp add: prime_one_def Let_def recordFor_def case_prod_unfold split: option.split)
  then show "so_streamDiscardListeners (primeUniverse ds st) = so_streamDiscardListeners st"
    by (simp add: primeUniverse_def Let_def)
qed (use clear_fold [of _ st "jkeys (so_records st)"] in
  \<open>simp_all add: applySnapshot_def applyTick_def resetStream_def reset_views_def Let_def split: option.split\<close>)

lemma watch_ok_publish [simp]:
  "watch_ok s \<Longrightarrow> watch_ok (publishAll s)" "watch_ok s \<Longrightarrow> watch_ok (publish_symbol s x)"
  by (auto simp: watch_ok_def publish_symbol_entries split: if_splits)

lemma paced_ok_beat:
  assumes "watch_ok (s\<lparr>pv_beatTimer := None\<rparr>)" and "pv_stopDiscardWatch s = watched s"
  shows "paced_ok (beat s)"
proof -
  define s1 where "s1 = publishAll (s\<lparr>pv_beatTimer := None\<rparr>)"
  define s2 where "s2 = s1\<lparr>pv_calls := pv_calls s1 @ map CallBeat (pv_beatListeners s1)\<rparr>"
  have w: "watched s2 = watched s"
    using watched_publish(1) [of "s\<lparr>pv_beatTimer := None\<rparr>"] by (simp add: s2_def s1_def watched_def)
  have "watch_ok s1" unfolding s1_def by (rule watch_ok_publish) (rule assms(1))
  then have "watch_ok s2" by (simp add: s2_def watch_ok_def)
  moreover have "pv_beatTimer s2 = None" "pv_stopDiscardWatch s2 = watched s"
    using assms(2) by (simp_all add: s2_def s1_def)
  ultimately show ?thesis
    using watch_ok_schedule [of s2] w by (simp add: beat_def s1_def [symmetric] s2_def [symmetric] Let_def paced_ok_def)
qed

lemma paced_ok_timers: "paced_ok s \<Longrightarrow> beat_tracks (pv_timers s) (pv_beatTimer s)"
  by (simp add: paced_ok_def watch_ok_def)

lemma jdelete_Nil [simp]: "jdelete k [] = []"
  by (simp add: jdelete_def)

lemma jset_not_Nil [simp]: "jset k v m \<noteq> []"
  by (cases m) simp_all

lemma sadd_not_Nil [simp]: "sadd x xs \<noteq> []"
  by (auto simp: sadd_def)

lemma paced_ok_subscribe: "paced_ok s \<Longrightarrow> paced_ok (snd (subscribePacedSymbol x cb s))"
  unfolding subscribePacedSymbol_def
  by (auto simp: Let_def split: option.split intro!: paced_ok_start)
    (auto simp: paced_ok_def watch_ok_def watched_def split: if_splits)

lemma paced_ok_unsubscribe: "paced_ok s \<Longrightarrow> paced_ok (unsubscribePaced u s)"
  unfolding unsubscribePaced_def
  by (auto simp: Let_def case_prod_unfold split: option.split intro!: paced_ok_stopIfIdle)
    (auto simp: paced_ok_def watch_ok_def watched_def split: if_splits)

lemma paced_ok_beats:
  "paced_ok s \<Longrightarrow> paced_ok (subscribeBeat cb s)" "paced_ok s \<Longrightarrow> paced_ok (unsubscribeBeat cb s)"
proof -
  show "paced_ok s \<Longrightarrow> paced_ok (subscribeBeat cb s)" unfolding subscribeBeat_def
    by (rule paced_ok_start) (auto simp: paced_ok_def watch_ok_def watched_def)
  show "paced_ok s \<Longrightarrow> paced_ok (unsubscribeBeat cb s)" unfolding unsubscribeBeat_def
    by (rule paced_ok_stopIfIdle) (auto simp: paced_ok_def watch_ok_def watched_def sdelete_def)
qed

lemma paced_ok_timer:
  assumes "paced_ok s" and "due_timer (pv_timers s) h = Some (cb, tm)"
  shows "paced_ok (beat (s\<lparr>pv_timers := tm\<rparr>))"
proof (rule paced_ok_beat)
  have "tracks (\<lambda>_. False) (\<lambda>_. True) tm ((\<lambda>_. pv_beatTimer s)(CbBeat := None))"
    using tracks_due [OF paced_ok_timers [OF assms(1)] assms(2), THEN conjunct2] by (cases cb) simp
  then have "beat_tracks tm None" by (simp add: one_callback)
  moreover have "on_slot tm"
  proof -
    obtain t where t: "jget (tm_armed (pv_timers s)) h = Some t" "ti_callback t = cb"
      using assms(2) by (auto simp: due_timer_def split: option.splits if_splits)
    then have "ti_every t = None"
      using tracks_any [OF paced_ok_timers [OF assms(1)], of h t] by (simp add: armed_for_def)
    then have "tm = clearTimeout (pv_timers s) h" using assms(2) t by (auto simp: due_timer_def split: if_splits)
    then show ?thesis using assms(1) by (auto simp: paced_ok_def watch_ok_def on_slot_def clearTimeout_def split: if_splits)
  qed
  ultimately show "watch_ok (s\<lparr>pv_timers := tm, pv_beatTimer := None\<rparr>)" using assms(1) by (simp add: paced_ok_def watch_ok_def)
qed (use assms(1) in \<open>simp add: paced_ok_def watched_def\<close>)

lemma paced_ok_beatNow: "paced_ok s \<Longrightarrow> paced_ok (beatNowForTests s)"
proof -
  assume ok: "paced_ok s"
  show ?thesis unfolding beatNowForTests_def
  proof (rule paced_ok_beat)
    show "watch_ok ((case pv_beatTimer s of
        Some h \<Rightarrow> s\<lparr>pv_timers := clearTimeout (pv_timers s) h, pv_beatTimer := None\<rparr> | None \<Rightarrow> s)\<lparr>pv_beatTimer := None\<rparr>)"
    proof (cases "pv_beatTimer s")
      case (Some h)
      have "tracks (\<lambda>_. False) (\<lambda>_. True) (clearTimeout (pv_timers s) h) ((\<lambda>_. pv_beatTimer s)(CbBeat := None))"
        by (rule tracks_clear [OF paced_ok_timers [OF ok]]) (use Some in simp_all)
      then have "beat_tracks (clearTimeout (pv_timers s) h) None" by (simp add: one_callback)
      moreover have "on_slot (clearTimeout (pv_timers s) h)"
        using ok by (auto simp: on_slot_def paced_ok_def watch_ok_def clearTimeout_def split: if_splits)
      ultimately show ?thesis using ok Some by (simp add: paced_ok_def watch_ok_def)
    next
      case None
      have e: "s\<lparr>pv_beatTimer := None\<rparr> = s" using None by simp
      show ?thesis unfolding None option.case e using ok by (simp add: paced_ok_def)
    qed
  qed (use ok in \<open>auto simp: paced_ok_def watched_def split: option.split\<close>)
qed

lemma paced_ok_frame:
  assumes "paced_ok s" and "so_streamDiscardListeners st = so_streamDiscardListeners (pv_store s)"
  shows "paced_ok (s\<lparr>pv_store := st\<rparr>)"
  using assms by (auto simp: paced_ok_def watch_ok_def watched_def)

lemma paced_ok_publish: "paced_ok s \<Longrightarrow> paced_ok (publishAll s)" "paced_ok s \<Longrightarrow> paced_ok (publish_symbol s x)"
  by (simp_all add: paced_ok_def)

lemma paced_ok_advance: "paced_ok s \<Longrightarrow> paced_ok (s\<lparr>pv_timers := advance (pv_timers s) d\<rparr>)"
  using tracks_advance [where tm = "pv_timers s" and tr = "\<lambda>_. pv_beatTimer s" and d = d]
  by (auto simp: paced_ok_def watch_ok_def watched_def on_slot_def advance_def)

lemma paced_ok_step: "paced_ok s \<Longrightarrow> paced_ok (paced_do s e)"
  by (cases e) (simp_all add: paced_ok_subscribe paced_ok_unsubscribe paced_ok_beats paced_ok_timer paced_ok_beatNow
      paced_ok_frame paced_ok_publish paced_ok_advance flushPacedSymbol_def discardStream_def Let_def split: option.split)

lemma paced_ok_run: "paced_ok s \<Longrightarrow> paced_ok (paced_run s es)"
  unfolding paced_run_def by (rule foldl_invariant [where P = paced_ok]) (simp_all only: paced_ok_step)

lemma paced_ok_new: "publishAll_listener \<notin> set (so_streamDiscardListeners st) \<Longrightarrow> paced_ok (new_paced st t)"
  using tracks_start [of "\<lambda>_. None" "\<lambda>_. False" "\<lambda>_. True" t]
  by (simp add: paced_ok_def watch_ok_def watched_def new_paced_def on_slot_def start_timers_def)



section \<open>What the board shows moves on beats\<close>

lemma publish_fold_calls:
  "\<exists>ps. pv_calls (foldl publish_symbol s xs) = pv_calls s @ ps \<and> list_all (\<lambda>c. case c of CallPaced _ _ \<Rightarrow> True | CallBeat _ \<Rightarrow> False) ps"
proof (induction xs arbitrary: s)
  case (Cons x xs)
  have "\<exists>ps. pv_calls (publish_symbol s x) = pv_calls s @ ps \<and> list_all (\<lambda>c. case c of CallPaced _ _ \<Rightarrow> True | CallBeat _ \<Rightarrow> False) ps"
    by (auto simp: publish_symbol_def publish_def Let_def list_all_iff split: option.split)
  then show ?case using Cons.IH [of "publish_symbol s x"] by (auto simp: list_all_iff)
qed simp

lemma schedule_frame [simp]:
  "pv_entries (schedule s) = pv_entries s" "pv_store (schedule s) = pv_store s" "pv_calls (schedule s) = pv_calls s"
  by (simp_all add: schedule_def Let_def case_prod_unfold)

lemma paced_after_publish:
  "getPacedSymbolSnapshot x (publishAll s) = getSymbolSnapshot x (pv_store s)"
  by (simp add: getPacedSymbolSnapshot_def split: option.split)

lemma beat_shows:
  "getPacedSymbolSnapshot x (beat s) = getSymbolSnapshot x (pv_store s)"
  "\<exists>ps. pv_calls (beat s) = pv_calls s @ ps @ map CallBeat (pv_beatListeners s) \<and>
     list_all (\<lambda>c. case c of CallPaced _ _ \<Rightarrow> True | CallBeat _ \<Rightarrow> False) ps"
proof -
  show "getPacedSymbolSnapshot x (beat s) = getSymbolSnapshot x (pv_store s)"
    by (simp add: beat_def Let_def getPacedSymbolSnapshot_def split: option.split)
  show "\<exists>ps. pv_calls (beat s) = pv_calls s @ ps @ map CallBeat (pv_beatListeners s) \<and>
     list_all (\<lambda>c. case c of CallPaced _ _ \<Rightarrow> True | CallBeat _ \<Rightarrow> False) ps"
    using publish_fold_calls [of "s\<lparr>pv_beatTimer := None\<rparr>" "jkeys (pv_entries s)"]
    by (auto simp: beat_def Let_def publishAll_def publish_fold)
qed

text \<open>Everything on the board moves together: on a watched page, data reaching the store leaves
  every painted view as it was; when the beat fires every painted view becomes the store's in that
  one step, before any beat listener runs; and a stream reset leaves no figure of the old stream
  painted anywhere.\<close>

theorem board_moves_on_beats:
  assumes "publishAll_listener \<notin> set (so_streamDiscardListeners st)"
    and "s = paced_run (new_paced st t) es" and "x \<in> set (jkeys (pv_entries s))"
  shows "getPacedSymbolSnapshot x (paced_do s (PvTick tk now)) = getPacedSymbolSnapshot x s \<and>
    getPacedSymbolSnapshot x (paced_do s (PvSnapshot sn now)) = getPacedSymbolSnapshot x s \<and>
    getPacedSymbolSnapshot x (paced_do s (PvPrime ds)) = getPacedSymbolSnapshot x s \<and>
    getPacedSymbolSnapshot y (paced_do s PvReset) = None \<and>
    (due_timer (pv_timers s) h \<noteq> None \<longrightarrow>
       getPacedSymbolSnapshot y (paced_do s (PvTimer h)) = getSymbolSnapshot y (pv_store s) \<and>
       (\<exists>ps. pv_calls (paced_do s (PvTimer h)) = pv_calls s @ ps @ map CallBeat (pv_beatListeners s) \<and>
          list_all (\<lambda>c. case c of CallPaced _ _ \<Rightarrow> True | CallBeat _ \<Rightarrow> False) ps))"
proof -
  have ok: "paced_ok s" unfolding assms(2) by (rule paced_ok_run [OF paced_ok_new [OF assms(1)]])
  have "watched s" using assms(3) by (auto simp: watched_def)
  then have "publishAll_listener \<in> set (so_streamDiscardListeners (pv_store s))"
    using ok by (auto simp: paced_ok_def watch_ok_def)
  then have "getPacedSymbolSnapshot y (paced_do s PvReset) = None"
    using paced_after_publish [of y "s\<lparr>pv_store := resetStream (pv_store s)\<rparr>"]
    by (simp add: discardStream_def Let_def resetStream_def reset_views_eq getSymbolSnapshot_def [of y])
  moreover obtain e where "jget (pv_entries s) x = Some e" using assms(3) jget_None_iff by (metis option.exhaust)
  then have "getPacedSymbolSnapshot x (s\<lparr>pv_store := st'\<rparr>) = getPacedSymbolSnapshot x s" for st'
    by (simp add: getPacedSymbolSnapshot_def)
  moreover have "getPacedSymbolSnapshot y (paced_do s (PvTimer h)) = getSymbolSnapshot y (pv_store s) \<and>
      (\<exists>ps. pv_calls (paced_do s (PvTimer h)) = pv_calls s @ ps @ map CallBeat (pv_beatListeners s) \<and>
        list_all (\<lambda>c. case c of CallPaced _ _ \<Rightarrow> True | CallBeat _ \<Rightarrow> False) ps)"
    if due: "due_timer (pv_timers s) h \<noteq> None"
  proof -
    obtain cb tm where "due_timer (pv_timers s) h = Some (cb, tm)" using due by auto
    then show ?thesis using beat_shows(1) [of y "s\<lparr>pv_timers := tm\<rparr>"] beat_shows(2) [of "s\<lparr>pv_timers := tm\<rparr>"] by simp
  qed
  ultimately show ?thesis by simp
qed


theorem board_moves_on_beats_witness:
  "getPacedSymbolSnapshot ''COMI'' (paced_do (paced_run (new_paced empty_store 12345) [PvPrime [comi], PvSubscribe ''COMI'' 3])
      (PvTick (comi_tick ''81.50'' 10) 1)) = None"
proof -
  define s where "s = paced_run (new_paced empty_store 12345) [PvPrime [comi], PvSubscribe ''COMI'' 3]"
  have l: "publishAll_listener \<notin> set (so_streamDiscardListeners empty_store)" by (simp add: empty_store_def)
  have x: "''COMI'' \<in> set (jkeys (pv_entries s))" unfolding s_def by code_simp
  have n: "getPacedSymbolSnapshot ''COMI'' s = None" unfolding s_def by code_simp
  from board_moves_on_beats [OF l s_def x, of "comi_tick ''81.50'' 10" 1] n show ?thesis unfolding s_def by simp
qed

end
