(* ===== verification/Price_Chart.thy ===== *)
theory Price_Chart
  imports Chart_Axes Paced_Views Board_Search
begin

text \<open>
  The price chart of the detail page: src/client/Tckr.MarketWatch/src/chart/PriceChart.tsx (the
  buffer it is mounted with, the sampling timers, the draw-in of a sample, the discard on a change
  of stream, its accessible name) and the texts of chart/chartOverlays.ts. The charting canvas is
  the series it is given to plot; its scales, its colours and the overlays' positions are left out,
  and the engine's \<open>Math.pow\<close> of a draw-in is an argument.

  The lemmas: every number the chart prints is one it was given since the last discard, never one
  in flight.
\<close>

section \<open>The chart\<close>

definition LANDING_TWEEN_MS :: rat where
  "LANDING_TWEEN_MS = 720"

definition SAMPLE_AFTER_PAINT_MS :: int where
  "SAMPLE_AFTER_PAINT_MS = 120"

definition DEFAULT_CAPACITY :: nat where
  "DEFAULT_CAPACITY = 4200"

datatype chart_callback = CbPhase | CbSample

text \<open>A sample drawing in: the series before it, its point (the source's \<open>landing\<close>) and its start.\<close>

record tween =
  tw_from :: "(number \<times> number) list"
  tw_landing :: "number \<times> number"
  tw_started :: rat

record price_chart =
  pc_buffer :: RingBuffer
  pc_data :: "(number \<times> number) list"
  pc_stats :: "(number \<times> number) option"
  pc_livePrice :: "ChartHistoryPoint option"
  pc_tween :: "tween option"
  pc_phase :: nat
  pc_interval :: "nat option"
  pc_timers :: "chart_callback timers"

definition recomputeStats :: "RingBuffer \<Rightarrow> (number \<times> number) option" where
  "recomputeStats buffer =
     (if ring_length buffer = 0 then None
      else Some (foldl (\<lambda>(high, low) v. (if num_less high v then v else high, if num_less v low then v else low))
             (NInf, PInf) (map snd (points_of buffer))))"

text \<open>JavaScript's remainder takes the sign of the dividend.\<close>

definition js_rem :: "int \<Rightarrow> int \<Rightarrow> int" where
  "js_rem a b = sgn a * (\<bar>a\<bar> mod \<bar>b\<bar>)"

definition toPhase :: "int \<Rightarrow> int" where
  "toPhase now =
     (let r = DISPLAY_REFRESH_INTERVAL_MS;
          p = js_rem (js_rem (SAMPLE_AFTER_PAINT_MS - js_rem now r) r + r) r
      in if p = 0 then r else p)"

definition mount_chart :: "nat \<Rightarrow> ChartHistoryPoint list \<Rightarrow> ChartHistoryPoint option \<Rightarrow> rat \<Rightarrow> price_chart exn" where
  "mount_chart capacity history livePrice now =
     bindE (new_ring (of_count (int capacity))) (\<lambda>empty.
       let buffer = seedBuffer (Some history) livePrice empty;
           (phase, tm) = setTimeout (start_timers now) CbPhase (of_int (toPhase \<lfloor>now\<rfloor>))
       in Inr \<lparr>pc_buffer = buffer, pc_data = points_of buffer, pc_stats = recomputeStats buffer,
            pc_livePrice = livePrice, pc_tween = None, pc_phase = phase, pc_interval = None, pc_timers = tm\<rparr>)"

definition redraw :: "price_chart \<Rightarrow> price_chart" where
  "redraw c =
     (if ring_length (pc_buffer c) = 0 then c
      else c\<lparr>pc_data := points_of (pc_buffer c), pc_stats := recomputeStats (pc_buffer c)\<rparr>)"

definition settle :: "price_chart \<Rightarrow> price_chart" where
  "settle c = c\<lparr>pc_tween := None\<rparr>"

text \<open>\<open>smooth\<close> is what \<open>canTween\<close> asks of the browser: frames, no reduced motion, a visible page, scales set.\<close>

definition sampleAndDraw :: "bool \<Rightarrow> price_chart \<Rightarrow> price_chart" where
  "sampleAndDraw smooth c0 =
     (let c = settle c0
      in case pc_livePrice c of
           None \<Rightarrow> redraw c
         | Some view \<Rightarrow>
             let before = points_of (pc_buffer c); v1 = toPlotValue (snd view);
                 c1 = c\<lparr>pc_buffer := ring_push (fst view) v1 (pc_buffer c)\<rparr>
             in if \<not> (ring_length (pc_buffer c) > 0 \<and> smooth) then redraw c1
                else c1\<lparr>pc_stats := recomputeStats (pc_buffer c1),
                      pc_tween := Some \<lparr>tw_from = before, tw_landing = (fst view, v1), tw_started = tm_now (pc_timers c1)\<rparr>\<rparr>)"

definition num_times :: "number \<Rightarrow> rat \<Rightarrow> number" where
  "num_times x k =
     (case x of
        Fin a \<Rightarrow> to_number (a * k)
      | NaN \<Rightarrow> NaN
      | _ \<Rightarrow> if k = 0 then NaN else if k > 0 then x else num_neg x)"

definition lerp :: "rat \<Rightarrow> number \<Rightarrow> number \<Rightarrow> number" where
  "lerp e a b = num_add a (num_times (num_sub b a) e)"

text \<open>A frame of the draw-in: the last point is on its way from the last sample before; the end commits
  the buffer.\<close>

definition chart_frame :: "(rat \<Rightarrow> rat) \<Rightarrow> price_chart \<Rightarrow> price_chart" where
  "chart_frame pow4 c =
     (case pc_tween c of
        None \<Rightarrow> c
      | Some w \<Rightarrow>
          let p = min 1 (fl (fl (tm_now (pc_timers c) - tw_started w) / LANDING_TWEEN_MS)); e = fl (1 - pow4 (fl (1 - p)));
              prev = last (tw_from w)
          in if p \<ge> 1 then redraw (settle c)
             else c\<lparr>pc_data := tw_from w @ [(lerp e (fst prev) (fst (tw_landing w)), lerp e (snd prev) (snd (tw_landing w)))]\<rparr>)"

definition chart_timer :: "nat \<Rightarrow> bool \<Rightarrow> price_chart \<Rightarrow> price_chart" where
  "chart_timer h smooth c =
     (case due_timer (pc_timers c) h of
        None \<Rightarrow> c
      | Some (CbSample, tm) \<Rightarrow> sampleAndDraw smooth (c\<lparr>pc_timers := tm\<rparr>)
      | Some (CbPhase, tm) \<Rightarrow>
          let c1 = sampleAndDraw smooth (c\<lparr>pc_timers := tm\<rparr>);
              (interval, tm1) = setInterval (pc_timers c1) CbSample (of_int DISPLAY_REFRESH_INTERVAL_MS)
          in c1\<lparr>pc_interval := Some interval, pc_timers := tm1\<rparr>)"

text \<open>A render with another live price, and the effect on it.\<close>

definition live_price_changes :: "ChartHistoryPoint option \<Rightarrow> price_chart \<Rightarrow> price_chart" where
  "live_price_changes livePrice c =
     (let c1 = c\<lparr>pc_livePrice := livePrice\<rparr>
      in case livePrice of
           None \<Rightarrow> c1
         | Some l \<Rightarrow>
             if livePrice = pc_livePrice c \<or> ring_length (pc_buffer c1) > 0 then c1
             else let b = seedFlatPoint (fst l) (toPlotValue (snd l)) (pc_buffer c1)
                  in c1\<lparr>pc_buffer := b, pc_data := points_of b, pc_stats := recomputeStats b\<rparr>)"

definition discard_points :: "price_chart \<Rightarrow> price_chart" where
  "discard_points c0 =
     (let c = settle c0; b = ring_clear (pc_buffer c)
      in c\<lparr>pc_buffer := b, pc_data := points_of b, pc_stats := recomputeStats b\<rparr>)"

definition unmount_chart :: "price_chart \<Rightarrow> price_chart" where
  "unmount_chart c = settle (c\<lparr>pc_timers := clear_handle (clearTimeout (pc_timers c) (pc_phase c)) (pc_interval c)\<rparr>)"

subsection \<open>What it prints\<close>

definition landing_of :: "price_chart \<Rightarrow> (number \<times> number) option" where
  "landing_of c = map_option tw_landing (pc_tween c)"

text \<open>The last price tag's value, and the time and price of the readout at a plotted index.\<close>

definition last_tag_value :: "price_chart \<Rightarrow> number option" where
  "last_tag_value c =
     (if pc_data c = [] then None
      else Some (case landing_of c of Some l \<Rightarrow> snd l | None \<Rightarrow> snd (last (pc_data c))))"

definition readout_point :: "price_chart \<Rightarrow> nat \<Rightarrow> (number \<times> number) option" where
  "readout_point c idx =
     (if length (pc_data c) \<le> idx then None
      else Some (case landing_of c of
        Some l \<Rightarrow> if idx = length (pc_data c) - 1 then l else pc_data c ! idx
      | None \<Rightarrow> pc_data c ! idx))"

text \<open>The accessible name; the reference line's name and price are absent when it has none.\<close>

definition chart_name :: "string \<Rightarrow> string \<Rightarrow> decimal \<Rightarrow> (string \<times> decimal) option \<Rightarrow> price_chart \<Rightarrow> string exn" where
  "chart_name symbol rangeLabel tickSize reference c =
     (case pc_stats c of
        None \<Rightarrow> Inr (''Price chart for '' @ symbol @ '', waiting for ticks'')
      | Some (high, low) \<Rightarrow>
          bindE (formatYAxisLabel high tickSize) (\<lambda>highText.
          bindE (formatYAxisLabel low tickSize) (\<lambda>lowText.
            Inr (''Price chart for '' @ symbol @ '', '' @ rangeLabel @ '': high '' @ highText @ '', low '' @ lowText @
              (case reference of
                 None \<Rightarrow> ''''
               | Some (name, price) \<Rightarrow>
                   '', '' @ toLowerCase name @ '' '' @ format price (Some (decimalsForTickSize tickSize)) False)))))"

definition last_tag_text :: "decimal \<Rightarrow> price_chart \<Rightarrow> string exn option" where
  "last_tag_text tickSize c = map_option (\<lambda>v. formatYAxisLabel v tickSize) (last_tag_value c)"

definition readout_price :: "decimal \<Rightarrow> price_chart \<Rightarrow> nat \<Rightarrow> string exn option" where
  "readout_price tickSize c idx = map_option (\<lambda>x. formatYAxisLabel (snd x) tickSize) (readout_point c idx)"

definition reference_text :: "string \<Rightarrow> decimal \<Rightarrow> decimal \<Rightarrow> string" where
  "reference_text label price tickSize = label @ '' '' @ format price (Some (decimalsForTickSize tickSize)) False"

subsection \<open>Runs\<close>

datatype chart_event =
    LivePrice "ChartHistoryPoint option"
  | ChartTimer nat bool
  | ChartFrame
  | ChartTime rat
  | Discard

fun chart_do :: "(rat \<Rightarrow> rat) \<Rightarrow> price_chart \<Rightarrow> chart_event \<Rightarrow> price_chart" where
  "chart_do pow4 c (LivePrice l) = live_price_changes l c"
| "chart_do pow4 c (ChartTimer h smooth) = chart_timer h smooth c"
| "chart_do pow4 c ChartFrame = chart_frame pow4 c"
| "chart_do pow4 c (ChartTime d) = c\<lparr>pc_timers := advance (pc_timers c) d\<rparr>"
| "chart_do pow4 c Discard = discard_points c"

definition chart_run :: "(rat \<Rightarrow> rat) \<Rightarrow> price_chart \<Rightarrow> chart_event list \<Rightarrow> price_chart" where
  "chart_run pow4 c es = foldl (chart_do pow4) c es"

section \<open>Every printed number was given\<close>

text \<open>The points a live price may leave in the buffer: itself, and the same price a second before.\<close>

definition live_points :: "ChartHistoryPoint \<Rightarrow> (number \<times> number) set" where
  "live_points l = {(fst l, toPlotValue (snd l)), (num_sub (fst l) (Fin 1000), toPlotValue (snd l))}"

definition chart_given :: "(number \<times> number) set \<Rightarrow> price_chart \<Rightarrow> bool" where
  "chart_given P c =
     ((\<forall>x \<in> P. snd x \<noteq> NaN) \<and> ring_ok (pc_buffer c) \<and> set (points_of (pc_buffer c)) \<subseteq> P \<and>
      pred_option (\<lambda>l. live_points l \<subseteq> P) (pc_livePrice c) \<and>
      pred_option (\<lambda>s. fst s \<in> snd ` P \<and> snd s \<in> snd ` P) (pc_stats c) \<and>
      (ring_length (pc_buffer c) = 0 \<longrightarrow> pc_data c = []) \<and> set (butlast (pc_data c)) \<subseteq> P)"

definition chart_ok :: "(number \<times> number) set \<Rightarrow> price_chart \<Rightarrow> bool" where
  "chart_ok P c =
     (chart_given P c \<and>
      (case pc_tween c of
         None \<Rightarrow> set (pc_data c) \<subseteq> P
       | Some w \<Rightarrow> set (tw_from w) \<subseteq> P \<and> tw_landing w \<in> P \<and> 0 < ring_length (pc_buffer c)))"

lemma set_keep_last: "set (keep_last n xs) \<subseteq> set xs"
  by (simp add: keep_last_def set_drop_subset)

lemma plot_not_NaN: "toPlotValue p \<noteq> NaN"
  by (simp add: toPlotValue_def to_number_def Let_def)

lemma stats_fold:
  assumes "\<And>v. v \<in> set vs \<Longrightarrow> v \<noteq> NaN" and "vs \<noteq> []"
  shows "fst (foldl (\<lambda>(high, low) v. (if num_less high v then v else high, if num_less v low then v else low)) (NInf, PInf) vs) \<in> set vs \<and>
    snd (foldl (\<lambda>(high, low) v. (if num_less high v then v else high, if num_less v low then v else low)) (NInf, PInf) vs) \<in> set vs"
  using assms
proof (induction vs rule: rev_induct)
  case (snoc v vs)
  have v: "v \<noteq> NaN" using snoc.prems by simp
  show ?case
  proof (cases "vs = []")
    case True
    then show ?thesis using v by (cases v) simp_all
  next
    case False
    then show ?thesis using snoc.IH snoc.prems by (auto simp: case_prod_unfold)
  qed
qed simp

lemma stats_given:
  assumes "ring_ok b" and "set (points_of b) \<subseteq> P" and "\<forall>x \<in> P. snd x \<noteq> NaN"
  shows "pred_option (\<lambda>s. fst s \<in> snd ` P \<and> snd s \<in> snd ` P) (recomputeStats b)"
proof (cases "ring_length b = 0")
  case False
  have sub: "set (map snd (points_of b)) \<subseteq> snd ` P" using assms(2) by auto
  have "map snd (points_of b) \<noteq> []" using False length_points [OF assms(1)] by (auto simp: ring_length_def)
  moreover have "v \<noteq> NaN" if "v \<in> set (map snd (points_of b))" for v using that assms(2,3) by auto
  ultimately have "\<exists>s. recomputeStats b = Some s \<and> fst s \<in> set (map snd (points_of b)) \<and> snd s \<in> set (map snd (points_of b))"
    unfolding recomputeStats_def if_not_P [OF False] using stats_fold by blast
  then obtain s where s: "recomputeStats b = Some s" "fst s \<in> set (map snd (points_of b))" "snd s \<in> set (map snd (points_of b))"
    by blast
  then show ?thesis using sub by (simp only: pred_option_def option.set) blast
qed (simp add: recomputeStats_def)

lemma push_given: "ring_ok b \<Longrightarrow> set (points_of b) \<subseteq> P \<Longrightarrow> (t, v) \<in> P \<Longrightarrow> set (points_of (ring_push t v b)) \<subseteq> P"
  using set_keep_last [of "rb_capacity b" "points_of b @ [(t, v)]"] by (auto simp: points_push)

lemma seed_flat_given:
  assumes "ring_ok b" and "set (points_of b) \<subseteq> P" and "(t, v) \<in> P" and "(num_sub t (Fin 1000), v) \<in> P"
  shows "ring_ok (seedFlatPoint t v b)" "set (points_of (seedFlatPoint t v b)) \<subseteq> P"
proof -
  define b1 where "b1 = ring_push (num_sub t (Fin 1000)) v b"
  have b1: "ring_ok b1" "set (points_of b1) \<subseteq> P"
    using ring_push_ok [OF assms(1)] push_given [OF assms(1,2,4)] by (simp_all add: b1_def)
  then show "ring_ok (seedFlatPoint t v b)" "set (points_of (seedFlatPoint t v b)) \<subseteq> P"
    using ring_push_ok [OF b1(1)] push_given [OF b1 assms(3)] by (simp_all add: seedFlatPoint_def b1_def)
qed

lemma set_butlast: "set (butlast xs) \<subseteq> set xs"
  using in_set_butlastD [of _ xs] by blast

lemma given_redraw: "chart_given P c \<Longrightarrow> pc_tween c = None \<Longrightarrow> chart_ok P (redraw c)"
  using stats_given [of "pc_buffer c" P] set_butlast [of "points_of (pc_buffer c)"]
  by (auto simp: redraw_def chart_ok_def chart_given_def)

lemma given_settle: "chart_ok P c \<Longrightarrow> chart_given P (settle c)" "pc_tween (settle c) = None"
  by (simp_all add: chart_ok_def chart_given_def settle_def)

lemma given_timers:
  "chart_ok P (c\<lparr>pc_timers := tm\<rparr>) = chart_ok P c"
  "chart_ok P (c\<lparr>pc_interval := i\<rparr>) = chart_ok P c"
  "chart_ok P (c\<lparr>pc_timers := tm, pc_interval := i\<rparr>) = chart_ok P c"
  "chart_ok P (c\<lparr>pc_interval := i, pc_timers := tm\<rparr>) = chart_ok P c"
  by (cases "pc_tween c"; simp add: chart_ok_def chart_given_def)+

lemma ok_sample:
  assumes "chart_ok P c"
  shows "chart_ok P (sampleAndDraw smooth c)"
proof (cases "pc_livePrice c")
  case None
  then show ?thesis using given_redraw [OF given_settle(1) [OF assms] given_settle(2)] by (simp add: sampleAndDraw_def settle_def)
next
  case (Some view)
  define c1 where "c1 = (settle c)\<lparr>pc_buffer := ring_push (fst view) (toPlotValue (snd view)) (pc_buffer c)\<rparr>"
  have c: "\<forall>x \<in> P. snd x \<noteq> NaN" "ring_ok (pc_buffer c)" "set (points_of (pc_buffer c)) \<subseteq> P" "(fst view, toPlotValue (snd view)) \<in> P"
    using assms Some by (simp_all add: chart_ok_def chart_given_def live_points_def)
  have push: "ring_ok (pc_buffer c1)" "set (points_of (pc_buffer c1)) \<subseteq> P"
    using ring_push_ok [OF c(2)] push_given [OF c(2-4)] by (simp_all add: c1_def)
  have n: "ring_length (pc_buffer c1) \<noteq> 0"
    using c(2) by (auto simp: c1_def ring_push_def ring_length_def ring_ok_def)
  have given: "chart_given P c1"
    using given_settle(1) [OF assms] push n by (auto simp: chart_given_def c1_def settle_def)
  have live: "pc_livePrice (settle c) = Some view" "pc_buffer (settle c) = pc_buffer c" by (simp_all add: settle_def Some)
  show ?thesis
  proof (cases "ring_length (pc_buffer c) > 0 \<and> smooth")
    case False
    have t: "pc_tween c1 = None" by (simp add: c1_def settle_def)
    show ?thesis using given_redraw [OF given t] False
      by (auto simp: sampleAndDraw_def Let_def live c1_def)
  next
    case True
    have b1: "pc_buffer c1 = ring_push (fst view) (toPlotValue (snd view)) (pc_buffer c)" by (simp add: c1_def)
    show ?thesis using True given c push n stats_given [OF push c(1)]
      by (simp add: sampleAndDraw_def Let_def live chart_ok_def chart_given_def b1) (simp add: c1_def settle_def Some)
  qed
qed

lemma ok_timer:
  assumes "chart_ok P c"
  shows "chart_ok P (chart_timer h smooth c)"
proof -
  have "chart_ok P (sampleAndDraw smooth (c\<lparr>pc_timers := tm\<rparr>))" for tm
    by (rule ok_sample) (simp add: given_timers assms)
  then show ?thesis using assms
    by (simp add: chart_timer_def given_timers Let_def case_prod_unfold split: option.split chart_callback.split)
qed

lemma ok_frame: "chart_ok P c \<Longrightarrow> chart_ok P (chart_frame pow4 c)"
proof (cases "pc_tween c")
  case (Some w)
  assume ok: "chart_ok P c"
  show ?thesis using ok given_redraw [OF given_settle(1) [OF ok] given_settle(2)] Some
    by (auto simp: chart_frame_def Let_def chart_ok_def chart_given_def butlast_append)
qed (simp add: chart_frame_def)

lemma ok_live:
  assumes "chart_ok P c" and "pred_option (\<lambda>l. live_points l \<subseteq> P) l"
  shows "chart_ok P (live_price_changes l c)"
proof (cases "l = None \<or> l = pc_livePrice c \<or> ring_length (pc_buffer c) > 0")
  case True
  then show ?thesis using assms by (cases l; cases "pc_tween c") (auto simp: live_price_changes_def Let_def chart_ok_def chart_given_def)
next
  case False
  then obtain x where x: "l = Some x" "live_points x \<subseteq> P" using assms(2) by auto
  have c: "\<forall>x \<in> P. snd x \<noteq> NaN" "ring_ok (pc_buffer c)" "set (points_of (pc_buffer c)) \<subseteq> P" "pc_tween c = None"
    using assms(1) False by (auto simp: chart_ok_def chart_given_def split: option.splits)
  have "(fst x, toPlotValue (snd x)) \<in> P" "(num_sub (fst x) (Fin 1000), toPlotValue (snd x)) \<in> P"
    using x(2) by (simp_all add: live_points_def)
  note b = seed_flat_given [OF c(2,3) this]
  define b' where "b' = seedFlatPoint (fst x) (toPlotValue (snd x)) (pc_buffer c)"
  have "ring_length b' \<noteq> 0"
    using c(2) ring_push_ok [OF c(2)] by (auto simp: b'_def seedFlatPoint_def ring_push_def ring_length_def ring_ok_def)
  then show ?thesis using False x c b stats_given [OF b c(1)] set_butlast [of "points_of b'"]
    by (auto simp: live_price_changes_def Let_def chart_ok_def chart_given_def b'_def [symmetric])
qed

lemma ok_discard: "chart_ok P c \<Longrightarrow> chart_ok P (discard_points c)"
  by (simp add: discard_points_def chart_ok_def chart_given_def settle_def Let_def recomputeStats_def ring_length_def ring_clear_def
      ring_ok_def points_of_def)

lemma ok_step:
  assumes "chart_ok P c" and "\<And>l. e = LivePrice (Some l) \<Longrightarrow> live_points l \<subseteq> P"
  shows "chart_ok P (chart_do pow4 c e)"
proof (cases e)
  case (LivePrice l)
  then show ?thesis using ok_live [OF assms(1), of l] assms(2) by (cases l) auto
qed (simp_all add: ok_timer ok_frame ok_discard given_timers assms(1))

lemma ok_mono:
  assumes "chart_ok P c" and "P \<subseteq> Q" and "\<forall>x \<in> Q. snd x \<noteq> NaN"
  shows "chart_ok Q c"
proof -
  have im: "snd ` P \<subseteq> snd ` Q" and up: "\<And>X. X \<subseteq> P \<Longrightarrow> X \<subseteq> Q" using assms(2) by blast+
  have given: "chart_given Q c" using assms(1,3) im up
    by (cases "pc_livePrice c"; cases "pc_stats c") (simp_all add: chart_ok_def chart_given_def up subsetD [OF im])
  show ?thesis
  proof (cases "pc_tween c")
    case None
    then show ?thesis using given assms(1) up by (simp add: chart_ok_def)
  next
    case (Some w)
    then show ?thesis using given assms(1,2) up by (auto simp: chart_ok_def)
  qed
qed

subsection \<open>The mount\<close>

lemma seeded_ok:
  assumes "ring_ok b"
  shows "ring_ok (seedBuffer history seed b)"
proof -
  define b1 where "b1 = foldl (\<lambda>b point. ring_push (fst point) (toPlotValue (snd point)) b) b
    (case history of Some points \<Rightarrow> points | None \<Rightarrow> [])"
  have b1: "ring_ok b1" using history_pushed [OF assms] by (simp only: b1_def)
  have push: "ring_ok c \<Longrightarrow> ring_ok (ring_push t v c)" for c t v using ring_push_ok by blast
  have "ring_ok (ring_clear b1)" using b1 by (simp add: ring_clear_def ring_ok_def)
  then show ?thesis using b1 by (cases seed) (simp_all add: seedBuffer_def b1_def [symmetric] seedFlatPoint_def push Let_def)
qed

definition heard_points :: "ChartHistoryPoint list \<Rightarrow> (number \<times> number) set" where
  "heard_points ps = \<Union> (live_points ` set ps)"

lemma heard_not_NaN: "x \<in> heard_points ps \<Longrightarrow> snd x \<noteq> NaN"
  by (auto simp: heard_points_def live_points_def plot_not_NaN)

lemma plot_heard: "set (plot_points ps) \<subseteq> heard_points ps"
  by (auto simp: plot_points_def heard_points_def live_points_def image_iff case_prod_unfold)

definition live_list :: "ChartHistoryPoint option \<Rightarrow> ChartHistoryPoint list" where
  "live_list l = (case l of None \<Rightarrow> [] | Some x \<Rightarrow> [x])"

lemma seeded_heard:
  "set (seeded (plot_points history) (map_option (\<lambda>(t, p). (t, toPlotValue p)) seed)) \<subseteq> heard_points (history @ live_list seed)"
proof (cases seed)
  case None
  show ?thesis
  proof (cases "length history = 1")
    case True
    then obtain h where "history = [h]" by (metis One_nat_def length_0_conv length_Suc_conv)
    then show ?thesis by (auto simp: None seeded_def plot_points_def flat_line_def heard_points_def live_points_def live_list_def case_prod_unfold)
  next
    case False
    then show ?thesis using plot_heard [of history]
      by (simp add: None seeded_def live_list_def) (simp add: plot_points_def)
  qed
next
  case (Some s)
  have "heard_points (history @ live_list seed) = heard_points history \<union> live_points s"
    by (simp add: heard_points_def live_list_def Some Un_commute)
  then show ?thesis using plot_heard [of history]
    by (auto simp: Some seeded_def flat_line_def live_points_def case_prod_unfold)
qed

lemma mounted:
  assumes "mount_chart capacity history livePrice now = Inr c" and "2 \<le> capacity"
  shows "points_of (pc_buffer c) =
      keep_last capacity (seeded (plot_points history) (map_option (\<lambda>(t, p). (t, toPlotValue p)) livePrice)) \<and>
    pc_livePrice c = livePrice \<and> pc_tween c = None \<and> pc_data c = points_of (pc_buffer c) \<and>
    ring_ok (pc_buffer c) \<and> pc_stats c = recomputeStats (pc_buffer c)"
proof -
  obtain b where b: "new_ring (of_count (int capacity)) = Inr b" "rb_capacity b = capacity"
    using new_ring_Inr [of capacity] assms(2) by auto
  have e: "ring_ok b" "points_of b = []" using new_ring_ok [OF b(1)] by simp_all
  have c: "pc_buffer c = seedBuffer (Some history) livePrice b" "pc_livePrice c = livePrice" "pc_tween c = None"
    "pc_data c = points_of (pc_buffer c)" "pc_stats c = recomputeStats (pc_buffer c)"
    using assms(1) by (auto simp: mount_chart_def b(1) Let_def case_prod_unfold)
  show ?thesis using c seed_points [OF e] seeded_ok [OF e(1)] b(2) assms(2) by simp
qed

lemma mounted_ok:
  assumes "mount_chart capacity history livePrice now = Inr c" and "2 \<le> capacity"
  shows "chart_ok (heard_points (history @ live_list livePrice)) c"
proof -
  let ?P = "heard_points (history @ live_list livePrice)"
  note m = mounted [OF assms]
  have P: "\<forall>x \<in> ?P. snd x \<noteq> NaN" using heard_not_NaN by blast
  have pts: "set (points_of (pc_buffer c)) \<subseteq> ?P"
    using m subset_trans [OF set_keep_last seeded_heard] by simp
  have live: "pred_option (\<lambda>l. live_points l \<subseteq> ?P) livePrice"
    by (cases livePrice) (auto simp: heard_points_def live_list_def)
  have empty: "pc_data c = []" if "ring_length (pc_buffer c) = 0"
  proof -
    have "pc_data c = points_of (pc_buffer c)" "ring_ok (pc_buffer c)" using m by blast+
    then show ?thesis using that length_points [of "pc_buffer c"] by (simp add: ring_length_def)
  qed
  have last: "set (butlast (pc_data c)) \<subseteq> ?P" using m subset_trans [OF set_butlast pts] by simp
  have stats: "pred_option (\<lambda>s. fst s \<in> snd ` ?P \<and> snd s \<in> snd ` ?P) (pc_stats c)"
    using stats_given [OF _ pts P] m by simp
  show ?thesis using m P pts live empty last stats unfolding chart_ok_def chart_given_def by simp
qed

subsection \<open>The run\<close>

text \<open>What the chart has been given since its mount or, later, since the last discard: the points of its
  history and every live price rendered; and the live price that stands, which a discard leaves.\<close>

fun hears :: "ChartHistoryPoint list \<times> ChartHistoryPoint option \<Rightarrow> chart_event \<Rightarrow>
    ChartHistoryPoint list \<times> ChartHistoryPoint option" where
  "hears (ps, l) (LivePrice l') = (ps @ live_list l', l')"
| "hears (ps, l) Discard = (live_list l, l)"
| "hears (ps, l) (ChartTimer h smooth) = (ps, l)"
| "hears (ps, l) ChartFrame = (ps, l)"
| "hears (ps, l) (ChartTime d) = (ps, l)"

definition chart_heard :: "ChartHistoryPoint list \<Rightarrow> ChartHistoryPoint option \<Rightarrow> chart_event list \<Rightarrow> ChartHistoryPoint list" where
  "chart_heard history livePrice es = fst (foldl hears (history @ live_list livePrice, livePrice) es)"

definition hears_ok :: "ChartHistoryPoint list \<times> ChartHistoryPoint option \<Rightarrow> price_chart \<Rightarrow> bool" where
  "hears_ok f c = (chart_ok (heard_points (fst f)) c \<and> pc_livePrice c = snd f)"

lemma live_kept [simp]:
  "pc_livePrice (redraw c) = pc_livePrice c" "pc_livePrice (settle c) = pc_livePrice c"
  "pc_livePrice (sampleAndDraw smooth c) = pc_livePrice c"
proof -
  show r: "pc_livePrice (redraw c) = pc_livePrice c" for c by (simp add: redraw_def)
  show s: "pc_livePrice (settle c) = pc_livePrice c" by (simp add: settle_def)
  show "pc_livePrice (sampleAndDraw smooth c) = pc_livePrice c"
    by (cases "pc_livePrice c") (simp_all add: sampleAndDraw_def r s Let_def)
qed

lemma live_after:
  "pc_livePrice (live_price_changes l c) = l" "pc_livePrice (chart_timer h smooth c) = pc_livePrice c"
  "pc_livePrice (chart_frame pow4 c) = pc_livePrice c" "pc_livePrice (discard_points c) = pc_livePrice c"
proof -
  show "pc_livePrice (live_price_changes l c) = l"
    by (cases l) (simp_all add: live_price_changes_def Let_def)
  show "pc_livePrice (chart_timer h smooth c) = pc_livePrice c"
    by (auto simp: chart_timer_def live_kept Let_def case_prod_unfold split: option.split chart_callback.split)
  show "pc_livePrice (chart_frame pow4 c) = pc_livePrice c"
    by (cases "pc_tween c") (simp_all add: chart_frame_def live_kept Let_def)
  show "pc_livePrice (discard_points c) = pc_livePrice c" by (simp add: discard_points_def live_kept Let_def)
qed

lemma discard_ok:
  assumes "chart_ok P c" and "pc_livePrice c = l"
  shows "chart_ok (heard_points (live_list l)) (discard_points c)"
proof -
  have "pred_option (\<lambda>x. live_points x \<subseteq> heard_points (live_list l)) l"
    by (cases l) (auto simp: heard_points_def live_list_def)
  moreover have "\<forall>x \<in> heard_points (live_list l). snd x \<noteq> NaN" using heard_not_NaN by blast
  ultimately show ?thesis using assms
    by (simp add: discard_points_def chart_ok_def chart_given_def settle_def Let_def recomputeStats_def ring_length_def
        ring_clear_def ring_ok_def points_of_def)
qed

lemma hears_step: "hears_ok f c \<Longrightarrow> hears_ok (hears f e) (chart_do pow4 c e)"
proof (cases f)
  case (Pair ps l)
  assume ok: "hears_ok f c"
  show ?thesis
  proof (cases e)
    case (LivePrice l')
    have "heard_points ps \<subseteq> heard_points (ps @ live_list l')" by (auto simp: heard_points_def)
    then have "chart_ok (heard_points (ps @ live_list l')) c"
      using ok ok_mono heard_not_NaN unfolding Pair hears_ok_def fst_conv by blast
    moreover have "pred_option (\<lambda>x. live_points x \<subseteq> heard_points (ps @ live_list l')) l'"
      by (cases l') (auto simp: heard_points_def live_list_def)
    ultimately show ?thesis using ok_live by (simp add: Pair LivePrice hears_ok_def live_after)
  next
    case Discard
    then show ?thesis using ok discard_ok by (auto simp: Pair hears_ok_def live_after)
  qed (use ok in \<open>simp_all add: Pair hears_ok_def live_after ok_timer ok_frame given_timers\<close>)
qed

lemma hears_run:
  assumes "mount_chart capacity history livePrice now = Inr c" and "2 \<le> capacity"
  shows "hears_ok (foldl hears (history @ live_list livePrice, livePrice) es) (chart_run pow4 c es)"
proof (induction es rule: rev_induct)
  case Nil
  then show ?case using mounted_ok [OF assms] mounted [OF assms] by (simp add: chart_run_def hears_ok_def)
qed (simp add: chart_run_def hears_step)

section \<open>What the chart prints\<close>

lemma heard_prices: "snd ` heard_points ps = toPlotValue ` snd ` set ps"
  by (force simp: heard_points_def live_points_def image_iff)

lemma printed_given:
  assumes "chart_ok P c"
  shows "set_option (last_tag_value c) \<subseteq> snd ` P" "set_option (readout_point c i) \<subseteq> P"
    "pred_option (\<lambda>s. fst s \<in> snd ` P \<and> snd s \<in> snd ` P) (pc_stats c)"
proof -
  have inner: "pc_data c ! i \<in> P" if "i < length (pc_data c) - 1"
  proof -
    have "butlast (pc_data c) ! i \<in> set (butlast (pc_data c))" using that by (intro nth_mem) simp
    then show ?thesis using that assms by (auto simp: nth_butlast chart_ok_def chart_given_def)
  qed
  have final: "snd (last (pc_data c)) \<in> snd ` P" if "set (pc_data c) \<subseteq> P" "pc_data c \<noteq> []"
    using that last_in_set by blast
  show "set_option (last_tag_value c) \<subseteq> snd ` P" using assms final
    by (cases "pc_tween c") (auto simp: last_tag_value_def landing_of_def chart_ok_def)
  show "set_option (readout_point c i) \<subseteq> P" using assms inner
    by (cases "pc_tween c") (auto simp: readout_point_def landing_of_def chart_ok_def)
  show "pred_option (\<lambda>s. fst s \<in> snd ` P \<and> snd s \<in> snd ` P) (pc_stats c)" using assms
    by (simp add: chart_ok_def chart_given_def)
qed

text \<open>Claim C15: every number the chart prints is one it was given. Whatever live prices, timers, frames,
  passing of time and discards follow the mount, the price on the last tag, the point in the
  crosshair's readout and the high and low of the accessible name are those of a history point or
  of a live price rendered since the mount or the last discard (the standing live price
  included): never a point in flight between two samples, and never one of a stream discarded.\<close>

theorem chart_prints_what_it_was_given:
  assumes "mount_chart capacity history livePrice now = Inr c0" and "2 \<le> capacity"
  shows "set_option (last_tag_value (chart_run pow4 c0 es)) \<subseteq> toPlotValue ` snd ` set (chart_heard history livePrice es) \<and>
    set_option (readout_point (chart_run pow4 c0 es) i) \<subseteq> heard_points (chart_heard history livePrice es) \<and>
    pred_option (\<lambda>s. fst s \<in> toPlotValue ` snd ` set (chart_heard history livePrice es) \<and>
      snd s \<in> toPlotValue ` snd ` set (chart_heard history livePrice es)) (pc_stats (chart_run pow4 c0 es))"
  using hears_run [OF assms, of es pow4] printed_given [of "heard_points (chart_heard history livePrice es)" "chart_run pow4 c0 es"]
  by (simp add: hears_ok_def chart_heard_def heard_prices)

definition demo_history :: "ChartHistoryPoint list" where
  "demo_history = [(Fin 1000, ''10.00''), (Fin 2000, ''11.00'')]"

definition demo_chart_events :: "chart_event list" where
  "demo_chart_events = [LivePrice (Some (Fin 9000, ''12.00'')), ChartTime 120, ChartTimer 0 True, ChartTime 360, ChartFrame]"

lemma mounts: "0 < capacity \<Longrightarrow> \<exists>c. mount_chart capacity history livePrice now = Inr c"
  using new_ring_Inr [of capacity] by (auto simp: mount_chart_def Let_def case_prod_unfold)

theorem chart_prints_what_it_was_given_witness:
  "\<exists>c0. mount_chart 4 demo_history None 0 = Inr c0 \<and>
     set_option (last_tag_value (chart_run (\<lambda>x. x ^ 4) c0 demo_chart_events)) \<subseteq> toPlotValue ` {''10.00'', ''11.00'', ''12.00''} \<and>
     set_option (last_tag_value (chart_run (\<lambda>x. x ^ 4) c0 (demo_chart_events @ [Discard, LivePrice (Some (Fin 19000, ''13.00''))]))) \<subseteq>
       toPlotValue ` {''12.00'', ''13.00''}"
proof -
  obtain c0 where c0: "mount_chart 4 demo_history None 0 = Inr c0" using mounts [of 4 demo_history None 0] by auto
  have heard: "snd ` set (chart_heard demo_history None demo_chart_events) = {''10.00'', ''11.00'', ''12.00''}"
    "snd ` set (chart_heard demo_history None (demo_chart_events @ [Discard, LivePrice (Some (Fin 19000, ''13.00''))])) =
      {''12.00'', ''13.00''}"
    by (auto simp: chart_heard_def demo_chart_events_def demo_history_def live_list_def)
  have printed: "set_option (last_tag_value (chart_run (\<lambda>x. x ^ 4) c0 es)) \<subseteq> toPlotValue ` snd ` set (chart_heard demo_history None es)"
    for es using chart_prints_what_it_was_given [OF c0, of "\<lambda>x. x ^ 4" es] by simp
  show ?thesis using c0 printed [of demo_chart_events] printed [of "demo_chart_events @ [Discard, LivePrice (Some (Fin 19000, ''13.00''))]"]
    unfolding heard by blast
qed

end
