(* ===== verification/Chart_Ranges.thy ===== *)
theory Chart_Ranges
  imports Calendar Js_Number "HOL-Library.Sublist"
begin

text \<open>
  The detail chart's range pills (src/client/Tckr.MarketWatch/src/pages/chartRanges.ts): which slice
  of the session each range shows, and its names. Cairo's clock is the engine's time zone database,
  an argument. The lemmas: a range keeps exactly the points of its window, in order, and a wider
  range keeps all that a narrower one does.
\<close>

datatype RangeKey = R60S | R5M | SESSION

definition RANGE_KEYS :: "RangeKey list" where
  "RANGE_KEYS = [R60S, R5M, SESSION]"

record trailing_window =
  tw_ms :: int
  tw_short :: string
  tw_spoken :: string

fun TRAILING_WINDOWS :: "RangeKey \<Rightarrow> trailing_window option" where
  "TRAILING_WINDOWS R60S = Some \<lparr>tw_ms = 60000, tw_short = ''60s'', tw_spoken = ''60 seconds''\<rparr>"
| "TRAILING_WINDOWS R5M = Some \<lparr>tw_ms = 5 * 60000, tw_short = ''5m'', tw_spoken = ''5 minutes''\<rparr>"
| "TRAILING_WINDOWS SESSION = None"

record ChartRange =
  cg_label :: string
  cg_description :: string
  cg_from :: "int option"
  cg_to :: "int option"

definition middle_dot :: string where
  "middle_dot = [CHR 0xC2, CHR 0xB7]"

definition en_dash :: string where
  "en_dash = [CHR 0xE2, CHR 0x80, CHR 0x93]"

fun session_times :: "MarketStatus \<Rightarrow> bool \<times> int \<times> int" where
  "session_times (Open _ openAt closeAt) = (True, openAt, closeAt)"
| "session_times (Closed _ openAt closeAt _) = (False, openAt, closeAt)"

definition describeRange :: "(int \<Rightarrow> int) \<Rightarrow> RangeKey \<Rightarrow> MarketStatus \<Rightarrow> int \<Rightarrow> ChartRange" where
  "describeRange off key status nowMs =
     (let (live, sessionOpenAt, sessionCloseAt) = session_times status;
          opens = formatCairoTimeShort off sessionOpenAt; day = formatCairoDateShort off sessionCloseAt;
          closes = formatCairoTimeShort off sessionCloseAt
      in case TRAILING_WINDOWS key of
           None \<Rightarrow>
             if live then \<lparr>cg_label = ''Today since '' @ opens,
               cg_description = ''Today'' @ [CHR 39] @ ''s session so far, since the '' @ opens @ '' open'', cg_from = None, cg_to = None\<rparr>
             else \<lparr>cg_label = day @ '' session '' @ middle_dot @ '' '' @ opens @ en_dash @ closes,
               cg_description = ''The whole '' @ day @ '' session, '' @ opens @ '' to '' @ closes @ '' Cairo'', cg_from = None, cg_to = None\<rparr>
         | Some trailing \<Rightarrow>
             let endAt = (if live then nowMs else sessionCloseAt)
             in if live then \<lparr>cg_label = ''Last '' @ tw_short trailing, cg_description = ''Last '' @ tw_spoken trailing,
                  cg_from = Some (endAt - tw_ms trailing), cg_to = None\<rparr>
                else \<lparr>cg_label = ''Final '' @ tw_short trailing @ '' '' @ middle_dot @ '' '' @ day,
                  cg_description = ''Final '' @ tw_spoken trailing @ '' of the '' @ day @ '' session, to the '' @ closes @ '' close'',
                  cg_from = Some (endAt - tw_ms trailing), cg_to = Some endAt\<rparr>)"

text \<open>A point's instant may be the result of a failed parse: \<open>NaN\<close> compares false with any bound.\<close>

definition num_at_least :: "number \<Rightarrow> int \<Rightarrow> bool" where
  "num_at_least t bound = (num_less (Fin (of_int bound)) t \<or> t = Fin (of_int bound))"

definition num_at_most :: "number \<Rightarrow> int \<Rightarrow> bool" where
  "num_at_most t bound = (num_less t (Fin (of_int bound)) \<or> t = Fin (of_int bound))"

definition pointsInRange :: "(number \<times> 'p) list \<Rightarrow> ChartRange \<Rightarrow> (number \<times> 'p) list" where
  "pointsInRange history window =
     (if cg_from window = None \<and> cg_to window = None then history
      else filter (\<lambda>point. (case cg_from window of None \<Rightarrow> True | Some bound \<Rightarrow> num_at_least (fst point) bound) \<and>
        (case cg_to window of None \<Rightarrow> True | Some bound \<Rightarrow> num_at_most (fst point) bound)) history)"

section \<open>The ranges nest\<close>

lemma num_bounds [simp]:
  "num_at_least (Fin x) b = (of_int b \<le> x)" "num_at_most (Fin x) b = (x \<le> of_int b)"
  by (auto simp: num_at_least_def num_at_most_def)

lemma range_bounds:
  "cg_from (describeRange off key status nowMs) =
     map_option (\<lambda>w. (case status of Open _ _ _ \<Rightarrow> nowMs | Closed _ _ closeAt _ \<Rightarrow> closeAt) - tw_ms w) (TRAILING_WINDOWS key)"
  "cg_to (describeRange off key status nowMs) =
     (case status of Open _ _ _ \<Rightarrow> None | Closed _ _ closeAt _ \<Rightarrow> map_option (\<lambda>_. closeAt) (TRAILING_WINDOWS key))"
  by (cases status; cases key; simp add: describeRange_def Let_def)+

text \<open>The points within \<open>ms\<close> of the edge of the data.\<close>

definition trailing_points :: "int \<Rightarrow> int \<Rightarrow> (number \<times> 'p) list \<Rightarrow> (number \<times> 'p) list" where
  "trailing_points edge ms history =
     filter (\<lambda>(t, _). case t of Fin x \<Rightarrow> of_int (edge - ms) \<le> x \<and> x \<le> of_int edge | _ \<Rightarrow> False) history"

lemma trailing_range:
  assumes "TRAILING_WINDOWS key = Some w" and "list_all (\<lambda>(t, _). \<exists>x. t = Fin x) history"
    and "\<And>o1 o2 o3. status = Open o1 o2 o3 \<Longrightarrow> edge = nowMs \<and> list_all (\<lambda>(t, _). \<exists>x. t = Fin x \<and> x \<le> of_int nowMs) history"
    and "\<And>c1 c2 c3 c4. status = Closed c1 c2 c3 c4 \<Longrightarrow> edge = c3"
  shows "pointsInRange history (describeRange off key status nowMs) = trailing_points edge (tw_ms w) history"
proof -
  have "point \<in> set history \<Longrightarrow> \<exists>x p. point = (Fin x, p)" for point
    using assms(2) by (cases point) (auto simp: list_all_iff)
  then show ?thesis using assms(1,3,4)
    by (cases status) (fastforce simp: pointsInRange_def range_bounds trailing_points_def list_all_iff intro!: filter_cong)+
qed

text \<open>The chart's ranges nest: Session shows every point; 5 minutes exactly those in the five
  minutes up to the edge of the data, and 60 seconds those of them in its last minute, each in the
  order of the history. The edge is now while the market trades and the close once it has closed,
  when later points are dropped.\<close>

theorem ranges_nest:
  assumes "edge = (case status of Open _ _ _ \<Rightarrow> nowMs | Closed _ _ closeAt _ \<Rightarrow> closeAt)"
    and "list_all (\<lambda>(t, _). \<exists>x. t = Fin x) history"
    and "case status of Open _ _ _ \<Rightarrow> list_all (\<lambda>(t, _). \<exists>x. t = Fin x \<and> x \<le> of_int nowMs) history | _ \<Rightarrow> True"
  shows "pointsInRange history (describeRange off SESSION status nowMs) = history \<and>
    pointsInRange history (describeRange off R5M status nowMs) = trailing_points edge 300000 history \<and>
    pointsInRange history (describeRange off R60S status nowMs) =
      trailing_points edge 60000 (pointsInRange history (describeRange off R5M status nowMs))"
proof -
  have five: "pointsInRange history (describeRange off R5M status nowMs) = trailing_points edge 300000 history"
    using trailing_range [of R5M _ history status edge nowMs off] assms by (auto split: MarketStatus.splits)
  have one: "pointsInRange history (describeRange off R60S status nowMs) = trailing_points edge 60000 history"
    using trailing_range [of R60S _ history status edge nowMs off] assms by (auto split: MarketStatus.splits)
  have "trailing_points edge 60000 (trailing_points edge 300000 history) = trailing_points edge 60000 history"
    by (auto simp: trailing_points_def split: number.splits intro!: filter_cong)
  moreover have "pointsInRange history (describeRange off SESSION status nowMs) = history"
    by (cases status) (simp_all add: pointsInRange_def range_bounds)
  ultimately show ?thesis using five one by simp
qed

text \<open>After a close at 1,000,000, a point past it is in no short range.\<close>

theorem ranges_nest_witness:
  "pointsInRange [(Fin 600000, ''a''), (Fin 800000, ''b''), (Fin 990000, ''c''), (Fin 1000500, ''d'')]
     (describeRange (\<lambda>_. 7200000) R60S (Closed ''d'' 0 1000000 90000000) 5000000) = [(Fin 990000, ''c'')]"
proof -
  define history where "history = [(Fin 600000, ''a''), (Fin 800000, ''b''), (Fin 990000, ''c''), (Fin 1000500, ''d'')]"
  define status where "status = Closed ''d'' 0 1000000 90000000"
  have "list_all (\<lambda>(t, _). \<exists>x. t = Fin x) history" by (simp add: history_def)
  then have "pointsInRange history (describeRange (\<lambda>_. 7200000) R60S status 5000000) =
      trailing_points 1000000 60000 (trailing_points 1000000 300000 history)"
    using ranges_nest [of 1000000 5000000 status history "\<lambda>_. 7200000"] by (simp add: status_def)
  then show ?thesis by (simp add: history_def status_def trailing_points_def)
qed

end
