(* ===== verification/Detail_Page.thy ===== *)
theory Detail_Page
  imports Price_Chart Chart_Ranges Detail_Quote
begin

text \<open>
  The detail page around its hook (src/client/Tckr.MarketWatch/src/pages/StockDetail.tsx and
  DetailNotFound.tsx): the remembered range, the window of history the chart is mounted with, the
  live price it samples, and the page's texts. The page is the hook's state (Detail_Quote) and the
  chart's (Price_Chart); a render mounts, feeds or unmounts the chart. Browser storage is a map, or
  absent when the browser refuses it.

  The lemmas: after every render the chart is the one of the symbol and range on show and samples
  the price the header shows; and a range picked after a change of stream plots the history of the
  old stream again.
\<close>

section \<open>Texts\<close>

definition ZERO_DECIMAL :: decimal where
  "ZERO_DECIMAL = ''0''"

definition FALLBACK_TICK_SIZE :: decimal where
  "FALLBACK_TICK_SIZE = ''0.01''"

definition APP_TITLE :: string where
  "APP_TITLE = ''Tckr MarketWatch''"

text \<open>\<open>Date.parse\<close> of a timestamp, formatted; an invalid date does not format.\<close>

definition formatExchangeTime :: "(int \<Rightarrow> int) \<Rightarrow> IsoUtc \<Rightarrow> string exn" where
  "formatExchangeTime off isoText =
     (case date_parse isoText of Fin t \<Rightarrow> Inr (formatCairoClock off \<lfloor>t\<rfloor>) | _ \<Rightarrow> Inl (RangeError ''Invalid time value''))"

datatype direction = DirUp | DirDown

definition deltaDirection :: "decimal \<Rightarrow> direction option" where
  "deltaDirection change =
     (let direction = Decimal.compare change ZERO_DECIMAL
      in if direction > 0 then Some DirUp else if direction < 0 then Some DirDown else None)"

definition up_triangle :: string where
  "up_triangle = [CHR 0xE2, CHR 0x96, CHR 0xB2]"

definition down_triangle :: string where
  "down_triangle = [CHR 0xE2, CHR 0x96, CHR 0xBC]"

definition deltaGlyph :: "decimal \<Rightarrow> string option" where
  "deltaGlyph change = map_option (\<lambda>d. if d = DirUp then up_triangle else down_triangle) (deltaDirection change)"

text \<open>The note under the Open tile.\<close>

definition SinceOpen :: "(number \<Rightarrow> string) \<Rightarrow> decimal \<Rightarrow> decimal \<Rightarrow> string" where
  "SinceOpen formatPercentFigure opn price =
     (let move = subtract price opn; direction = Decimal.compare move ZERO_DECIMAL;
          glyph = (if direction > 0 then up_triangle @ '' '' else if direction < 0 then down_triangle @ '' '' else '''')
      in glyph @ formatPercentFigure (percentChange opn price) @ ''% since open'')"

definition page_title :: "detail \<Rightarrow> string" where
  "page_title d =
     (if dq_phase d = NotFound then ''Unknown symbol '' @ dq_symbol d @ '' '' @ middle_dot @ '' '' @ APP_TITLE
      else dq_symbol d @ (case dq_universeDef d of Some def \<Rightarrow> '' '' @ middle_dot @ '' '' @ sd_name def | None \<Rightarrow> '''') @
        '' '' @ middle_dot @ '' '' @ APP_TITLE)"

definition asof_text :: "(int \<Rightarrow> int) \<Rightarrow> MarketStatus \<Rightarrow> bool \<Rightarrow> string \<Rightarrow> bool \<Rightarrow> DetailQuote \<Rightarrow> string exn" where
  "asof_text off status held delayShort delaySimulated quote =
     bindE (formatExchangeTime off (qu_exchangeTimestamp quote)) (\<lambda>time.
       Inr (''as of '' @
         (case status of
            Open _ _ _ \<Rightarrow> time
          | Closed _ _ _ _ \<Rightarrow>
              (case date_parse (qu_exchangeTimestamp quote) of Fin t \<Rightarrow> formatCairoDateShort off \<lfloor>t\<rfloor> | _ \<Rightarrow> '''') @ '', '' @ time) @
         '' Cairo'' @
         (if qu_stream quote = DELAYED
          then '' '' @ middle_dot @ '' DELAYED '' @ delayShort @ (if delaySimulated then '' (simulated)'' else '''') else '''') @
         (if held then '' '' @ middle_dot @ '' stream down, price not moving'' else '''')))"

text \<open>A session tile: waiting for the quote, a figure, or the dash for one it does not have.\<close>

datatype tile = TileSkeleton | TileFigure decimal | NoFigure

definition session_tile :: "(OhlcExtras \<Rightarrow> decimal) \<Rightarrow> detail \<Rightarrow> tile" where
  "session_tile figure d =
     (if dq_quote d = None then TileSkeleton
      else case dq_extras d of Some extras \<Rightarrow> TileFigure (figure extras) | None \<Rightarrow> NoFigure)"

definition open_note :: "(number \<Rightarrow> string) \<Rightarrow> detail \<Rightarrow> string option" where
  "open_note formatPercentFigure d =
     (case (dq_quote d, dq_extras d) of
        (Some quote, Some extras) \<Rightarrow>
          if ox_baselineIsPreviousClose extras then Some (SinceOpen formatPercentFigure (ox_open extras) (qu_price quote)) else None
      | _ \<Rightarrow> None)"

definition page_tick_size :: "detail \<Rightarrow> decimal" where
  "page_tick_size d = (case dq_universeDef d of Some def \<Rightarrow> sd_tickSize def | None \<Rightarrow> FALLBACK_TICK_SIZE)"

text \<open>The chart's reference: its price, the tag's label, and its name in the accessible name.\<close>

definition page_reference :: "RangeKey \<Rightarrow> detail \<Rightarrow> decimal option \<times> string \<times> string" where
  "page_reference picked d =
     (let fromOpen = (case dq_extras d of Some extras \<Rightarrow> \<not> ox_baselineIsPreviousClose extras | None \<Rightarrow> False)
      in (if picked = SESSION then map_option ox_baseline (dq_extras d) else None,
          if fromOpen then ''Open'' else ''Prev'', if fromOpen then ''open'' else ''previous close''))"

text \<open>What the pane offers for a ticker outside the universe.\<close>

definition not_found_text :: "detail \<Rightarrow> string \<times> (string \<times> string) list \<times> string" where
  "not_found_text d =
     (''No EGX instrument called '' @ [CHR 0xE2, CHR 0x80, CHR 0x9C] @ dq_symbol d @ [CHR 0xE2, CHR 0x80, CHR 0x9D],
      map (\<lambda>def. (sd_symbol def, sd_name def)) (dq_suggestions d),
      if dq_suggestions d \<noteq> [] then ''Did you mean'' else ''Check the ticker, or find it on the board.'')"

section \<open>The remembered range\<close>

type_synonym storage = "(string \<Rightarrow> string option) option"

definition RANGE_STORAGE_KEY :: string where
  "RANGE_STORAGE_KEY = ''tckr.chartRange''"

fun range_text :: "RangeKey \<Rightarrow> string" where
  "range_text R60S = ''60S''"
| "range_text R5M = ''5M''"
| "range_text SESSION = ''SESSION''"

definition storedRange :: "storage \<Rightarrow> RangeKey" where
  "storedRange localStorage =
     (case localStorage of
        None \<Rightarrow> SESSION
      | Some items \<Rightarrow>
          (case find (\<lambda>key. Some (range_text key) = items RANGE_STORAGE_KEY) RANGE_KEYS of Some key \<Rightarrow> key | None \<Rightarrow> SESSION))"

definition storeRange :: "RangeKey \<Rightarrow> storage \<Rightarrow> storage" where
  "storeRange key localStorage = map_option (\<lambda>items. items(RANGE_STORAGE_KEY := Some (range_text key))) localStorage"

section \<open>The page\<close>

record detail_page =
  dp_detail :: detail
  dp_range :: RangeKey
  dp_status :: MarketStatus
  dp_window :: ChartRange
  dp_chart :: "((string \<times> RangeKey) \<times> price_chart) option"
  dp_storage :: storage

definition open_detail_page :: "(int \<Rightarrow> int) \<Rightarrow> string \<Rightarrow> MarketStatus \<Rightarrow> storage \<Rightarrow> int \<Rightarrow> detail_page" where
  "open_detail_page off symbol status localStorage now =
     \<lparr>dp_detail = new_detail symbol, dp_range = storedRange localStorage, dp_status = status,
      dp_window = describeRange off (storedRange localStorage) status now, dp_chart = None, dp_storage = localStorage\<rparr>"

definition live_of :: "DetailQuote option \<Rightarrow> ChartHistoryPoint option" where
  "live_of quote = map_option (\<lambda>q. (date_parse (qu_exchangeTimestamp q), qu_price q)) quote"

definition ranged_history :: "detail_page \<Rightarrow> ChartHistoryPoint list option" where
  "ranged_history p = map_option (\<lambda>history. pointsInRange history (dp_window p)) (dq_historyPoints (dp_detail p))"

text \<open>A render and its commit: the pane for an unknown ticker and the skeleton have no chart; another
  key is another chart, mounted with the history of the window.\<close>

definition detail_page_render :: "rat \<Rightarrow> detail_page \<Rightarrow> detail_page" where
  "detail_page_render now p =
     (let d = dp_detail p; key = (dq_symbol d, dp_range p); live = live_of (dq_quote d)
      in if dq_cancelled d then p
         else p\<lparr>dp_chart :=
           (case (if dq_phase d = NotFound then None else ranged_history p) of
              None \<Rightarrow> None
            | Some history \<Rightarrow>
                (case dp_chart p of
                   Some (k, c) \<Rightarrow>
                     if k = key then Some (k, live_price_changes live c)
                     else (case mount_chart DEFAULT_CAPACITY history live now of Inr c' \<Rightarrow> Some (key, c') | Inl _ \<Rightarrow> None)
                 | None \<Rightarrow>
                     (case mount_chart DEFAULT_CAPACITY history live now of Inr c' \<Rightarrow> Some (key, c') | Inl _ \<Rightarrow> None)))\<rparr>)"

definition set_range :: "(int \<Rightarrow> int) \<Rightarrow> RangeKey \<Rightarrow> int \<Rightarrow> detail_page \<Rightarrow> detail_page" where
  "set_range off key now p =
     p\<lparr>dp_range := key, dp_storage := storeRange key (dp_storage p),
       dp_window := (if key = dp_range p then dp_window p else describeRange off key (dp_status p) now)\<rparr>"

definition status_changes :: "(int \<Rightarrow> int) \<Rightarrow> MarketStatus \<Rightarrow> int \<Rightarrow> detail_page \<Rightarrow> detail_page" where
  "status_changes off status now p =
     p\<lparr>dp_status := status, dp_window := (if status = dp_status p then dp_window p else describeRange off (dp_range p) status now)\<rparr>"

text \<open>The chart's own timers, frames and clock.\<close>

datatype detail_page_event =
    Hook detail_event
  | Render rat
  | PickRange RangeKey int
  | StatusChanged MarketStatus int
  | ChartWakes nat bool
  | ChartFrames
  | ChartClock rat

definition chart_does :: "(rat \<Rightarrow> rat) \<Rightarrow> chart_event \<Rightarrow> detail_page \<Rightarrow> detail_page" where
  "chart_does pow4 e p = p\<lparr>dp_chart := map_option (\<lambda>(k, c). (k, chart_do pow4 c e)) (dp_chart p)\<rparr>"

text \<open>A change of stream reaches the hook and, through the store's discard listeners, the chart; leaving
  the page unmounts it.\<close>

fun detail_page_do :: "(int \<Rightarrow> int) \<Rightarrow> browser \<Rightarrow> (rat \<Rightarrow> rat) \<Rightarrow> detail_page \<Rightarrow> detail_page_event \<Rightarrow> detail_page" where
  "detail_page_do off br pow4 p (Hook e) =
     (let p1 = p\<lparr>dp_detail := detail_do br (dp_detail p) e\<rparr>
      in if e = EntitlementPushed then chart_does pow4 Discard p1
         else if e = Leave then p1\<lparr>dp_chart := None\<rparr> else p1)"
| "detail_page_do off br pow4 p (Render now) = detail_page_render now p"
| "detail_page_do off br pow4 p (PickRange key now) = set_range off key now p"
| "detail_page_do off br pow4 p (StatusChanged status now) = status_changes off status now p"
| "detail_page_do off br pow4 p (ChartWakes h smooth) = chart_does pow4 (ChartTimer h smooth) p"
| "detail_page_do off br pow4 p ChartFrames = chart_does pow4 ChartFrame p"
| "detail_page_do off br pow4 p (ChartClock d) = chart_does pow4 (ChartTime d) p"

definition detail_page_run :: "(int \<Rightarrow> int) \<Rightarrow> browser \<Rightarrow> (rat \<Rightarrow> rat) \<Rightarrow> detail_page \<Rightarrow> detail_page_event list \<Rightarrow> detail_page" where
  "detail_page_run off br pow4 p es = foldl (detail_page_do off br pow4) p es"

section \<open>In step\<close>

lemma stored_after: "storedRange (storeRange key (Some items)) = key"
  by (cases key) (simp_all add: storedRange_def storeRange_def RANGE_KEYS_def)

definition range_kept :: "detail_page \<Rightarrow> bool" where
  "range_kept p = (dp_storage p \<noteq> None \<longrightarrow> storedRange (dp_storage p) = dp_range p)"

lemma range_kept_step: "range_kept p \<Longrightarrow> range_kept (detail_page_do off br pow4 p e)"
proof (cases e)
  case (PickRange key now)
  then show ?thesis by (cases "dp_storage p") (simp_all add: range_kept_def set_range_def stored_after, simp add: storeRange_def)
qed (simp_all add: range_kept_def detail_page_render_def status_changes_def chart_does_def Let_def)

lemma range_kept_run: "range_kept (detail_page_run off br pow4 (open_detail_page off symbol status localStorage now) es)"
  by (induction es rule: rev_induct) (simp_all add: detail_page_run_def range_kept_step, simp add: open_detail_page_def range_kept_def)

lemma mounts_default:
  "\<exists>c. mount_chart DEFAULT_CAPACITY history live now = Inr c \<and> pc_livePrice c = live"
  using mounts [of DEFAULT_CAPACITY history live now] mounted [of DEFAULT_CAPACITY history live now] by (auto simp: DEFAULT_CAPACITY_def)

lemma rendered:
  assumes "\<not> dq_cancelled (dp_detail p)"
  shows "(dp_chart (detail_page_render now p) = None) = (dq_phase (dp_detail p) = NotFound \<or> dq_historyPoints (dp_detail p) = None)"
    and "pred_option (\<lambda>(k, c). k = (dq_symbol (dp_detail p), dp_range p) \<and> pc_livePrice c = live_of (dq_quote (dp_detail p)))
      (dp_chart (detail_page_render now p))"
proof -
  let ?live = "live_of (dq_quote (dp_detail p))"
  have "\<forall>history. \<exists>c. mount_chart DEFAULT_CAPACITY history ?live now = Inr c \<and> pc_livePrice c = ?live"
    using mounts_default by blast
  then obtain m where m: "\<And>history. mount_chart DEFAULT_CAPACITY history ?live now = Inr (m history)"
    "\<And>history. pc_livePrice (m history) = ?live" by metis
  note shape = detail_page_render_def ranged_history_def Let_def m live_after
  show "(dp_chart (detail_page_render now p) = None) = (dq_phase (dp_detail p) = NotFound \<or> dq_historyPoints (dp_detail p) = None)"
    using assms by (cases "dp_chart p"; cases "dq_historyPoints (dp_detail p)") (auto simp: shape)
  show "pred_option (\<lambda>(k, c). k = (dq_symbol (dp_detail p), dp_range p) \<and> pc_livePrice c = ?live) (dp_chart (detail_page_render now p))"
    using assms by (cases "dp_chart p"; cases "dq_historyPoints (dp_detail p)") (auto simp: shape)
qed

text \<open>Claim C22: after every render the page's parts are in step. There is a chart exactly when the
  symbol is not unknown and its history has been answered; the chart is the one of the symbol and
  range on show; the live price it will sample is the very quote the header shows (so neither can
  run ahead of the other); and the range on show is the one the next visit opens with, when the
  browser has storage.\<close>

theorem detail_page_in_step:
  assumes "p = detail_page_run off br pow4 (open_detail_page off symbol status localStorage now) (es @ [Render t])"
    and "\<not> dq_cancelled (dp_detail p)"
  shows "(dp_chart p = None) = (dq_phase (dp_detail p) = NotFound \<or> dq_historyPoints (dp_detail p) = None) \<and>
    pred_option (\<lambda>(k, c). k = (dq_symbol (dp_detail p), dp_range p) \<and> pc_livePrice c = live_of (dq_quote (dp_detail p))) (dp_chart p) \<and>
    (dp_storage p \<noteq> None \<longrightarrow> storedRange (dp_storage p) = dp_range p)"
proof -
  define q where "q = detail_page_run off br pow4 (open_detail_page off symbol status localStorage now) es"
  have p: "p = detail_page_render t q" using assms(1) by (simp add: q_def detail_page_run_def)
  have same: "dp_detail p = dp_detail q" "dp_range p = dp_range q" by (simp_all add: p detail_page_render_def Let_def)
  have "range_kept p" unfolding assms(1) by (rule range_kept_run)
  then show ?thesis using rendered [of q t] assms(2) unfolding same by (simp add: p range_kept_def same [unfolded p])
qed

definition demo_history_answer :: SymbolHistoryResponse where
  "demo_history_answer = \<lparr>hr_symbol = ''COMI'', hr_points = [\<lparr>hp_t = ''2026-03-02T09:59:58.000Z'', hp_p = ''80.00''\<rparr>,
     \<lparr>hp_t = ''2026-03-02T09:59:59.000Z'', hp_p = ''80.05''\<rparr>]\<rparr>"

definition demo_status :: MarketStatus where
  "demo_status = Open ''2026-03-02'' 1772438400000 1772454600000"

definition demo_page_events :: "detail_page_event list" where
  "demo_page_events = [Hook (SnapshotPushed demo_snapshot), Hook (HistoryAnswered 1 (Some demo_history_answer))]"

definition demo_page :: detail_page where
  "demo_page = detail_page_run (\<lambda>_. 7200000) demo_browser (\<lambda>x. x ^ 4)
     (open_detail_page (\<lambda>_. 7200000) ''COMI'' demo_status (Some (\<lambda>_. None)) 1772445600000) (demo_page_events @ [Render 0])"

lemma demo_page_detail:
  "dp_detail demo_page = history_answered 1 (Some demo_history_answer) (detail_ingestSnapshot (\<lambda>_. ''0.00'') demo_snapshot (new_detail ''COMI''))"
  by (simp add: demo_page_def demo_page_events_def detail_page_run_def detail_page_render_def open_detail_page_def Let_def demo_browser_def)

lemma demo_page_ready:
  "\<not> dq_cancelled (dp_detail demo_page)" "dq_phase (dp_detail demo_page) = Ready" "dq_symbol (dp_detail demo_page) = ''COMI''"
  "dq_historyPoints (dp_detail demo_page) =
     Some [(date_parse ''2026-03-02T09:59:58.000Z'', ''80.00''), (date_parse ''2026-03-02T09:59:59.000Z'', ''80.05'')]"
  by (simp_all add: demo_page_detail history_answered_def detail_ingestSnapshot_def new_detail_def mount_effect_def demo_snapshot_def
      demo_history_answer_def)

lemma demo_page_range: "dp_range demo_page = SESSION" "dp_status demo_page = demo_status"
  by (simp_all add: demo_page_def demo_page_events_def detail_page_run_def detail_page_render_def open_detail_page_def Let_def
      storedRange_def RANGE_KEYS_def)

theorem detail_page_in_step_witness:
  "dp_chart demo_page \<noteq> None \<and> dp_range demo_page = storedRange (dp_storage demo_page)"
proof -
  have "dp_storage demo_page \<noteq> None"
    by (simp add: demo_page_def demo_page_events_def detail_page_run_def detail_page_render_def open_detail_page_def Let_def)
  then show ?thesis
    using detail_page_in_step [OF demo_page_def demo_page_ready(1)] demo_page_ready(2,4) by simp
qed

section \<open>A range picked after a change of stream\<close>

fun keeps_history :: "detail_page_event \<Rightarrow> bool" where
  "keeps_history (Hook (HistoryAnswered m a)) = False"
| "keeps_history (Hook (Navigate symbol)) = False"
| "keeps_history (Hook Leave) = False"
| "keeps_history e = True"

lemma hook_keeps:
  assumes "keeps_history (Hook e)"
  shows "dq_historyPoints (detail_do br d e) = dq_historyPoints d \<and> dq_symbol (detail_do br d e) = dq_symbol d \<and>
    dq_cancelled (detail_do br d e) = dq_cancelled d"
  using assms
  by (cases e) (auto simp: snapshot_answered_def universe_answered_def detail_ingestSnapshot_def markNotFound_def on_tick_def
      throttledApplyTick_def on_error_def on_entitlement_def detail_beat_def committed_def request_flush_def apply_queued_tick_def
      frame_def Let_def split: option.split)

lemma event_keeps:
  assumes "keeps_history e"
  shows "dq_historyPoints (dp_detail (detail_page_do off br pow4 p e)) = dq_historyPoints (dp_detail p) \<and>
    dq_symbol (dp_detail (detail_page_do off br pow4 p e)) = dq_symbol (dp_detail p) \<and>
    dq_cancelled (dp_detail (detail_page_do off br pow4 p e)) = dq_cancelled (dp_detail p)"
proof (cases e)
  case (Hook h)
  have "dp_detail (detail_page_do off br pow4 p (Hook h)) = detail_do br (dp_detail p) h" by (simp add: Let_def chart_does_def)
  then show ?thesis using hook_keeps [of h br "dp_detail p"] assms Hook by simp
qed (simp_all add: Let_def chart_does_def detail_page_render_def set_range_def status_changes_def)

lemma run_keeps:
  "list_all keeps_history es \<Longrightarrow>
    dq_historyPoints (dp_detail (detail_page_run off br pow4 p es)) = dq_historyPoints (dp_detail p) \<and>
    dq_symbol (dp_detail (detail_page_run off br pow4 p es)) = dq_symbol (dp_detail p) \<and>
    dq_cancelled (dp_detail (detail_page_run off br pow4 p es)) = dq_cancelled (dp_detail p)"
proof (induction es arbitrary: p)
  case (Cons e es)
  then show ?case using event_keeps [of e off br pow4 p] Cons.IH [of "detail_page_do off br pow4 p e"] by (simp add: detail_page_run_def)
qed (simp add: detail_page_run_def)

lemma discarded: "pc_data (discard_points c) = [] \<and> points_of (pc_buffer (discard_points c)) = []"
  by (simp add: discard_points_def Let_def points_of_def ring_clear_def)

text \<open>Claim C14: a change of stream empties the chart, but not what the chart is mounted from. The
  history the page fetched when it was opened stays, and whatever comes of the new stream
  meanwhile, picking a range the chart does not show mounts it with that history again: the prices
  of the stream that was switched away from, and after them the new stream's live price.\<close>

theorem range_switch_replots_old_stream:
  assumes "dp_chart p = Some (k, c)" and "dq_historyPoints (dp_detail p) = Some history" and "\<not> dq_cancelled (dp_detail p)"
    and "list_all keeps_history es"
    and "q = detail_page_run off br pow4 p (Hook EntitlementPushed # es)" and "dq_phase (dp_detail q) \<noteq> NotFound"
    and "picked \<noteq> dp_range q" and "map_option fst (dp_chart q) \<noteq> Some (dq_symbol (dp_detail q), picked)"
  shows "\<exists>c1 c2. dp_chart (detail_page_run off br pow4 p [Hook EntitlementPushed]) = Some (k, c1) \<and> pc_data c1 = [] \<and>
    dp_chart (detail_page_run off br pow4 q [PickRange picked now, Render t]) = Some ((dq_symbol (dp_detail p), picked), c2) \<and>
    pc_data c2 = keep_last DEFAULT_CAPACITY (seeded (plot_points (pointsInRange history (describeRange off picked (dp_status q) now)))
      (map_option (\<lambda>(t, p). (t, toPlotValue p)) (live_of (dq_quote (dp_detail q)))))"
proof -
  have kept: "dq_historyPoints (dp_detail q) = Some history" "dq_symbol (dp_detail q) = dq_symbol (dp_detail p)"
    "\<not> dq_cancelled (dp_detail q)"
    using run_keeps [of "Hook EntitlementPushed # es" off br pow4 p] assms by simp_all
  define live where "live = live_of (dq_quote (dp_detail q))"
  define points where "points = pointsInRange history (describeRange off picked (dp_status q) now)"
  obtain c2 where c2: "mount_chart DEFAULT_CAPACITY points live t = Inr c2" using mounts_default by blast
  have "detail_page_run off br pow4 q [PickRange picked now, Render t] = detail_page_render t (set_range off picked now q)"
    by (simp add: detail_page_run_def)
  moreover have "dp_chart (detail_page_render t (set_range off picked now q)) = Some ((dq_symbol (dp_detail p), picked), c2)"
    using assms(6-8) kept c2
    by (auto simp: detail_page_render_def set_range_def ranged_history_def Let_def live_def points_def split: option.split)
  moreover have "pc_data c2 = keep_last DEFAULT_CAPACITY (seeded (plot_points points) (map_option (\<lambda>(t, p). (t, toPlotValue p)) live))"
    using mounted [OF c2] by (simp add: DEFAULT_CAPACITY_def)
  moreover have "dp_chart (detail_page_run off br pow4 p [Hook EntitlementPushed]) = Some (k, discard_points c)"
    using assms(1) by (simp add: detail_page_run_def chart_does_def Let_def)
  ultimately show ?thesis using discarded [of c] unfolding live_def points_def by metis
qed

lemma demo_dates:
  "date_parse ''2026-03-02T09:59:58.000Z'' = Fin 1772445598000" "date_parse ''2026-03-02T09:59:59.000Z'' = Fin 1772445599000"
  by code_simp+

lemma demo_page_chart: "\<exists>c. dp_chart demo_page = Some ((''COMI'', SESSION), c)"
proof -
  define q where "q = detail_page_run (\<lambda>_. 7200000) demo_browser (\<lambda>x. x ^ 4)
    (open_detail_page (\<lambda>_. 7200000) ''COMI'' demo_status (Some (\<lambda>_. None)) 1772445600000) demo_page_events"
  have p: "demo_page = detail_page_render 0 q" by (simp add: demo_page_def q_def detail_page_run_def)
  have same: "dp_detail demo_page = dp_detail q" "dp_range demo_page = dp_range q" by (simp_all add: p detail_page_render_def Let_def)
  show ?thesis using rendered [of q 0] demo_page_ready demo_page_range(1) unfolding same p [symmetric] by (cases "dp_chart demo_page") auto
qed

theorem range_switch_replots_old_stream_witness:
  "\<exists>c1 c2. dp_chart (detail_page_run (\<lambda>_. 7200000) demo_browser (\<lambda>x. x ^ 4) demo_page [Hook EntitlementPushed]) =
       Some ((''COMI'', SESSION), c1) \<and> pc_data c1 = [] \<and>
     dp_chart (detail_page_run (\<lambda>_. 7200000) demo_browser (\<lambda>x. x ^ 4) demo_page
       [Hook EntitlementPushed, PickRange R5M 1772445600000, Render 5]) = Some ((''COMI'', R5M), c2) \<and>
     pc_data c2 = [(Fin 1772445598000, toPlotValue ''80.00''), (Fin 1772445599000, toPlotValue ''80.05'')]"
proof -
  let ?run = "detail_page_run (\<lambda>_. 7200000) demo_browser (\<lambda>x. x ^ 4)"
  define q where "q = ?run demo_page (Hook EntitlementPushed # [])"
  obtain k c where kc: "dp_chart demo_page = Some (k, c)" "k = (''COMI'', SESSION)" using demo_page_chart by auto
  have d: "dp_detail q = on_entitlement (dp_detail demo_page)" "dp_range q = SESSION" "dp_status q = demo_status"
    "map_option fst (dp_chart q) = Some (''COMI'', SESSION)"
    using kc by (simp_all add: q_def detail_page_run_def chart_does_def Let_def demo_page_range)
  have ph: "dq_phase (dp_detail q) \<noteq> NotFound" "dq_quote (dp_detail q) = None"
    using demo_page_ready by (simp_all add: d on_entitlement_def)
  have range: "pointsInRange [(date_parse ''2026-03-02T09:59:58.000Z'', ''80.00''), (date_parse ''2026-03-02T09:59:59.000Z'', ''80.05'')]
      (describeRange (\<lambda>_. 7200000) R5M (dp_status q) 1772445600000) = [(Fin 1772445598000, ''80.00''), (Fin 1772445599000, ''80.05'')]"
    by (simp add: d demo_status_def describeRange_def pointsInRange_def demo_dates num_at_least_def)
  have "?run q [PickRange R5M 1772445600000, Render 5] = ?run demo_page [Hook EntitlementPushed, PickRange R5M 1772445600000, Render 5]"
    by (simp add: q_def detail_page_run_def)
  then show ?thesis
    using range_switch_replots_old_stream [OF kc(1) demo_page_ready(4,1) _ q_def ph(1), of R5M 1772445600000 5] d ph(2) kc(2) demo_page_ready(3) range
    by (simp add: live_of_def plot_points_def seeded_def keep_last_def DEFAULT_CAPACITY_def on_entitlement_def)
qed

end
