(* ===== verification/Connection_View.thy ===== *)
theory Connection_View
  imports Config Market_Source Js_Timers
begin

text \<open>
  What the board and the detail page show of the connection and of the market's hours:
  components/useConnectionState.ts (the state, and since when prices are held), the banners of
  pages/BoardBanners.tsx (the retry countdown, the close reasons, and the two moments that are
  announced once), display/formatUntil.ts and components/streamDelay.ts, under
  src/client/Tckr.MarketWatch/src. A status event is committed before the next one comes; the
  markup around the texts is left out.

  The lemmas: held prices are dated from the first drop however often a retry fails, and a recovery
  is announced exactly when a drop has ended, for a bounded time.
\<close>

section \<open>The connection as seen\<close>

definition isHeld :: "ConnectionState \<Rightarrow> bool" where
  "isHeld state = (case state of Reconnecting _ _ \<Rightarrow> True | ClosedWith _ _ \<Rightarrow> True | _ \<Rightarrow> False)"

record ConnectionView =
  cv_state :: ConnectionState
  cv_eventReceivedAt :: rat
  cv_heldSince :: "rat option"

text \<open>The source's \<open>connectionState\<close> is optional.\<close>

definition seedState :: "ConnectionState option \<Rightarrow> Identity option \<Rightarrow> rat \<Rightarrow> ConnectionState" where
  "seedState current ident now =
     (case current of
        Some state \<Rightarrow> state
      | None \<Rightarrow> if ident \<noteq> None then ConnectedSince now else Connecting 1)"

definition seedView :: "ConnectionState option \<Rightarrow> Identity option \<Rightarrow> rat \<Rightarrow> ConnectionView" where
  "seedView current ident now =
     (let state = seedState current ident now
      in \<lparr>cv_state = state, cv_eventReceivedAt = now, cv_heldSince = (if isHeld state then Some now else None)\<rparr>)"

definition status_seen :: "rat \<Rightarrow> ConnectionState \<Rightarrow> ConnectionView \<Rightarrow> ConnectionView" where
  "status_seen now next_state previous =
     \<lparr>cv_state = next_state, cv_eventReceivedAt = now,
      cv_heldSince = (if isHeld next_state then Some (case cv_heldSince previous of Some t \<Rightarrow> t | None \<Rightarrow> now) else None)\<rparr>"

text \<open>The seconds until the next retry, as the banner counts them.\<close>

definition remainingSecs :: "rat \<Rightarrow> ConnectionView \<Rightarrow> nat" where
  "remainingSecs now view =
     (case cv_state view of
        Reconnecting _ nextRetryMs \<Rightarrow> nat \<lceil>fl (fl (nextRetryMs - fl (now - cv_eventReceivedAt view)) / 1000)\<rceil>
      | _ \<Rightarrow> 0)"

fun closeDetail :: "CloseCode \<Rightarrow> string" where
  "closeDetail Normal = ''The stream closed and will not retry on its own.''"
| "closeDetail Unauthenticated = ''Not authenticated. Sign in again, then reconnect.''"
| "closeDetail TokenExpired = ''Your session expired.''"
| "closeDetail HeartbeatTimeout = ''The connection timed out.''"
| "closeDetail SlowConsumer = ''This client fell behind and was disconnected. Try watching fewer symbols.''"

section \<open>Waits and delays in words\<close>

definition formatUntil :: "int \<Rightarrow> string" where
  "formatUntil ms =
     (let minutes = nat \<lfloor>fl (of_int ms / 60000)\<rfloor>
      in if minutes < 1 then ''in under a minute''
         else let days = minutes div 1440; hours = (minutes mod 1440) div 60; mins = minutes mod 60
              in if days > 0 then ''in '' @ nat_str days @ ''d '' @ nat_str hours @ ''h''
                 else if hours > 0 then ''in '' @ nat_str hours @ ''h '' @ nat_str mins @ ''m''
                 else ''in '' @ nat_str mins @ ''m'')"

record StreamDelay =
  sy_short :: string
  sy_simulated :: bool

definition REAL_DELAY_LABEL :: string where
  "REAL_DELAY_LABEL = ''15 min''"

text \<open>\<open>%\<close> of a positive number by a whole one is exact.\<close>

definition rat_mod :: "rat \<Rightarrow> nat \<Rightarrow> rat" where
  "rat_mod x k = x - of_nat k * of_int \<lfloor>x / of_nat k\<rfloor>"

definition formatOffset :: "number \<Rightarrow> string" where
  "formatOffset ms =
     (case ms of
        Fin x \<Rightarrow>
          if x > 0 \<and> rat_mod x 60000 = 0 then number_text (to_number (x / 60000)) @ '' min''
          else if x > 0 \<and> rat_mod x 1000 = 0 then number_text (to_number (x / 1000)) @ ''s''
          else number_text ms @ ''ms''
      | _ \<Rightarrow> number_text ms @ ''ms'')"

definition streamDelay :: "(int \<Rightarrow> int) \<Rightarrow> env \<Rightarrow> bool \<Rightarrow> int \<Rightarrow> StreamDelay exn" where
  "streamDelay off env production now =
     bindE (resolveClientConfig off env production no_overrides now) (\<lambda>config.
       Inr (if cc_source config = SimulatedKind
            then \<lparr>sy_short = formatOffset (sc_delayedOffsetMs (cc_simulated config)), sy_simulated = True\<rparr>
            else \<lparr>sy_short = REAL_DELAY_LABEL, sy_simulated = False\<rparr>))"

text \<open>The title and the text of the banner shown while the market is closed.\<close>

definition closed_banner :: "(int \<Rightarrow> int) \<Rightarrow> MarketStatus \<Rightarrow> bool \<Rightarrow> int \<Rightarrow> (string \<times> string) option" where
  "closed_banner off status isCompact now =
     (case status of
        Open _ _ _ \<Rightarrow> None
      | Closed _ _ _ nextOpenAt \<Rightarrow>
          let preOpen = isPreOpenAuction status now; wait = formatUntil (nextOpenAt - now);
              opens = formatNextOpen off nextOpenAt (Some now)
          in Some (if preOpen then ''Pre-open auction'' else ''Market closed'',
               if isCompact then (if preOpen then ''Trading starts'' else ''Reopens'') @ '' '' @ opens @ '' Cairo''
               else if preOpen then ''Continuous trading starts at '' @ formatCairoTimeShort off nextOpenAt @ '' Cairo time, '' @
                      wait @ ''. Prices below are from the last completed session.''
               else ''Showing the last completed session.Reopens '' @ opens @ '' Cairo time, '' @ wait @ ''.''))"

section \<open>Held since the first drop\<close>

definition connection_run :: "ConnectionView \<Rightarrow> (ConnectionState \<times> rat) list \<Rightarrow> ConnectionView" where
  "connection_run view es = foldl (\<lambda>v (st, now). status_seen now st v) view es"

text \<open>The statuses at the end of a history that are all held, and the time of the first of them.\<close>

definition held_tail :: "(ConnectionState \<times> rat) list \<Rightarrow> (ConnectionState \<times> rat) list" where
  "held_tail es = rev (takeWhile (\<lambda>e. isHeld (fst e)) (rev es))"

definition first_held :: "(ConnectionState \<times> rat) list \<Rightarrow> rat option" where
  "first_held es = (if held_tail es = [] then None else Some (snd (hd (held_tail es))))"

lemma held_tail_snoc: "held_tail (es @ [e]) = (if isHeld (fst e) then held_tail es @ [e] else [])"
  by (simp add: held_tail_def)

text \<open>Prices are marked as held exactly while the connection is reconnecting or closed, and they
  are dated from the first status of that outage, however many retries fail after it; a page
  opened during an outage dates them from when it was opened.\<close>

theorem held_since_first_drop:
  "cv_heldSince (connection_run (seedView current ident now) es) = first_held ((seedState current ident now, now) # es)"
proof (induction es rule: rev_induct)
  case Nil
  then show ?case by (simp add: connection_run_def seedView_def first_held_def held_tail_def Let_def)
next
  case (snoc e es)
  define past where "past = (seedState current ident now, now) # es"
  have run: "connection_run (seedView current ident now) (es @ [e]) =
      status_seen (snd e) (fst e) (connection_run (seedView current ident now) es)"
    by (simp add: connection_run_def case_prod_unfold)
  have "first_held (past @ [e]) = (if isHeld (fst e) then Some (case first_held past of Some t \<Rightarrow> t | None \<Rightarrow> snd e) else None)"
    by (simp add: first_held_def held_tail_snoc hd_append)
  then show ?case using snoc unfolding run past_def by (simp add: status_seen_def)
qed

section \<open>Moments\<close>

text \<open>A message shown for a while, then hidden; showing it again while it is on show changes nothing.\<close>

datatype moment_callback = CbHide

record moment =
  mo_duration :: rat
  mo_shown :: bool
  mo_handle :: "nat option"
  mo_timers :: "moment_callback timers"

definition new_moment :: "rat \<Rightarrow> rat \<Rightarrow> moment" where
  "new_moment duration now = \<lparr>mo_duration = duration, mo_shown = False, mo_handle = None, mo_timers = start_timers now\<rparr>"

text \<open>\<open>setShown\<close> with the effect that follows it: the last timer is cleared, a new one set if shown.\<close>

definition setShown :: "bool \<Rightarrow> moment \<Rightarrow> moment" where
  "setShown shown m =
     (if shown = mo_shown m then m
      else let tm = clear_handle (mo_timers m) (mo_handle m)
           in if shown then let (h, tm1) = setTimeout tm CbHide (mo_duration m)
                in m\<lparr>mo_shown := True, mo_handle := Some h, mo_timers := tm1\<rparr>
              else m\<lparr>mo_shown := False, mo_handle := None, mo_timers := tm\<rparr>)"

definition moment_timer :: "nat \<Rightarrow> moment \<Rightarrow> moment" where
  "moment_timer h m =
     (case due_timer (mo_timers m) h of
        None \<Rightarrow> m
      | Some (CbHide, tm) \<Rightarrow> setShown False (m\<lparr>mo_timers := tm\<rparr>))"

definition moment_time :: "rat \<Rightarrow> moment \<Rightarrow> moment" where
  "moment_time d m = m\<lparr>mo_timers := advance (mo_timers m) d\<rparr>"

text \<open>The opening bell: shown when the market opens while the page is open.\<close>

record opening_bell =
  ob_moment :: moment
  ob_previous :: bool

definition useOpeningBell :: "bool \<Rightarrow> opening_bell \<Rightarrow> opening_bell" where
  "useOpeningBell opened b =
     (if opened = ob_previous b then b
      else b\<lparr>ob_previous := opened, ob_moment := (if \<not> ob_previous b \<and> opened then setShown True (ob_moment b) else ob_moment b)\<rparr>)"

definition new_bell :: "bool \<Rightarrow> rat \<Rightarrow> opening_bell" where
  "new_bell opened now = \<lparr>ob_moment = new_moment 8000 now, ob_previous = opened\<rparr>"

text \<open>The recovered stream: the effect runs on a change of the state's kind.\<close>

datatype connection_kind = KConnecting | KConnected | KReconnecting | KClosed

definition kind_of :: "ConnectionState \<Rightarrow> connection_kind" where
  "kind_of state = (case state of Connecting _ \<Rightarrow> KConnecting | ConnectedSince _ \<Rightarrow> KConnected
     | Reconnecting _ _ \<Rightarrow> KReconnecting | ClosedWith _ _ \<Rightarrow> KClosed)"

record recovery =
  rc_moment :: moment
  rc_kind :: "connection_kind option"
  rc_interrupted :: bool

definition useRecoveryMoment :: "ConnectionState \<Rightarrow> recovery \<Rightarrow> recovery" where
  "useRecoveryMoment state r =
     (if rc_kind r = Some (kind_of state) then r
      else let r1 = r\<lparr>rc_kind := Some (kind_of state)\<rparr>
           in if kind_of state = KReconnecting \<or> kind_of state = KClosed then r1\<lparr>rc_interrupted := True\<rparr>
              else if kind_of state = KConnected \<and> rc_interrupted r1
              then r1\<lparr>rc_interrupted := False, rc_moment := setShown True (rc_moment r1)\<rparr>
              else r1)"

definition mount_recovery :: "ConnectionState \<Rightarrow> rat \<Rightarrow> recovery" where
  "mount_recovery state now =
     useRecoveryMoment state \<lparr>rc_moment = new_moment 4000 now, rc_kind = None, rc_interrupted = False\<rparr>"

datatype recovery_event = StatusIs ConnectionState | RecoveryTime rat | RecoveryTimer nat | Dismissed

fun recovery_do :: "recovery \<Rightarrow> recovery_event \<Rightarrow> recovery" where
  "recovery_do r (StatusIs state) = useRecoveryMoment state r"
| "recovery_do r (RecoveryTime d) = r\<lparr>rc_moment := moment_time d (rc_moment r)\<rparr>"
| "recovery_do r (RecoveryTimer h) = r\<lparr>rc_moment := moment_timer h (rc_moment r)\<rparr>"
| "recovery_do r Dismissed = r\<lparr>rc_moment := setShown False (rc_moment r)\<rparr>"

definition recovery_run :: "ConnectionState \<Rightarrow> rat \<Rightarrow> recovery_event list \<Rightarrow> recovery" where
  "recovery_run state now es = foldl recovery_do (mount_recovery state now) es"

section \<open>A recovery is announced, once\<close>

text \<open>The message is on show exactly while its one timer is armed, and that is due within its duration.\<close>

definition moment_ok :: "moment \<Rightarrow> bool" where
  "moment_ok m =
     (timers_ok (mo_timers m) \<and> mo_shown m = (mo_handle m \<noteq> None) \<and>
      (\<forall>h. (jget (tm_armed (mo_timers m)) h \<noteq> None) = (mo_handle m = Some h)) \<and>
      (\<forall>h t. jget (tm_armed (mo_timers m)) h = Some t \<longrightarrow> ti_every t = None \<and> ti_due t \<le> tm_now (mo_timers m) + timer_delay (mo_duration m)))"

lemma moment_ok_new: "moment_ok (new_moment d now)"
  by (simp add: moment_ok_def new_moment_def start_timers_def timers_ok_def)

lemma moment_cleared:
  assumes "moment_ok m"
  shows "jget (tm_armed (clear_handle (mo_timers m) (mo_handle m))) h = None"
proof -
  have "jget (tm_armed (mo_timers m)) h = None" if "mo_handle m \<noteq> Some h"
    using assms that unfolding moment_ok_def by blast
  then show ?thesis by (cases "mo_handle m") (auto simp: clear_handle_def clearTimeout_def jget_jdelete)
qed

lemma moment_ok_shown: "moment_ok m \<Longrightarrow> moment_ok (setShown b m)"
proof (cases "b = mo_shown m")
  case False
  assume m: "moment_ok m"
  define tm where "tm = clear_handle (mo_timers m) (mo_handle m)"
  have tm: "timers_ok tm" "jget (tm_armed tm) h = None" for h
    using m moment_cleared [OF m] by (auto simp: tm_def moment_ok_def clear_handle_def split: option.split)
  show ?thesis using False tm
    by (auto simp: setShown_def moment_ok_def tm_def [symmetric] setTimeout_def set_timer_def timers_ok_def Let_def jget_jset)
qed (simp add: setShown_def)

lemma moment_ok_time: "moment_ok m \<Longrightarrow> moment_ok (moment_time d m)"
  by (fastforce simp: moment_ok_def moment_time_def advance_def timers_ok_def)

lemma moment_timer_hides:
  assumes "moment_ok m" and "due_timer (mo_timers m) h \<noteq> None"
  shows "\<not> mo_shown (moment_timer h m) \<and> moment_ok (moment_timer h m) \<and> mo_duration (moment_timer h m) = mo_duration m"
proof -
  obtain t where t0: "jget (tm_armed (mo_timers m)) h = Some t" "\<not> tm_now (mo_timers m) < ti_due t"
    using assms(2) by (auto simp: due_timer_def split: option.splits if_splits)
  have "ti_callback t = CbHide" by (cases "ti_callback t")
  moreover have "ti_every t = None" using assms(1) t0(1) by (simp add: moment_ok_def)
  ultimately have t: "jget (tm_armed (mo_timers m)) h = Some t" "due_timer (mo_timers m) h = Some (CbHide, clearTimeout (mo_timers m) h)"
    using t0 by (simp_all add: due_timer_def)
  have h: "mo_handle m = Some h" "mo_shown m" using assms(1) t(1) by (auto simp: moment_ok_def)
  have gone: "jget (tm_armed (clearTimeout (mo_timers m) h)) k = None" for k
    using moment_cleared [OF assms(1), of k] by (simp add: h(1) clear_handle_def)
  define tm where "tm = clearTimeout (clearTimeout (mo_timers m) h) h"
  have "timers_ok tm" using assms(1) by (simp add: tm_def moment_ok_def)
  moreover have "jget (tm_armed tm) k = None" for k
    using gone [of k] by (auto simp: tm_def clearTimeout_def jget_jdelete split: if_splits)
  moreover have "moment_timer h m = m\<lparr>mo_shown := False, mo_handle := None, mo_timers := tm\<rparr>"
    using h by (simp add: moment_timer_def t(2) setShown_def clear_handle_def tm_def)
  ultimately show ?thesis by (simp add: moment_ok_def)
qed

lemma moment_ok_timer: "moment_ok m \<Longrightarrow> moment_ok (moment_timer h m)"
  using moment_timer_hides [of m h] by (cases "due_timer (mo_timers m) h") (simp_all add: moment_timer_def)

lemma moment_duration [simp]: "mo_duration (setShown b m) = mo_duration m" "mo_duration (moment_time d m) = mo_duration m"
  by (simp_all add: setShown_def moment_time_def setTimeout_def Let_def case_prod_unfold)

lemma moment_duration_timer: "moment_ok m \<Longrightarrow> mo_duration (moment_timer h m) = mo_duration m"
  using moment_timer_hides [of m h] by (cases "due_timer (mo_timers m) h") (simp_all add: moment_timer_def)

lemma shown_setShown [simp]: "mo_shown (setShown b m) = b"
  by (simp add: setShown_def setTimeout_def Let_def case_prod_unfold)

text \<open>Since the last time it was connected, the stream has dropped.\<close>

definition dropped :: "ConnectionState list \<Rightarrow> bool" where
  "dropped states = list_ex isHeld (takeWhile (\<lambda>st. kind_of st \<noteq> KConnected) (rev states))"

definition statuses :: "recovery_event list \<Rightarrow> ConnectionState list" where
  "statuses es = concat (map (\<lambda>e. case e of StatusIs st \<Rightarrow> [st] | _ \<Rightarrow> []) es)"

lemma isHeld_kind: "isHeld st = (kind_of st = KReconnecting \<or> kind_of st = KClosed)"
  by (cases st) (simp_all add: isHeld_def kind_of_def)

lemma dropped_snoc: "dropped (states @ [st]) = (kind_of st \<noteq> KConnected \<and> (isHeld st \<or> dropped states))"
  by (simp add: dropped_def)

definition recovery_ok :: "ConnectionState list \<Rightarrow> recovery \<Rightarrow> bool" where
  "recovery_ok states r =
     (moment_ok (rc_moment r) \<and> mo_duration (rc_moment r) = 4000 \<and>
      rc_kind r = (if states = [] then None else Some (kind_of (last states))) \<and> rc_interrupted r = dropped states)"

lemma dropped_same:
  assumes "states \<noteq> []" and "kind_of st = kind_of (last states)"
  shows "dropped (states @ [st]) = dropped states"
  using assms(2) dropped_snoc [of "butlast states" "last states"] dropped_snoc [of states st] assms(1) isHeld_kind [of st]
    isHeld_kind [of "last states"] by auto

lemma recovery_status: "recovery_ok states r \<Longrightarrow> recovery_ok (states @ [st]) (useRecoveryMoment st r)"
  using dropped_same [of states st]
  by (auto simp: recovery_ok_def useRecoveryMoment_def Let_def dropped_snoc isHeld_kind moment_ok_shown split: if_splits)

lemma recovery_run_ok: "recovery_ok (state # statuses es) (recovery_run state now es)"
proof (induction es rule: rev_induct)
  case Nil
  have "recovery_ok [] \<lparr>rc_moment = new_moment 4000 now, rc_kind = None, rc_interrupted = False\<rparr>"
    using moment_ok_new [of 4000 now] by (simp add: recovery_ok_def dropped_def) (simp add: new_moment_def)
  then show ?case using recovery_status [of "[]"] by (simp add: recovery_run_def mount_recovery_def statuses_def)
next
  case (snoc e es)
  then show ?case using recovery_status [of "state # statuses es"]
    by (cases e) (auto simp: recovery_run_def statuses_def recovery_ok_def moment_ok_time moment_ok_timer moment_ok_shown
        moment_duration_timer)
qed

text \<open>Claim C39: a recovery is announced when a status says connected and the stream has dropped since it was
  last connected, and only then; the message hides by itself: while it is shown exactly one timer
  is armed, due within four seconds, and when it fires the message is gone.\<close>

theorem recovery_announced_once:
  assumes "r = recovery_run state now es" and "\<not> mo_shown (rc_moment r)"
  shows "mo_shown (rc_moment (recovery_do r (StatusIs st))) = (kind_of st = KConnected \<and> dropped (state # statuses es)) \<and>
    (mo_shown (rc_moment (recovery_do r (StatusIs st))) \<longrightarrow>
      (\<exists>h t. jget (tm_armed (mo_timers (rc_moment (recovery_do r (StatusIs st))))) h = Some t \<and>
        ti_due t \<le> tm_now (mo_timers (rc_moment (recovery_do r (StatusIs st)))) + 4000 \<and>
        \<not> mo_shown (rc_moment (recovery_do (recovery_do (recovery_do r (StatusIs st)) (RecoveryTime 4000)) (RecoveryTimer h)))))"
proof -
  define r1 where "r1 = recovery_do r (StatusIs st)"
  have ok: "recovery_ok (state # statuses es) r" using recovery_run_ok by (simp add: assms(1))
  have ok1: "recovery_ok ((state # statuses es) @ [st]) r1" using recovery_status [OF ok] by (simp add: r1_def)
  have shown: "mo_shown (rc_moment r1) = (kind_of st = KConnected \<and> dropped (state # statuses es))"
    using ok assms(2) dropped_snoc [of "butlast (state # statuses es)" "last (state # statuses es)"]
    by (auto simp: r1_def useRecoveryMoment_def recovery_ok_def Let_def)
  have d: "timer_delay 4000 = 4000" by code_simp
  have "\<exists>h t. jget (tm_armed (mo_timers (rc_moment r1))) h = Some t \<and> ti_due t \<le> tm_now (mo_timers (rc_moment r1)) + 4000 \<and>
      \<not> mo_shown (rc_moment (recovery_do (recovery_do r1 (RecoveryTime 4000)) (RecoveryTimer h)))" if s: "mo_shown (rc_moment r1)"
  proof -
    have m: "moment_ok (rc_moment r1)" "mo_duration (rc_moment r1) = 4000" using ok1 by (simp_all add: recovery_ok_def)
    then obtain h where h: "mo_handle (rc_moment r1) = Some h" using s by (auto simp: moment_ok_def)
    then have "jget (tm_armed (mo_timers (rc_moment r1))) h \<noteq> None" using m(1) by (simp add: moment_ok_def)
    then obtain t where t: "jget (tm_armed (mo_timers (rc_moment r1))) h = Some t" by blast
    then have due: "ti_due t \<le> tm_now (mo_timers (rc_moment r1)) + 4000" using m by (auto simp: moment_ok_def d)
    have "due_timer (mo_timers (moment_time 4000 (rc_moment r1))) h \<noteq> None"
      using t due by (simp add: due_timer_def moment_time_def advance_def)
    then have "\<not> mo_shown (moment_timer h (moment_time 4000 (rc_moment r1)))"
      using moment_timer_hides [OF moment_ok_time [OF m(1)]] by blast
    then show ?thesis using t due by (intro exI [of _ h] exI [of _ t]) simp
  qed
  then show ?thesis using shown unfolding r1_def [symmetric] by blast
qed

theorem recovery_announced_once_witness:
  "mo_shown (rc_moment (recovery_do (recovery_run (ConnectedSince 0) 0 [StatusIs (Reconnecting 1 500)]) (StatusIs (ConnectedSince 600))))"
proof -
  have h: "\<not> mo_shown (rc_moment (recovery_run (ConnectedSince 0) 0 [StatusIs (Reconnecting 1 500)]))" by code_simp
  have "dropped (ConnectedSince 0 # statuses [StatusIs (Reconnecting 1 500)])" "kind_of (ConnectedSince 600) = KConnected" by code_simp+
  then show ?thesis using recovery_announced_once [OF refl h, of "ConnectedSince 600"] by blast
qed

end
