(* ===== verification/Header_Status.thy ===== *)
theory Header_Status
  imports Connection_View Gateway_Rest
begin

text \<open>
  The two pills of the header (src/client/Tckr.MarketWatch/src/components/ConnectionStatus.tsx and
  StreamBadge.tsx): what they say of the connection and of the stream, the once-a-second tick that
  keeps a countdown and an elapsed time current, and the flip of the stream. Colours and the
  animation of a flip are left out. A status event is committed before the next one comes.

  The lemmas: the pill's tick runs exactly while its text depends on the time, one interval at a
  time, and the badge names the stream the server gave and the one it replaced.
\<close>

section \<open>The connection pill\<close>

fun closeMessage :: "CloseCode \<Rightarrow> string" where
  "closeMessage Normal = ''Disconnected''"
| "closeMessage Unauthenticated = ''Not authenticated '' @ [CHR 0xE2, CHR 0x80, CHR 0x94] @ '' sign in again''"
| "closeMessage TokenExpired = ''Session expired '' @ [CHR 0xE2, CHR 0x80, CHR 0x94] @ '' reconnecting''"
| "closeMessage HeartbeatTimeout = ''Connection timed out '' @ [CHR 0xE2, CHR 0x80, CHR 0x94] @ '' reconnecting''"
| "closeMessage SlowConsumer = ''Disconnected: this client fell behind. Try watching fewer symbols.''"

definition remainingSeconds :: "rat \<Rightarrow> nat" where
  "remainingSeconds ms = nat \<lceil>fl (ms / 1000)\<rceil>"

definition formatElapsed :: "rat \<Rightarrow> string" where
  "formatElapsed ms =
     (let totalSeconds = nat \<lfloor>fl (ms / 1000)\<rfloor>; minutes = totalSeconds div 60; seconds = totalSeconds mod 60
      in if minutes > 0 then nat_str minutes @ ''m '' @ padStart 2 (CHR ''0'') (nat_str seconds) @ ''s'' else nat_str seconds @ ''s'')"

definition ellipsis :: string where
  "ellipsis = [CHR 0xE2, CHR 0x80, CHR 0xA6]"

definition spaced_dot :: string where
  "spaced_dot = '' '' @ [CHR 0xC2, CHR 0xB7] @ '' ''"

definition describeState :: "ConnectionState \<Rightarrow> nat \<Rightarrow> string \<Rightarrow> string" where
  "describeState state waitSecs elapsedText =
     (case state of
        Connecting _ \<Rightarrow> ''Connecting'' @ ellipsis
      | ConnectedSince _ \<Rightarrow> ''Connected'' @ spaced_dot @ elapsedText
      | Reconnecting attempt _ \<Rightarrow> ''Reconnecting in '' @ nat_str waitSecs @ ''s (attempt '' @ nat_str attempt @ '')''
      | ClosedWith code _ \<Rightarrow> (case close_code_of code of Some c \<Rightarrow> closeMessage c | None \<Rightarrow> ''''))"

datatype pill_callback = CbTick

record status_pill =
  sp_state :: ConnectionState
  sp_eventReceivedAt :: rat
  sp_interval :: "nat option"
  sp_timers :: "pill_callback timers"

definition pill_seed :: "ConnectionState option \<Rightarrow> Identity option \<Rightarrow> rat \<Rightarrow> ConnectionState" where
  "pill_seed current ident now =
     (case current of
        Some state \<Rightarrow> state
      | None \<Rightarrow> if ident \<noteq> None then ConnectedSince now else Connecting 1)"

definition counting :: "ConnectionState \<Rightarrow> bool" where
  "counting state = (kind_of state = KReconnecting \<or> kind_of state = KConnected)"

text \<open>The effect on the state's kind: the last interval is cleared, a new one set while the text counts.\<close>

definition tick_effect :: "status_pill \<Rightarrow> status_pill" where
  "tick_effect p =
     (let tm = clear_handle (sp_timers p) (sp_interval p)
      in if counting (sp_state p)
         then let (h, tm1) = setInterval tm CbTick 1000 in p\<lparr>sp_interval := Some h, sp_timers := tm1\<rparr>
         else p\<lparr>sp_interval := None, sp_timers := tm\<rparr>)"

definition mount_pill :: "ConnectionState option \<Rightarrow> Identity option \<Rightarrow> rat \<Rightarrow> status_pill" where
  "mount_pill current ident now =
     tick_effect \<lparr>sp_state = pill_seed current ident now, sp_eventReceivedAt = now, sp_interval = None, sp_timers = start_timers now\<rparr>"

definition pill_status :: "ConnectionState \<Rightarrow> status_pill \<Rightarrow> status_pill" where
  "pill_status next_state p =
     (let p1 = p\<lparr>sp_state := next_state, sp_eventReceivedAt := tm_now (sp_timers p)\<rparr>
      in if kind_of next_state = kind_of (sp_state p) then p1 else tick_effect p1)"

definition pill_timer :: "nat \<Rightarrow> status_pill \<Rightarrow> status_pill" where
  "pill_timer h p =
     (case due_timer (sp_timers p) h of
        None \<Rightarrow> p
      | Some (CbTick, tm) \<Rightarrow> p\<lparr>sp_timers := tm\<rparr>)"

definition unmount_pill :: "status_pill \<Rightarrow> status_pill" where
  "unmount_pill p = p\<lparr>sp_interval := None, sp_timers := clear_handle (sp_timers p) (sp_interval p)\<rparr>"

text \<open>What is read, and what the status region announces.\<close>

definition pill_text :: "status_pill \<Rightarrow> string" where
  "pill_text p =
     (let now = tm_now (sp_timers p);
          waitSecs = (case sp_state p of
            Reconnecting _ nextRetryMs \<Rightarrow> remainingSeconds (fl (nextRetryMs - fl (now - sp_eventReceivedAt p))) | _ \<Rightarrow> 0);
          elapsedText = (case sp_state p of ConnectedSince since \<Rightarrow> formatElapsed (fl (now - since)) | _ \<Rightarrow> '''')
      in describeState (sp_state p) waitSecs elapsedText)"

definition announced_text :: "status_pill \<Rightarrow> string" where
  "announced_text p =
     (case sp_state p of
        ConnectedSince _ \<Rightarrow> ''Connected''
      | Reconnecting attempt _ \<Rightarrow> ''Reconnecting, attempt '' @ nat_str attempt
      | _ \<Rightarrow> describeState (sp_state p) 0 '''')"

definition idle_title :: "MarketStatus \<Rightarrow> int \<Rightarrow> ConnectionState \<Rightarrow> string option" where
  "idle_title status now state =
     (case (kind_of state, status) of
        (KConnected, Closed _ _ _ _) \<Rightarrow>
          Some (''Connected to the feed. '' @
            (if isPreOpenAuction status now then ''EGX is in its pre-open auction, so no trades are streaming yet''
             else ''EGX is closed, so no trades are streaming'') @ ''.'')
      | _ \<Rightarrow> None)"

section \<open>It ticks while it counts\<close>

datatype pill_event = PillStatus ConnectionState | PillTime rat | PillTimer nat

fun pill_do :: "status_pill \<Rightarrow> pill_event \<Rightarrow> status_pill" where
  "pill_do p (PillStatus s) = pill_status s p"
| "pill_do p (PillTime d) = p\<lparr>sp_timers := advance (sp_timers p) d\<rparr>"
| "pill_do p (PillTimer h) = pill_timer h p"

definition pill_ok :: "status_pill \<Rightarrow> bool" where
  "pill_ok p =
     (timers_ok (sp_timers p) \<and> (sp_interval p \<noteq> None) = counting (sp_state p) \<and>
      (\<forall>h. (jget (tm_armed (sp_timers p)) h \<noteq> None) = (sp_interval p = Some h)) \<and>
      (\<forall>h t. jget (tm_armed (sp_timers p)) h = Some t \<longrightarrow>
         ti_every t = Some 1000 \<and> ti_due t \<le> tm_now (sp_timers p) + 1000))"

lemma pill_cleared:
  assumes "\<forall>h. (jget (tm_armed tm) h \<noteq> None) = (iv = Some h)"
  shows "jget (tm_armed (clear_handle tm iv)) h = None"
proof -
  have "jget (tm_armed tm) h = None" if "iv \<noteq> Some h" using assms that by blast
  then show ?thesis by (cases iv) (auto simp: clear_handle_def clearTimeout_def jget_jdelete)
qed

lemma delay_1000 [simp]: "timer_delay 1000 = 1000"
  by (simp add: timer_delay_small)

lemma pill_ok_effect:
  assumes "timers_ok (sp_timers p)" and "\<forall>h. (jget (tm_armed (sp_timers p)) h \<noteq> None) = (sp_interval p = Some h)"
  shows "pill_ok (tick_effect p)"
proof -
  define tm where "tm = clear_handle (sp_timers p) (sp_interval p)"
  have tm: "timers_ok tm" "jget (tm_armed tm) h = None" for h
    using assms(1) pill_cleared [OF assms(2)] by (auto simp: tm_def clear_handle_def split: option.split)
  show ?thesis using tm
    by (auto simp: tick_effect_def pill_ok_def tm_def [symmetric] setInterval_def set_timer_def timers_ok_def Let_def jget_jset)
qed

lemma counting_kind: "kind_of s = kind_of t \<Longrightarrow> counting s = counting t"
  by (simp add: counting_def)

lemma pill_ok_status: "pill_ok p \<Longrightarrow> pill_ok (pill_status s p)"
proof (cases "kind_of s = kind_of (sp_state p)")
  case True
  assume "pill_ok p"
  then show ?thesis using True counting_kind [OF True] by (simp add: pill_status_def pill_ok_def)
next
  case False
  assume p: "pill_ok p"
  have "pill_ok (tick_effect (p\<lparr>sp_state := s, sp_eventReceivedAt := tm_now (sp_timers p)\<rparr>))"
    by (rule pill_ok_effect) (use p in \<open>simp_all add: pill_ok_def\<close>)
  then show ?thesis using False by (simp add: pill_status_def)
qed

lemma pill_ok_timer:
  assumes "pill_ok p"
  shows "pill_ok (pill_timer h p)"
proof (cases "due_timer (sp_timers p) h")
  case (Some d)
  then obtain t where t: "jget (tm_armed (sp_timers p)) h = Some t" "\<not> tm_now (sp_timers p) < ti_due t"
    by (auto simp: due_timer_def split: option.splits if_splits)
  have "ti_callback t = CbTick" by (cases "ti_callback t")
  moreover have "ti_every t = Some 1000" using assms t(1) by (simp add: pill_ok_def)
  ultimately have "pill_timer h p = p\<lparr>sp_timers := (sp_timers p)\<lparr>tm_armed :=
      jset h (t\<lparr>ti_due := tm_now (sp_timers p) + 1000\<rparr>) (tm_armed (sp_timers p))\<rparr>\<rparr>"
    using t by (simp add: pill_timer_def due_timer_def)
  then show ?thesis using assms t(1) by (auto simp: pill_ok_def timers_ok_def jget_jset)
qed (use assms in \<open>simp add: pill_timer_def\<close>)

lemma pill_ok_time: "pill_ok p \<Longrightarrow> 0 \<le> d \<Longrightarrow> pill_ok (p\<lparr>sp_timers := advance (sp_timers p) d\<rparr>)"
  by (fastforce simp: pill_ok_def advance_def timers_ok_def)

lemma pill_ok_mount: "pill_ok (mount_pill current ident now)"
  unfolding mount_pill_def by (rule pill_ok_effect) (simp_all add: start_timers_def timers_ok_def)

text \<open>Whatever statuses, time and ticks come, exactly one interval of a second is armed while the state is
  connected or reconnecting, whose text changes with the time, and none while it is not; and the
  next tick is never more than a second away, so neither the countdown nor the elapsed time stands
  still.\<close>

theorem pill_ticks_while_counting:
  assumes "\<forall>d. PillTime d \<in> set es \<longrightarrow> 0 \<le> d" and "p = foldl pill_do (mount_pill current ident now) es"
  shows "(\<exists>h t. jget (tm_armed (sp_timers p)) h = Some t \<and> ti_every t = Some 1000 \<and> ti_due t \<le> tm_now (sp_timers p) + 1000) =
      counting (sp_state p) \<and>
    (\<forall>h k. jget (tm_armed (sp_timers p)) h \<noteq> None \<longrightarrow> jget (tm_armed (sp_timers p)) k \<noteq> None \<longrightarrow> h = k)"
proof -
  have "pill_ok (foldl pill_do (mount_pill current ident now) es)" using assms(1)
  proof (induction es rule: rev_induct)
    case (snoc e es)
    then have "pill_ok (foldl pill_do (mount_pill current ident now) es)" by simp
    then show ?case using snoc.prems by (cases e) (simp_all add: pill_ok_status pill_ok_timer pill_ok_time)
  qed (simp add: pill_ok_mount)
  then show ?thesis unfolding assms(2) pill_ok_def by (metis option.discI option.exhaust option.inject)
qed

section \<open>The stream badge\<close>

text \<open>\<open>ba_shownStream\<close> is the ref the effect of the last commit set.\<close>

record stream_badge =
  ba_identity :: "Identity option"
  ba_changeCount :: nat
  ba_flippedFrom :: "Stream option"
  ba_shownStream :: "Stream option"

definition mount_badge :: "Identity option \<Rightarrow> stream_badge" where
  "mount_badge ident =
     \<lparr>ba_identity = ident, ba_changeCount = 0, ba_flippedFrom = None, ba_shownStream = map_option id_stream ident\<rparr>"

text \<open>A status re-reads the identity; a change of entitlement is a flip. The commit follows.\<close>

definition badge_status :: "Identity option \<Rightarrow> stream_badge \<Rightarrow> stream_badge" where
  "badge_status ident b = b\<lparr>ba_identity := ident, ba_shownStream := map_option id_stream ident\<rparr>"

definition badge_entitlement :: "Identity option \<Rightarrow> stream_badge \<Rightarrow> stream_badge" where
  "badge_entitlement ident b =
     b\<lparr>ba_flippedFrom := ba_shownStream b, ba_identity := ident, ba_changeCount := ba_changeCount b + 1,
       ba_shownStream := map_option id_stream ident\<rparr>"

definition badge_title :: "MarketStatus \<Rightarrow> StreamDelay \<Rightarrow> stream_badge \<Rightarrow> string option" where
  "badge_title status delay b =
     map_option (\<lambda>ident.
       if id_stream ident = LIVE then
         (case status of
            Open _ _ _ \<Rightarrow> ''Live stream: prices arrive as they trade''
          | Closed _ _ _ _ \<Rightarrow> ''Live stream: prices arrive as they trade. EGX is not trading right now, so nothing is moving.'')
       else ''Delayed stream: prices are '' @ sy_short delay @ '' behind the exchange'' @
         (if sy_simulated delay then '' (simulated; a real delayed entitlement is 15 min)'' else ''''))
       (ba_identity b)"

text \<open>The word and what it scrambles out of; nothing before the server has said.\<close>

definition badge_word :: "stream_badge \<Rightarrow> (Stream \<times> Stream option) option" where
  "badge_word b =
     map_option (\<lambda>ident. (id_stream ident, if ba_changeCount b > 0 then ba_flippedFrom b else None)) (ba_identity b)"

lemma badge_flip:
  "badge_word (badge_entitlement (Some ident) (badge_status was b)) = Some (id_stream ident, map_option id_stream was)"
  by (simp add: badge_word_def badge_entitlement_def badge_status_def)

end
