(* ===== verification/Theme.thy ===== *)
theory Theme
  imports Prelude
begin

text \<open>
  The light and dark theme (src/client/Tckr.MarketWatch/src/theme/theme.ts and useTheme.ts): which
  theme a visit starts with, the one attribute every colour follows, and the hooks that mirror it.
  Storage is a map, or absent when the browser refuses it, and so is the media query. The cross-fade
  of a switch is left out.

  The lemmas: every hook shows the theme that is applied, and a choice survives the visit.
\<close>

datatype ThemeName = Light | Dark

fun theme_text :: "ThemeName \<Rightarrow> string" where
  "theme_text Light = ''light''"
| "theme_text Dark = ''dark''"

definition THEME_STORAGE_KEY :: string where
  "THEME_STORAGE_KEY = ''tckr-theme''"

definition theme_named :: "string option \<Rightarrow> ThemeName option" where
  "theme_named value = (if value = Some ''light'' then Some Light else if value = Some ''dark'' then Some Dark else None)"

text \<open>The browser: its storage, what the media query says, and the document's attribute.\<close>

record theme_browser =
  tb_storage :: "(string \<Rightarrow> string option) option"
  tb_prefersDark :: "bool option"
  tb_attribute :: "string option"

definition getStoredTheme :: "theme_browser \<Rightarrow> ThemeName option" where
  "getStoredTheme b = (case tb_storage b of Some items \<Rightarrow> theme_named (items THEME_STORAGE_KEY) | None \<Rightarrow> None)"

definition getSystemTheme :: "theme_browser \<Rightarrow> ThemeName" where
  "getSystemTheme b = (if tb_prefersDark b = Some True then Dark else Light)"

definition resolveInitialTheme :: "theme_browser \<Rightarrow> ThemeName" where
  "resolveInitialTheme b = (case getStoredTheme b of Some t \<Rightarrow> t | None \<Rightarrow> getSystemTheme b)"

definition getAppliedTheme :: "theme_browser \<Rightarrow> ThemeName" where
  "getAppliedTheme b = (case theme_named (tb_attribute b) of Some t \<Rightarrow> t | None \<Rightarrow> resolveInitialTheme b)"

definition applyTheme :: "ThemeName \<Rightarrow> theme_browser \<Rightarrow> theme_browser" where
  "applyTheme theme b =
     b\<lparr>tb_attribute := Some (theme_text theme),
       tb_storage := map_option (\<lambda>items. items(THEME_STORAGE_KEY := Some (theme_text theme))) (tb_storage b)\<rparr>"

section \<open>The hooks\<close>

text \<open>The mounted hooks' states; the observer's callback runs for each of them after the attribute is set.\<close>

record themed =
  th_browser :: theme_browser
  th_hooks :: "ThemeName list"
  th_observed :: bool

datatype theme_event = HookMounts | SetTheme nat ThemeName | ToggleTheme nat | Observed

definition set_theme :: "nat \<Rightarrow> ThemeName \<Rightarrow> themed \<Rightarrow> themed" where
  "set_theme i theme t =
     (if i < length (th_hooks t)
      then t\<lparr>th_browser := applyTheme theme (th_browser t), th_hooks := (th_hooks t)[i := theme], th_observed := False\<rparr> else t)"

fun theme_do :: "themed \<Rightarrow> theme_event \<Rightarrow> themed" where
  "theme_do t HookMounts = t\<lparr>th_hooks := th_hooks t @ [getAppliedTheme (th_browser t)]\<rparr>"
| "theme_do t (SetTheme i theme) = set_theme i theme t"
| "theme_do t (ToggleTheme i) =
     (if i < length (th_hooks t) then set_theme i (if th_hooks t ! i = Dark then Light else Dark) t else t)"
| "theme_do t Observed = t\<lparr>th_hooks := map (\<lambda>_. getAppliedTheme (th_browser t)) (th_hooks t), th_observed := True\<rparr>"

definition theme_run :: "theme_browser \<Rightarrow> theme_event list \<Rightarrow> themed" where
  "theme_run b es = foldl theme_do \<lparr>th_browser = b, th_hooks = [], th_observed = True\<rparr> es"

lemma named_text [simp]: "theme_named (Some (theme_text t)) = Some t"
  by (cases t) (simp_all add: theme_named_def)

lemma applied [simp]: "getAppliedTheme (applyTheme theme b) = theme"
  by (simp add: getAppliedTheme_def applyTheme_def)

lemma remembered: "tb_storage b \<noteq> None \<Longrightarrow> resolveInitialTheme ((applyTheme theme b)\<lparr>tb_attribute := a\<rparr>) = theme"
  by (auto simp: resolveInitialTheme_def getStoredTheme_def applyTheme_def)

definition theme_ok :: "bool \<Rightarrow> themed \<Rightarrow> bool" where
  "theme_ok stores t =
     ((th_observed t \<longrightarrow> (\<forall>x \<in> set (th_hooks t). x = getAppliedTheme (th_browser t))) \<and>
      stores = (tb_storage (th_browser t) \<noteq> None) \<and>
      (stores \<longrightarrow> resolveInitialTheme ((th_browser t)\<lparr>tb_attribute := None\<rparr>) = getAppliedTheme (th_browser t)))"

lemma theme_ok_set: "theme_ok s t \<Longrightarrow> theme_ok s (set_theme i theme t)"
proof (cases "i < length (th_hooks t)")
  case True
  assume ok: "theme_ok s t"
  have "tb_storage (applyTheme theme (th_browser t)) \<noteq> None \<longleftrightarrow> tb_storage (th_browser t) \<noteq> None" by (simp add: applyTheme_def)
  then show ?thesis using True ok remembered [where b = "th_browser t" and theme = theme and a = None] by (simp add: theme_ok_def set_theme_def)
qed (simp add: set_theme_def)

lemma theme_ok_step: "theme_ok s t \<Longrightarrow> theme_ok s (theme_do t e)"
proof (cases e)
  case (ToggleTheme i)
  assume "theme_ok s t"
  then show ?thesis using ToggleTheme theme_ok_set by simp
qed (auto simp: theme_ok_set, auto simp: theme_ok_def)

text \<open>A visit that starts with the theme the page would resolve, whose hooks mount and switch in any order:
  once the observers have run every hook shows the theme applied to the document, and if the
  browser has storage the next visit starts with it.\<close>

theorem theme_survives:
  assumes "theme_named (tb_attribute b) \<in> {None, Some (resolveInitialTheme b)}" and "t = theme_run b es"
  shows "(th_observed t \<longrightarrow> (\<forall>x \<in> set (th_hooks t). x = getAppliedTheme (th_browser t))) \<and>
    (tb_storage b \<noteq> None \<longrightarrow> resolveInitialTheme ((th_browser t)\<lparr>tb_attribute := None\<rparr>) = getAppliedTheme (th_browser t))"
proof -
  have "resolveInitialTheme (b\<lparr>tb_attribute := None\<rparr>) = resolveInitialTheme b"
    unfolding resolveInitialTheme_def getStoredTheme_def getSystemTheme_def by simp
  then have start: "resolveInitialTheme (b\<lparr>tb_attribute := None\<rparr>) = getAppliedTheme b"
    using assms(1) by (auto simp: getAppliedTheme_def)
  have "theme_ok (tb_storage b \<noteq> None) (theme_run b es)"
  proof (induction es rule: rev_induct)
    case Nil
    then show ?case using start by (simp add: theme_run_def theme_ok_def)
  qed (simp add: theme_run_def theme_ok_step)
  then show ?thesis unfolding assms(2) theme_ok_def by blast
qed

end
