(* ===== verification/Board_Table.thy ===== *)
theory Board_Table
  imports Board_Search Paced_Views Ring_Buffer
begin

text \<open>
  The board's table model (src/client/Tckr.MarketWatch/src/pages/boardColumns.tsx, with the tones of
  components/deltaTone.ts), its sort (useBoardSort.ts) and the sparkline series of its rows
  (useBoundedSparkline.ts). A comparison reads the painted views (theory Paced_Views). The text of a
  percentage comes from the browser's \<open>Intl.NumberFormat\<close> and the order of two texts from its
  collation; both are arguments.

  The lemmas: a sorted board shows every row once, in the order of the figures it shows, ties in
  exchange order, and which figure makes sorting by value throw; what a sparkline keeps.
\<close>

section \<open>Columns\<close>

datatype SortColumn = ColSymbol | ColName | ColPrice | ColChange | ColChangePercent | ColVolume | ColValue

datatype ColumnKey = SortKey SortColumn | Trend

datatype SortDirection = Asc | Desc

record SortState =
  st_column :: SortColumn
  st_direction :: SortDirection

record ColumnSpec =
  cs_key :: ColumnKey
  cs_label :: string
  cs_title :: "string option"
  cs_unit :: "string option"
  cs_sortable :: bool
  cs_hideNarrow :: bool
  cs_numeric :: bool
  cs_widthPercent :: nat

definition ZERO_DECIMAL :: decimal where
  "ZERO_DECIMAL = ''0''"

definition column :: "ColumnKey \<Rightarrow> string \<Rightarrow> string option \<Rightarrow> string option \<Rightarrow> bool \<Rightarrow> bool \<Rightarrow> bool \<Rightarrow> nat \<Rightarrow> ColumnSpec" where
  "column key label title unit sortable narrow numeric width =
     \<lparr>cs_key = key, cs_label = label, cs_title = title, cs_unit = unit, cs_sortable = sortable,
      cs_hideNarrow = narrow, cs_numeric = numeric, cs_widthPercent = width\<rparr>"

definition COLUMNS :: "ColumnSpec list" where
  "COLUMNS =
     [column (SortKey ColSymbol) ''Symbol'' None None True False False 8,
      column Trend ''Session trend'' (Some ''Price through the session, from the open to now (or to the close)'') None False True False 12,
      column (SortKey ColName) ''Name'' None None True True False 26,
      column (SortKey ColPrice) ''Price'' None None True False True 10,
      column (SortKey ColChange) ''Change'' (Some ''Since the previous close'') None True True True 10,
      column (SortKey ColChangePercent) ''Change %'' (Some ''Since the previous close'') None True False True 11,
      column (SortKey ColVolume) ''Volume'' (Some ''Shares traded this session'') None True True True 11,
      column (SortKey ColValue) ''Value'' (Some (''Traded value this session, in EGP (price '' @ [CHR 0xC3, CHR 0x97] @ '' shares)''))
        (Some ''EGP'') True True True 12]"

definition visibleColumns :: "bool \<Rightarrow> ColumnSpec list" where
  "visibleColumns narrow = filter (\<lambda>c. \<not> (narrow \<and> cs_hideNarrow c)) COLUMNS"

definition columnWidthPercent :: "ColumnSpec \<Rightarrow> ColumnSpec list \<Rightarrow> rat" where
  "columnWidthPercent c columns =
     (let total = foldl (\<lambda>sum visible. sum + cs_widthPercent visible) 0 columns
      in fl (fl (of_nat (cs_widthPercent c) / of_nat total) * 100))"

section \<open>Presets\<close>

datatype Preset = Exchange | MostActive | Gainers | Losers

record PresetSpec =
  pr_id :: Preset
  pr_label :: string
  pr_hint :: string
  pr_sort :: "SortState option"

definition PRESETS :: "PresetSpec list" where
  "PRESETS =
     [\<lparr>pr_id = Exchange, pr_label = ''Exchange order'', pr_hint = ''The order EGX lists its instruments in'', pr_sort = None\<rparr>,
      \<lparr>pr_id = MostActive, pr_label = ''Most active'', pr_hint = ''Highest traded value (EGP) this session first'',
        pr_sort = Some \<lparr>st_column = ColValue, st_direction = Desc\<rparr>\<rparr>,
      \<lparr>pr_id = Gainers, pr_label = ''Gainers'', pr_hint = ''Biggest rise first'',
        pr_sort = Some \<lparr>st_column = ColChangePercent, st_direction = Desc\<rparr>\<rparr>,
      \<lparr>pr_id = Losers, pr_label = ''Losers'', pr_hint = ''Biggest fall first'',
        pr_sort = Some \<lparr>st_column = ColChangePercent, st_direction = Asc\<rparr>\<rparr>]"

text \<open>Two sorts are equal when both are absent, or both present with the same column and direction.\<close>

definition presetFor :: "SortState option \<Rightarrow> Preset option" where
  "presetFor sortState = map_option pr_id (find (\<lambda>preset. pr_sort preset = sortState) PRESETS)"

definition describeOrder :: "SortState option \<Rightarrow> string" where
  "describeOrder sortState =
     (case sortState of
        None \<Rightarrow> ''Exchange order''
      | Some s \<Rightarrow>
          (case find (\<lambda>candidate. Some (pr_id candidate) = presetFor sortState) PRESETS of
             Some preset \<Rightarrow>
               if pr_sort preset \<noteq> None then pr_label preset @ '' '' @ [CHR 0xC2, CHR 0xB7] @ '' '' @ pr_hint preset else ''''
           | None \<Rightarrow>
               let col = find (\<lambda>candidate. cs_key candidate = SortKey (st_column s)) COLUMNS;
                   numeric = (case col of Some c \<Rightarrow> cs_numeric c | None \<Rightarrow> False);
                   way = (if numeric then (if st_direction s = Asc then ''lowest first'' else ''highest first'')
                          else (if st_direction s = Asc then ''A'' @ [CHR 0xE2, CHR 0x80, CHR 0x93] @ ''Z''
                                else ''Z'' @ [CHR 0xE2, CHR 0x80, CHR 0x93] @ ''A''))
               in ''Sorted by '' @ (case col of Some c \<Rightarrow> cs_label c | None \<Rightarrow> '''') @ '', '' @ way))"

section \<open>Comparing rows\<close>

definition tradedValue :: "SymbolDefinition \<Rightarrow> SymbolView option \<Rightarrow> decimal exn" where
  "tradedValue def view =
     multiplyByQuantity (case view of Some v \<Rightarrow> sv_price v | None \<Rightarrow> sd_referencePrice def)
       (case view of Some v \<Rightarrow> sv_volume v | None \<Rightarrow> Fin 0)"

definition compareBy ::
    "(string \<Rightarrow> string \<Rightarrow> int) \<Rightarrow> SortColumn \<Rightarrow> paced \<Rightarrow> SymbolDefinition \<Rightarrow> SymbolDefinition \<Rightarrow> int exn" where
  "compareBy localeCompare col s a b =
     (let va = getPacedSymbolSnapshot (sd_symbol a) s; vb = getPacedSymbolSnapshot (sd_symbol b) s
      in case col of
           ColSymbol \<Rightarrow> Inr (localeCompare (sd_symbol a) (sd_symbol b))
         | ColName \<Rightarrow> Inr (localeCompare (sd_name a) (sd_name b))
         | ColPrice \<Rightarrow> Inr (compare (case va of Some v \<Rightarrow> sv_price v | None \<Rightarrow> sd_referencePrice a)
                             (case vb of Some v \<Rightarrow> sv_price v | None \<Rightarrow> sd_referencePrice b))
         | ColChange \<Rightarrow> Inr (compare (case va of Some v \<Rightarrow> sv_change v | None \<Rightarrow> ZERO_DECIMAL)
                             (case vb of Some v \<Rightarrow> sv_change v | None \<Rightarrow> ZERO_DECIMAL))
         | ColChangePercent \<Rightarrow> Inr (num_sign (num_sub (case va of Some v \<Rightarrow> sv_changePercent v | None \<Rightarrow> Fin 0)
                             (case vb of Some v \<Rightarrow> sv_changePercent v | None \<Rightarrow> Fin 0)))
         | ColVolume \<Rightarrow> Inr (num_sign (num_sub (case va of Some v \<Rightarrow> sv_volume v | None \<Rightarrow> Fin 0)
                             (case vb of Some v \<Rightarrow> sv_volume v | None \<Rightarrow> Fin 0)))
         | ColValue \<Rightarrow> bindE (tradedValue a va) (\<lambda>x. bindE (tradedValue b vb) (\<lambda>y. Inr (compare x y))))"

section \<open>Tones and texts\<close>

definition UNCHANGED_PERCENT_THRESHOLD :: rat where
  "UNCHANGED_PERCENT_THRESHOLD = fl (5 / 1000)"

definition isEffectivelyUnchanged :: "number \<Rightarrow> bool" where
  "isEffectivelyUnchanged changePercent =
     (case changePercent of Fin p \<Rightarrow> \<bar>p\<bar> < UNCHANGED_PERCENT_THRESHOLD | _ \<Rightarrow> False)"

datatype DeltaTone = Up | Down | Flat

definition deltaTone :: "number \<Rightarrow> DeltaTone" where
  "deltaTone sign = (if num_less (Fin 0) sign then Up else if num_less sign (Fin 0) then Down else Flat)"

definition percentTone :: "number option \<Rightarrow> DeltaTone" where
  "percentTone changePercent =
     (case changePercent of
        None \<Rightarrow> Flat
      | Some p \<Rightarrow> if isEffectivelyUnchanged p then Flat else deltaTone p)"

definition TICK_STAGGER_MS :: nat where
  "TICK_STAGGER_MS = 9"

definition TICK_STAGGER_MAX_MS :: nat where
  "TICK_STAGGER_MAX_MS = 260"

definition tickDelay :: "nat \<Rightarrow> string" where
  "tickDelay boardIndex = nat_str (min (boardIndex * TICK_STAGGER_MS) TICK_STAGGER_MAX_MS) @ ''ms''"

definition formatSignedPercent :: "(number \<Rightarrow> string) \<Rightarrow> number \<Rightarrow> string" where
  "formatSignedPercent formatPercentFigure v =
     (if isEffectivelyUnchanged v then ''0.00%'' else formatPercentFigure v @ ''%'')"

section \<open>The sort\<close>

text \<open>A header click.\<close>

definition handleSort :: "SortColumn \<Rightarrow> SortState option \<Rightarrow> SortState option" where
  "handleSort col current =
     (case current of
        Some c \<Rightarrow>
          if st_column c = col then Some \<lparr>st_column = col, st_direction = (if st_direction c = Asc then Desc else Asc)\<rparr>
          else Some \<lparr>st_column = col, st_direction =
            (if list_ex (\<lambda>candidate. cs_key candidate = SortKey col \<and> cs_numeric candidate) COLUMNS then Desc else Asc)\<rparr>
      | None \<Rightarrow> Some \<lparr>st_column = col, st_direction =
            (if list_ex (\<lambda>candidate. cs_key candidate = SortKey col \<and> cs_numeric candidate) COLUMNS then Desc else Asc)\<rparr>)"

text \<open>Sorting with a comparator that may throw: with two elements or more every element is compared
  with another one, so the sort throws if an element's own comparison does.\<close>

definition sort_exn :: "('a \<Rightarrow> 'a \<Rightarrow> int exn) \<Rightarrow> 'a list \<Rightarrow> 'a list exn" where
  "sort_exn cmp xs =
     (if length xs < 2 then Inr xs
      else bindE (mapE (\<lambda>x. cmp x x) xs) (\<lambda>_.
             Inr (sort_by (\<lambda>a b. case cmp a b of Inr n \<Rightarrow> n | Inl _ \<Rightarrow> 0) xs)))"

definition sorted_rows ::
    "(string \<Rightarrow> string \<Rightarrow> int) \<Rightarrow> paced \<Rightarrow> SymbolDefinition list \<Rightarrow> SortState option \<Rightarrow> SymbolDefinition list exn" where
  "sorted_rows localeCompare s filtered sortState =
     (case sortState of
        None \<Rightarrow> Inr filtered
      | Some st \<Rightarrow>
          let factor = (if st_direction st = Asc then 1 else - 1)
          in sort_exn (\<lambda>a b. bindE (compareBy localeCompare (st_column st) s a b) (\<lambda>n. Inr (factor * n))) filtered)"

section \<open>Sparklines\<close>

text \<open>The hook's stored history; what a render shows, and what the effect after it stores.\<close>

definition sparkline_shown :: "number list \<Rightarrow> number \<Rightarrow> number list" where
  "sparkline_shown history currentValue =
     (if history \<noteq> [] \<and> last history = currentValue \<and> currentValue \<noteq> NaN then history else history @ [currentValue])"

definition slice_from_end :: "nat \<Rightarrow> 'a list \<Rightarrow> 'a list" where
  "slice_from_end n xs = (if n = 0 then xs else keep_last n xs)"

definition sparkline_effect :: "nat \<Rightarrow> number list \<Rightarrow> number \<Rightarrow> number list" where
  "sparkline_effect maxPoints history currentValue =
     (if history \<noteq> [] \<and> last history = currentValue \<and> currentValue \<noteq> NaN then history
      else slice_from_end maxPoints (history @ [currentValue]))"

definition sparklineDirection :: "number option \<Rightarrow> DeltaTone" where
  "sparklineDirection changePercent =
     (case changePercent of
        None \<Rightarrow> Flat
      | Some p \<Rightarrow> if p = Fin 0 then Flat else if num_less (Fin 0) p then Up else Down)"

text \<open>Whole numbers this small divide and round down exactly as the code's doubles do.\<close>

definition bucket_start :: "nat \<Rightarrow> nat \<Rightarrow> nat \<Rightarrow> nat" where
  "bucket_start inner buckets i = 1 + nat \<lfloor>fl (of_nat (i * inner) / of_nat buckets)\<rfloor>"

fun num_div :: "number \<Rightarrow> nat \<Rightarrow> number" where
  "num_div (Fin a) n = to_number (a / of_nat n)"
| "num_div x n = x"

definition downsampleSeries :: "number list \<Rightarrow> nat \<Rightarrow> number list" where
  "downsampleSeries values maxPoints =
     (if length values \<le> maxPoints then values
      else let inner = length values - 2; buckets = maxPoints - 2;
               means = map (\<lambda>i. let first = bucket_start inner buckets i; last = bucket_start inner buckets (i + 1)
                         in num_div (foldl (\<lambda>sum j. num_add sum (values ! j)) (Fin 0) [first..<last]) (last - first)) [0..<buckets]
           in [values ! 0] @ means @ [values ! (length values - 1)])"

definition session_sparkline :: "number list \<Rightarrow> number \<Rightarrow> nat \<Rightarrow> number list option \<Rightarrow> number list" where
  "session_sparkline history currentValue maxPoints sessionSeries =
     (case sessionSeries of
        Some series \<Rightarrow>
          if length series > 1 then butlast (downsampleSeries series maxPoints) @ [currentValue]
          else sparkline_shown history currentValue
      | None \<Rightarrow> sparkline_shown history currentValue)"

section \<open>What a sorted board shows\<close>

lemma insert_by_cong:
  assumes "\<And>y. y \<in> set ys \<Longrightarrow> sgn (c x y) = sgn (c' x y)"
  shows "insert_by c x ys = insert_by c' x ys"
  using assms
proof (induction ys)
  case (Cons y ys)
  have "c x y \<le> 0 \<longleftrightarrow> c' x y \<le> 0"
    using Cons.prems [of y] by (auto simp: sgn_if split: if_splits)
  then show ?case using Cons by simp
qed simp

lemma sort_by_cong:
  assumes "\<And>x y. x \<in> set xs \<Longrightarrow> y \<in> set xs \<Longrightarrow> sgn (c x y) = sgn (c' x y)"
  shows "sort_by c xs = sort_by c' xs"
  using assms
proof (induction xs)
  case (Cons x xs)
  have "insert_by c x (sort_by c' xs) = insert_by c' x (sort_by c' xs)"
    by (rule insert_by_cong) (simp add: Cons.prems)
  then show ?case using Cons unfolding sort_by_def by simp
qed (simp add: sort_by_def)

text \<open>The figure a numeric column orders a row by: prices in ten-thousandths, a traded value as the
  exact product.\<close>

definition row_price :: "paced \<Rightarrow> SymbolDefinition \<Rightarrow> decimal" where
  "row_price s d = (case getPacedSymbolSnapshot (sd_symbol d) s of Some v \<Rightarrow> sv_price v | None \<Rightarrow> sd_referencePrice d)"

definition row_volume :: "paced \<Rightarrow> SymbolDefinition \<Rightarrow> number" where
  "row_volume s d = (case getPacedSymbolSnapshot (sd_symbol d) s of Some v \<Rightarrow> sv_volume v | None \<Rightarrow> Fin 0)"

fun finite_value :: "number \<Rightarrow> rat" where
  "finite_value (Fin a) = a"
| "finite_value _ = 0"

definition board_figure :: "SortColumn \<Rightarrow> paced \<Rightarrow> SymbolDefinition \<Rightarrow> rat" where
  "board_figure col s d =
     (let view = getPacedSymbolSnapshot (sd_symbol d) s
      in case col of
           ColPrice \<Rightarrow> of_int (toScaledInt (row_price s d))
         | ColChange \<Rightarrow> of_int (toScaledInt (case view of Some v \<Rightarrow> sv_change v | None \<Rightarrow> ZERO_DECIMAL))
         | ColChangePercent \<Rightarrow> finite_value (case view of Some v \<Rightarrow> sv_changePercent v | None \<Rightarrow> Fin 0)
         | ColVolume \<Rightarrow> finite_value (row_volume s d)
         | ColValue \<Rightarrow> of_int (toScaledInt (row_price s d)) * finite_value (row_volume s d)
         | _ \<Rightarrow> 0)"

definition row_order :: "(string \<Rightarrow> string \<Rightarrow> int) \<Rightarrow> SortColumn \<Rightarrow> paced \<Rightarrow> SymbolDefinition \<Rightarrow> SymbolDefinition \<Rightarrow> int" where
  "row_order localeCompare col s a b =
     (case col of
        ColSymbol \<Rightarrow> localeCompare (sd_symbol a) (sd_symbol b)
      | ColName \<Rightarrow> localeCompare (sd_name a) (sd_name b)
      | _ \<Rightarrow> (if board_figure col s a < board_figure col s b then - 1
              else if board_figure col s b < board_figure col s a then 1 else 0))"

text \<open>A row whose figures are what the store keeps: valid prices, a whole volume, a double percentage.\<close>

definition row_sound :: "paced \<Rightarrow> SymbolDefinition \<Rightarrow> bool" where
  "row_sound s d =
     (isDecimal (row_price s d) \<and> is_safe_integer (row_volume s d) \<and>
      (case getPacedSymbolSnapshot (sd_symbol d) s of
         None \<Rightarrow> True
       | Some v \<Rightarrow> (\<exists>p. sv_changePercent v = Fin p \<and> double_rep p)))"

lemma comparator_pull: "comparator c \<Longrightarrow> comparator (\<lambda>x y. c (f x) (f y))"
  unfolding comparator_def by blast

lemma comparator_row_order: "comparator localeCompare \<Longrightarrow> comparator (row_order localeCompare col s)"
proof (cases col)
  case ColSymbol
  assume "comparator localeCompare"
  then show ?thesis unfolding row_order_def ColSymbol SortColumn.case by (rule comparator_pull)
next
  case ColName
  assume "comparator localeCompare"
  then show ?thesis unfolding row_order_def ColName SortColumn.case by (rule comparator_pull)
qed (unfold_locales; auto simp: row_order_def split: if_splits)+

lemma tradedValue_sound:
  assumes "row_sound s d"
  shows "\<exists>r. tradedValue d (getPacedSymbolSnapshot (sd_symbol d) s) = Inr r \<and> of_int (toScaledInt r) = board_figure ColValue s d"
proof -
  obtain n r where "row_volume s d = of_count n" "multiplyByQuantity (row_price s d) (row_volume s d) = Inr r"
    "toScaledInt r = toScaledInt (row_price s d) * n"
    using assms multiplyByQuantity_props [of "row_price s d" "row_volume s d"] unfolding row_sound_def by metis
  then show ?thesis
    by (simp add: tradedValue_def row_price_def [symmetric] row_volume_def [symmetric] board_figure_def of_count_def)
qed

lemma compareBy_sound:
  assumes a: "row_sound s a" and b: "row_sound s b"
  shows "\<exists>n. compareBy localeCompare col s a b = Inr n \<and> sgn n = sgn (row_order localeCompare col s a b)"
proof (cases col)
  case ColPrice
  then show ?thesis
    by (auto simp: compareBy_def row_order_def board_figure_def row_price_def compare_def Let_def)
next
  case ColChange
  then show ?thesis by (auto simp: compareBy_def row_order_def board_figure_def compare_def Let_def)
next
  case ColChangePercent
  define pct where "pct = (\<lambda>d :: SymbolDefinition. case getPacedSymbolSnapshot (sd_symbol d) s of Some v \<Rightarrow> sv_changePercent v | None \<Rightarrow> Fin 0)"
  have "\<exists>p. pct d = Fin p \<and> double_rep p" if "row_sound s d" for d
    using that double_rep_of_int [of 0] by (auto simp: pct_def row_sound_def split: option.splits)
  then obtain p q where "pct a = Fin p" "double_rep p" "pct b = Fin q" "double_rep q" using a b by blast
  then show ?thesis using sign_sub [of p q]
    by (simp add: ColChangePercent compareBy_def row_order_def board_figure_def Let_def pct_def [THEN fun_cong, symmetric])
next
  case ColVolume
  obtain i j where "row_volume s a = of_count i" "row_volume s b = of_count j" "\<bar>i\<bar> < 2 ^ 53" "\<bar>j\<bar> < 2 ^ 53"
    using a b by (auto simp: row_sound_def is_safe_integer_iff)
  then show ?thesis using sign_sub [OF double_rep_of_int double_rep_of_int, of i j]
    by (simp add: ColVolume compareBy_def row_order_def board_figure_def Let_def of_count_def row_volume_def [symmetric])
next
  case ColValue
  obtain x y where x: "tradedValue a (getPacedSymbolSnapshot (sd_symbol a) s) = Inr x" "of_int (toScaledInt x) = board_figure ColValue s a"
    and y: "tradedValue b (getPacedSymbolSnapshot (sd_symbol b) s) = Inr y" "of_int (toScaledInt y) = board_figure ColValue s b"
    using tradedValue_sound [OF a] tradedValue_sound [OF b] by blast
  show ?thesis using x(1) y(1)
    by (auto simp: ColValue compareBy_def row_order_def x(2) [symmetric] y(2) [symmetric] compare_def Let_def)
qed (simp_all add: compareBy_def row_order_def Let_def)

lemma mapE_all: "(\<And>x. x \<in> set xs \<Longrightarrow> \<exists>y. f x = Inr y) \<Longrightarrow> \<exists>ys. mapE f xs = Inr ys"
proof (induction xs)
  case (Cons x xs)
  then obtain y ys where "f x = Inr y" "mapE f xs = Inr ys" by fastforce
  then show ?case by simp
qed simp

lemma sort_exn_sound:
  assumes "\<And>x y. x \<in> set xs \<Longrightarrow> y \<in> set xs \<Longrightarrow> \<exists>n. cmp x y = Inr n \<and> sgn n = sgn (c x y)"
  shows "sort_exn cmp xs = Inr (sort_by c xs)"
proof (cases "length xs < 2")
  case True
  then have "sort_by c xs = xs" by (cases xs) (auto simp: sort_by_def)
  then show ?thesis using True by (simp add: sort_exn_def)
next
  case False
  have "\<exists>ys. mapE (\<lambda>x. cmp x x) xs = Inr ys" by (rule mapE_all) (use assms in blast)
  moreover have "sort_by (\<lambda>a b. case cmp a b of Inr n \<Rightarrow> n | Inl _ \<Rightarrow> 0) xs = sort_by c xs"
  proof (rule sort_by_cong)
    fix x y
    assume "x \<in> set xs" "y \<in> set xs"
    then show "sgn (case cmp x y of Inr n \<Rightarrow> n | Inl _ \<Rightarrow> 0) = sgn (c x y)" using assms [of x y] by auto
  qed
  ultimately show ?thesis using False by (auto simp: sort_exn_def)
qed

text \<open>A board sorted by any column shows exactly the rows it was given, each as often; in the
  column's order, ascending or descending (by the exact price, change, percentage, volume or
  traded value on show, by the collation for texts); and rows that are equal in that column stay in
  the order they were given, in both directions.\<close>

theorem board_order:
  assumes "comparator localeCompare" and "\<forall>d \<in> set filtered. row_sound s d"
    and "way = (if st_direction order = Asc then 1 else - 1)"
  shows "\<exists>rows. sorted_rows localeCompare s filtered (Some order) = Inr rows \<and> mset rows = mset filtered \<and>
    sorted_wrt (\<lambda>a b. way * row_order localeCompare (st_column order) s a b \<le> 0) rows \<and>
    (\<forall>k. filter (\<lambda>d. row_order localeCompare (st_column order) s k d = 0) rows =
         filter (\<lambda>d. row_order localeCompare (st_column order) s k d = 0) filtered)"
proof -
  define c where "c = (\<lambda>a b. way * row_order localeCompare (st_column order) s a b)"
  have comparator: "comparator c"
    using comparator_row_order [OF assms(1)] comparator_reverse [OF comparator_row_order [OF assms(1)]]
    by (cases "st_direction order = Asc") (simp_all add: c_def assms(3))
  have "sorted_rows localeCompare s filtered (Some order) = Inr (sort_by c filtered)"
    unfolding sorted_rows_def Let_def option.case assms(3) [symmetric]
  proof (rule sort_exn_sound)
    fix a b
    assume "a \<in> set filtered" "b \<in> set filtered"
    then obtain n where "compareBy localeCompare (st_column order) s a b = Inr n"
      "sgn n = sgn (row_order localeCompare (st_column order) s a b)" using assms(2) compareBy_sound by metis
    then show "\<exists>m. bindE (compareBy localeCompare (st_column order) s a b) (\<lambda>n. Inr (way * n)) = Inr m \<and> sgn m = sgn (c a b)"
      by (simp add: c_def sgn_mult)
  qed
  moreover have "way * x = 0 \<longleftrightarrow> x = 0" for x by (simp add: assms(3))
  then have "filter (\<lambda>d. row_order localeCompare (st_column order) s k d = 0) (sort_by c filtered) =
      filter (\<lambda>d. row_order localeCompare (st_column order) s k d = 0) filtered" for k
    using comparator.stable_sort_by [OF comparator, of k filtered] by (simp add: c_def)
  ultimately show ?thesis using comparator.sorted_sort_by [OF comparator, of filtered] by (auto simp: c_def)
qed

text \<open>A volume that is not a whole number makes sorting by value throw, whatever else is on the board.\<close>

lemma board_value_throws:
  assumes "d \<in> set filtered" and "\<not> is_safe_integer (row_volume s d)" and "2 \<le> length filtered"
  shows "\<exists>e. sorted_rows localeCompare s filtered (Some \<lparr>st_column = ColValue, st_direction = way\<rparr>) = Inl e"
proof -
  have bad: "tradedValue d (getPacedSymbolSnapshot (sd_symbol d) s) = Inl (RangeError ''Quantity must be a safe integer'')"
    using assms(2) by (simp add: tradedValue_def row_price_def [symmetric] row_volume_def [symmetric] multiplyByQuantity_def)
  have err: "\<exists>e. mapE f xs = Inl e" if "d \<in> set xs" "\<exists>e. f d = Inl e"
    for f :: "SymbolDefinition \<Rightarrow> int exn" and xs
    using that
  proof (induction xs)
    case (Cons y ys)
    then show ?case by (cases "f y"; cases "mapE f ys") auto
  qed simp
  then have "\<exists>e. mapE (\<lambda>x. bindE (compareBy localeCompare ColValue s x x) (\<lambda>n. Inr (way' * n))) filtered = Inl e" for way'
    by (intro err assms(1)) (simp add: compareBy_def Let_def bad)
  from this [of "if way = Asc then 1 else - 1"] show ?thesis
    using assms(3) by (auto simp only: sorted_rows_def sort_exn_def Let_def option.case SortState.simps bindE_simps if_False
        not_less [symmetric])
qed

definition two_rows :: "SymbolDefinition list" where
  "two_rows = [(shop ''COMI'' ''Commercial'')\<lparr>sd_referencePrice := ''2.50''\<rparr>, (shop ''ABUK'' ''Abu Qir'')\<lparr>sd_referencePrice := ''10''\<rparr>]"

theorem board_order_witness:
  "\<exists>rows. sorted_rows (\<lambda>x y. int (length x) - int (length y)) (new_paced empty_store 0) two_rows (Some \<lparr>st_column = ColPrice, st_direction = Desc\<rparr>) = Inr rows \<and>
     map sd_symbol rows = [''ABUK'', ''COMI'']"
proof -
  have ok: "\<forall>d \<in> set two_rows. row_sound (new_paced empty_store 0) d"
  proof -
    have v: "getPacedSymbolSnapshot x (new_paced empty_store 0) = None" for x
      by (simp add: getPacedSymbolSnapshot_def new_paced_def getSymbolSnapshot_def empty_store_def)
    have "isDecimal ''2.50''" "isDecimal ''10''" "is_safe_integer (Fin 0)" by code_simp+
    then show ?thesis by (simp add: two_rows_def row_sound_def row_price_def row_volume_def v)
  qed
  have e: "(case sorted_rows (\<lambda>x y. int (length x) - int (length y)) (new_paced empty_store 0) two_rows (Some \<lparr>st_column = ColPrice, st_direction = Desc\<rparr>) of
      Inr rows \<Rightarrow> map sd_symbol rows | Inl _ \<Rightarrow> []) = [''ABUK'', ''COMI'']" by code_simp
  obtain rows where "sorted_rows (\<lambda>x y. int (length x) - int (length y)) (new_paced empty_store 0) two_rows
      (Some \<lparr>st_column = ColPrice, st_direction = Desc\<rparr>) = Inr rows"
    using board_order [OF by_length ok refl] by blast
  then show ?thesis using e by simp
qed

section \<open>What a sparkline shows\<close>

lemma sparkline_ends_now: "v \<noteq> NaN \<Longrightarrow> sparkline_shown history v \<noteq> [] \<and> last (sparkline_shown history v) = v"
  by (simp add: sparkline_shown_def)

lemma sparkline_effect_bounded:
  "0 < maxPoints \<Longrightarrow> length history \<le> maxPoints \<Longrightarrow> length (sparkline_effect maxPoints history v) \<le> maxPoints"
  by (auto simp: sparkline_effect_def slice_from_end_def keep_last_def)

text \<open>A render with a new value shows one point more than the cap once the stored history is full.\<close>

lemma sparkline_exceeds_cap:
  assumes "0 < maxPoints" and "length history = maxPoints" and "v \<noteq> last history"
  shows "length (sparkline_shown history v) = maxPoints + 1"
  using assms by (simp add: sparkline_shown_def)

lemma concat_ranges:
  "(\<And>i. f i \<le> f (Suc i)) \<Longrightarrow> concat (map (\<lambda>i. [f i..<f (Suc i)]) [0..<n]) = [f 0..<f n]"
proof (induction n)
  case (Suc n)
  have "f 0 \<le> f n" using Suc.prems by (induction n) (auto intro: order_trans)
  then show ?case using Suc upt_add_eq_append [of "f 0" "f n" "f (Suc n) - f n"] Suc.prems [of n] by simp
qed simp

text \<open>The sparkline of a long session draws all of it: the first and the last point are kept,
  and the points between are cut into \<open>maxPoints - 2\<close> consecutive slices that cover each of them
  once; every slice has points, and each drawn point is the mean of its slice.\<close>

theorem downsample_covers_session:
  assumes "2 < maxPoints" and "maxPoints < length series" and "length series \<le> 2 ^ 20"
  shows "\<exists>slices. length slices = maxPoints - 2 \<and> [] \<notin> set slices \<and>
    series = [hd series] @ concat slices @ [last series] \<and>
    downsampleSeries series maxPoints =
      [hd series] @ map (\<lambda>s. num_div (foldl num_add (Fin 0) s) (length s)) slices @ [last series]"
proof -
  define inner buckets where "inner = length series - 2" and "buckets = maxPoints - 2"
  define f where "f i = 1 + (i * inner) div buckets" for i
  define slices where "slices = map (\<lambda>i. map ((!) series) [f i..<f (Suc i)]) [0..<buckets]"
  have b: "0 < buckets" "buckets < inner" "inner \<le> 2 ^ 20 - 2" using assms by (auto simp: inner_def buckets_def)
  have start: "bucket_start inner buckets i = f i" if "i \<le> buckets" for i
  proof -
    have "i * inner \<le> buckets * (2 ^ 20 - 2)" using that b by (intro mult_le_mono) auto
    also have "\<dots> < buckets * 2 ^ 32" using b(1) by (intro mult_strict_left_mono) auto
    finally have "i * inner < buckets * 2 ^ 32" .
    then show ?thesis using b floor_fl_nat [of buckets "i * inner"] by (simp add: bucket_start_def f_def)
  qed
  have less: "f i < f (Suc i)" for i
  proof -
    have "(i * inner + buckets) div buckets \<le> (Suc i * inner) div buckets" using b by (intro div_le_mono) simp
    then show ?thesis using b by (simp add: f_def)
  qed
  have ends: "f 0 = 1" "f buckets = 1 + inner" using b by (simp_all add: f_def)
  have "concat slices = map ((!) series) (concat (map (\<lambda>i. [f i..<f (Suc i)]) [0..<buckets]))"
    by (simp add: slices_def map_concat comp_def)
  also have "\<dots> = map ((!) series) [1..<1 + inner]"
    using concat_ranges [of f buckets] less ends by (simp add: less_imp_le)
  also have "1 + inner = length series - 1" using assms by (simp add: inner_def)
  finally have mid: "concat slices = map ((!) series) [1..<length series - 1]" .
  obtain n where n: "length series = Suc (Suc n)" using assms by (metis add_2_eq_Suc le_add_diff_inverse less_imp_le order_trans)
  have "[0..<length series] = [0] @ [1..<length series - 1] @ [length series - 1]"
    using upt_conv_Cons [of 0 "Suc (Suc n)"] upt_Suc_append [of 1 "Suc n"] by (simp add: n del: upt_Suc)
  then have "series = map ((!) series) ([0] @ [1..<length series - 1] @ [length series - 1])" using map_nth [of series] by simp
  moreover have heads: "hd series = series ! 0" "last series = series ! (length series - 1)"
    using n hd_conv_nth [of series] last_conv_nth [of series] by fastforce+
  ultimately have whole: "series = [hd series] @ concat slices @ [last series]"
    unfolding mid heads by simp
  have mean: "num_div (foldl (\<lambda>sum j. num_add sum (series ! j)) (Fin 0) [bucket_start inner buckets i..<bucket_start inner buckets (i + 1)])
      (bucket_start inner buckets (i + 1) - bucket_start inner buckets i) =
    num_div (foldl num_add (Fin 0) (map ((!) series) [f i..<f (Suc i)])) (f (Suc i) - f i)" if "i < buckets" for i
    using start [of i] start [of "Suc i"] that by (simp add: foldl_map)
  have "downsampleSeries series maxPoints = [hd series] @ map (\<lambda>s. num_div (foldl num_add (Fin 0) s) (length s)) slices @ [last series]"
    using assms mean by (auto simp: downsampleSeries_def Let_def slices_def inner_def [symmetric] buckets_def [symmetric] heads)
  moreover have "[] \<notin> set slices"
  proof
    assume "[] \<in> set slices"
    then obtain i where "[f i..<f (Suc i)] = []" by (auto simp: slices_def)
    then show False using less [of i] by (simp del: upt_Suc)
  qed
  moreover have "length slices = maxPoints - 2" by (simp add: slices_def buckets_def)
  ultimately show ?thesis using whole by blast
qed

theorem downsample_covers_session_witness:
  "length (downsampleSeries (map of_count [5, 1, 3, 8, 2]) 3) = 3 \<and>
   last (downsampleSeries (map of_count [5, 1, 3, 8, 2]) 3) = of_count 2"
  using downsample_covers_session [of 3 "map of_count [5, 1, 3, 8, 2]"] by fastforce

end
