(* ===== verification/Hero_Cards.thy ===== *)
theory Hero_Cards
  imports Board_Table
begin

text \<open>
  The highlight cards above the board (src/client/Tckr.MarketWatch/src/pages/HeroCards.tsx): which
  symbols are Top Gainer, Top Loser and Most Active, picked from the painted views (theory
  Paced_Views), and the geometry of their sparkline. The lemmas: what a card says of its symbol is
  true, and a card is left out only when nothing deserves it.
\<close>

section \<open>Picks\<close>

datatype HeroKind = Gainer | Loser | Active

record HeroPick =
  hk_kind :: HeroKind
  hk_kicker :: string
  hk_definition :: SymbolDefinition

record hero_metric =
  hm_definition :: SymbolDefinition
  hm_changePercent :: number
  hm_value :: decimal

definition hero_change :: "paced \<Rightarrow> string \<Rightarrow> number" where
  "hero_change s symbol = (case getPacedSymbolSnapshot symbol s of Some v \<Rightarrow> sv_changePercent v | None \<Rightarrow> Fin 0)"

definition metric_of :: "paced \<Rightarrow> SymbolDefinition \<Rightarrow> hero_metric exn" where
  "metric_of s definition =
     bindE (tradedValue definition (getPacedSymbolSnapshot (sd_symbol definition) s)) (\<lambda>val.
       Inr \<lparr>hm_definition = definition, hm_changePercent = hero_change s (sd_symbol definition), hm_value = val\<rparr>)"

definition qualifies :: "HeroPick \<Rightarrow> number \<Rightarrow> bool" where
  "qualifies pick changePercent =
     (hk_kind pick = Active \<or>
      (\<not> isEffectivelyUnchanged changePercent \<and>
       (if hk_kind pick = Gainer then num_less (Fin 0) changePercent else num_less changePercent (Fin 0))))"

definition pick_step :: "(string, number) jmap \<Rightarrow> HeroPick list \<times> string jset \<Rightarrow> HeroPick \<Rightarrow> HeroPick list \<times> string jset" where
  "pick_step changeOf st pick =
     (let (kept, seen) = st; symbol = sd_symbol (hk_definition pick)
      in if \<not> qualifies pick (case jget changeOf symbol of Some c \<Rightarrow> c | None \<Rightarrow> Fin 0) then st
         else if symbol \<in> set seen then st
         else (kept @ [pick], sadd symbol seen))"

definition pickHeroes :: "paced \<Rightarrow> SymbolDefinition list \<Rightarrow> HeroPick list exn" where
  "pickHeroes s universe =
     (if universe = [] then Inr []
      else bindE (mapE (metric_of s) universe) (\<lambda>metrics.
        let gainer = hd (sort_by (\<lambda>a b. num_sign (num_sub (hm_changePercent b) (hm_changePercent a))) metrics);
            loser = hd (sort_by (\<lambda>a b. num_sign (num_sub (hm_changePercent a) (hm_changePercent b))) metrics);
            active = hd (sort_by (\<lambda>a b. compare (hm_value b) (hm_value a)) metrics);
            candidates =
              [\<lparr>hk_kind = Gainer, hk_kicker = ''TOP GAINER'', hk_definition = hm_definition gainer\<rparr>,
               \<lparr>hk_kind = Loser, hk_kicker = ''TOP LOSER'', hk_definition = hm_definition loser\<rparr>,
               \<lparr>hk_kind = Active, hk_kicker = ''MOST ACTIVE'', hk_definition = hm_definition active\<rparr>];
            changeOf = foldl (\<lambda>m metric. jset (sd_symbol (hm_definition metric)) (hm_changePercent metric) m) [] metrics
        in Inr (fst (foldl (pick_step changeOf) ([], []) candidates))))"

section \<open>The labels are true\<close>

lemma hd_sort_by:
  assumes "comparator c" and "xs \<noteq> []" and "\<And>x y. x \<in> set xs \<Longrightarrow> y \<in> set xs \<Longrightarrow> sgn (cmp x y) = sgn (c x y)"
  shows "hd (sort_by cmp xs) \<in> set xs" and "x \<in> set xs \<Longrightarrow> c (hd (sort_by cmp xs)) x \<le> 0"
proof -
  have e: "sort_by cmp xs = sort_by c xs" by (rule sort_by_cong) (rule assms(3))
  have "sort_by c xs \<noteq> []" using assms(2) length_sort_by [of c xs] by (metis length_0_conv)
  then obtain h t where ht: "sort_by c xs = h # t" by (cases "sort_by c xs") auto
  have set: "set xs = insert h (set t)" using set_sort_by [of c xs] by (simp add: ht)
  then show "hd (sort_by cmp xs) \<in> set xs" by (simp add: e ht)
  have "c h h \<le> 0" using comparator.flip_sign [OF assms(1), of h h] by linarith
  then show "c (hd (sort_by cmp xs)) x \<le> 0" if "x \<in> set xs"
    using that comparator.sorted_sort_by [OF assms(1), of xs] by (auto simp: e ht set)
qed

definition by_figure :: "('a \<Rightarrow> rat) \<Rightarrow> 'a \<Rightarrow> 'a \<Rightarrow> int" where
  "by_figure f a b = (if f a < f b then - 1 else if f b < f a then 1 else 0)"

lemma comparator_figure: "comparator (by_figure f)"
  by unfold_locales (auto simp: by_figure_def split: if_splits)

lemma by_figure_le [simp]: "by_figure f a b \<le> 0 \<longleftrightarrow> f a \<le> f b"
  by (auto simp: by_figure_def)

lemma least_figure:
  assumes "xs \<noteq> []" and "\<And>x y. x \<in> set xs \<Longrightarrow> y \<in> set xs \<Longrightarrow> sgn (cmp x y) = by_figure f x y"
  shows "hd (sort_by cmp xs) \<in> set xs \<and> (\<forall>x \<in> set xs. f (hd (sort_by cmp xs)) \<le> f x)"
proof -
  have s: "sgn (cmp x y) = sgn (by_figure f x y)" if "x \<in> set xs" "y \<in> set xs" for x y
    using assms(2) [OF that] by (auto simp: by_figure_def)
  show ?thesis using hd_sort_by [OF comparator_figure [of f] assms(1) s] by auto
qed

lemma changes_found:
  assumes "\<And>m. m \<in> set ms \<Longrightarrow> hm_changePercent m = f (sd_symbol (hm_definition m))"
    and "pred_option (\<lambda>c. c = f x) (jget m0 x)"
    and "x \<in> (\<lambda>m. sd_symbol (hm_definition m)) ` set ms \<or> jget m0 x \<noteq> None"
  shows "jget (foldl (\<lambda>m metric. jset (sd_symbol (hm_definition metric)) (hm_changePercent metric) m) m0 ms) x = Some (f x)"
  using assms
proof (induction ms arbitrary: m0)
  case Nil
  then show ?case by (cases "jget m0 x") auto
next
  case (Cons m ms)
  show ?case unfolding foldl_Cons by (rule Cons.IH) (use Cons.prems in \<open>auto simp: jget_jset\<close>)
qed

lemma metrics_exist:
  assumes "\<forall>d \<in> set universe. row_sound s d"
  shows "\<exists>ms. mapE (metric_of s) universe = Inr ms \<and> map hm_definition ms = universe \<and>
    (\<forall>m \<in> set ms. hm_changePercent m = hero_change s (sd_symbol (hm_definition m)) \<and>
       of_int (toScaledInt (hm_value m)) = board_figure ColValue s (hm_definition m))"
  using assms
proof (induction universe)
  case (Cons d ds)
  then obtain ms where ms: "mapE (metric_of s) ds = Inr ms" "map hm_definition ms = ds"
    "\<forall>m \<in> set ms. hm_changePercent m = hero_change s (sd_symbol (hm_definition m)) \<and>
       of_int (toScaledInt (hm_value m)) = board_figure ColValue s (hm_definition m)" by auto
  obtain r where "tradedValue d (getPacedSymbolSnapshot (sd_symbol d) s) = Inr r"
    "of_int (toScaledInt r) = board_figure ColValue s d" using tradedValue_sound [of s d] Cons.prems by auto
  then have "metric_of s d = Inr \<lparr>hm_definition = d, hm_changePercent = hero_change s (sd_symbol d), hm_value = r\<rparr>"
    by (simp add: metric_of_def)
  then show ?case using ms \<open>of_int (toScaledInt r) = board_figure ColValue s d\<close> by simp
qed simp
text \<open>What each label says.\<close>

definition card_true :: "paced \<Rightarrow> SymbolDefinition list \<Rightarrow> HeroPick \<Rightarrow> bool" where
  "card_true s universe p =
     (let d = hk_definition p; change = board_figure ColChangePercent s; traded = board_figure ColValue s
      in d \<in> set universe \<and>
        (case hk_kind p of
           Gainer \<Rightarrow> UNCHANGED_PERCENT_THRESHOLD \<le> change d \<and> (\<forall>e \<in> set universe. change e \<le> change d)
         | Loser \<Rightarrow> change d \<le> - UNCHANGED_PERCENT_THRESHOLD \<and> (\<forall>e \<in> set universe. change d \<le> change e)
         | Active \<Rightarrow> (\<forall>e \<in> set universe. traded e \<le> traded d)))"

lemma change_figure: "finite_value (hero_change s (sd_symbol d)) = board_figure ColChangePercent s d"
  by (simp add: hero_change_def board_figure_def Let_def)

lemma change_sound: "row_sound s d \<Longrightarrow> \<exists>p. hero_change s (sd_symbol d) = Fin p \<and> double_rep p"
  using double_rep_of_int [of 0] by (auto simp: hero_change_def row_sound_def split: option.splits)

lemma threshold_pos: "0 < UNCHANGED_PERCENT_THRESHOLD"
  by code_simp

lemma qualifies_figure:
  assumes "hero_change s x = Fin p"
  shows "qualifies \<lparr>hk_kind = Gainer, hk_kicker = k, hk_definition = d\<rparr> (hero_change s x) \<longleftrightarrow> UNCHANGED_PERCENT_THRESHOLD \<le> p"
    and "qualifies \<lparr>hk_kind = Loser, hk_kicker = k, hk_definition = d\<rparr> (hero_change s x) \<longleftrightarrow> p \<le> - UNCHANGED_PERCENT_THRESHOLD"
    and "qualifies \<lparr>hk_kind = Active, hk_kicker = k, hk_definition = d\<rparr> c"
  using threshold_pos by (auto simp: qualifies_def assms isEffectivelyUnchanged_def abs_if not_less)

lemma three_picks:
  assumes "jget changeOf (sd_symbol (hk_definition G)) = Some cg" and "jget changeOf (sd_symbol (hk_definition L)) = Some cl"
    and "qualifies G cg \<Longrightarrow> qualifies L cl \<Longrightarrow> sd_symbol (hk_definition L) \<noteq> sd_symbol (hk_definition G)"
    and "hk_kind A = Active"
  shows "fst (foldl (pick_step changeOf) ([], []) [G, L, A]) =
    (let top = (if qualifies G cg then [G] else []) @ (if qualifies L cl then [L] else [])
     in top @ (if sd_symbol (hk_definition A) \<in> (\<lambda>p. sd_symbol (hk_definition p)) ` set top then [] else [A]))"
proof -
  have A: "qualifies A c" for c by (simp add: qualifies_def assms(4))
  show ?thesis using assms(3)
    by (cases "qualifies G cg"; cases "qualifies L cl") (simp_all add: pick_step_def assms(1,2) A sadd_def)
qed

text \<open>The three candidates of a board with rows.\<close>

lemma hero_candidates:
  assumes "\<forall>d \<in> set universe. row_sound s d" and "universe \<noteq> []"
  shows "\<exists>g l a. pickHeroes s universe = Inr (
      (let G = \<lparr>hk_kind = Gainer, hk_kicker = ''TOP GAINER'', hk_definition = g\<rparr>;
           L = \<lparr>hk_kind = Loser, hk_kicker = ''TOP LOSER'', hk_definition = l\<rparr>;
           A = \<lparr>hk_kind = Active, hk_kicker = ''MOST ACTIVE'', hk_definition = a\<rparr>;
           gs = (if UNCHANGED_PERCENT_THRESHOLD \<le> board_figure ColChangePercent s g then [G] else []);
           ls = (if board_figure ColChangePercent s l \<le> - UNCHANGED_PERCENT_THRESHOLD then [L] else []);
           top = gs @ ls
       in top @ (if sd_symbol a \<in> (\<lambda>p. sd_symbol (hk_definition p)) ` set top then [] else [A]))) \<and>
    {g, l, a} \<subseteq> set universe \<and>
    (\<forall>e \<in> set universe. board_figure ColChangePercent s e \<le> board_figure ColChangePercent s g \<and>
       board_figure ColChangePercent s l \<le> board_figure ColChangePercent s e \<and>
       board_figure ColValue s e \<le> board_figure ColValue s a)"
proof -
  obtain ms where ms: "mapE (metric_of s) universe = Inr ms" "map hm_definition ms = universe"
    "\<And>m. m \<in> set ms \<Longrightarrow> hm_changePercent m = hero_change s (sd_symbol (hm_definition m))"
    "\<And>m. m \<in> set ms \<Longrightarrow> of_int (toScaledInt (hm_value m)) = board_figure ColValue s (hm_definition m)"
    using metrics_exist [OF assms(1)] by blast
  have ne: "ms \<noteq> []" using ms(2) assms(2) by auto
  have defs: "hm_definition ` set ms = set universe" using ms(2) by (metis set_map)
  define change where "change = (\<lambda>m :: hero_metric. board_figure ColChangePercent s (hm_definition m))"
  have sound: "\<exists>p. hm_changePercent m = Fin p \<and> double_rep p \<and> p = change m" if "m \<in> set ms" for m
  proof -
    have "row_sound s (hm_definition m)" using that defs assms(1) by blast
    then show ?thesis using change_sound [of s "hm_definition m"] change_figure [of s "hm_definition m"] ms(3) [OF that]
      by (auto simp: change_def)
  qed
  have sub: "sgn (num_sign (num_sub (hm_changePercent x) (hm_changePercent y))) = by_figure change x y"
    if "x \<in> set ms" "y \<in> set ms" for x y
    using sound [OF that(1)] sound [OF that(2)] sign_sub [of "change x" "change y"] by (auto simp: by_figure_def)
  define g l a where "g = hd (sort_by (\<lambda>a b. num_sign (num_sub (hm_changePercent b) (hm_changePercent a))) ms)"
    and "l = hd (sort_by (\<lambda>a b. num_sign (num_sub (hm_changePercent a) (hm_changePercent b))) ms)"
    and "a = hd (sort_by (\<lambda>a b. compare (hm_value b) (hm_value a)) ms)"
  have g: "g \<in> set ms \<and> (\<forall>x \<in> set ms. - change g \<le> - change x)" unfolding g_def
    by (rule least_figure [OF ne]) (use sub in \<open>auto simp: by_figure_def\<close>)
  have l: "l \<in> set ms \<and> (\<forall>x \<in> set ms. change l \<le> change x)" unfolding l_def
    by (rule least_figure [OF ne]) (use sub in auto)
  have a: "a \<in> set ms \<and> (\<forall>x \<in> set ms. - board_figure ColValue s (hm_definition a) \<le> - board_figure ColValue s (hm_definition x))"
    unfolding a_def
    by (rule least_figure [OF ne]) (auto simp: ms(4) [symmetric] by_figure_def compare_def Let_def)
  define changeOf where "changeOf = foldl (\<lambda>m metric. jset (sd_symbol (hm_definition metric)) (hm_changePercent metric) m) [] ms"
  have found: "jget changeOf (sd_symbol (hm_definition m)) = Some (hero_change s (sd_symbol (hm_definition m)))" if "m \<in> set ms" for m
    unfolding changeOf_def by (rule changes_found) (use that ms(3) in auto)
  define G L A where "G = \<lparr>hk_kind = Gainer, hk_kicker = ''TOP GAINER'', hk_definition = hm_definition g\<rparr>"
    and "L = \<lparr>hk_kind = Loser, hk_kicker = ''TOP LOSER'', hk_definition = hm_definition l\<rparr>"
    and "A = \<lparr>hk_kind = Active, hk_kicker = ''MOST ACTIVE'', hk_definition = hm_definition a\<rparr>"
  have picks: "pickHeroes s universe = Inr (fst (foldl (pick_step changeOf) ([], []) [G, L, A]))"
    using assms(2) by (simp add: pickHeroes_def ms(1) g_def l_def a_def changeOf_def G_def L_def A_def Let_def)
  obtain pg where pg: "hero_change s (sd_symbol (hm_definition g)) = Fin pg" "pg = change g"
    using sound [of g] ms(3) [of g] g by auto
  moreover obtain pl where pl: "hero_change s (sd_symbol (hm_definition l)) = Fin pl" "pl = change l"
    using sound [of l] ms(3) [of l] l by auto
  moreover have "sd_symbol (hm_definition l) \<noteq> sd_symbol (hm_definition g)"
    if "UNCHANGED_PERCENT_THRESHOLD \<le> change g" "change l \<le> - UNCHANGED_PERCENT_THRESHOLD"
    using that pg pl threshold_pos by auto
  ultimately have "fst (foldl (pick_step changeOf) ([], []) [G, L, A]) =
    (let top = (if qualifies G (Fin pg) then [G] else []) @ (if qualifies L (Fin pl) then [L] else [])
     in top @ (if sd_symbol (hk_definition A) \<in> (\<lambda>p. sd_symbol (hk_definition p)) ` set top then [] else [A]))"
    using found [of g] found [of l] g l qualifies_figure(1) [OF pg(1)] qualifies_figure(2) [OF pl(1)]
    by (intro three_picks) (simp_all add: G_def L_def A_def)
  then have "pickHeroes s universe = Inr (let top = (if UNCHANGED_PERCENT_THRESHOLD \<le> change g then [G] else []) @
        (if change l \<le> - UNCHANGED_PERCENT_THRESHOLD then [L] else [])
     in top @ (if sd_symbol (hk_definition A) \<in> (\<lambda>p. sd_symbol (hk_definition p)) ` set top then [] else [A]))"
    unfolding picks using qualifies_figure(1) [OF pg(1)] qualifies_figure(2) [OF pl(1)] pg pl by (simp add: G_def L_def)
  moreover have "{hm_definition g, hm_definition l, hm_definition a} \<subseteq> set universe" using g l a defs by blast
  moreover have "\<forall>e \<in> set universe. board_figure ColChangePercent s e \<le> change g \<and> change l \<le> board_figure ColChangePercent s e \<and>
      board_figure ColValue s e \<le> board_figure ColValue s (hm_definition a)"
    unfolding defs [symmetric] using g l a by (auto simp: change_def)
  ultimately show ?thesis
    by (intro exI [of _ "hm_definition g"] exI [of _ "hm_definition l"] exI [of _ "hm_definition a"])
      (simp add: G_def L_def A_def change_def Let_def)
qed

text \<open>The highlight cards say what is true of the board as painted: each shows a row of the board
  and no symbol is on two cards; Top Gainer (Loser) is up (down) by at least the smallest move that
  shows, and no row has moved further that way; no row has traded for more than Most Active. And a
  card is left out only for a reason: no Top Gainer (Loser) when no row is up (down) by a move that
  shows, no Most Active when the symbol that traded most is already on a card.\<close>

theorem hero_labels_true:
  assumes "\<forall>d \<in> set universe. row_sound s d" and "universe \<noteq> []"
  shows "\<exists>picks. pickHeroes s universe = Inr picks \<and> distinct (map (\<lambda>p. sd_symbol (hk_definition p)) picks) \<and>
    distinct (map hk_kind picks) \<and> (\<forall>p \<in> set picks. card_true s universe p) \<and>
    (Gainer \<in> hk_kind ` set picks \<or> (\<forall>d \<in> set universe. board_figure ColChangePercent s d < UNCHANGED_PERCENT_THRESHOLD)) \<and>
    (Loser \<in> hk_kind ` set picks \<or> (\<forall>d \<in> set universe. - UNCHANGED_PERCENT_THRESHOLD < board_figure ColChangePercent s d)) \<and>
    (Active \<in> hk_kind ` set picks \<or> (\<exists>a \<in> set universe. sd_symbol a \<in> (\<lambda>p. sd_symbol (hk_definition p)) ` set picks \<and>
       (\<forall>d \<in> set universe. board_figure ColValue s d \<le> board_figure ColValue s a)))"
proof -
  define change where "change = board_figure ColChangePercent s"
  obtain g l a where picks: "pickHeroes s universe = Inr (
      (let G = \<lparr>hk_kind = Gainer, hk_kicker = ''TOP GAINER'', hk_definition = g\<rparr>;
           L = \<lparr>hk_kind = Loser, hk_kicker = ''TOP LOSER'', hk_definition = l\<rparr>;
           A = \<lparr>hk_kind = Active, hk_kicker = ''MOST ACTIVE'', hk_definition = a\<rparr>;
           gs = (if UNCHANGED_PERCENT_THRESHOLD \<le> change g then [G] else []);
           ls = (if change l \<le> - UNCHANGED_PERCENT_THRESHOLD then [L] else []);
           top = gs @ ls
       in top @ (if sd_symbol a \<in> (\<lambda>p. sd_symbol (hk_definition p)) ` set top then [] else [A])))"
    and mem: "g \<in> set universe" "l \<in> set universe" "a \<in> set universe"
    and best: "\<And>e. e \<in> set universe \<Longrightarrow> change e \<le> change g \<and> change l \<le> change e \<and> board_figure ColValue s e \<le> board_figure ColValue s a"
    unfolding change_def using hero_candidates [OF assms] by auto
  have differ: "sd_symbol l \<noteq> sd_symbol g" if "UNCHANGED_PERCENT_THRESHOLD \<le> change g" "change l \<le> - UNCHANGED_PERCENT_THRESHOLD"
    using that threshold_pos change_figure [of s l] change_figure [of s g] by (auto simp: change_def)
  have low: "\<forall>d \<in> set universe. change d < UNCHANGED_PERCENT_THRESHOLD" if "\<not> UNCHANGED_PERCENT_THRESHOLD \<le> change g"
    using that best by force
  have high: "\<forall>d \<in> set universe. - UNCHANGED_PERCENT_THRESHOLD < change d" if "\<not> change l \<le> - UNCHANGED_PERCENT_THRESHOLD"
    using that best by force
  show ?thesis unfolding picks Let_def change_def [symmetric]
    using mem best differ low high
    by (cases "UNCHANGED_PERCENT_THRESHOLD \<le> change g"; cases "change l \<le> - UNCHANGED_PERCENT_THRESHOLD")
      (auto simp: card_true_def Let_def change_def [symmetric])
qed

theorem hero_labels_true_witness:
  "\<exists>picks. pickHeroes (new_paced empty_store 0) two_rows = Inr picks \<and> map hk_kicker picks = [''MOST ACTIVE'']"
proof -
  have v: "getPacedSymbolSnapshot x (new_paced empty_store 0) = None" for x
    by (simp add: getPacedSymbolSnapshot_def new_paced_def getSymbolSnapshot_def empty_store_def)
  have "isDecimal ''2.50''" "isDecimal ''10''" "is_safe_integer (Fin 0)" by code_simp+
  then have ok: "\<forall>d \<in> set two_rows. row_sound (new_paced empty_store 0) d"
    by (simp add: two_rows_def row_sound_def row_price_def row_volume_def v)
  have e: "(case pickHeroes (new_paced empty_store 0) two_rows of Inr picks \<Rightarrow> map hk_kicker picks | Inl _ \<Rightarrow> []) = [''MOST ACTIVE'']"
    by code_simp
  have "\<exists>picks. pickHeroes (new_paced empty_store 0) two_rows = Inr picks"
    using hero_labels_true [OF ok] by (auto simp: two_rows_def)
  then show ?thesis using e by auto
qed

section \<open>The sparkline's geometry\<close>

text \<open>\<open>toFixed(2)\<close> of a finite number: hundredths, half up.\<close>

definition toFixed2 :: "rat \<Rightarrow> string" where
  "toFixed2 x =
     (let n = nat \<lfloor>\<bar>x\<bar> * 100 + 1 / 2\<rfloor>
      in (if x < 0 then ''-'' else '''') @ nat_str (n div 100) @ ''.'' @ padStart 2 (CHR ''0'') (nat_str (n mod 100)))"

definition point_height :: "rat \<Rightarrow> rat \<Rightarrow> rat \<Rightarrow> rat" where
  "point_height low wide p = fl (30 - fl (fl (fl (p - low) / wide) * 28))"

definition sparkline_points :: "rat list \<Rightarrow> (rat \<times> rat) list" where
  "sparkline_points points =
     (let low = foldr min points (hd points); high = foldr max points (hd points);
          difference = fl (high - low); span = (if difference = 0 then 1 else difference);
          step = fl (100 / of_nat (length points - 1))
      in map (\<lambda>(i, p). (fl (of_nat i * step), point_height low span p)) (enumerate 0 points))"

text \<open>The polyline's coordinates, or nothing for the flat line of fewer than two points.\<close>

definition sparkline_coords :: "rat list \<Rightarrow> string option" where
  "sparkline_coords points =
     (if length points < 2 then None
      else Some (join_with '' '' (map (\<lambda>(x, y). toFixed2 x @ '','' @ toFixed2 y) (sparkline_points points))))"

lemma foldr_bounds:
  fixes x :: rat
  shows "x \<in> set xs \<Longrightarrow> foldr min xs b \<le> x" "x \<in> set xs \<Longrightarrow> x \<le> foldr max xs b"
  by (induction xs) auto

text \<open>Every point is drawn inside the box, from 2 (the highest price) to 30 (the lowest).\<close>

lemma sparkline_inside:
  assumes "(x, y) \<in> set (sparkline_points points)"
  shows "2 \<le> y \<and> y \<le> 30"
proof -
  define low high where "low = foldr min points (hd points)" and "high = foldr max points (hd points)"
  define span where "span = (if fl (high - low) = 0 then 1 else fl (high - low))"
  have "y \<in> point_height low span ` set points"
    using assms by (auto simp: sparkline_points_def Let_def low_def [symmetric] high_def [symmetric] span_def [symmetric]
        in_set_enumerate_eq)
  then obtain p where p: "p \<in> set points" "y = point_height low span p" by blast
  have lp: "low \<le> p" "p \<le> high" using foldr_bounds [OF p(1)] by (simp_all add: low_def high_def)
  have r: "double_rep 0" "double_rep 1" "double_rep 28" "double_rep 2" "double_rep 30"
    using double_rep_of_int [of 0] double_rep_of_int [of 1] double_rep_of_int [of 28] double_rep_of_int [of 2]
      double_rep_of_int [of 30] by simp_all
  have num: "0 \<le> fl (p - low)" "fl (p - low) \<le> fl (high - low)" using lp by (auto intro: fl_nonneg fl_mono)
  have span: "0 < span" "fl (p - low) \<le> span"
    using num by (auto simp: span_def)
  have "0 \<le> fl (p - low) / span" "fl (p - low) / span \<le> 1" using num(1) span by (auto simp: divide_le_eq)
  then have q: "0 \<le> fl (fl (p - low) / span)" "fl (fl (p - low) / span) \<le> 1"
    by (auto intro: fl_nonneg fl_le_rep [OF _ r(2)])
  then have h: "0 \<le> fl (fl (fl (p - low) / span) * 28)" "fl (fl (fl (p - low) / span) * 28) \<le> 28"
    by (auto intro: fl_nonneg fl_le_rep [OF _ r(3)])
  then show ?thesis unfolding p(2) point_height_def
    by (auto intro: fl_ge_rep [OF _ r(4)] fl_le_rep [OF _ r(5)])
qed

end
