(* ===== verification/Board_Keys.thy ===== *)
theory Board_Keys
  imports Board_Table
begin

text \<open>
  The board page's navigation and keys: the row and header arrow keys, the search box's Enter and
  arrow, the roving tab stops, the neighbours of the open symbol and the page's texts
  (src/client/Tckr.MarketWatch/src/pages/StockList.tsx), and the page shortcuts and the return of
  the focus (useBoardKeyboard.ts). Focus is the index of a rendered row or header; a navigation is
  the symbol it opens, or the return to the board.

  The lemmas: the arrow keys reach every row and the open pane follows them, the tab stop is always
  a rendered row, and Enter in the search box opens a match, the exact ticker first.
\<close>

section \<open>Navigation\<close>

text \<open>To the board, or to a symbol's pane, with or without a history entry of its own.\<close>

datatype navigation = ToBoard | ToSymbol string bool

definition handleRowActivate :: "string option \<Rightarrow> string \<Rightarrow> navigation" where
  "handleRowActivate selectedSymbol symbol = (if selectedSymbol = Some symbol then ToBoard else ToSymbol symbol False)"

text \<open>\<open>xs[i]\<close> of an index that may be out of range.\<close>

definition item_at :: "'a list \<Rightarrow> int \<Rightarrow> 'a option" where
  "item_at xs i = (if 0 \<le> i \<and> i < int (length xs) then Some (xs ! nat i) else None)"

definition key_index :: "string \<Rightarrow> string \<Rightarrow> nat \<Rightarrow> string \<Rightarrow> nat \<Rightarrow> int" where
  "key_index forward back rowCount key index =
     (if key = ''Home'' then 0 else if key = ''End'' then int rowCount - 1
      else int index + (if key = forward then 1 else - 1))"

text \<open>The row that takes the focus, and where the page goes: nothing for another key, for a press outside
  the rows, or past the ends.\<close>

definition handleTableKeyDown ::
    "string option \<Rightarrow> string list \<Rightarrow> nat option \<Rightarrow> string \<Rightarrow> (nat \<times> navigation option) option" where
  "handleTableKeyDown selectedSymbol rows current key =
     (if key \<noteq> ''ArrowDown'' \<and> key \<noteq> ''ArrowUp'' \<and> key \<noteq> ''Home'' \<and> key \<noteq> ''End'' then None
      else case current of
        None \<Rightarrow> None
      | Some index \<Rightarrow>
          let next = key_index ''ArrowDown'' ''ArrowUp'' (length rows) key index
          in case item_at rows next of
               None \<Rightarrow> None
             | Some nextSymbol \<Rightarrow>
                 Some (nat next, if selectedSymbol \<noteq> None \<and> nextSymbol \<noteq> '''' \<and> Some nextSymbol \<noteq> selectedSymbol
                   then Some (ToSymbol nextSymbol True) else None))"

definition tabStopSymbol :: "string option \<Rightarrow> string option \<Rightarrow> string list \<Rightarrow> string option" where
  "tabStopSymbol focusedSymbol selectedSymbol rows =
     (case find (\<lambda>candidate. candidate \<noteq> None \<and> list_ex (\<lambda>s. Some s = candidate) rows) [focusedSymbol, selectedSymbol] of
        Some candidate \<Rightarrow> candidate
      | None \<Rightarrow> item_at rows 0)"

text \<open>\<open>findIndex\<close>, \<open>-1\<close> when there is none.\<close>

fun find_index :: "('a \<Rightarrow> bool) \<Rightarrow> 'a list \<Rightarrow> int" where
  "find_index p [] = - 1"
| "find_index p (x # xs) = (if p x then 0 else let i = find_index p xs in if i < 0 then i else i + 1)"

definition selectedIndex :: "string option \<Rightarrow> string list \<Rightarrow> int" where
  "selectedIndex selectedSymbol rows =
     (case selectedSymbol of None \<Rightarrow> - 1 | Some s \<Rightarrow> find_index (\<lambda>symbol. symbol = s) rows)"

definition previousSymbol :: "string option \<Rightarrow> string list \<Rightarrow> string option" where
  "previousSymbol selectedSymbol rows =
     (let i = selectedIndex selectedSymbol rows in if i > 0 then Some (rows ! nat (i - 1)) else None)"

definition nextSymbol :: "string option \<Rightarrow> string list \<Rightarrow> string option" where
  "nextSymbol selectedSymbol rows =
     (let i = selectedIndex selectedSymbol rows
      in if i \<ge> 0 \<and> i < int (length rows) - 1 then Some (rows ! nat (i + 1)) else None)"

section \<open>Headers\<close>

definition headerTabStop :: "SortState option \<Rightarrow> ColumnKey" where
  "headerTabStop sortState =
     (let sortedColumnSpec = (case sortState of
            Some s \<Rightarrow> find (\<lambda>c. cs_key c = SortKey (st_column s)) COLUMNS
          | None \<Rightarrow> None)
      in case sortedColumnSpec of
           Some spec \<Rightarrow> if \<not> cs_hideNarrow spec then cs_key spec else SortKey ColSymbol
         | None \<Rightarrow> SortKey ColSymbol)"

text \<open>Among the buttons the layout shows; the target may be none of them.\<close>

definition handleHeaderKeyDown :: "nat \<Rightarrow> nat option \<Rightarrow> string \<Rightarrow> nat option" where
  "handleHeaderKeyDown buttons target key =
     (if key \<noteq> ''ArrowLeft'' \<and> key \<noteq> ''ArrowRight'' \<and> key \<noteq> ''Home'' \<and> key \<noteq> ''End'' then None
      else case target of
        None \<Rightarrow> None
      | Some index \<Rightarrow> map_option nat (item_at (map int [0..<buttons]) (key_index ''ArrowRight'' ''ArrowLeft'' buttons key index)))"

definition aria_sort :: "SortState option \<Rightarrow> ColumnSpec \<Rightarrow> string" where
  "aria_sort sortState c =
     (case sortState of
        Some s \<Rightarrow> if cs_sortable c \<and> SortKey (st_column s) = cs_key c
                  then (if st_direction s = Asc then ''ascending'' else ''descending'') else ''none''
      | None \<Rightarrow> ''none'')"

section \<open>The search box\<close>

definition text_matches :: "string \<Rightarrow> SymbolDefinition \<Rightarrow> bool" where
  "text_matches query def =
     (string_includes (toLowerCase (sd_symbol def)) query \<or> string_includes (toLowerCase (sd_name def)) query)"

definition search_matches :: "SymbolDefinition list \<Rightarrow> SymbolDefinition list \<Rightarrow> board_search \<Rightarrow> SymbolDefinition list" where
  "search_matches symbols sortedRows search =
     (if bs_rawQuery search = bs_debouncedQuery search then sortedRows
      else filter (text_matches (toLowerCase (trim (bs_rawQuery search)))) symbols)"

definition search_target :: "SymbolDefinition list \<Rightarrow> string \<Rightarrow> SymbolDefinition option" where
  "search_target matches query =
     (case find (\<lambda>def. toLowerCase (sd_symbol def) = query) matches of
        Some def \<Rightarrow> Some def
      | None \<Rightarrow> item_at matches 0)"

datatype search_action = FocusFirstRow | Navigates navigation | Stays

definition handleSearchKeyDown ::
    "SymbolDefinition list option \<Rightarrow> SymbolDefinition list \<Rightarrow> board_search \<Rightarrow> string option \<Rightarrow> string \<Rightarrow> search_action" where
  "handleSearchKeyDown universe sortedRows search selectedSymbol key =
     (if key = ''ArrowDown'' then (if sortedRows \<noteq> [] then FocusFirstRow else Stays)
      else let query = toLowerCase (trim (bs_rawQuery search))
           in if key \<noteq> ''Enter'' \<or> query = '''' then Stays
              else case universe of
                None \<Rightarrow> Stays
              | Some symbols \<Rightarrow>
                  (case search_target (search_matches symbols sortedRows search) query of
                     None \<Rightarrow> Stays
                   | Some target \<Rightarrow>
                       if Some (sd_symbol target) \<noteq> selectedSymbol then Navigates (ToSymbol (sd_symbol target) False) else Stays))"

text \<open>A click on a suggestion of the empty board.\<close>

definition pick_suggestion :: "string option \<Rightarrow> string \<Rightarrow> board_search \<Rightarrow> board_search \<times> navigation" where
  "pick_suggestion selectedSymbol symbol search = (setRawQuery '''' search, handleRowActivate selectedSymbol symbol)"

section \<open>The page's shortcuts and its focus\<close>

datatype shortcut = FocusSearch | CloseDetail

definition handleGlobalKeyDown :: "bool \<Rightarrow> bool \<Rightarrow> bool \<Rightarrow> string \<Rightarrow> bool \<Rightarrow> bool \<Rightarrow> string option \<Rightarrow> shortcut option" where
  "handleGlobalKeyDown metaKey ctrlKey altKey key defaultPrevented editable selectedSymbol =
     (if (metaKey \<or> ctrlKey) \<and> toLowerCase key = ''k'' then Some FocusSearch
      else if defaultPrevented \<or> editable then None
      else if key = ''/'' \<and> \<not> metaKey \<and> \<not> ctrlKey \<and> \<not> altKey then Some FocusSearch
      else if key = ''Escape'' \<and> selectedSymbol \<noteq> None then Some CloseDetail
      else None)"

datatype focus_place = DetailHeading | BoardRow string

text \<open>The frame after a commit with another selected symbol; \<open>focusLost\<close> is what the document says then.\<close>

definition useDetailFocusRestore :: "bool \<Rightarrow> string option \<Rightarrow> string option \<Rightarrow> focus_place option" where
  "useDetailFocusRestore focusLost previous selectedSymbol =
     (if \<not> focusLost then None
      else case selectedSymbol of
        Some _ \<Rightarrow> Some DetailHeading
      | None \<Rightarrow> map_option BoardRow previous)"

section \<open>What the page says\<close>

definition priceDecimalsBySymbol :: "SymbolDefinition list option \<Rightarrow> (string \<times> nat) list" where
  "priceDecimalsBySymbol universe =
     map (\<lambda>def. (sd_symbol def, max (decimalPlaces (sd_referencePrice def)) (decimalPlaces (sd_tickSize def))))
       (case universe of Some symbols \<Rightarrow> symbols | None \<Rightarrow> [])"

definition boardPriceDecimals :: "SymbolDefinition list option \<Rightarrow> nat" where
  "boardPriceDecimals universe = foldl max 0 (map snd (priceDecimalsBySymbol universe))"

text \<open>A later entry of the same symbol replaces an earlier one.\<close>

definition row_decimals :: "SymbolDefinition list option \<Rightarrow> string \<Rightarrow> nat" where
  "row_decimals universe symbol =
     (case map_of (rev (priceDecimalsBySymbol universe)) symbol of Some n \<Rightarrow> n | None \<Rightarrow> 2)"

definition search_count_text :: "board_search \<Rightarrow> nat \<Rightarrow> nat \<Rightarrow> string" where
  "search_count_text search shown rowCount =
     (if trim (bs_debouncedQuery search) \<noteq> ''''
      then number_text (of_count (int shown)) @ '' of '' @ number_text (of_count (int rowCount)) @ '' instruments match '' @
        [CHR 0xE2, CHR 0x80, CHR 0x9C] @ trim (bs_debouncedQuery search) @ [CHR 0xE2, CHR 0x80, CHR 0x9D]
      else '''')"

definition detail_open_text :: "string option \<Rightarrow> string" where
  "detail_open_text selectedSymbol = (case selectedSymbol of Some s \<Rightarrow> s @ '' details open beside the list'' | None \<Rightarrow> '''')"

definition order_caption :: "board_search \<Rightarrow> nat \<Rightarrow> nat \<Rightarrow> SortState option \<Rightarrow> string" where
  "order_caption search shown rowCount sortState =
     (if trim (bs_debouncedQuery search) \<noteq> ''''
      then number_text (of_count (int shown)) @ '' of '' @ number_text (of_count (int rowCount)) @ '' '' @ [CHR 0xC2, CHR 0xB7] @ '' '' else '''') @
     describeOrder sortState"

definition rerank_caption :: "SortState option \<Rightarrow> bool \<Rightarrow> bool \<Rightarrow> string option" where
  "rerank_caption sortState marketOpen isStale =
     (if sortState \<noteq> None \<and> marketOpen \<and> \<not> isStale
      then Some ('' '' @ [CHR 0xC2, CHR 0xB7] @ '' re-ranked every '' @ number_text (of_count (DISPLAY_REFRESH_INTERVAL_MS div 1000)) @ ''s'')
      else None)"

section \<open>The keys reach every row\<close>

definition navigated :: "string option \<Rightarrow> navigation option \<Rightarrow> string option" where
  "navigated selectedSymbol nav = (case nav of None \<Rightarrow> selectedSymbol | Some ToBoard \<Rightarrow> None | Some (ToSymbol s _) \<Rightarrow> Some s)"

text \<open>The focused row and the open symbol after a key.\<close>

definition table_press :: "string list \<Rightarrow> nat \<times> string option \<Rightarrow> string \<Rightarrow> nat \<times> string option" where
  "table_press rows st key =
     (case handleTableKeyDown (snd st) rows (Some (fst st)) key of
        None \<Rightarrow> st
      | Some (next, nav) \<Rightarrow> (next, navigated (snd st) nav))"

lemma press_shape:
  "table_press rows st key = st \<or>
   (\<exists>k. 0 \<le> k \<and> k < int (length rows) \<and>
      table_press rows st key = (nat k, if snd st \<noteq> None \<and> rows ! nat k \<noteq> '''' then Some (rows ! nat k) else snd st))"
proof (cases "key \<noteq> ''ArrowDown'' \<and> key \<noteq> ''ArrowUp'' \<and> key \<noteq> ''Home'' \<and> key \<noteq> ''End''")
  case True
  have "handleTableKeyDown (snd st) rows (Some (fst st)) key = None" unfolding handleTableKeyDown_def if_P [OF True] ..
  then show ?thesis by (simp add: table_press_def)
next
  case False
  define k where "k = key_index ''ArrowDown'' ''ArrowUp'' (length rows) key (fst st)"
  have h: "handleTableKeyDown (snd st) rows (Some (fst st)) key =
      (case item_at rows k of
         None \<Rightarrow> None
       | Some s \<Rightarrow> Some (nat k, if snd st \<noteq> None \<and> s \<noteq> '''' \<and> Some s \<noteq> snd st then Some (ToSymbol s True) else None))"
    unfolding handleTableKeyDown_def if_not_P [OF False] option.case Let_def k_def ..
  show ?thesis
  proof (cases "0 \<le> k \<and> k < int (length rows)")
    case True
    then have "table_press rows st key = (nat k, if snd st \<noteq> None \<and> rows ! nat k \<noteq> '''' then Some (rows ! nat k) else snd st)"
      by (auto simp: table_press_def h item_at_def navigated_def)
    then show ?thesis using True by blast
  next
    case False
    then have "item_at rows k = None" by (auto simp: item_at_def)
    then show ?thesis by (simp add: table_press_def h)
  qed
qed

lemma press_focus: "fst st < length rows \<Longrightarrow> fst (table_press rows st key) < length rows"
  using press_shape [of rows st key] by (auto simp: nat_less_iff)

lemma press_down: "fst st + 1 < length rows \<Longrightarrow> fst (table_press rows st ''ArrowDown'') = fst st + 1"
  by (simp add: table_press_def handleTableKeyDown_def key_index_def item_at_def Let_def nat_add_distrib)

lemma press_up: "fst st < length rows \<Longrightarrow> fst (table_press rows st ''ArrowUp'') = fst st - 1"
  by (cases "fst st") (simp_all add: table_press_def handleTableKeyDown_def key_index_def item_at_def Let_def)

lemma press_pane:
  assumes "\<forall>s \<in> set rows. s \<noteq> ''''"
  shows "snd st = None \<Longrightarrow> snd (table_press rows st key) = None"
    and "table_press rows st key = st \<or> snd st = None \<or> snd (table_press rows st key) = Some (rows ! fst (table_press rows st key))"
proof -
  show "snd st = None \<Longrightarrow> snd (table_press rows st key) = None" using press_shape [of rows st key] by auto
  have "rows ! nat n \<noteq> ''''" if "0 \<le> n" "n < int (length rows)" for n
    using assms nth_mem [of "nat n" rows] that by (auto simp: nat_less_iff)
  then show "table_press rows st key = st \<or> snd st = None \<or> snd (table_press rows st key) = Some (rows ! fst (table_press rows st key))"
    using press_shape [of rows st key] by (cases "snd st") auto
qed

lemma keys_focus: "fst st < length rows \<Longrightarrow> fst (foldl (table_press rows) st keys) < length rows"
  by (induction keys arbitrary: st) (simp_all add: press_focus)

lemma keys_pane:
  assumes "\<forall>s \<in> set rows. s \<noteq> ''''"
  shows "(snd st = None \<longrightarrow> snd (foldl (table_press rows) st keys) = None) \<and>
    (foldl (table_press rows) st keys = st \<or> snd st = None \<or>
     snd (foldl (table_press rows) st keys) = Some (rows ! fst (foldl (table_press rows) st keys)))"
proof (induction keys rule: rev_induct)
  case (snoc key keys)
  define m where "m = foldl (table_press rows) st keys"
  show ?case using snoc.IH press_pane [OF assms, of m key] by (auto simp: m_def [symmetric])
qed simp

lemma downs: "fst st + n < length rows \<Longrightarrow> fst (foldl (table_press rows) st (replicate n ''ArrowDown'')) = fst st + n"
proof (induction n arbitrary: st)
  case (Suc n)
  have "fst (table_press rows st ''ArrowDown'') = fst st + 1" using press_down [of st rows] Suc.prems by simp
  then show ?case using Suc.IH [of "table_press rows st ''ArrowDown''"] Suc.prems by simp
qed simp

lemma ups: "fst st < length rows \<Longrightarrow> fst (foldl (table_press rows) st (replicate n ''ArrowUp'')) = fst st - n"
proof (induction n arbitrary: st)
  case (Suc n)
  then show ?case using press_focus [of st rows "''ArrowUp''"] press_up [of st rows] Suc.IH [of "table_press rows st ''ArrowUp''"] by simp
qed simp

lemma tab_stop_rendered: "set_option (tabStopSymbol focused selected rows) \<subseteq> set rows" "(tabStopSymbol focused selected rows = None) = (rows = [])"
  by (auto simp: tabStopSymbol_def item_at_def list_ex_iff split: option.splits if_splits)

text \<open>One Tab stop and the arrow keys are enough for the whole board. The tab stop is a
  rendered row whenever there is one; from any row the arrow keys alone reach any other, and no key
  takes the focus off the board; with the pane closed no key opens it, and with it open it shows
  the row the focus has moved to.\<close>

theorem keys_reach_every_row:
  assumes "i < length rows" and "j < length rows" and "\<forall>s \<in> set rows. s \<noteq> ''''"
  shows "(\<exists>s \<in> set rows. tabStopSymbol focused selected rows = Some s) \<and>
    (\<exists>keys. set keys \<subseteq> {''ArrowDown'', ''ArrowUp''} \<and> fst (foldl (table_press rows) (i, selected) keys) = j) \<and>
    fst (foldl (table_press rows) (i, selected) keys) < length rows \<and>
    (selected = None \<longrightarrow> snd (foldl (table_press rows) (i, selected) keys) = None) \<and>
    (selected = None \<or> foldl (table_press rows) (i, selected) keys = (i, selected) \<or>
     snd (foldl (table_press rows) (i, selected) keys) = Some (rows ! fst (foldl (table_press rows) (i, selected) keys)))"
proof -
  have "\<exists>s \<in> set rows. tabStopSymbol focused selected rows = Some s"
    using tab_stop_rendered [of focused selected rows] assms(1) by (cases "tabStopSymbol focused selected rows") auto
  moreover have "\<exists>keys. set keys \<subseteq> {''ArrowDown'', ''ArrowUp''} \<and> fst (foldl (table_press rows) (i, selected) keys) = j"
  proof (cases "i \<le> j")
    case True
    then show ?thesis using downs [of "(i, selected)" "j - i" rows] assms(2)
      by (intro exI [of _ "replicate (j - i) ''ArrowDown''"]) auto
  next
    case False
    then show ?thesis using ups [of "(i, selected)" rows "i - j"] assms(1)
      by (intro exI [of _ "replicate (i - j) ''ArrowUp''"]) auto
  qed
  ultimately show ?thesis
    using keys_focus [of "(i, selected)" rows keys] keys_pane [OF assms(3), of "(i, selected)" keys] assms(1) by auto
qed

theorem keys_reach_every_row_witness:
  "foldl (table_press [''COMI'', ''EAST'', ''SWDY'']) (0, Some ''COMI'') [''ArrowDown'', ''ArrowDown''] = (2, Some ''SWDY'')"
proof -
  let ?st = "foldl (table_press [''COMI'', ''EAST'', ''SWDY'']) (0, Some ''COMI'') [''ArrowDown'', ''ArrowDown'']"
  have f: "fst ?st = 2" by code_simp
  then have "?st \<noteq> (0, Some ''COMI'')" by (cases ?st) simp
  then have "snd ?st = Some ([''COMI'', ''EAST'', ''SWDY''] ! fst ?st)"
    using keys_reach_every_row [of 0 "[''COMI'', ''EAST'', ''SWDY'']" 2 None "Some ''COMI''" "[''ArrowDown'', ''ArrowDown'']"]
    by simp
  then show ?thesis using f by (cases ?st) simp
qed

section \<open>Enter opens a match\<close>

lemma includes_self: "string_includes s s"
  by (cases s) (auto simp: starts_with_iff)

lemma rows_same:
  assumes "sorted_rows localeCompare s xs sortState = Inr rows"
  shows "set rows = set xs"
  using assms
  by (auto simp: sorted_rows_def sort_exn_def Let_def bindE_Inr_iff split: option.splits if_splits)

lemma matches_set:
  assumes "sorted_rows localeCompare s (search_filtered (Some symbols) search) sortState = Inr rows"
    and "query = toLowerCase (trim (bs_rawQuery search))" and "query \<noteq> ''''"
  shows "set (search_matches symbols rows search) = {def \<in> set symbols. text_matches query def}"
  using rows_same [OF assms(1)] assms(2,3) by (auto simp: search_matches_def search_filtered_def text_matches_def Let_def)

lemma target_of:
  shows "search_target matches query = Some def \<Longrightarrow> def \<in> set matches \<and>
      ((\<exists>e \<in> set matches. toLowerCase (sd_symbol e) = query) \<longrightarrow> toLowerCase (sd_symbol def) = query)"
    and "(search_target matches query = None) = (matches = [])"
  by (auto simp: search_target_def item_at_def find_Some_iff find_None_iff split: option.splits if_splits)

text \<open>Claim C30: Enter in the search box opens an instrument that matches what was typed, even while
  the board still shows the query before it: its symbol or name contains the text, and when some
  ticker is the very text it is that one. It stays put only for a blank query, when nothing
  matches, or when the instrument it would open is open.\<close>

theorem enter_opens_a_match:
  assumes "sorted_rows localeCompare s (search_filtered (Some symbols) search) sortState = Inr rows"
    and "query = toLowerCase (trim (bs_rawQuery search))"
  shows "case handleSearchKeyDown (Some symbols) rows search selected ''Enter'' of
      FocusFirstRow \<Rightarrow> False
    | Navigates ToBoard \<Rightarrow> False
    | Navigates (ToSymbol opened replaces) \<Rightarrow> query \<noteq> '''' \<and> \<not> replaces \<and> Some opened \<noteq> selected \<and>
        (\<exists>def \<in> set symbols. sd_symbol def = opened \<and> text_matches query def) \<and>
        ((\<exists>def \<in> set symbols. toLowerCase (sd_symbol def) = query) \<longrightarrow> toLowerCase opened = query)
    | Stays \<Rightarrow> query = '''' \<or> (\<forall>def \<in> set symbols. \<not> text_matches query def) \<or>
        (\<exists>def \<in> set symbols. text_matches query def \<and> Some (sd_symbol def) = selected)"
proof (cases "query = ''''")
  case True
  then show ?thesis using assms(2) by (simp add: handleSearchKeyDown_def)
next
  case False
  define matches where "matches = search_matches symbols rows search"
  have m: "set matches = {def \<in> set symbols. text_matches query def}"
    using matches_set [OF assms False] by (simp add: matches_def)
  have exact: "e \<in> set matches" if "e \<in> set symbols" "toLowerCase (sd_symbol e) = query" for e
    using that includes_self [of query] by (simp add: m text_matches_def)
  have shape: "handleSearchKeyDown (Some symbols) rows search selected ''Enter'' =
      (case search_target matches query of
         None \<Rightarrow> Stays
       | Some target \<Rightarrow> if Some (sd_symbol target) \<noteq> selected then Navigates (ToSymbol (sd_symbol target) False) else Stays)"
    using False assms(2) by (simp add: handleSearchKeyDown_def matches_def)
  show ?thesis
  proof (cases "search_target matches query")
    case None
    then have "matches = []" using target_of(2) by blast
    then show ?thesis using m None by (auto simp: shape)
  next
    case (Some target)
    then show ?thesis using target_of(1) [OF Some] exact m False by (auto simp: shape)
  qed
qed

lemma enter_while_typing:
  "handleSearchKeyDown (Some [shop ''ARCC'' ''Arabian Cement'', shop ''SCEM'' ''Sinai Cement'']) [shop ''SCEM'' ''Sinai Cement'', shop ''ARCC'' ''Arabian Cement'']
     \<lparr>bs_rawQuery = ''cement'', bs_debouncedQuery = '''', bs_handle = None, bs_timers = start_timers 0\<rparr> None ''Enter'' =
   Navigates (ToSymbol ''ARCC'' False)"
  "handleSearchKeyDown (Some [shop ''ARCC'' ''Arabian Cement'', shop ''SCEM'' ''Sinai Cement'']) [shop ''SCEM'' ''Sinai Cement'', shop ''ARCC'' ''Arabian Cement'']
     \<lparr>bs_rawQuery = ''cement'', bs_debouncedQuery = ''cement'', bs_handle = None, bs_timers = start_timers 0\<rparr> None ''Enter'' =
   Navigates (ToSymbol ''SCEM'' False)"
  by code_simp+

theorem enter_opens_a_match_witness:
  "\<exists>def \<in> set [shop ''ARCC'' ''Arabian Cement'', shop ''SCEM'' ''Sinai Cement'']. sd_symbol def = ''ARCC'' \<and> text_matches ''cement'' def"
proof -
  let ?u = "[shop ''ARCC'' ''Arabian Cement'', shop ''SCEM'' ''Sinai Cement'']"
  let ?s = "\<lparr>bs_rawQuery = ''cement'', bs_debouncedQuery = '''', bs_handle = None, bs_timers = start_timers 0\<rparr>"
  have blank: "toLowerCase (trim '''') = ''''" and typed: "toLowerCase (trim ''cement'') = ''cement''" by code_simp+
  have rows: "sorted_rows (\<lambda>_ _. 0) (new_paced empty_store 0) (search_filtered (Some ?u) ?s) None = Inr ?u"
    by (simp add: sorted_rows_def search_filtered_def blank)
  have "handleSearchKeyDown (Some ?u) ?u ?s None ''Enter'' = Navigates (ToSymbol ''ARCC'' False)" by code_simp
  then show ?thesis using enter_opens_a_match [OF rows, of "''cement''" None] typed by simp
qed

end
