(* ===== verification/Price_Landing.thy ===== *)
theory Price_Landing
  imports Decimal
begin

text \<open>
  How a changed figure lands on the page: src/client/Tckr.MarketWatch/src/components/RollingText.tsx
  (what rolls of a text, and \<open>TickingText\<close>) and PriceCell.tsx. A render reads \<open>performance.now()\<close> and
  the refs the last effect left; the effect runs after the commit, when the value or the landing is
  another one.

  The lemmas: what is read is always the current value, and a landing on show is one change that
  the page really made, shown without a break since, so none is ever replayed.
\<close>

section \<open>Rolling text\<close>

definition LANDING_WINDOW_MS :: rat where
  "LANDING_WINDOW_MS = 2000"

definition SETTLE_MS :: rat where
  "SETTLE_MS = 400"

definition hasSettled :: "rat \<Rightarrow> rat \<Rightarrow> bool" where
  "hasSettled now since = (fl (now - since) \<ge> SETTLE_MS)"

definition isLanding :: "rat \<Rightarrow> rat \<Rightarrow> bool" where
  "isLanding now started = (fl (now - started) < LANDING_WINDOW_MS)"

fun first_difference :: "string \<Rightarrow> string \<Rightarrow> nat" where
  "first_difference (a # as) (b # bs) = (if a = b then Suc (first_difference as bs) else 0)"
| "first_difference _ _ = 0"

definition changedFrom :: "string \<Rightarrow> string \<Rightarrow> nat" where
  "changedFrom previous new = (if length previous \<noteq> length new then 0 else first_difference previous new)"

datatype RollDirection = RollUp | RollDown

text \<open>What stands still, and what rolls out and in.\<close>

definition RollingText :: "string \<Rightarrow> string option \<Rightarrow> string \<times> (string \<times> string) option" where
  "RollingText text previous =
     (case previous of
        None \<Rightarrow> (text, None)
      | Some p \<Rightarrow>
          if p = text then (text, None)
          else let cut = changedFrom p text in (take cut text, Some (drop cut p, drop cut text)))"

definition read_text :: "string \<times> (string \<times> string) option \<Rightarrow> string" where
  "read_text r = fst r @ (case snd r of None \<Rightarrow> '''' | Some (old, new) \<Rightarrow> new)"

section \<open>A price cell\<close>

record landing =
  la_value :: string
  la_previous :: string
  la_direction :: "RollDirection option"
  la_at :: rat

text \<open>The two refs, and the dependencies the effect last ran with.\<close>

record price_cell =
  ce_previous :: "(string \<times> rat) option"
  ce_landing :: "landing option"
  ce_deps :: "(string \<times> landing option) option"

definition new_cell :: price_cell where
  "new_cell = \<lparr>ce_previous = None, ce_landing = None, ce_deps = None\<rparr>"

text \<open>A render's props and the two moments it reads the clock: in its body and in its effect. The
  direction override is undefined, or null or a direction.\<close>

record cell_render =
  re_value :: string
  re_muted :: bool
  re_override :: "RollDirection option option"
  re_now :: rat
  re_committed :: rat

definition flash_direction :: "cell_render \<Rightarrow> string \<Rightarrow> RollDirection option" where
  "flash_direction r previous =
     (case re_override r of
        Some d \<Rightarrow> d
      | None \<Rightarrow>
          let cmp = compare (re_value r) previous
          in if cmp = 1 then Some RollUp else if cmp = - 1 then Some RollDown else None)"

definition cell_landing_of :: "price_cell \<Rightarrow> cell_render \<Rightarrow> landing option" where
  "cell_landing_of c r =
     (let kept = (case ce_landing c of
            Some l \<Rightarrow> if \<not> re_muted r \<and> la_value l = re_value r \<and> isLanding (re_now r) (la_at l) then Some l else None
          | None \<Rightarrow> None)
      in case ce_previous c of
           Some (previous, since) \<Rightarrow>
             if \<not> re_muted r \<and> previous \<noteq> re_value r \<and> hasSettled (re_now r) since
             then Some \<lparr>la_value = re_value r, la_previous = previous, la_direction = flash_direction r previous, la_at = re_now r\<rparr>
             else kept
         | None \<Rightarrow> kept)"

definition PriceCell :: "price_cell \<Rightarrow> cell_render \<Rightarrow> price_cell" where
  "PriceCell c r =
     (let l = cell_landing_of c r
      in if ce_deps c = Some (re_value r, l) then c
         else \<lparr>ce_previous = Some (re_value r, re_committed r), ce_landing = l, ce_deps = Some (re_value r, l)\<rparr>)"

text \<open>The figure on show: both texts are formatted with the cell's own options.\<close>

definition cell_text :: "nat option \<Rightarrow> bool \<Rightarrow> price_cell \<Rightarrow> cell_render \<Rightarrow> string \<times> (string \<times> string) option" where
  "cell_text decimals sign c r =
     RollingText (format (re_value r) decimals sign)
       (map_option (\<lambda>l. format (la_previous l) decimals sign) (cell_landing_of c r))"

definition roll_direction :: "price_cell \<Rightarrow> cell_render \<Rightarrow> RollDirection" where
  "roll_direction c r =
     (case cell_landing_of c r of Some l \<Rightarrow> (case la_direction l of Some d \<Rightarrow> d | None \<Rightarrow> RollUp) | None \<Rightarrow> RollUp)"

definition decimalPlacesIn :: "string \<Rightarrow> nat" where
  "decimalPlacesIn formatted =
     (if CHR ''.'' \<in> set formatted then length (takeWhile (\<lambda>c. c \<noteq> CHR ''.'') (rev formatted)) else 0)"

text \<open>The blank width after the figure, in characters.\<close>

definition padCh :: "nat option \<Rightarrow> string \<Rightarrow> nat" where
  "padCh alignDecimals formatted =
     (let shownDecimals = decimalPlacesIn formatted
      in case alignDecimals of
           Some n \<Rightarrow> if n > shownDecimals then n - shownDecimals + (if shownDecimals = 0 then 1 else 0) else 0
         | None \<Rightarrow> 0)"

definition signClass :: "bool \<Rightarrow> cell_render \<Rightarrow> RollDirection option" where
  "signClass indicateSign r =
     (if indicateSign \<and> \<not> re_muted r
      then (if compare (re_value r) ''0'' = 1 then Some RollUp else if compare (re_value r) ''0'' = - 1 then Some RollDown else None)
      else None)"

section \<open>Ticking text\<close>

text \<open>The same refs over a text that is formatted already; its direction is a prop of the render.\<close>

definition text_landing_of :: "price_cell \<Rightarrow> string \<Rightarrow> rat \<Rightarrow> landing option" where
  "text_landing_of c text now =
     (let kept = (case ce_landing c of
            Some l \<Rightarrow> if la_value l = text \<and> isLanding now (la_at l) then Some l else None
          | None \<Rightarrow> None)
      in case ce_previous c of
           Some (previous, since) \<Rightarrow>
             if previous \<noteq> text \<and> hasSettled now since
             then Some \<lparr>la_value = text, la_previous = previous, la_direction = None, la_at = now\<rparr> else kept
         | None \<Rightarrow> kept)"

definition TickingText :: "price_cell \<Rightarrow> string \<Rightarrow> rat \<Rightarrow> rat \<Rightarrow> price_cell" where
  "TickingText c text now committed =
     (let l = text_landing_of c text now
      in if ce_deps c = Some (text, l) then c
         else \<lparr>ce_previous = Some (text, committed), ce_landing = l, ce_deps = Some (text, l)\<rparr>)"

text \<open>It is the machine of a cell that is never muted and whose direction is not its own.\<close>

definition text_render :: "string \<Rightarrow> rat \<Rightarrow> rat \<Rightarrow> cell_render" where
  "text_render text now committed =
     \<lparr>re_value = text, re_muted = False, re_override = Some None, re_now = now, re_committed = committed\<rparr>"

lemma ticking_is_cell:
  "text_landing_of c text now = cell_landing_of c (text_render text now committed)"
  "TickingText c text now committed = PriceCell c (text_render text now committed)"
proof -
  show l: "text_landing_of c text now = cell_landing_of c (text_render text now committed)"
    by (cases "ce_previous c"; cases "ce_landing c")
      (auto simp: text_landing_of_def cell_landing_of_def flash_direction_def text_render_def Let_def)
  show "TickingText c text now committed = PriceCell c (text_render text now committed)"
    unfolding TickingText_def PriceCell_def l by (simp add: text_render_def Let_def)
qed

section \<open>Landings\<close>

definition cell_run :: "cell_render list \<Rightarrow> price_cell" where
  "cell_run rs = foldl PriceCell new_cell rs"

lemma first_difference_prefix: "take (first_difference as bs) as = take (first_difference as bs) bs"
  by (induction as bs rule: first_difference.induct) simp_all

lemma rolled_text: "read_text (RollingText text previous) = text"
  by (auto simp: RollingText_def read_text_def Let_def split: option.split)

lemma after_render:
  "ce_landing (PriceCell c r) = cell_landing_of c r \<or> ce_deps c = Some (re_value r, cell_landing_of c r) \<and> PriceCell c r = c"
  by (simp add: PriceCell_def Let_def)

text \<open>What the refs hold after a render.\<close>

definition refs_of :: "price_cell \<Rightarrow> string \<Rightarrow> landing option \<Rightarrow> bool" where
  "refs_of c v l = (ce_deps c = Some (v, l) \<and> ce_landing c = l \<and> (\<exists>t. ce_previous c = Some (v, t)))"

lemma refs_render:
  assumes "c = new_cell \<or> (\<exists>v l. refs_of c v l)"
  shows "refs_of (PriceCell c r) (re_value r) (cell_landing_of c r)"
  using assms by (auto simp: PriceCell_def refs_of_def Let_def new_cell_def)

lemma refs_run: "cell_run (rs @ [r]) = PriceCell (cell_run rs) r \<and> refs_of (cell_run (rs @ [r])) (re_value r) (cell_landing_of (cell_run rs) r)"
proof (induction rs arbitrary: r rule: rev_induct)
  case Nil
  then show ?case using refs_render [of new_cell r] by (simp add: cell_run_def)
next
  case (snoc r' rs)
  have "\<exists>v l. refs_of (cell_run (rs @ [r'])) v l" using snoc by blast
  then show ?case using refs_render [of "cell_run (rs @ [r'])" r] by (simp add: cell_run_def)
qed

lemma landing_value: "cell_landing_of c r = Some l \<Longrightarrow> la_value l = re_value r \<and> \<not> re_muted r"
  by (auto simp: cell_landing_of_def Let_def split: option.splits if_splits)

lemma landing_cases:
  assumes "cell_landing_of (cell_run rs) r = Some l"
  shows "\<not> re_muted r \<and> la_value l = re_value r \<and>
    ((\<exists>rs' r'. rs = rs' @ [r'] \<and> re_value r' = la_previous l \<and> la_previous l \<noteq> re_value r \<and> la_at l = re_now r \<and>
        la_direction l = flash_direction r (la_previous l)) \<or>
     (\<exists>rs' r'. rs = rs' @ [r'] \<and> re_value r' = re_value r \<and> cell_landing_of (cell_run rs') r' = Some l \<and> isLanding (re_now r) (la_at l)))"
proof (cases rs rule: rev_exhaust)
  case Nil
  then show ?thesis using assms by (simp add: cell_run_def new_cell_def cell_landing_of_def)
next
  case (snoc rs' r')
  define k where "k = cell_run rs"
  have "refs_of k (re_value r') (cell_landing_of (cell_run rs') r')" unfolding k_def snoc using refs_run by blast
  then obtain t where c: "ce_previous k = Some (re_value r', t)" "ce_landing k = cell_landing_of (cell_run rs') r'"
    by (auto simp: refs_of_def)
  have l: "cell_landing_of k r = Some l" using assms by (simp add: k_def)
  show ?thesis
  proof (cases "\<not> re_muted r \<and> re_value r' \<noteq> re_value r \<and> hasSettled (re_now r) t")
    case True
    then show ?thesis using l by (auto simp: cell_landing_of_def c Let_def snoc)
  next
    case False
    then have kept: "cell_landing_of (cell_run rs') r' = Some l" "\<not> re_muted r" "la_value l = re_value r" "isLanding (re_now r) (la_at l)"
      using l by (auto simp: cell_landing_of_def [of k] c Let_def split: option.splits if_splits)
    moreover have "re_value r' = la_value l" using landing_value [OF kept(1)] by simp
    ultimately show ?thesis using snoc by auto
  qed
qed

text \<open>A landing's whole life so far: the render that made it and the renders since.\<close>

lemma landing_life:
  "cell_landing_of (cell_run rs) r = Some l \<Longrightarrow>
   \<exists>before start since. rs @ [r] = before @ start # since \<and> before \<noteq> [] \<and>
     re_value (last before) = la_previous l \<and> la_previous l \<noteq> la_value l \<and> la_at l = re_now start \<and>
     la_direction l = flash_direction start (la_previous l) \<and>
     list_all (\<lambda>x. re_value x = la_value l \<and> \<not> re_muted x) (start # since) \<and>
     list_all (\<lambda>x. isLanding (re_now x) (la_at l)) since"
proof (induction rs arbitrary: r rule: rev_induct)
  case Nil
  then show ?case by (simp add: cell_run_def new_cell_def cell_landing_of_def)
next
  case (snoc r' rs)
  have v: "\<not> re_muted r" "la_value l = re_value r" using landing_value [OF snoc.prems] by simp_all
  consider (new) "re_value r' = la_previous l" "la_previous l \<noteq> re_value r" "la_at l = re_now r" "la_direction l = flash_direction r (la_previous l)"
    | (kept) "cell_landing_of (cell_run rs) r' = Some l" "isLanding (re_now r) (la_at l)"
    using landing_cases [OF snoc.prems] by auto
  then show ?case
  proof cases
    case new
    then show ?thesis using v by (intro exI [of _ "rs @ [r']"] exI [of _ r] exI [of _ "[]"]) simp
  next
    case kept
    from snoc.IH [OF kept(1)] obtain before start since where
      life: "rs @ [r'] = before @ start # since" "before \<noteq> []" "re_value (last before) = la_previous l" "la_previous l \<noteq> la_value l"
        "la_at l = re_now start" "la_direction l = flash_direction start (la_previous l)"
        "list_all (\<lambda>x. re_value x = la_value l \<and> \<not> re_muted x) (start # since)" "list_all (\<lambda>x. isLanding (re_now x) (la_at l)) since"
      by blast
    then show ?thesis using v kept(2)
      by (intro exI [of _ before] exI [of _ start] exI [of _ "since @ [r]"]) simp
  qed
qed

text \<open>Claim C31: what a cell reads is always its current value, and a landing on show is a change the
  page made: the figure it rolls out is the one of the render before the change, not the same as
  the new one; every render since the change has shown the new value, unmuted, within the landing's
  window; and its direction is that change's. So no landing is cut short by a render in between,
  and none is ever played twice.\<close>

theorem landing_is_one_change:
  assumes "c = cell_run rs"
  shows "read_text (cell_text decimals sign c r) = format (re_value r) decimals sign \<and>
    pred_option (\<lambda>l. \<exists>before start since. rs @ [r] = before @ start # since \<and> before \<noteq> [] \<and>
      re_value (last before) = la_previous l \<and> la_previous l \<noteq> re_value r \<and> la_at l = re_now start \<and>
      la_direction l = flash_direction start (la_previous l) \<and>
      list_all (\<lambda>x. re_value x = re_value r \<and> \<not> re_muted x) (start # since) \<and>
      list_all (\<lambda>x. isLanding (re_now x) (la_at l)) since) (cell_landing_of c r)"
proof (cases "cell_landing_of c r")
  case None
  then show ?thesis by (simp add: cell_text_def rolled_text)
next
  case (Some l)
  have "la_value l = re_value r" using landing_value [OF Some] by simp
  then show ?thesis using landing_life [of rs r l] Some by (simp add: cell_text_def rolled_text assms)
qed

definition showing :: "string \<Rightarrow> rat \<Rightarrow> cell_render" where
  "showing value now = \<lparr>re_value = value, re_muted = False, re_override = None, re_now = now, re_committed = now\<rparr>"

lemma demo_landing:
  "cell_landing_of (cell_run [showing ''85.60'' 0]) (showing ''85.64'' 10000) =
     Some \<lparr>la_value = ''85.64'', la_previous = ''85.60'', la_direction = Some RollUp, la_at = 10000\<rparr>"
  "cell_landing_of (cell_run [showing ''85.60'' 0, showing ''85.64'' 10000]) (showing ''85.64'' 11000) =
     Some \<lparr>la_value = ''85.64'', la_previous = ''85.60'', la_direction = Some RollUp, la_at = 10000\<rparr>"
  by code_simp+

theorem landing_is_one_change_witness:
  "\<exists>before start since. [showing ''85.60'' 0, showing ''85.64'' 10000, showing ''85.64'' 11000] = before @ start # since \<and>
     re_value (last before) = ''85.60'' \<and> re_now start = 10000 \<and> before \<noteq> []"
  using landing_is_one_change [OF refl, where rs = "[showing ''85.60'' 0, showing ''85.64'' 10000]" and r = "showing ''85.64'' 11000"]
  by (auto simp: demo_landing) metis

text \<open>A landing that is over takes the figure's time on screen with it: the render that drops it runs the
  effect again, and a change within the settling time after that render lands without rolling,
  however long the figure has been read.\<close>

lemma finished_landing_unsettles:
  "cell_landing_of (cell_run [showing ''85.60'' 0, showing ''85.64'' 10000]) (showing ''85.70'' 12300) \<noteq> None \<and>
   cell_landing_of (cell_run [showing ''85.60'' 0, showing ''85.64'' 10000, showing ''85.64'' 12000]) (showing ''85.70'' 12300) = None"
  by code_simp

end
