(* ===== verification/Board_Row.thy ===== *)
theory Board_Row
  imports Board_Keys Price_Landing Ring_Buffer Gateway_Rest
begin

text \<open>
  One row of the board: src/client/Tckr.MarketWatch/src/pages/StockListRow.tsx, with the path of routes.ts it links to. A render is a
  function of the painted view of the row's symbol (theory Paced_Views), of its props and of the
  sparkline's stored history; it gives the row's accessible name and its cells, and each cell the
  props it hands to the components of theory Price_Landing. A figure that cannot be formatted is
  an exception of the render.

  The lemmas: a row has exactly the cells its header has, all of one view; what it says aloud is
  what its figures and its chip show, a delayed price is never read as live, and it renders
  whenever its figures are what the store keeps.
\<close>

section \<open>Props and cells\<close>

text \<open>The browser's number formats: two decimals with a sign and without one, and whole numbers.\<close>

record figure_formats =
  ff_signed :: "number \<Rightarrow> string"
  ff_magnitude :: "number \<Rightarrow> string"
  ff_integer :: "number \<Rightarrow> string"

record StockListRowProps =
  rp_definition :: SymbolDefinition
  rp_priceDecimals :: nat
  rp_alignDecimals :: "nat option"
  rp_selected :: bool
  rp_columns :: "ColumnKey list"
  rp_tabStop :: bool
  rp_boardIndex :: nat
  rp_sessionTrend :: "number list option"

text \<open>What a price cell is given.\<close>

record cell_props =
  cp_value :: decimal
  cp_decimals :: nat
  cp_align :: "nat option"
  cp_sign :: bool
  cp_muted :: bool
  cp_override :: "RollDirection option option"
  cp_indicateSign :: bool

datatype row_cell =
    SymbolCell string string
  | TrendCell "number list" DeltaTone
  | NameCell string
  | PriceFigure cell_props
  | ChangeFigure cell_props
  | PercentChip "(DeltaTone \<times> string \<times> RollDirection) option"
  | VolumeCell string
  | ValueCell string

fun cell_key :: "row_cell \<Rightarrow> ColumnKey" where
  "cell_key (SymbolCell _ _) = SortKey ColSymbol"
| "cell_key (TrendCell _ _) = Trend"
| "cell_key (NameCell _) = SortKey ColName"
| "cell_key (PriceFigure _) = SortKey ColPrice"
| "cell_key (ChangeFigure _) = SortKey ColChange"
| "cell_key (PercentChip _) = SortKey ColChangePercent"
| "cell_key (VolumeCell _) = SortKey ColVolume"
| "cell_key (ValueCell _) = SortKey ColValue"

section \<open>A render\<close>

definition symbolPath :: "string \<Rightarrow> string" where
  "symbolPath symbol = ''/'' @ MARKET @ ''/symbols/'' @ encodeURIComponent symbol"

definition em_dash :: string where
  "em_dash = [CHR 0xE2, CHR 0x80, CHR 0x94]"

definition volume_label :: "figure_formats \<Rightarrow> SymbolView option \<Rightarrow> string" where
  "volume_label ff view = (case view of Some v \<Rightarrow> ff_integer ff (sv_volume v) | None \<Rightarrow> em_dash)"

definition value_label :: "SymbolDefinition \<Rightarrow> SymbolView option \<Rightarrow> string exn" where
  "value_label def view =
     (case view of
        Some v \<Rightarrow> bindE (tradedValue def (Some v)) (\<lambda>x. Inr (formatCompact x True))
      | None \<Rightarrow> Inr em_dash)"

fun tone_word :: "DeltaTone \<Rightarrow> string" where
  "tone_word Up = ''up''"
| "tone_word Down = ''down''"
| "tone_word Flat = ''unchanged''"

definition direction_word :: "number option \<Rightarrow> string" where
  "direction_word changePercent =
     (if sparklineDirection changePercent = Flat \<or> (\<exists>p \<in> set_option changePercent. isEffectivelyUnchanged p) then ''unchanged''
      else tone_word (sparklineDirection changePercent))"

definition base_label :: "figure_formats \<Rightarrow> string \<Rightarrow> decimal \<Rightarrow> number option \<Rightarrow> string" where
  "base_label ff symbol price changePercent =
     (case changePercent of
        None \<Rightarrow> symbol @ '', '' @ price
      | Some p \<Rightarrow> symbol @ '', '' @ price @ '', '' @ direction_word changePercent @ '' '' @ ff_magnitude ff p @ ''%'')"

definition row_label :: "figure_formats \<Rightarrow> StockListRowProps \<Rightarrow> SymbolView option \<Rightarrow> string" where
  "row_label ff props view =
     (let def = rp_definition props;
          base = base_label ff (sd_symbol def) (case view of Some v \<Rightarrow> sv_price v | None \<Rightarrow> sd_referencePrice def)
            (map_option sv_changePercent view);
          detail = (case view of
              Some v \<Rightarrow> base @ '', change '' @ format (sv_change v) (Some (rp_priceDecimals props)) True @
                '', volume '' @ volume_label ff view
            | None \<Rightarrow> base)
      in if map_option sv_stream view = Some DELAYED then detail @ '', delayed stream'' else detail)"

text \<open>The direction a new price lands in: the session's, undefined before there is one.\<close>

definition flash_override :: "number option \<Rightarrow> RollDirection option option" where
  "flash_override changePercent =
     (case changePercent of
        None \<Rightarrow> None
      | Some p \<Rightarrow> Some (if num_less (Fin 0) p then Some RollUp else if num_less p (Fin 0) then Some RollDown else None))"

definition percent_chip :: "figure_formats \<Rightarrow> number option \<Rightarrow> (DeltaTone \<times> string \<times> RollDirection) option" where
  "percent_chip ff changePercent =
     map_option (\<lambda>p. (percentTone (Some p), formatSignedPercent (ff_signed ff) p,
       if num_less p (Fin 0) then RollDown else RollUp)) changePercent"

text \<open>The cells in order; the symbol, the price and the percentage are always there.\<close>

definition row_cells ::
    "figure_formats \<Rightarrow> StockListRowProps \<Rightarrow> SymbolView option \<Rightarrow> number list \<Rightarrow> string \<Rightarrow> row_cell list" where
  "row_cells ff props view history valueLabel =
     (let def = rp_definition props;
          price = (case view of Some v \<Rightarrow> sv_price v | None \<Rightarrow> sd_referencePrice def);
          change = (case view of Some v \<Rightarrow> sv_change v | None \<Rightarrow> ZERO_DECIMAL);
          changePercent = map_option sv_changePercent view;
          figure = (\<lambda>v sign override indicate. \<lparr>cp_value = v, cp_decimals = rp_priceDecimals props, cp_align = rp_alignDecimals props,
            cp_sign = sign, cp_muted = (view = None), cp_override = override, cp_indicateSign = indicate\<rparr>);
          shown = (\<lambda>key cell. if key \<in> set (rp_columns props) then [cell] else [])
      in [SymbolCell (sd_symbol def) (symbolPath (sd_symbol def))] @
         shown Trend (TrendCell (session_sparkline history (toPlotValue price) 20 (rp_sessionTrend props)) (sparklineDirection changePercent)) @
         shown (SortKey ColName) (NameCell (sd_name def)) @
         [PriceFigure (figure price False (flash_override changePercent) False)] @
         shown (SortKey ColChange) (ChangeFigure (figure change True None True)) @
         [PercentChip (percent_chip ff changePercent)] @
         shown (SortKey ColVolume) (VolumeCell (volume_label ff view)) @
         shown (SortKey ColValue) (ValueCell valueLabel))"

record row_view =
  rv_label :: string
  rv_tabIndex :: int
  rv_selected :: bool
  rv_delay :: string
  rv_cells :: "row_cell list"

definition StockListRow :: "figure_formats \<Rightarrow> paced \<Rightarrow> number list \<Rightarrow> StockListRowProps \<Rightarrow> row_view exn" where
  "StockListRow ff s history props =
     (let view = getPacedSymbolSnapshot (sd_symbol (rp_definition props)) s
      in bindE (value_label (rp_definition props) view) (\<lambda>valueLabel.
           Inr \<lparr>rv_label = row_label ff props view, rv_tabIndex = (if rp_tabStop props then 0 else - 1),
             rv_selected = rp_selected props, rv_delay = tickDelay (rp_boardIndex props),
             rv_cells = row_cells ff props view history valueLabel\<rparr>))"

text \<open>After the commit the sparkline remembers the price it was drawn with.\<close>

definition row_history :: "paced \<Rightarrow> number list \<Rightarrow> StockListRowProps \<Rightarrow> number list" where
  "row_history s history props = sparkline_effect 20 history (toPlotValue (row_price s (rp_definition props)))"

section \<open>Keys and clicks\<close>

text \<open>What reaches \<open>onActivate\<close>: Enter or Space on the row, a click on it, or a plain click on its link,
  which falls through; a modified click is the browser's.\<close>

definition handleKeyDown :: "string \<Rightarrow> bool" where
  "handleKeyDown key = (key = ''Enter'' \<or> key = '' '')"

datatype link_outcome = RowActivated | BrowserFollows

definition link_click :: "bool \<Rightarrow> bool \<Rightarrow> bool \<Rightarrow> bool \<Rightarrow> int \<Rightarrow> link_outcome" where
  "link_click metaKey ctrlKey shiftKey altKey button =
     (if metaKey \<or> ctrlKey \<or> shiftKey \<or> altKey \<or> button \<noteq> 0 then BrowserFollows else RowActivated)"

section \<open>A row is true to its view\<close>

lemma value_label_sound:
  assumes "row_sound s d"
  shows "\<exists>t. value_label d (getPacedSymbolSnapshot (sd_symbol d) s) = Inr t"
  using tradedValue_sound [OF assms] by (auto simp: value_label_def split: option.splits)

lemma threshold_positive: "0 < UNCHANGED_PERCENT_THRESHOLD"
  by code_simp

text \<open>The word is the chip's tone, for any percentage that is a number.\<close>

lemma word_of_tone: "direction_word (Some (Fin p)) = tone_word (percentTone (Some (Fin p)))"
  using threshold_positive
  by (auto simp: direction_word_def percentTone_def sparklineDirection_def isEffectivelyUnchanged_def deltaTone_def)

lemma keys_of_cells:
  "map cell_key (row_cells ff props view history t) =
     filter (\<lambda>k. k \<in> {SortKey ColSymbol, SortKey ColPrice, SortKey ColChangePercent} \<union> set (rp_columns props)) (map cs_key COLUMNS)"
  by (simp add: row_cells_def Let_def COLUMNS_def column_def)

lemma keys_of_header:
  "map cs_key (visibleColumns narrow) =
     filter (\<lambda>k. k \<in> {SortKey ColSymbol, SortKey ColPrice, SortKey ColChangePercent} \<union> set (map cs_key (visibleColumns narrow)))
       (map cs_key COLUMNS)"
  by (cases narrow) (simp_all add: visibleColumns_def COLUMNS_def column_def)

lemma trend_ends_now:
  assumes "v \<noteq> NaN"
  shows "session_sparkline history v n series \<noteq> [] \<and> last (session_sparkline history v n series) = v"
  using sparkline_ends_now [OF assms] by (simp add: session_sparkline_def split: option.split)

lemma plot_value_not_NaN [simp]: "toPlotValue price \<noteq> NaN"
  by (simp add: toPlotValue_def to_number_def Let_def)

lemma cells_trend: "TrendCell points dir \<in> set (row_cells ff props view history t) \<Longrightarrow>
    points = session_sparkline history (toPlotValue (case view of Some v \<Rightarrow> sv_price v | None \<Rightarrow> sd_referencePrice (rp_definition props)))
      20 (rp_sessionTrend props)"
  by (auto simp: row_cells_def Let_def split: if_splits)

lemma cells_price: "PriceFigure c \<in> set (row_cells ff props view history t) \<Longrightarrow>
    cp_value c = (case view of Some v \<Rightarrow> sv_price v | None \<Rightarrow> sd_referencePrice (rp_definition props)) \<and> cp_muted c = (view = None)"
  by (auto simp: row_cells_def Let_def split: if_splits)

lemma cells_chip: "PercentChip chip \<in> set (row_cells ff props view history t) \<longleftrightarrow> chip = percent_chip ff (map_option sv_changePercent view)"
  by (auto simp: row_cells_def Let_def split: if_splits)

lemma cells_volume: "VolumeCell text \<in> set (row_cells ff props view history t) \<Longrightarrow> text = volume_label ff view"
  by (auto simp: row_cells_def Let_def split: if_splits)

text \<open>A row whose figures are what the store keeps always renders, and says one thing in every
  place. It has exactly the cells its header has, in order. All figures are of one painted view: the
  price is the view's, or muted the reference price when there is none, and the trend line ends on
  it. What is read aloud is what is on show: the word is the chip's tone, which is flat exactly when the
  move rounds to 0.00% and then that is what it prints, the volume is the volume column's, and it
  ends with "delayed stream" exactly when the view is of the delayed stream.\<close>

theorem row_says_what_it_shows:
  assumes "row_sound s d" and "rp_definition props = d" and "rp_columns props = map cs_key (visibleColumns narrow)"
  shows "\<exists>r. StockListRow ff s history props = Inr r \<and> map cell_key (rv_cells r) = map cs_key (visibleColumns narrow) \<and>
    (\<forall>c. PriceFigure c \<in> set (rv_cells r) \<longrightarrow>
       cp_value c = row_price s d \<and> cp_muted c = (getPacedSymbolSnapshot (sd_symbol d) s = None)) \<and>
    (\<forall>points dir. TrendCell points dir \<in> set (rv_cells r) \<longrightarrow> points \<noteq> [] \<and> last points = toPlotValue (row_price s d)) \<and>
    (case getPacedSymbolSnapshot (sd_symbol d) s of
       None \<Rightarrow> PercentChip None \<in> set (rv_cells r) \<and> rv_label r = sd_symbol d @ '', '' @ row_price s d
     | Some v \<Rightarrow> \<exists>tone text dir. PercentChip (Some (tone, text, dir)) \<in> set (rv_cells r) \<and>
         (tone = Flat) = isEffectivelyUnchanged (sv_changePercent v) \<and> (tone = Flat \<longrightarrow> text = ''0.00%'') \<and>
         (\<forall>t. VolumeCell t \<in> set (rv_cells r) \<longrightarrow> t = ff_integer ff (sv_volume v)) \<and>
         rv_label r = sd_symbol d @ '', '' @ row_price s d @ '', '' @ tone_word tone @ '' '' @ ff_magnitude ff (sv_changePercent v) @
           ''%, change '' @ format (sv_change v) (Some (rp_priceDecimals props)) True @ '', volume '' @ ff_integer ff (sv_volume v) @
           (if sv_stream v = DELAYED then '', delayed stream'' else ''''))"
proof -
  define view where "view = getPacedSymbolSnapshot (sd_symbol d) s"
  obtain t where t: "value_label d view = Inr t" using value_label_sound [OF assms(1)] unfolding view_def by blast
  define cells where "cells = row_cells ff props view history t"
  have r: "StockListRow ff s history props = Inr \<lparr>rv_label = row_label ff props view, rv_tabIndex = (if rp_tabStop props then 0 else - 1),
      rv_selected = rp_selected props, rv_delay = tickDelay (rp_boardIndex props), rv_cells = cells\<rparr>"
    using t by (simp add: StockListRow_def assms(2) view_def [symmetric] cells_def Let_def)
  have price: "row_price s d = (case view of Some v \<Rightarrow> sv_price v | None \<Rightarrow> sd_referencePrice (rp_definition props))"
    unfolding row_price_def view_def assms(2) ..
  have keys: "map cell_key cells = map cs_key (visibleColumns narrow)"
    unfolding cells_def keys_of_cells assms(3) keys_of_header [symmetric] ..
  have trend: "points \<noteq> [] \<and> last points = toPlotValue (row_price s d)" if "TrendCell points dir \<in> set cells" for points dir
    using cells_trend that trend_ends_now [OF plot_value_not_NaN] unfolding cells_def price by metis
  have figure: "cp_value c = row_price s d \<and> cp_muted c = (view = None)" if "PriceFigure c \<in> set cells" for c
    using cells_price that unfolding cells_def price by blast
  show ?thesis
  proof (cases view)
    case None
    have "PercentChip None \<in> set cells" unfolding cells_def cells_chip by (simp add: percent_chip_def None)
    moreover have "row_label ff props view = sd_symbol d @ '', '' @ row_price s d"
      by (simp add: None row_label_def base_label_def assms(2) price Let_def)
    ultimately show ?thesis using keys trend figure unfolding r view_def [symmetric] by (simp add: None) blast
  next
    case (Some v)
    obtain p where p: "sv_changePercent v = Fin p" using assms(1) Some by (auto simp: row_sound_def view_def)
    define tone where "tone = percentTone (Some (Fin p))"
    have chip: "PercentChip (Some (tone, formatSignedPercent (ff_signed ff) (Fin p), if num_less (Fin p) (Fin 0) then RollDown else RollUp)) \<in> set cells"
      unfolding cells_def cells_chip by (simp add: percent_chip_def Some p tone_def)
    have flat: "(tone = Flat) = isEffectivelyUnchanged (Fin p)"
      using threshold_positive by (auto simp: tone_def percentTone_def isEffectivelyUnchanged_def deltaTone_def)
    have label: "row_label ff props view = sd_symbol d @ '', '' @ row_price s d @ '', '' @ tone_word tone @ '' '' @ ff_magnitude ff (Fin p) @
        ''%, change '' @ format (sv_change v) (Some (rp_priceDecimals props)) True @ '', volume '' @ ff_integer ff (sv_volume v) @
        (if sv_stream v = DELAYED then '', delayed stream'' else '''')"
      by (simp add: row_label_def base_label_def Some p word_of_tone tone_def volume_label_def price assms(2) Let_def)
    have volume: "\<forall>t. VolumeCell t \<in> set cells \<longrightarrow> t = ff_integer ff (sv_volume v)"
      using cells_volume unfolding cells_def by (force simp: Some volume_label_def)
    have zero: "tone = Flat \<longrightarrow> formatSignedPercent (ff_signed ff) (Fin p) = ''0.00%''"
      by (simp add: flat formatSignedPercent_def)
    show ?thesis using keys trend figure chip flat label volume zero unfolding r view_def [symmetric] by (simp add: Some p) blast
  qed
qed

text \<open>A move too small to show colours the trend line and the landing all the same.\<close>

lemma neutral_move_colours_line:
  assumes "0 < p" and "p < UNCHANGED_PERCENT_THRESHOLD"
  shows "percentTone (Some (Fin p)) = Flat" and "sparklineDirection (Some (Fin p)) = Up" and "flash_override (Some (Fin p)) = Some (Some RollUp)"
  using assms by (simp_all add: percentTone_def sparklineDirection_def isEffectivelyUnchanged_def flash_override_def)

definition still_snapshot :: Snapshot where
  "still_snapshot = \<lparr>sn_symbol = ''COMI'', sn_stream = DELAYED, sn_price = ''80.00'', sn_change = ''0'', sn_changePercent = ''0'',
     sn_open = ''80.00'', sn_previousClose = Some ''80.00'', sn_high = ''80.50'', sn_low = ''79.90'', sn_volume = of_count 1000,
     sn_lastEventId = ''1'', sn_exchangeTimestamp = ''2026-03-02T10:00:00.000Z'', sn_snapshotAge = Fin 0, sn_simulated = False\<rparr>"

definition still_board :: paced where
  "still_board = paced_run (new_paced empty_store 0) [PvPrime [comi], PvSnapshot still_snapshot 0, PvSubscribe ''COMI'' 1]"

definition plain_formats :: figure_formats where
  "plain_formats = \<lparr>ff_signed = (\<lambda>_. ''+0.75''), ff_magnitude = (\<lambda>_. ''0.00''), ff_integer = number_text\<rparr>"

definition comi_row :: "bool \<Rightarrow> StockListRowProps" where
  "comi_row narrow = \<lparr>rp_definition = shop ''COMI'' ''Commercial'', rp_priceDecimals = 2, rp_alignDecimals = Some 2, rp_selected = False,
     rp_columns = map cs_key (visibleColumns narrow), rp_tabStop = True, rp_boardIndex = 0, rp_sessionTrend = None\<rparr>"

lemma still_view:
  obtains v where "getPacedSymbolSnapshot ''COMI'' still_board = Some v" and "sv_price v = ''80.00''" and "sv_change v = ''0.00''"
    and "sv_changePercent v = Fin 0" and "sv_volume v = Fin 1000" and "sv_stream v = DELAYED"
proof -
  have "map_option (\<lambda>v. (sv_price v, sv_change v, sv_changePercent v, sv_volume v, sv_stream v)) (getPacedSymbolSnapshot ''COMI'' still_board) =
    Some (''80.00'', ''0.00'', Fin 0, Fin 1000, DELAYED)" by code_simp
  then show ?thesis by (cases "getPacedSymbolSnapshot ''COMI'' still_board") (auto intro: that)
qed

lemma still_row_sound: "row_sound still_board (shop ''COMI'' ''Commercial'')"
proof -
  obtain v where v: "getPacedSymbolSnapshot ''COMI'' still_board = Some v" "sv_price v = ''80.00''" "sv_changePercent v = Fin 0" "sv_volume v = Fin 1000"
    by (rule still_view)
  have "isDecimal ''80.00''" "is_safe_integer (Fin 1000)" by code_simp+
  then show ?thesis using double_rep_of_int [of 0] by (simp add: row_sound_def row_price_def row_volume_def shop_def v)
qed

theorem row_says_what_it_shows_witness:
  "\<exists>r. StockListRow plain_formats still_board [] (comi_row True) = Inr r \<and>
     rv_label r = ''COMI, 80.00, unchanged 0.00%, change 0.00, volume 1000, delayed stream'' \<and>
     map cell_key (rv_cells r) = [SortKey ColSymbol, SortKey ColPrice, SortKey ColChangePercent]"
proof -
  let ?d = "shop ''COMI'' ''Commercial''"
  obtain v where v: "getPacedSymbolSnapshot ''COMI'' still_board = Some v" "sv_price v = ''80.00''" "sv_change v = ''0.00''"
      "sv_changePercent v = Fin 0" "sv_volume v = Fin 1000" "sv_stream v = DELAYED" by (rule still_view)
  have d: "sd_symbol ?d = ''COMI''" by (simp add: shop_def)
  have p: "rp_definition (comi_row True) = ?d" "rp_columns (comi_row True) = map cs_key (visibleColumns True)" "rp_priceDecimals (comi_row True) = 2"
    by (simp_all add: comi_row_def)
  have t: "ff_integer plain_formats (Fin 1000) = ''1000''" "ff_magnitude plain_formats (Fin 0) = ''0.00''" "isEffectivelyUnchanged (Fin 0)"
    "format ''0.00'' (Some 2) True = ''0.00''" "row_price still_board ?d = ''80.00''"
    "map cs_key (visibleColumns True) = [SortKey ColSymbol, SortKey ColPrice, SortKey ColChangePercent]" by code_simp+
  show ?thesis
    using row_says_what_it_shows [OF still_row_sound p(1, 2), of plain_formats "[]"] by (auto simp: d v t p(3))
qed

end
