(* ===== verification/Beat_Memo.thy ===== *)
theory Beat_Memo
  imports Paced_Views
begin

text \<open>
  What a component remembers from one price beat to the next: both the board's order
  (src/client/Tckr.MarketWatch/src/pages/useBoardSort.ts) and the highlight cards' picks (HeroCards.tsx)
  are computed from the painted views (theory Paced_Views), kept, and computed again only when the
  callback they gave \<open>subscribeBeat\<close> runs. The locale says what such a computation reads; inside it,
  what is kept never falls behind what is painted as long as views are painted on the beat, and does
  fall behind when one is brought up to date on its own.
\<close>

section \<open>A remembered value\<close>

text \<open>Whatever happens to the painted views: if that ran the component's beat callback, it computes again,
  with what is painted then.\<close>

definition memo_paced :: "nat \<Rightarrow> (paced \<Rightarrow> 'r) \<Rightarrow> paced_event \<Rightarrow> paced \<times> 'r \<Rightarrow> paced \<times> 'r" where
  "memo_paced cb compute e m =
     (let s = paced_do (fst m) e
      in (s, if CallBeat cb \<in> set (drop (length (pv_calls (fst m))) (pv_calls s)) then compute s else snd m))"

text \<open>Everything that leaves the views of some symbols to the beat: data come while all of them are
  watched, nobody stops watching one of them or brings it up to date on its own, the stream is not
  discarded, and the component keeps listening.\<close>

definition watching :: "string set \<Rightarrow> paced \<Rightarrow> bool" where
  "watching reads s = (\<forall>x \<in> reads. jget (pv_entries s) x \<noteq> None)"

fun left_to_beat :: "nat \<Rightarrow> string set \<Rightarrow> paced \<Rightarrow> paced_event \<Rightarrow> bool" where
  "left_to_beat cb reads s (PvPrime _) = watching reads s"
| "left_to_beat cb reads s (PvSnapshot _ _) = watching reads s"
| "left_to_beat cb reads s (PvTick _ _) = watching reads s"
| "left_to_beat cb reads s (PvUnsubscribe u) = (fst (snd u) \<notin> reads)"
| "left_to_beat cb reads s (PvFlush x) = (x \<notin> reads)"
| "left_to_beat cb reads s PvReset = False"
| "left_to_beat cb reads s (PvUnbeat other) = (other \<noteq> cb)"
| "left_to_beat cb reads s _ = True"

fun all_left_to_beat :: "nat \<Rightarrow> string set \<Rightarrow> paced \<Rightarrow> paced_event list \<Rightarrow> bool" where
  "all_left_to_beat cb reads s [] = True"
| "all_left_to_beat cb reads s (e # es) = (left_to_beat cb reads s e \<and> all_left_to_beat cb reads (paced_do s e) es)"

text \<open>Such a step either is a beat, which calls everyone who waits for it, or leaves those views as they were.\<close>

definition beat_or_quiet :: "nat \<Rightarrow> string set \<Rightarrow> paced \<Rightarrow> paced \<Rightarrow> bool" where
  "beat_or_quiet cb reads s s' =
     (cb \<in> set (pv_beatListeners s') \<and>
      (CallBeat cb \<in> set (drop (length (pv_calls s)) (pv_calls s')) \<or>
       (\<forall>x \<in> reads. getPacedSymbolSnapshot x s' = getPacedSymbolSnapshot x s)))"

lemma start_same [simp]:
  "pv_entries (start s) = pv_entries s" "pv_calls (start s) = pv_calls s" "pv_beatListeners (start s) = pv_beatListeners s"
  by (simp_all add: start_def schedule_def Let_def case_prod_unfold)

lemma beat_same:
  "pv_beatListeners (beat s) = pv_beatListeners s" "jkeys (pv_entries (beat s)) = jkeys (pv_entries s)"
  by (simp add: beat_def Let_def schedule_def case_prod_unfold) (simp add: beat_def Let_def)

lemma beat_is_beat:
  assumes "cb \<in> set (pv_beatListeners s)" and "pv_calls t = pv_calls s"
  shows "beat_or_quiet cb reads t (beat s)"
proof -
  obtain ps where "pv_calls (beat s) = pv_calls s @ ps @ map CallBeat (pv_beatListeners s)" using beat_shows(2) by blast
  then have "CallBeat cb \<in> set (drop (length (pv_calls t)) (pv_calls (beat s)))" using assms by simp
  then show ?thesis using assms by (simp add: beat_or_quiet_def beat_same)
qed

lemma data_quiet:
  assumes "cb \<in> set (pv_beatListeners s)" and "watching reads s"
  shows "beat_or_quiet cb reads s (s\<lparr>pv_store := st\<rparr>)"
  using assms by (auto simp: beat_or_quiet_def watching_def getPacedSymbolSnapshot_def)

lemma same_views_quiet:
  assumes "cb \<in> set (pv_beatListeners s')" and "pv_entries s' = pv_entries s" and "pv_store s' = pv_store s"
  shows "beat_or_quiet cb reads s s'"
  using assms by (auto simp: beat_or_quiet_def getPacedSymbolSnapshot_def split: option.split)

lemma start_views [simp]: "getSymbolSnapshot x (pv_store (start s)) = getSymbolSnapshot x (pv_store s)"
  by (simp add: start_def getSymbolSnapshot_def onStreamDiscard_def)

lemma unsubscribe_quiet:
  assumes "cb \<in> set (pv_beatListeners s)" and "fst (snd u) \<notin> reads"
  shows "beat_or_quiet cb reads s (unsubscribePaced u s)"
proof -
  have busy: "stopIfIdle t = t" if "pv_beatListeners t = pv_beatListeners s" for t
    using that assms(1) by (auto simp: stopIfIdle_def)
  obtain a x l where u: "u = (a, x, l)" by (cases u)
  show ?thesis using assms
    by (auto simp: u unsubscribePaced_def busy beat_or_quiet_def getPacedSymbolSnapshot_def Let_def split: option.split)
qed

lemma paced_step:
  assumes "left_to_beat cb reads s e" and "cb \<in> set (pv_beatListeners s)"
  shows "beat_or_quiet cb reads s (paced_do s e)"
proof (cases e)
  case (PvTimer h)
  then show ?thesis using assms(2) beat_is_beat [of cb "s\<lparr>pv_timers := tm\<rparr>" s for tm]
    by (auto simp: same_views_quiet split: option.split)
next
  case PvBeatNow
  define t where "t = (case pv_beatTimer s of
       Some h \<Rightarrow> s\<lparr>pv_timers := clearTimeout (pv_timers s) h, pv_beatTimer := None\<rparr> | None \<Rightarrow> s)"
  have "pv_calls s = pv_calls t" "pv_beatListeners t = pv_beatListeners s" by (auto simp: t_def split: option.split)
  then show ?thesis using beat_is_beat [of cb t s] assms(2) by (simp add: PvBeatNow beatNowForTests_def t_def)
next
  case (PvUnbeat other)
  have "stopIfIdle (s\<lparr>pv_beatListeners := sdelete other (pv_beatListeners s)\<rparr>) = s\<lparr>pv_beatListeners := sdelete other (pv_beatListeners s)\<rparr>"
    using assms by (auto simp: PvUnbeat stopIfIdle_def sdelete_def filter_empty_conv)
  then show ?thesis using assms by (simp add: PvUnbeat unsubscribeBeat_def same_views_quiet)
next
  case (PvFlush x)
  then show ?thesis using assms
    by (auto simp: beat_or_quiet_def flushPacedSymbol_def getPacedSymbolSnapshot_def publish_symbol_entries split: option.split)
next
  case (PvSubscribe x l)
  then show ?thesis using assms(2) by (cases "jget (pv_entries s) x")
    (auto simp: beat_or_quiet_def subscribePacedSymbol_def Let_def getPacedSymbolSnapshot_def split: option.split)
next
  case (PvBeat other)
  then show ?thesis using assms(2) by (auto simp: beat_or_quiet_def subscribeBeat_def getPacedSymbolSnapshot_def split: option.split)
next
  case (PvUnsubscribe u)
  then show ?thesis using assms by (simp add: unsubscribe_quiet)
qed (use assms in \<open>simp_all add: data_quiet same_views_quiet\<close>)

text \<open>Bringing one symbol up to date paints it, and calls no beat listener.\<close>

lemma flush_paints:
  assumes "jget (pv_entries s) x \<noteq> None"
  shows "getPacedSymbolSnapshot x (flushPacedSymbol x s) = getSymbolSnapshot x (pv_store s)"
    and "y \<noteq> x \<Longrightarrow> getPacedSymbolSnapshot y (flushPacedSymbol x s) = getPacedSymbolSnapshot y s"
    and "memo_paced cb compute (PvFlush x) (s, v) = (flushPacedSymbol x s, v)"
proof -
  show "getPacedSymbolSnapshot x (flushPacedSymbol x s) = getSymbolSnapshot x (pv_store s)"
    "y \<noteq> x \<Longrightarrow> getPacedSymbolSnapshot y (flushPacedSymbol x s) = getPacedSymbolSnapshot y s"
    using assms by (auto simp: flushPacedSymbol_def getPacedSymbolSnapshot_def publish_symbol_entries split: option.split)
  obtain e where e: "jget (pv_entries s) x = Some e" using assms by blast
  have "pv_calls (flushPacedSymbol x s) = pv_calls s @ map (\<lambda>l. CallPaced l x)
      (if getSymbolSnapshot x (pv_store s) = pe_view e then [] else pe_listeners e)"
    by (simp add: flushPacedSymbol_def publish_symbol_def publish_def e Let_def)
  then show "memo_paced cb compute (PvFlush x) (s, v) = (flushPacedSymbol x s, v)"
    by (simp add: memo_paced_def Let_def image_iff)
qed

section \<open>A computation over painted views\<close>

text \<open>The component waits for the beat, and what it keeps is current.\<close>

definition in_step :: "(paced \<Rightarrow> 'r) \<Rightarrow> nat \<Rightarrow> paced \<times> 'r \<Rightarrow> bool" where
  "in_step compute cb m = (cb \<in> set (pv_beatListeners (fst m)) \<and> snd m = compute (fst m))"

locale painted_reader =
  fixes compute :: "paced \<Rightarrow> 'r" and reads :: "string set"
  assumes reads_only: "\<And>s s'. (\<And>x. x \<in> reads \<Longrightarrow> getPacedSymbolSnapshot x s = getPacedSymbolSnapshot x s') \<Longrightarrow> compute s = compute s'"
begin

lemma in_step_do:
  assumes "in_step compute cb m" and "left_to_beat cb reads (fst m) e"
  shows "in_step compute cb (memo_paced cb compute e m)"
proof -
  have q: "beat_or_quiet cb reads (fst m) (paced_do (fst m) e)"
    using assms by (intro paced_step) (simp_all add: in_step_def)
  have "compute (fst m) = compute (paced_do (fst m) e)"
    if "CallBeat cb \<notin> set (drop (length (pv_calls (fst m))) (pv_calls (paced_do (fst m) e)))"
    using q that by (intro reads_only) (simp add: beat_or_quiet_def)
  then show ?thesis using q assms(1) by (auto simp: in_step_def memo_paced_def beat_or_quiet_def Let_def)
qed

lemma in_step_run:
  assumes "in_step compute cb m" and "all_left_to_beat cb reads (fst m) es"
  shows "in_step compute cb (foldl (\<lambda>m e. memo_paced cb compute e m) m es)"
  using assms
proof (induction es arbitrary: m)
  case (Cons e es)
  have "fst (memo_paced cb compute e m) = paced_do (fst m) e" by (simp add: memo_paced_def Let_def)
  then show ?case using Cons.IH [OF in_step_do [OF Cons.prems(1)]] Cons.prems(2) by simp
qed simp

lemma subscribe_same: "compute (subscribeBeat cb s) = compute s"
  by (rule reads_only) (auto simp: subscribeBeat_def getPacedSymbolSnapshot_def split: option.split)

lemma in_step_subscribe: "in_step compute cb (subscribeBeat cb s, compute s)"
  by (simp add: in_step_def subscribe_same) (simp add: subscribeBeat_def)

end

end
