(* ===== verification/Hero_Panel.thy ===== *)
theory Hero_Panel
  imports Hero_Cards Board_Row Beat_Memo Calendar
begin

text \<open>
  The row of highlight cards as it lives on the page (src/client/Tckr.MarketWatch/src/pages/HeroCards.tsx,
  \<open>HeroCards\<close> and \<open>HeroCard\<close>): which symbols are on the cards is remembered from one price beat to
  the next, while every card reads the painted view of its symbol (theory Paced_Views) whenever it
  renders. The theory Hero_Cards has the picks themselves.

  The lemmas: as long as views are painted on the beat, the cards are the picks of what is painted
  and every label is true of the figure beside it; but a view that is brought up to date off the
  beat (opening a symbol does that) changes the figure and leaves the label.
\<close>

section \<open>A card\<close>

record hero_card =
  hc_kickerDay :: "string option"
  hc_badge :: string
  hc_badgeTone :: DeltaTone
  hc_badgeDirection :: RollDirection
  hc_label :: string
  hc_price :: cell_props
  hc_points :: "number list"
  hc_direction :: DeltaTone
  hc_delayed :: bool

definition upper_char :: "char \<Rightarrow> char" where
  "upper_char c = (let n = of_char c :: nat in if 97 \<le> n \<and> n \<le> 122 then char_of (n - 32) else c)"

text \<open>Of a day like \<open>Thu 24 Sep\<close>, the weekday.\<close>

definition kickerDay :: "string option \<Rightarrow> string option" where
  "kickerDay sessionDate =
     map_option (\<lambda>day. '' '' @ [CHR 0xC2, CHR 0xB7] @ '' '' @ map upper_char (hd (split_on (CHR '' '') day))) sessionDate"

definition spokenKicker :: "string \<Rightarrow> string option \<Rightarrow> string" where
  "spokenKicker kicker sessionDate =
     (case sessionDate of None \<Rightarrow> kicker | Some date \<Rightarrow> kicker @ '', '' @ date @ '' session'')"

definition hero_value_label :: "SymbolDefinition \<Rightarrow> SymbolView option \<Rightarrow> string exn" where
  "hero_value_label def view =
     (case view of
        Some v \<Rightarrow> bindE (tradedValue def (Some v)) (\<lambda>x. Inr (''EGP '' @ formatCompact x False))
      | None \<Rightarrow> Inr em_dash)"

definition hero_badge :: "figure_formats \<Rightarrow> HeroKind \<Rightarrow> string \<Rightarrow> number option \<Rightarrow> string" where
  "hero_badge ff kind valueLabel changePercent =
     (if kind = Active then valueLabel
      else case changePercent of None \<Rightarrow> em_dash | Some p \<Rightarrow> formatSignedPercent (ff_signed ff) p)"

definition hero_label :: "figure_formats \<Rightarrow> HeroPick \<Rightarrow> string option \<Rightarrow> SymbolView option \<Rightarrow> string \<Rightarrow> string" where
  "hero_label ff pick sessionDate view valueLabel =
     (let def = hk_definition pick;
          price = (case view of Some v \<Rightarrow> sv_price v | None \<Rightarrow> sd_referencePrice def);
          changePercent = map_option sv_changePercent view;
          said = spokenKicker (hk_kicker pick) sessionDate @ '': '' @ sd_symbol def @ '', '' @ price;
          base = (if hk_kind pick = Active then said @ '', traded value '' @ valueLabel
                  else case changePercent of
                    None \<Rightarrow> said
                  | Some p \<Rightarrow> said @ '', '' @ tone_word (sparklineDirection changePercent) @ '' '' @ ff_magnitude ff p @ ''%'')
      in if map_option sv_stream view = Some DELAYED then base @ '', delayed stream'' else base)"

definition HeroCard ::
    "figure_formats \<Rightarrow> paced \<Rightarrow> nat \<Rightarrow> number list option \<Rightarrow> string option \<Rightarrow> number list \<Rightarrow> HeroPick \<Rightarrow> hero_card exn" where
  "HeroCard ff s priceDecimals sessionTrend sessionDate history pick =
     (let def = hk_definition pick; view = getPacedSymbolSnapshot (sd_symbol def) s;
          price = (case view of Some v \<Rightarrow> sv_price v | None \<Rightarrow> sd_referencePrice def);
          changePercent = map_option sv_changePercent view
      in bindE (hero_value_label def view) (\<lambda>valueLabel. Inr
           \<lparr>hc_kickerDay = kickerDay sessionDate,
            hc_badge = hero_badge ff (hk_kind pick) valueLabel changePercent,
            hc_badgeTone = (if hk_kind pick = Active then Flat else percentTone changePercent),
            hc_badgeDirection = (case changePercent of Some p \<Rightarrow> if num_less p (Fin 0) then RollDown else RollUp | None \<Rightarrow> RollUp),
            hc_label = hero_label ff pick sessionDate view valueLabel,
            hc_price = \<lparr>cp_value = price, cp_decimals = priceDecimals, cp_align = None, cp_sign = False, cp_muted = (view = None),
              cp_override = flash_override changePercent, cp_indicateSign = False\<rparr>,
            hc_points = session_sparkline history (toPlotValue price) 26 sessionTrend,
            hc_direction = sparklineDirection changePercent,
            hc_delayed = (map_option sv_stream view = Some DELAYED)\<rparr>))"

text \<open>The closing bell's ref: whether the label's day arrives while the card is watched, and what the
  effect after a render with another day stores.\<close>

definition closedWhileWatching :: "bool \<Rightarrow> string option \<Rightarrow> bool" where
  "closedWhileWatching sawTrading sessionDate = (sawTrading \<and> sessionDate \<noteq> None)"

definition sawTrading_effect :: "string option \<Rightarrow> bool" where
  "sawTrading_effect sessionDate = (sessionDate = None)"

section \<open>The cards\<close>

text \<open>The callback the component gives \<open>subscribeBeat\<close>.\<close>

definition HERO_CB :: nat where
  "HERO_CB = 0"

record hero_panel =
  hp_paced :: paced
  hp_universe :: "SymbolDefinition list option"
  hp_picks :: "HeroPick list exn"

definition recompute_picks :: "SymbolDefinition list option \<Rightarrow> paced \<Rightarrow> HeroPick list exn" where
  "recompute_picks universe s = (case universe of Some symbols \<Rightarrow> pickHeroes s symbols | None \<Rightarrow> Inr [])"

definition mount_panel :: "paced \<Rightarrow> hero_panel" where
  "mount_panel s = \<lparr>hp_paced = s, hp_universe = None, hp_picks = Inr []\<rparr>"

text \<open>A render with another list: the picks are made anew, and the effects leave the beat and join it.\<close>

definition panel_universe :: "SymbolDefinition list option \<Rightarrow> hero_panel \<Rightarrow> hero_panel" where
  "panel_universe universe p =
     (if universe = hp_universe p then p
      else let left = (if hp_universe p = None then hp_paced p else unsubscribeBeat HERO_CB (hp_paced p))
           in \<lparr>hp_paced = (if universe = None then left else subscribeBeat HERO_CB left),
               hp_universe = universe, hp_picks = recompute_picks universe (hp_paced p)\<rparr>)"

text \<open>Whatever happens to the painted views; the picks are what is remembered between beats (theory Beat_Memo).\<close>

definition panel_paced :: "paced_event \<Rightarrow> hero_panel \<Rightarrow> hero_panel" where
  "panel_paced e p =
     (let (s, picks) = memo_paced HERO_CB (recompute_picks (hp_universe p)) e (hp_paced p, hp_picks p)
      in p\<lparr>hp_paced := s, hp_picks := picks\<rparr>)"

definition shown_cards ::
    "figure_formats \<Rightarrow> (string \<Rightarrow> nat) \<Rightarrow> (string \<Rightarrow> number list option) \<Rightarrow> string option \<Rightarrow> hero_panel \<Rightarrow> hero_card list exn" where
  "shown_cards ff decimals trends sessionDate p =
     bindE (hp_picks p) (mapE (\<lambda>pick. HeroCard ff (hp_paced p) (decimals (sd_symbol (hk_definition pick)))
       (trends (sd_symbol (hk_definition pick))) sessionDate [] pick))"

section \<open>The cards follow the beat\<close>

lemma mapE_cong: "(\<And>x. x \<in> set xs \<Longrightarrow> f x = g x) \<Longrightarrow> mapE f xs = mapE g xs"
  by (induction xs) simp_all

interpretation picks: painted_reader "recompute_picks (Some universe)" "sd_symbol ` set universe" for universe
proof
  fix s s'
  assume same: "\<And>x. x \<in> sd_symbol ` set universe \<Longrightarrow> getPacedSymbolSnapshot x s = getPacedSymbolSnapshot x s'"
  have "mapE (metric_of s) universe = mapE (metric_of s') universe"
    by (rule mapE_cong) (simp add: metric_of_def hero_change_def same)
  then show "recompute_picks (Some universe) s = recompute_picks (Some universe) s'"
    by (simp add: recompute_picks_def pickHeroes_def)
qed

definition panel_run :: "SymbolDefinition list \<Rightarrow> paced \<Rightarrow> paced_event list \<Rightarrow> hero_panel" where
  "panel_run universe s es = foldl (\<lambda>p e. panel_paced e p) (panel_universe (Some universe) (mount_panel s)) es"

lemma panel_run_memo:
  "hp_universe (panel_run universe s es) = Some universe \<and>
   (hp_paced (panel_run universe s es), hp_picks (panel_run universe s es)) =
     foldl (\<lambda>m e. memo_paced HERO_CB (recompute_picks (Some universe)) e m) (subscribeBeat HERO_CB s, recompute_picks (Some universe) s) es"
proof (induction es rule: rev_induct)
  case (snoc e es)
  have "panel_run universe s (es @ [e]) = panel_paced e (panel_run universe s es)" by (simp add: panel_run_def)
  then show ?case using snoc.IH by (simp add: panel_paced_def case_prod_unfold Let_def)
qed (simp add: panel_run_def panel_universe_def mount_panel_def)

lemma panel_run_in_step:
  assumes "all_left_to_beat HERO_CB (sd_symbol ` set universe) (subscribeBeat HERO_CB s) es"
  shows "hp_picks (panel_run universe s es) = pickHeroes (hp_paced (panel_run universe s es)) universe"
proof -
  have "in_step (recompute_picks (Some universe)) HERO_CB (hp_paced (panel_run universe s es), hp_picks (panel_run universe s es))"
    unfolding conjunct2 [OF panel_run_memo] by (rule picks.in_step_run [OF picks.in_step_subscribe]) (simp add: assms)
  then show ?thesis by (simp add: in_step_def recompute_picks_def)
qed

section \<open>Labels and figures\<close>

lemma kept_candidates: "set (fst (foldl (pick_step changeOf) st cs)) \<subseteq> set (fst st) \<union> set cs"
proof (induction cs arbitrary: st)
  case (Cons c cs)
  have "set (fst (pick_step changeOf st c)) \<subseteq> set (fst st) \<union> {c}" by (auto simp: pick_step_def Let_def split: prod.split)
  then show ?case using Cons.IH [of "pick_step changeOf st c"] by auto
qed simp

lemma kickers:
  assumes "pickHeroes s universe = Inr picks" and "pick \<in> set picks"
  shows "hk_kicker pick = (case hk_kind pick of Gainer \<Rightarrow> ''TOP GAINER'' | Loser \<Rightarrow> ''TOP LOSER'' | Active \<Rightarrow> ''MOST ACTIVE'')"
proof (cases "universe = []")
  case True
  then show ?thesis using assms by (simp add: pickHeroes_def)
next
  case False
  then obtain changeOf g l a where "picks = fst (foldl (pick_step changeOf) ([], [])
      [\<lparr>hk_kind = Gainer, hk_kicker = ''TOP GAINER'', hk_definition = g\<rparr>,
       \<lparr>hk_kind = Loser, hk_kicker = ''TOP LOSER'', hk_definition = l\<rparr>,
       \<lparr>hk_kind = Active, hk_kicker = ''MOST ACTIVE'', hk_definition = a\<rparr>])"
    using assms(1) by (cases "mapE (metric_of s) universe") (simp_all add: pickHeroes_def Let_def, blast)
  then show ?thesis using assms(2) kept_candidates [of changeOf "([], [])"] by fastforce
qed

lemma card_of_view:
  assumes "getPacedSymbolSnapshot (sd_symbol (hk_definition pick)) s = Some v" and "hk_kind pick \<noteq> Active"
    and "is_safe_integer (sv_volume v)"
  shows "\<exists>c. HeroCard ff s decimals trend date history pick = Inr c \<and>
    hc_badge c = formatSignedPercent (ff_signed ff) (sv_changePercent v) \<and> hc_badgeTone c = percentTone (Some (sv_changePercent v)) \<and>
    hc_direction c = sparklineDirection (Some (sv_changePercent v)) \<and> cp_value (hc_price c) = sv_price v"
proof -
  obtain x where "tradedValue (hk_definition pick) (Some v) = Inr x"
    using assms(3) by (cases "sv_volume v") (simp_all add: tradedValue_def multiplyByQuantity_def is_safe_integer_def)
  then show ?thesis using assms(1, 2) by (simp add: HeroCard_def hero_value_label_def hero_badge_def Let_def)
qed

text \<open>A card's label is true of the figure beside it: a top gainer's is green and up, a top loser's is red
  and down.\<close>

definition kicker_fits :: "HeroPick \<Rightarrow> hero_card \<Rightarrow> bool" where
  "kicker_fits pick c =
     (case hk_kind pick of
        Gainer \<Rightarrow> hc_badgeTone c = Up \<and> hc_direction c = Up
      | Loser \<Rightarrow> hc_badgeTone c = Down \<and> hc_direction c = Down
      | Active \<Rightarrow> hc_badgeTone c = Flat)"

lemma true_card_fits:
  assumes "card_true s universe pick" and "\<forall>d \<in> set universe. row_sound s d"
  shows "\<exists>c. HeroCard ff s decimals trend date history pick = Inr c \<and> kicker_fits pick c"
proof -
  define d where "d = hk_definition pick"
  have sound: "row_sound s d" using assms by (auto simp: card_true_def Let_def d_def)
  obtain x where x: "hero_value_label d (getPacedSymbolSnapshot (sd_symbol d) s) = Inr x"
    using tradedValue_sound [OF sound] by (cases "getPacedSymbolSnapshot (sd_symbol d) s") (auto simp: hero_value_label_def)
  then obtain c where c: "HeroCard ff s decimals trend date history pick = Inr c"
      "hc_badgeTone c = (if hk_kind pick = Active then Flat else percentTone (map_option sv_changePercent (getPacedSymbolSnapshot (sd_symbol d) s)))"
      "hc_direction c = sparklineDirection (map_option sv_changePercent (getPacedSymbolSnapshot (sd_symbol d) s))"
    by (simp add: HeroCard_def Let_def d_def)
  obtain p where p: "hero_change s (sd_symbol d) = Fin p" using change_sound [OF sound] by blast
  have f: "board_figure ColChangePercent s d = p" by (simp add: change_figure [symmetric] p)
  have view: "map_option sv_changePercent (getPacedSymbolSnapshot (sd_symbol d) s) = Some (Fin p)" if "p \<noteq> 0"
    using p that by (auto simp: hero_change_def split: option.splits)
  show ?thesis using assms(1) c view threshold_pos
    by (cases "hk_kind pick")
      (auto simp: kicker_fits_def card_true_def Let_def d_def [symmetric] f percentTone_def isEffectivelyUnchanged_def deltaTone_def
        sparklineDirection_def)
qed

text \<open>Claim C23: as long as prices are painted on the beat, the highlight cards never contradict
  themselves. Whatever data arrive while the board is watched, however many beats pass and whoever else
  starts or stops watching: the cards are the picks of exactly what is painted, each label is true of
  the whole board as painted, and each card renders with a figure of its label's direction and colour.\<close>

theorem cards_true_on_the_beat:
  assumes "universe \<noteq> []" and "all_left_to_beat HERO_CB (sd_symbol ` set universe) (subscribeBeat HERO_CB s) es"
    and "p = panel_run universe s es" and "\<forall>d \<in> set universe. row_sound (hp_paced p) d"
  shows "\<exists>picks. hp_picks p = Inr picks \<and> pickHeroes (hp_paced p) universe = Inr picks \<and>
    (\<forall>pick \<in> set picks. card_true (hp_paced p) universe pick \<and>
       (\<exists>c. HeroCard ff (hp_paced p) decimals trend date history pick = Inr c \<and> kicker_fits pick c))"
proof -
  have step: "hp_picks p = pickHeroes (hp_paced p) universe"
    using panel_run_in_step [OF assms(2)] by (simp add: assms(3))
  obtain picks where "pickHeroes (hp_paced p) universe = Inr picks" "\<forall>pick \<in> set picks. card_true (hp_paced p) universe pick"
    using hero_labels_true [OF assms(4, 1)] by blast
  then show ?thesis using step true_card_fits assms(4) by metis
qed

text \<open>Claim C9: the cards' code promises that a label and its number are one read and can never
  contradict each other, and opening a symbol breaks that. Take any board whose cards have followed the
  beat, a card that says TOP GAINER, its symbol watched, and a store that has since learned that it
  has fallen: bringing the symbol's view up to date off the beat, as its detail pane does, leaves the
  cards as they were, and that card now shows the fall, in red, under TOP GAINER.\<close>

theorem opening_unseats_label:
  assumes "all_left_to_beat HERO_CB (sd_symbol ` set universe) (subscribeBeat HERO_CB s) es" and "p = panel_run universe s es"
    and "hp_picks p = Inr picks" and "pick \<in> set picks" and "hk_kind pick = Gainer"
    and "jget (pv_entries (hp_paced p)) (sd_symbol (hk_definition pick)) \<noteq> None"
    and "getSymbolSnapshot (sd_symbol (hk_definition pick)) (pv_store (hp_paced p)) = Some v"
    and "sv_changePercent v = Fin q" and "q \<le> - UNCHANGED_PERCENT_THRESHOLD" and "is_safe_integer (sv_volume v)"
  shows "hp_picks (panel_paced (PvFlush (sd_symbol (hk_definition pick))) p) = Inr picks \<and> hk_kicker pick = ''TOP GAINER'' \<and>
    (\<exists>c. HeroCard ff (hp_paced (panel_paced (PvFlush (sd_symbol (hk_definition pick))) p)) decimals trend date history pick = Inr c \<and>
       hc_badge c = ff_signed ff (Fin q) @ ''%'' \<and> hc_badgeTone c = Down \<and> \<not> kicker_fits pick c)"
proof -
  let ?x = "sd_symbol (hk_definition pick)"
  define t where "t = flushPacedSymbol ?x (hp_paced p)"
  have step: "hp_picks p = pickHeroes (hp_paced p) universe" using panel_run_in_step [OF assms(1)] by (simp add: assms(2))
  have view: "getPacedSymbolSnapshot ?x t = Some v" using flush_paints(1) [OF assms(6)] by (simp add: t_def assms(7))
  have flush: "panel_paced (PvFlush ?x) p = p\<lparr>hp_paced := t\<rparr>"
    by (simp add: panel_paced_def flush_paints(3) [OF assms(6)] t_def)
  have "hk_kicker pick = ''TOP GAINER''" using kickers [OF _ assms(4)] step by (simp add: assms(3, 5))
  moreover have "q < 0" using assms(9) threshold_pos by simp
  then have "\<not> isEffectivelyUnchanged (Fin q)" "percentTone (Some (Fin q)) = Down"
    using assms(9) by (simp_all add: isEffectivelyUnchanged_def percentTone_def deltaTone_def)
  moreover have "hk_kind pick \<noteq> Active" by (simp add: assms(5))
  ultimately show ?thesis
    using card_of_view [OF view _ assms(10), of ff decimals trend date history]
    by (auto simp: flush assms(3, 5, 8) formatSignedPercent_def kicker_fits_def)
qed

section \<open>A day on the board\<close>

definition moved_snapshot :: "decimal \<Rightarrow> Snapshot" where
  "moved_snapshot price = still_snapshot\<lparr>sn_stream := LIVE, sn_price := price\<rparr>"

definition risen_board :: paced where
  "risen_board = paced_run (new_paced empty_store 0) [PvPrime [comi], PvSnapshot (moved_snapshot ''84.00'') 0, PvSubscribe ''COMI'' 5]"

definition one_row :: "SymbolDefinition list" where
  "one_row = [shop ''COMI'' ''Commercial'']"

text \<open>After a beat the store learns of a fall that is not painted yet.\<close>

definition fallen_panel :: hero_panel where
  "fallen_panel = panel_run one_row risen_board [PvBeatNow, PvSnapshot (moved_snapshot ''76.00'') 1]"

definition fallen_board :: paced where
  "fallen_board = paced_run (subscribeBeat HERO_CB risen_board) [PvBeatNow, PvSnapshot (moved_snapshot ''76.00'') 1]"

lemma fallen_left_to_beat:
  "all_left_to_beat HERO_CB (sd_symbol ` set one_row) (subscribeBeat HERO_CB risen_board)
     [PvBeatNow, PvSnapshot (moved_snapshot ''76.00'') 1]"
proof -
  have "jget (pv_entries (paced_do (subscribeBeat HERO_CB risen_board) PvBeatNow)) ''COMI'' \<noteq> None" by code_simp
  then show ?thesis by (simp add: one_row_def shop_def watching_def)
qed

lemma fallen_panel_eq: "hp_paced fallen_panel = fallen_board" "hp_picks fallen_panel = pickHeroes fallen_board one_row"
proof -
  show p: "hp_paced fallen_panel = fallen_board"
    by (simp add: fallen_panel_def fallen_board_def panel_run_def paced_run_def panel_paced_def panel_universe_def mount_panel_def
        memo_paced_def Let_def)
  show "hp_picks fallen_panel = pickHeroes fallen_board one_row"
    using panel_run_in_step [OF fallen_left_to_beat] by (simp add: p [symmetric] fallen_panel_def [symmetric])
qed

lemma fallen_board_picks:
  "(case pickHeroes fallen_board one_row of
      Inr picks \<Rightarrow> map (\<lambda>k. (hk_kind k, hk_kicker k, sd_symbol (hk_definition k))) picks | Inl _ \<Rightarrow> []) = [(Gainer, ''TOP GAINER'', ''COMI'')]"
  by code_simp

lemma fallen_board_views:
  "map_option (\<lambda>v. (sv_price v, sv_changePercent v, sv_volume v)) (getPacedSymbolSnapshot ''COMI'' fallen_board) = Some (''84.00'', Fin 5, Fin 1000)"
  "map_option (\<lambda>v. (sv_changePercent v, sv_volume v)) (getSymbolSnapshot ''COMI'' (pv_store fallen_board)) = Some (Fin (- 5), Fin 1000)"
  by code_simp+

lemma fallen_pick:
  obtains pick where "hp_picks fallen_panel = Inr [pick]" and "hk_kind pick = Gainer" and "hk_kicker pick = ''TOP GAINER''"
    and "sd_symbol (hk_definition pick) = ''COMI''"
  using fallen_board_picks by (cases "hp_picks fallen_panel") (auto simp: fallen_panel_eq)

lemma fallen_views:
  obtains v w where "getPacedSymbolSnapshot ''COMI'' (hp_paced fallen_panel) = Some v" and "sv_price v = ''84.00''"
    and "sv_changePercent v = Fin 5" and "sv_volume v = Fin 1000"
    and "getSymbolSnapshot ''COMI'' (pv_store (hp_paced fallen_panel)) = Some w" and "sv_changePercent w = Fin (- 5)" and "sv_volume w = Fin 1000"
  unfolding fallen_panel_eq using fallen_board_views by (cases "getPacedSymbolSnapshot ''COMI'' fallen_board";
    cases "getSymbolSnapshot ''COMI'' (pv_store fallen_board)") auto

theorem cards_true_on_the_beat_witness:
  "\<exists>pick c. hp_picks fallen_panel = Inr [pick] \<and> hk_kicker pick = ''TOP GAINER'' \<and>
     HeroCard plain_formats (hp_paced fallen_panel) 2 None None [] pick = Inr c \<and> hc_badge c = ''+0.75%'' \<and> hc_badgeTone c = Up"
proof -
  let ?d = "shop ''COMI'' ''Commercial''"
  have d: "sd_symbol ?d = ''COMI''" by (simp add: shop_def)
  obtain v where v: "getPacedSymbolSnapshot ''COMI'' (hp_paced fallen_panel) = Some v" "sv_price v = ''84.00''"
      "sv_changePercent v = Fin 5" "sv_volume v = Fin 1000" using fallen_views by metis
  have "isDecimal ''84.00''" "is_safe_integer (Fin 1000)" by code_simp+
  then have "row_sound (hp_paced fallen_panel) ?d"
    using double_rep_of_int [of 5] by (auto simp: row_sound_def row_price_def row_volume_def d v intro!: exI [of _ 5])
  moreover have "set one_row = {?d}" by (simp add: one_row_def)
  ultimately have sound: "\<forall>d \<in> set one_row. row_sound (hp_paced fallen_panel) d" by (metis singletonD)
  obtain pick where pick: "hp_picks fallen_panel = Inr [pick]" "hk_kind pick = Gainer" "hk_kicker pick = ''TOP GAINER''"
      "sd_symbol (hk_definition pick) = ''COMI''" by (rule fallen_pick)
  have ne: "one_row \<noteq> []" by (simp add: one_row_def)
  from cards_true_on_the_beat [OF ne fallen_left_to_beat fallen_panel_def sound, of plain_formats 2 None None "[]"]
  obtain c where c: "HeroCard plain_formats (hp_paced fallen_panel) 2 None None [] pick = Inr c" "kicker_fits pick c"
    using pick(1) by auto
  have "hc_badge c = formatSignedPercent (ff_signed plain_formats) (Fin 5)"
    using c(1) pick(2, 4) v by (auto simp: HeroCard_def Let_def hero_badge_def bindE_def split: sum.splits)
  also have "\<dots> = ''+0.75%''" by code_simp
  finally show ?thesis using pick c by (auto simp: kicker_fits_def)
qed

theorem opening_unseats_label_witness:
  "\<exists>pick c. hp_picks (panel_paced (PvFlush ''COMI'') fallen_panel) = Inr [pick] \<and> hk_kicker pick = ''TOP GAINER'' \<and> hc_badgeTone c = Down \<and>
     HeroCard plain_formats (hp_paced (panel_paced (PvFlush ''COMI'') fallen_panel)) 2 None None [] pick = Inr c"
proof -
  obtain pick where pick: "hp_picks fallen_panel = Inr [pick]" "hk_kind pick = Gainer" "sd_symbol (hk_definition pick) = ''COMI''"
    by (rule fallen_pick)
  obtain v where v: "getSymbolSnapshot ''COMI'' (pv_store (hp_paced fallen_panel)) = Some v" "sv_changePercent v = Fin (- 5)"
      "sv_volume v = Fin 1000" using fallen_views by metis
  have t: "- 5 \<le> - UNCHANGED_PERCENT_THRESHOLD" "is_safe_integer (Fin 1000)" by code_simp+
  have x: "jget (pv_entries (hp_paced fallen_panel)) ''COMI'' \<noteq> None" unfolding fallen_panel_eq by code_simp
  from opening_unseats_label [OF fallen_left_to_beat fallen_panel_def pick(1) _ pick(2), of v "- 5" plain_formats 2 None None "[]"]
  show ?thesis using t x by (auto simp: pick v)
qed

end
