(* ===== verification/Board_Sort.thy ===== *)
theory Board_Sort
  imports Board_Table Beat_Memo
begin

text \<open>
  The board's order as it lives on the page: src/client/Tckr.MarketWatch/src/pages/useBoardSort.ts. The
  sorted rows are remembered and sorted again on a header click, on a preset, when the search gives
  other rows, and, while a sort is active, on every price beat (theory Beat_Memo). The theory
  Board_Table has the comparison and the sort themselves.

  The lemmas: whatever the user sorts by and searches for, and whatever arrives, the rows on show are
  ranked by the figures on show as long as prices are painted on the beat; opening a symbol, which
  paints it off the beat, leaves a board whose order its own numbers contradict.
\<close>

section \<open>The hook\<close>

text \<open>The callback given to \<open>subscribeBeat\<close>.\<close>

definition SORT_CB :: nat where
  "SORT_CB = 1"

text \<open>A sort state is an object: a preset's own one, or one that a header click made.\<close>

record board_sort =
  bo_paced :: paced
  bo_filtered :: "SymbolDefinition list"
  bo_sortState :: "SortState option"
  bo_fromPreset :: bool
  bo_sorted :: "SymbolDefinition list exn"

definition mount_sort :: "paced \<Rightarrow> SymbolDefinition list \<Rightarrow> board_sort" where
  "mount_sort s filtered =
     \<lparr>bo_paced = s, bo_filtered = filtered, bo_sortState = None, bo_fromPreset = True, bo_sorted = Inr filtered\<rparr>"

definition board_rank :: "(string \<Rightarrow> string \<Rightarrow> int) \<Rightarrow> board_sort \<Rightarrow> paced \<Rightarrow> SymbolDefinition list exn" where
  "board_rank localeCompare b s = sorted_rows localeCompare s (bo_filtered b) (bo_sortState b)"

text \<open>The effect: the beat is waited for exactly while a sort is active.\<close>

definition sort_effect :: "bool \<Rightarrow> board_sort \<Rightarrow> board_sort" where
  "sort_effect hadActiveSort b =
     (let hasActiveSort = (bo_sortState b \<noteq> None)
      in if hasActiveSort = hadActiveSort then b
         else b\<lparr>bo_paced := (if hasActiveSort then subscribeBeat SORT_CB (bo_paced b) else unsubscribeBeat SORT_CB (bo_paced b))\<rparr>)"

text \<open>Setting the object that is set already renders nothing.\<close>

definition setSortState :: "(string \<Rightarrow> string \<Rightarrow> int) \<Rightarrow> SortState option \<Rightarrow> bool \<Rightarrow> board_sort \<Rightarrow> board_sort" where
  "setSortState localeCompare sortState fromPreset b =
     (if sortState = bo_sortState b \<and> (sortState = None \<or> fromPreset \<and> bo_fromPreset b) then b
      else let b1 = b\<lparr>bo_sortState := sortState, bo_fromPreset := fromPreset\<rparr>
           in sort_effect (bo_sortState b \<noteq> None) (b1\<lparr>bo_sorted := board_rank localeCompare b1 (bo_paced b1)\<rparr>))"

definition sort_filtered :: "(string \<Rightarrow> string \<Rightarrow> int) \<Rightarrow> SymbolDefinition list \<Rightarrow> board_sort \<Rightarrow> board_sort" where
  "sort_filtered localeCompare filtered b =
     (let b1 = b\<lparr>bo_filtered := filtered\<rparr> in b1\<lparr>bo_sorted := board_rank localeCompare b1 (bo_paced b1)\<rparr>)"

definition sort_paced :: "(string \<Rightarrow> string \<Rightarrow> int) \<Rightarrow> paced_event \<Rightarrow> board_sort \<Rightarrow> board_sort" where
  "sort_paced localeCompare e b =
     (let (s, rows) = memo_paced SORT_CB (board_rank localeCompare b) e (bo_paced b, bo_sorted b)
      in b\<lparr>bo_paced := s, bo_sorted := rows\<rparr>)"

datatype sort_event = SortPaced paced_event | HeaderClicked SortColumn | PresetClicked PresetSpec | FilteredTo "SymbolDefinition list"

fun sort_do :: "(string \<Rightarrow> string \<Rightarrow> int) \<Rightarrow> board_sort \<Rightarrow> sort_event \<Rightarrow> board_sort" where
  "sort_do lc b (SortPaced e) = sort_paced lc e b"
| "sort_do lc b (HeaderClicked col) = setSortState lc (handleSort col (bo_sortState b)) False b"
| "sort_do lc b (PresetClicked preset) = setSortState lc (pr_sort preset) True b"
| "sort_do lc b (FilteredTo filtered) = sort_filtered lc filtered b"

definition sort_run :: "(string \<Rightarrow> string \<Rightarrow> int) \<Rightarrow> board_sort \<Rightarrow> sort_event list \<Rightarrow> board_sort" where
  "sort_run lc b es = foldl (sort_do lc) b es"

section \<open>The order follows the beat\<close>

lemma sorted_rows_reads:
  assumes "\<And>d. d \<in> set filtered \<Longrightarrow> getPacedSymbolSnapshot (sd_symbol d) s = getPacedSymbolSnapshot (sd_symbol d) s'"
  shows "sorted_rows lc s filtered order = sorted_rows lc s' filtered order"
proof (cases order)
  case (Some st)
  define cmp where "cmp = (\<lambda>s a b. bindE (compareBy lc (st_column st) s a b) (\<lambda>n. Inr ((if st_direction st = Asc then 1 else - 1) * n :: int)))"
  have same: "cmp s a b = cmp s' a b" if "a \<in> set filtered" "b \<in> set filtered" for a b
    unfolding cmp_def compareBy_def assms [OF that(1)] assms [OF that(2)] ..
  have "mapE (\<lambda>x. cmp s x x) filtered = mapE (\<lambda>x. cmp s' x x) filtered"
  proof -
    have "mapE (\<lambda>x. cmp s x x) xs = mapE (\<lambda>x. cmp s' x x) xs" if "set xs \<subseteq> set filtered" for xs
      using that by (induction xs) (simp_all add: same)
    then show ?thesis by simp
  qed
  moreover have "sort_by (\<lambda>a b. case cmp s a b of Inr n \<Rightarrow> n | Inl _ \<Rightarrow> 0) filtered =
      sort_by (\<lambda>a b. case cmp s' a b of Inr n \<Rightarrow> n | Inl _ \<Rightarrow> 0) filtered"
    by (rule sort_by_cong) (simp add: same)
  moreover have "sorted_rows lc t filtered order = sort_exn (cmp t) filtered" for t
    unfolding Some sorted_rows_def cmp_def Let_def option.case ..
  ultimately show ?thesis by (simp add: sort_exn_def)
qed (simp add: sorted_rows_def)

interpretation rank: painted_reader "board_rank lc b" "sd_symbol ` set (bo_filtered b)" for lc b
  by unfold_locales (auto simp: board_rank_def intro!: sorted_rows_reads)

definition sort_in_step :: "(string \<Rightarrow> string \<Rightarrow> int) \<Rightarrow> board_sort \<Rightarrow> bool" where
  "sort_in_step lc b =
     (bo_sorted b = board_rank lc b (bo_paced b) \<and> (bo_sortState b \<noteq> None \<longrightarrow> SORT_CB \<in> set (pv_beatListeners (bo_paced b))))"

text \<open>Steps that leave the figures on show to the beat; a click or another list is always one.\<close>

fun sort_left_to_beat :: "board_sort \<Rightarrow> sort_event \<Rightarrow> bool" where
  "sort_left_to_beat b (SortPaced e) = left_to_beat SORT_CB (sd_symbol ` set (bo_filtered b)) (bo_paced b) e"
| "sort_left_to_beat b _ = True"

fun sorts_left_to_beat :: "(string \<Rightarrow> string \<Rightarrow> int) \<Rightarrow> board_sort \<Rightarrow> sort_event list \<Rightarrow> bool" where
  "sorts_left_to_beat lc b [] = True"
| "sorts_left_to_beat lc b (e # es) = (sort_left_to_beat b e \<and> sorts_left_to_beat lc (sort_do lc b e) es)"

lemma rank_fields [simp]:
  "board_rank lc (b\<lparr>bo_sorted := r\<rparr>) = board_rank lc b" "board_rank lc (b\<lparr>bo_paced := s\<rparr>) = board_rank lc b"
  by (simp_all add: board_rank_def fun_eq_iff)

lemma rank_unsorted: "bo_sortState b = None \<Longrightarrow> board_rank lc b s = Inr (bo_filtered b)"
  by (simp add: board_rank_def sorted_rows_def)

lemma in_step_sorted:
  assumes "bo_sortState b \<noteq> None"
  shows "sort_in_step lc b = in_step (board_rank lc b) SORT_CB (bo_paced b, bo_sorted b)"
  using assms by (auto simp: sort_in_step_def in_step_def)

lemma effect_in_step:
  assumes "hadActiveSort \<Longrightarrow> SORT_CB \<in> set (pv_beatListeners (bo_paced b))" and "bo_sorted b = board_rank lc b (bo_paced b)"
  shows "sort_in_step lc (sort_effect hadActiveSort b)"
proof (cases "bo_sortState b = None")
  case True
  then show ?thesis using assms by (simp add: sort_in_step_def sort_effect_def Let_def rank_unsorted)
next
  case False
  then show ?thesis using assms rank.in_step_subscribe [of lc b SORT_CB "bo_paced b"]
    by (simp add: sort_in_step_def sort_effect_def Let_def in_step_def)
qed

lemma set_in_step:
  assumes "sort_in_step lc b"
  shows "sort_in_step lc (setSortState lc sortState fromPreset b)"
proof (cases "sortState = bo_sortState b \<and> (sortState = None \<or> fromPreset \<and> bo_fromPreset b)")
  case True
  then show ?thesis using assms unfolding setSortState_def if_P [OF True] by simp
next
  case False
  then show ?thesis using assms unfolding setSortState_def if_not_P [OF False] Let_def
    by (intro effect_in_step) (auto simp: sort_in_step_def)
qed

lemma sort_step:
  assumes "sort_in_step lc b" and "sort_left_to_beat b e"
  shows "sort_in_step lc (sort_do lc b e)"
proof (cases e)
  case (SortPaced pe)
  show ?thesis
  proof (cases "bo_sortState b = None")
    case True
    then show ?thesis using assms(1)
      by (simp add: SortPaced sort_paced_def sort_in_step_def memo_paced_def rank_unsorted Let_def)
  next
    case False
    have "in_step (board_rank lc b) SORT_CB (memo_paced SORT_CB (board_rank lc b) pe (bo_paced b, bo_sorted b))"
      using rank.in_step_do [of lc b SORT_CB "(bo_paced b, bo_sorted b)" pe] assms by (simp add: SortPaced in_step_sorted [OF False])
    then show ?thesis using False by (simp add: SortPaced sort_paced_def sort_in_step_def in_step_def case_prod_unfold Let_def)
  qed
next
  case (FilteredTo filtered)
  then show ?thesis using assms(1) by (simp add: sort_filtered_def sort_in_step_def Let_def)
qed (use assms(1) in \<open>simp_all add: set_in_step\<close>)

lemma sort_run_in_step:
  assumes "sort_in_step lc b" and "sorts_left_to_beat lc b es"
  shows "sort_in_step lc (sort_run lc b es)"
  using assms by (induction es arbitrary: b) (simp_all add: sort_run_def sort_step)

lemma sort_mounts: "sort_in_step lc (mount_sort s filtered)"
  by (simp add: sort_in_step_def mount_sort_def rank_unsorted)

text \<open>Claim C8: the board is ranked by what it shows, at all times. Whatever is searched for and sorted by,
  on headers or presets, whatever data arrive for the rows on show and however many beats pass, as long as
  prices are painted on the beat: the board shows exactly the rows the search gave, in exchange order if no
  sort is set, and otherwise in that column's order, ascending or descending, by the very
  figures on show (the exact price, change, percentage, volume or traded value, the collation for
  texts), rows that are equal in it staying as they were given.\<close>

theorem board_ranked_by_what_it_shows:
  assumes "comparator localeCompare" and "sorts_left_to_beat localeCompare (mount_sort s filtered) es"
    and "b = sort_run localeCompare (mount_sort s filtered) es" and "\<forall>d \<in> set (bo_filtered b). row_sound (bo_paced b) d"
  shows "\<exists>rows. bo_sorted b = Inr rows \<and> mset rows = mset (bo_filtered b) \<and>
    (case bo_sortState b of
       None \<Rightarrow> rows = bo_filtered b
     | Some order \<Rightarrow>
         sorted_wrt (\<lambda>x y. (if st_direction order = Asc then 1 else - 1) * row_order localeCompare (st_column order) (bo_paced b) x y \<le> 0) rows \<and>
         (\<forall>k. filter (\<lambda>d. row_order localeCompare (st_column order) (bo_paced b) k d = 0) rows =
              filter (\<lambda>d. row_order localeCompare (st_column order) (bo_paced b) k d = 0) (bo_filtered b)))"
proof -
  have step: "bo_sorted b = sorted_rows localeCompare (bo_paced b) (bo_filtered b) (bo_sortState b)"
    using sort_run_in_step [OF sort_mounts assms(2)] by (simp add: assms(3) sort_in_step_def board_rank_def)
  show ?thesis
  proof (cases "bo_sortState b")
    case None
    then show ?thesis by (simp add: step sorted_rows_def)
  next
    case (Some order)
    then show ?thesis using board_order [OF assms(1, 4) refl, of order] by (auto simp: step)
  qed
qed

text \<open>The hook promises that a sorted board never shows an order its own numbers contradict. Opening a symbol
  paints its newest figure at once and sorts nothing: a row that has overtaken another since the last
  beat stays below it, with the higher number, for the rest of the ten seconds.\<close>

theorem opening_breaks_ranking:
  assumes "bo_sorted b = Inr (xs @ a # ys @ d # zs)" and "sd_symbol a \<noteq> sd_symbol d"
    and "jget (pv_entries (bo_paced b)) (sd_symbol d) \<noteq> None"
    and "getSymbolSnapshot (sd_symbol d) (pv_store (bo_paced b)) = Some v" and "sv_changePercent v = Fin q"
    and "board_figure ColChangePercent (bo_paced b) a < q"
  shows "bo_sorted (sort_do lc b (SortPaced (PvFlush (sd_symbol d)))) = bo_sorted b \<and>
    board_figure ColChangePercent (bo_paced (sort_do lc b (SortPaced (PvFlush (sd_symbol d))))) a <
    board_figure ColChangePercent (bo_paced (sort_do lc b (SortPaced (PvFlush (sd_symbol d))))) d"
proof -
  have b: "sort_do lc b (SortPaced (PvFlush (sd_symbol d))) = b\<lparr>bo_paced := flushPacedSymbol (sd_symbol d) (bo_paced b)\<rparr>"
    unfolding sort_do.simps sort_paced_def flush_paints(3) [OF assms(3)] by simp
  show ?thesis using assms(6) flush_paints(2) [OF assms(3, 2)]
    unfolding b by (simp add: board_figure_def Let_def flush_paints(1) [OF assms(3)] assms(4, 5))
qed

section \<open>Two rows\<close>

definition snapshot_of :: "string \<Rightarrow> decimal \<Rightarrow> Snapshot" where
  "snapshot_of symbol price =
     \<lparr>sn_symbol = symbol, sn_stream = LIVE, sn_price = price, sn_change = ''0'', sn_changePercent = ''0'',
      sn_open = ''80.00'', sn_previousClose = Some ''80.00'', sn_high = price, sn_low = price, sn_volume = of_count 1000,
      sn_lastEventId = ''1'', sn_exchangeTimestamp = ''2026-03-02T10:00:00.000Z'', sn_snapshotAge = Fin 0, sn_simulated = False\<rparr>"

definition two_symbols :: "SymbolDefinition list" where
  "two_symbols = [shop ''EAST'' ''Eastern'', shop ''COMI'' ''Commercial'']"

definition gainers :: PresetSpec where
  "gainers = PRESETS ! 2"

definition two_row_board :: paced where
  "two_row_board = paced_run (new_paced empty_store 0)
     [PvPrime [comi, (''EAST'', ''Eastern'', ''80.00'')], PvSnapshot (snapshot_of ''EAST'' ''84.00'') 0, PvSnapshot (snapshot_of ''COMI'' ''80.00'') 0,
      PvSubscribe ''EAST'' 5, PvSubscribe ''COMI'' 6]"

definition two_row_events :: "sort_event list" where
  "two_row_events = [PresetClicked gainers, SortPaced PvBeatNow, SortPaced (PvSnapshot (snapshot_of ''COMI'' ''88.00'') 1)]"

abbreviation by_size :: "string \<Rightarrow> string \<Rightarrow> int" where
  "by_size x y \<equiv> int (length x) - int (length y)"

lemma two_rows_run:
  "bo_paced (sort_run by_size (mount_sort two_row_board two_symbols) two_row_events) =
     paced_run (subscribeBeat SORT_CB two_row_board) [PvBeatNow, PvSnapshot (snapshot_of ''COMI'' ''88.00'') 1]"
  "bo_filtered (sort_run by_size (mount_sort two_row_board two_symbols) two_row_events) = two_symbols"
  "bo_sortState (sort_run by_size (mount_sort two_row_board two_symbols) two_row_events) = Some \<lparr>st_column = ColChangePercent, st_direction = Desc\<rparr>"
  by (simp_all add: sort_run_def two_row_events_def mount_sort_def setSortState_def sort_effect_def sort_paced_def memo_paced_def paced_run_def
      gainers_def PRESETS_def Let_def)

definition two_rows_painted :: paced where
  "two_rows_painted = paced_run (subscribeBeat SORT_CB two_row_board) [PvBeatNow, PvSnapshot (snapshot_of ''COMI'' ''88.00'') 1]"

lemma two_rows_left_to_beat: "sorts_left_to_beat by_size (mount_sort two_row_board two_symbols) two_row_events"
proof -
  have "jget (pv_entries (paced_do (subscribeBeat SORT_CB two_row_board) PvBeatNow)) ''COMI'' \<noteq> None"
    "jget (pv_entries (paced_do (subscribeBeat SORT_CB two_row_board) PvBeatNow)) ''EAST'' \<noteq> None" by code_simp+
  then show ?thesis
    by (simp add: two_row_events_def mount_sort_def setSortState_def sort_effect_def sort_paced_def memo_paced_def gainers_def PRESETS_def
        Let_def two_symbols_def shop_def watching_def)
qed

lemma two_rows_views:
  "map (\<lambda>x. map_option (\<lambda>v. (sv_price v, sv_changePercent v, sv_volume v)) (getPacedSymbolSnapshot x two_rows_painted)) [''EAST'', ''COMI''] =
     [Some (''84.00'', Fin 5, Fin 1000), Some (''80.00'', Fin 0, Fin 1000)]"
  "map_option sv_changePercent (getSymbolSnapshot ''COMI'' (pv_store two_rows_painted)) = Some (Fin 10)"
  "(case sorted_rows by_size two_rows_painted two_symbols (Some \<lparr>st_column = ColChangePercent, st_direction = Desc\<rparr>) of
      Inr rows \<Rightarrow> map sd_symbol rows | Inl _ \<Rightarrow> []) = [''EAST'', ''COMI'']"
  by code_simp+

lemma two_rows_sound: "\<forall>d \<in> set two_symbols. row_sound two_rows_painted d"
proof -
  have n: "isDecimal ''84.00''" "isDecimal ''80.00''" "is_safe_integer (Fin 1000)" by code_simp+
  show ?thesis using two_rows_views(1) double_rep_of_int [of 5] double_rep_of_int [of 0] n
    by (auto simp: two_symbols_def shop_def row_sound_def row_price_def row_volume_def)
qed

theorem board_ranked_by_what_it_shows_witness:
  "\<exists>rows. bo_sorted (sort_run by_size (mount_sort two_row_board two_symbols) two_row_events) = Inr rows \<and> map sd_symbol rows = [''EAST'', ''COMI'']"
proof -
  have c: "comparator by_size" by (rule by_length)
  have painted: "bo_paced (sort_run by_size (mount_sort two_row_board two_symbols) two_row_events) = two_rows_painted"
    by (simp add: two_rows_run two_rows_painted_def)
  obtain rows where rows: "bo_sorted (sort_run by_size (mount_sort two_row_board two_symbols) two_row_events) = Inr rows"
    using board_ranked_by_what_it_shows [OF c two_rows_left_to_beat refl] two_rows_sound by (auto simp: painted two_rows_run(2))
  have "sort_in_step by_size (sort_run by_size (mount_sort two_row_board two_symbols) two_row_events)"
    by (rule sort_run_in_step [OF sort_mounts two_rows_left_to_beat])
  then show ?thesis using two_rows_views(3) by (simp add: sort_in_step_def board_rank_def painted two_rows_run(2, 3) rows [symmetric])
      (cases "sorted_rows by_size two_rows_painted two_symbols (Some \<lparr>st_column = ColChangePercent, st_direction = Desc\<rparr>)", auto)
qed

text \<open>Opening COMI then shows it at +10%, below EAST at +5%, under "Biggest rise first".\<close>

theorem opening_breaks_ranking_witness:
  "\<exists>b :: board_sort. bo_sortState b = Some \<lparr>st_column = ColChangePercent, st_direction = Desc\<rparr> \<and>
     (\<exists>a d. bo_sorted b = Inr [a, d] \<and> board_figure ColChangePercent (bo_paced b) a < board_figure ColChangePercent (bo_paced b) d)"
proof -
  define b where "b = sort_run by_size (mount_sort two_row_board two_symbols) two_row_events"
  obtain rows where rows: "bo_sorted b = Inr rows" "map sd_symbol rows = [''EAST'', ''COMI'']"
  proof -
    have "sort_in_step by_size b" unfolding b_def by (rule sort_run_in_step [OF sort_mounts two_rows_left_to_beat])
    then have s: "bo_sorted b = sorted_rows by_size two_rows_painted two_symbols (Some \<lparr>st_column = ColChangePercent, st_direction = Desc\<rparr>)"
      by (simp add: sort_in_step_def board_rank_def b_def two_rows_run two_rows_painted_def)
    show ?thesis using two_rows_views(3) that
      by (cases "sorted_rows by_size two_rows_painted two_symbols (Some \<lparr>st_column = ColChangePercent, st_direction = Desc\<rparr>)") (auto simp: s)
  qed
  then obtain a d where ad: "rows = [a, d]" "sd_symbol a = ''EAST''" "sd_symbol d = ''COMI''" by (auto simp: map_eq_Cons_conv)
  have p: "bo_paced b = two_rows_painted" "bo_sortState b = Some \<lparr>st_column = ColChangePercent, st_direction = Desc\<rparr>"
    by (simp_all add: b_def two_rows_run two_rows_painted_def)
  obtain v where v: "getSymbolSnapshot ''COMI'' (pv_store two_rows_painted) = Some v" "sv_changePercent v = Fin 10"
    using two_rows_views(2) by auto
  have w: "jget (pv_entries two_rows_painted) ''COMI'' \<noteq> None" by code_simp
  have f: "board_figure ColChangePercent two_rows_painted a < 10"
    using two_rows_views(1) by (auto simp: board_figure_def ad(2))
  have s: "bo_sorted b = Inr ([] @ a # [] @ d # [])" by (simp add: rows(1) ad(1))
  have n: "sd_symbol a \<noteq> sd_symbol d" by (simp add: ad)
  have e: "jget (pv_entries (bo_paced b)) (sd_symbol d) \<noteq> None" "getSymbolSnapshot (sd_symbol d) (pv_store (bo_paced b)) = Some v"
    "board_figure ColChangePercent (bo_paced b) a < 10" using w v(1) f by (simp_all add: p(1) ad(3))
  have "bo_sortState (sort_do by_size b (SortPaced (PvFlush (sd_symbol d)))) = bo_sortState b"
    by (simp add: sort_paced_def case_prod_unfold Let_def)
  then show ?thesis using opening_breaks_ranking [OF s n e(1, 2) v(2) e(3), of by_size] p(2) s
    by - (rule exI [of _ "sort_do by_size b (SortPaced (PvFlush (sd_symbol d)))"], auto)
qed

end
