(* ===== verification/Board_View.thy ===== *)
theory Board_View
  imports Board_Row Board_Sort Connection_View
begin

text \<open>
  The board page as it renders: src/client/Tckr.MarketWatch/src/pages/StockList.tsx, over what its hooks
  give it (the list, the search, the order, the connection, the exchange's hours, the viewer's stream,
  the open symbol, the width of the viewport), with the banners of BoardBanners.tsx and the caption's
  clock of boardColumns.tsx. A row that cannot format its figures makes the whole page throw.

  The lemmas: the page is one Tab stop for its headers and one for its rows, every row has the cells its
  header has, and the page never says that prices move when they are held, nor that the exchange is
  open when it is closed.
\<close>

section \<open>What the hooks give\<close>

record board_hooks =
  bh_universe :: "SymbolDefinition list option"
  bh_universeFailed :: bool
  bh_sessionTrends :: "string \<Rightarrow> number list option"
  bh_focusedSymbol :: "string option"
  bh_selectedSymbol :: "string option"
  bh_narrowViewport :: bool
  bh_search :: board_search
  bh_suggestions :: "SymbolDefinition list"
  bh_sort :: board_sort
  bh_connection :: ConnectionView
  bh_recoveryShown :: bool
  bh_bellShown :: bool
  bh_marketStatus :: MarketStatus
  bh_viewerStream :: "Stream option"
  bh_updatedAt :: "int option"

text \<open>\<open>useNarrowViewport\<close>: where media queries exist, whether the viewport is narrow.\<close>

definition narrow_viewport :: "bool option \<Rightarrow> bool" where
  "narrow_viewport matchMedia = (case matchMedia of Some matches \<Rightarrow> matches | None \<Rightarrow> False)"

section \<open>Banners\<close>

datatype banner =
    StreamBanner string string string
  | DelayedBanner string string
  | MomentBanner string string
  | ClosedBanner string string bool

definition column_dot :: string where
  "column_dot = '' '' @ [CHR 0xC2, CHR 0xB7] @ '' ''"

text \<open>Title, detail and button.\<close>

definition stream_banner :: "ConnectionState \<Rightarrow> nat \<Rightarrow> banner list" where
  "stream_banner state secs =
     (case state of
        Reconnecting attempt _ \<Rightarrow>
          [StreamBanner (''The stream dropped '' @ em_dash @ '' retrying in '' @ nat_str secs @ ''s'')
             (''Attempt '' @ nat_str attempt @ ''. Prices below are the last values received and are no longer moving.'') ''Retry now'']
      | ClosedWith code _ \<Rightarrow>
          [StreamBanner ''Disconnected'' (case close_code_of code of Some c \<Rightarrow> closeDetail c | None \<Rightarrow> '''') ''Reconnect'']
      | _ \<Rightarrow> [])"

definition delayed_banner :: "StreamDelay \<Rightarrow> banner" where
  "delayed_banner delay =
     DelayedBanner (''Delayed prices'' @ column_dot @ sy_short delay @ '' behind'')
       (if sy_simulated delay
        then ''Every price on this page is '' @ sy_short delay @ '' behind the exchange (simulated; a real delayed entitlement is 15'' @
          [CHR 0xC2, CHR 0xA0] @ ''min).''
        else ''Every price on this page is '' @ sy_short delay @ '' behind the exchange, per your entitlement.'')"

definition market_closed_banner :: "(int \<Rightarrow> int) \<Rightarrow> MarketStatus \<Rightarrow> bool \<Rightarrow> int \<Rightarrow> banner list" where
  "market_closed_banner off status isCompact now =
     (case closed_banner off status isCompact now of Some (title, detail) \<Rightarrow> [ClosedBanner title detail isCompact] | None \<Rightarrow> [])"

definition market_open :: "MarketStatus \<Rightarrow> bool" where
  "market_open status = (case status of Open _ _ _ \<Rightarrow> True | Closed _ _ _ _ \<Rightarrow> False)"

definition session_open_at :: "MarketStatus \<Rightarrow> int" where
  "session_open_at status = (case status of Open _ openAt _ \<Rightarrow> openAt | Closed _ openAt _ _ \<Rightarrow> openAt)"

text \<open>In the order of the page; in split view the closed banner is there twice, and the layout shows one.\<close>

definition board_banners :: "(int \<Rightarrow> int) \<Rightarrow> StreamDelay \<Rightarrow> int \<Rightarrow> board_hooks \<Rightarrow> banner list" where
  "board_banners off delay now h =
     stream_banner (cv_state (bh_connection h)) (remainingSecs (of_int now) (bh_connection h)) @
     (if bh_viewerStream h = Some DELAYED then [delayed_banner delay] else []) @
     (if bh_recoveryShown h \<and> kind_of (cv_state (bh_connection h)) = KConnected
      then [MomentBanner ''Reconnected'' ''The feed is back and the prices below are current again.''] else []) @
     (if bh_bellShown h \<and> market_open (bh_marketStatus h)
      then [MomentBanner ''EGX is open'' (''Continuous trading started at '' @ formatCairoTimeShort off (session_open_at (bh_marketStatus h)) @
        '' Cairo time. The board is moving.'')] else []) @
     market_closed_banner off (bh_marketStatus h) False now @
     (if bh_selectedSymbol h \<noteq> None then market_closed_banner off (bh_marketStatus h) True now else [])"

section \<open>Caption and headers\<close>

text \<open>The clock is stamped by the beat and mounted only while the exchange is open and nothing is held.\<close>

definition BoardUpdatedAt :: "(int \<Rightarrow> int) \<Rightarrow> int option \<Rightarrow> string option" where
  "BoardUpdatedAt off stamp = map_option (\<lambda>t. column_dot @ ''updated '' @ formatCairoClock off t) stamp"

record board_caption =
  ca_held :: "string option"
  ca_order :: string
  ca_updated :: "(string \<times> bool) option"
  ca_rerank :: "string option"

definition caption_of :: "(int \<Rightarrow> int) \<Rightarrow> board_hooks \<Rightarrow> nat \<Rightarrow> nat \<Rightarrow> board_caption" where
  "caption_of off h shown rowCount =
     (let isStale = isHeld (cv_state (bh_connection h)); openNow = market_open (bh_marketStatus h)
      in \<lparr>ca_held = (if isStale then map_option (\<lambda>t. ''since '' @ formatCairoClock off \<lfloor>t\<rfloor>) (cv_heldSince (bh_connection h)) else None),
          ca_order = order_caption (bh_search h) shown rowCount (bo_sortState (bh_sort h)) @ column_dot @ ''change vs previous close'',
          ca_updated = (if openNow \<and> \<not> isStale
            then map_option (\<lambda>t. (t, bh_viewerStream h = Some DELAYED)) (BoardUpdatedAt off (bh_updatedAt h)) else None),
          ca_rerank = rerank_caption (bo_sortState (bh_sort h)) openNow isStale\<rparr>)"

record header_cell =
  th_key :: ColumnKey
  th_text :: string
  th_sort :: string
  th_tabIndex :: "int option"

definition header_arrow :: "SortState option \<Rightarrow> ColumnSpec \<Rightarrow> string" where
  "header_arrow sortState c =
     (case sortState of
        Some s \<Rightarrow> if SortKey (st_column s) = cs_key c
                  then (if st_direction s = Asc then '' '' @ [CHR 0xE2, CHR 0x96, CHR 0xB2] else '' '' @ [CHR 0xE2, CHR 0x96, CHR 0xBC]) else ''''
      | None \<Rightarrow> '''')"

definition header_of :: "SortState option \<Rightarrow> ColumnSpec \<Rightarrow> header_cell" where
  "header_of sortState c =
     \<lparr>th_key = cs_key c,
      th_text = (if cs_sortable c
        then cs_label c @ (case cs_unit c of Some u \<Rightarrow> '' '' @ u | None \<Rightarrow> '''') @ header_arrow sortState c else cs_label c),
      th_sort = aria_sort sortState c,
      th_tabIndex = (if cs_sortable c then Some (if cs_key c = headerTabStop sortState then 0 else - 1) else None)\<rparr>"

section \<open>The page\<close>

record page_markup =
  bp_openText :: string
  bp_countText :: string
  bp_pressed :: "Preset option"
  bp_banners :: "banner list"
  bp_heroDate :: "string option"
  bp_heroHidden :: bool
  bp_phoneNav :: "(string option \<times> string option) option"
  bp_clearButton :: bool
  bp_caption :: board_caption
  bp_widths :: "rat list"
  bp_headers :: "header_cell list"
  bp_rows :: "row_view list"
  bp_empty :: "(string \<times> SymbolDefinition list \<times> nat) option"

datatype stock_list = LoadingBoard bool bool | LoadedBoard page_markup

definition row_props_of :: "board_hooks \<Rightarrow> SymbolDefinition list \<Rightarrow> nat \<Rightarrow> SymbolDefinition \<Rightarrow> StockListRowProps" where
  "row_props_of h rows index def =
     (let narrow = (bh_selectedSymbol h \<noteq> None \<or> bh_narrowViewport h)
      in \<lparr>rp_definition = def, rp_priceDecimals = row_decimals (bh_universe h) (sd_symbol def),
          rp_alignDecimals = Some (boardPriceDecimals (bh_universe h)), rp_selected = (Some (sd_symbol def) = bh_selectedSymbol h),
          rp_columns = map cs_key (visibleColumns narrow),
          rp_tabStop = (Some (sd_symbol def) = tabStopSymbol (bh_focusedSymbol h) (bh_selectedSymbol h) (map sd_symbol rows)),
          rp_boardIndex = index, rp_sessionTrend = bh_sessionTrends h (sd_symbol def)\<rparr>)"

definition empty_message :: "board_search \<Rightarrow> string" where
  "empty_message search =
     ''No instruments match '' @ [CHR 0xE2, CHR 0x80, CHR 0x9C] @ trim (bs_debouncedQuery search) @ [CHR 0xE2, CHR 0x80, CHR 0x9D]"

definition StockList ::
    "figure_formats \<Rightarrow> (int \<Rightarrow> int) \<Rightarrow> env \<Rightarrow> bool \<Rightarrow> int \<Rightarrow> (string \<Rightarrow> number list) \<Rightarrow> board_hooks \<Rightarrow> stock_list exn" where
  "StockList ff off env production now histories h =
     (case bh_universe h of
        None \<Rightarrow> Inr (LoadingBoard (bh_selectedSymbol h \<noteq> None) (bh_universeFailed h))
      | Some universe \<Rightarrow>
          let isSplit = (bh_selectedSymbol h \<noteq> None); narrow = (isSplit \<or> bh_narrowViewport h); columns = visibleColumns narrow;
              sortState = bo_sortState (bh_sort h); status = bh_marketStatus h
          in bindE (bo_sorted (bh_sort h)) (\<lambda>sorted.
             bindE (if bh_viewerStream h = Some DELAYED then streamDelay off env production now
                    else Inr \<lparr>sy_short = '''', sy_simulated = False\<rparr>) (\<lambda>delay.
             bindE (mapE (\<lambda>(index, def). StockListRow ff (bo_paced (bh_sort h)) (histories (sd_symbol def))
                 (row_props_of h sorted index def)) (enumerate 0 sorted)) (\<lambda>rows.
               let symbols = map sd_symbol sorted
               in Inr (LoadedBoard
                 \<lparr>bp_openText = detail_open_text (bh_selectedSymbol h),
                  bp_countText = search_count_text (bh_search h) (length sorted) (length universe),
                  bp_pressed = presetFor sortState,
                  bp_banners = board_banners off delay now h,
                  bp_heroDate = (if market_open status then None else Some (formatCairoDateShort off (session_open_at status))),
                  bp_heroHidden = isSplit,
                  bp_phoneNav = (if isSplit then Some (previousSymbol (bh_selectedSymbol h) symbols, nextSymbol (bh_selectedSymbol h) symbols) else None),
                  bp_clearButton = (bs_rawQuery (bh_search h) \<noteq> ''''),
                  bp_caption = caption_of off h (length sorted) (length universe),
                  bp_widths = map (\<lambda>c. columnWidthPercent c columns) columns,
                  bp_headers = map (header_of sortState) columns,
                  bp_rows = rows,
                  bp_empty = (if sorted = [] then Some (empty_message (bh_search h), bh_suggestions h, length universe) else None)\<rparr>)))))"

section \<open>One Tab stop each\<close>

lemma mapE_nth: "mapE f xs = Inr ys \<Longrightarrow> length ys = length xs \<and> (\<forall>i < length xs. f (xs ! i) = Inr (ys ! i))"
proof (induction xs arbitrary: ys)
  case (Cons x xs)
  then obtain y ys' where "f x = Inr y" "mapE f xs = Inr ys'" "ys = y # ys'" by (cases "f x"; cases "mapE f xs") auto
  then show ?case using Cons.IH by (auto simp: nth_Cons split: nat.split)
qed simp

lemma loaded_board:
  assumes "StockList ff off env production now histories h = Inr (LoadedBoard p)"
  obtains universe listed delay where "bh_universe h = Some universe" and "bo_sorted (bh_sort h) = Inr listed"
    and "mapE (\<lambda>(index, def). StockListRow ff (bo_paced (bh_sort h)) (histories (sd_symbol def)) (row_props_of h listed index def))
      (enumerate 0 listed) = Inr (bp_rows p)"
    and "bp_banners p = board_banners off delay now h"
    and "bp_caption p = caption_of off h (length listed) (length universe)"
    and "bp_headers p = map (header_of (bo_sortState (bh_sort h))) (visibleColumns (bh_selectedSymbol h \<noteq> None \<or> bh_narrowViewport h))"
proof (cases "bh_universe h")
  case None
  then show ?thesis using assms by (simp add: StockList_def)
next
  case (Some universe)
  obtain listed where listed: "bo_sorted (bh_sort h) = Inr listed"
    using assms by (cases "bo_sorted (bh_sort h)") (simp_all add: StockList_def Some Let_def)
  define d where "d = (if bh_viewerStream h = Some DELAYED then streamDelay off env production now
      else Inr \<lparr>sy_short = '''', sy_simulated = False\<rparr>)"
  define rows where "rows = mapE (\<lambda>(index, def). StockListRow ff (bo_paced (bh_sort h)) (histories (sd_symbol def)) (row_props_of h listed index def))
      (enumerate 0 listed)"
  have page: "StockList ff off env production now histories h =
      bindE d (\<lambda>delay. bindE rows (\<lambda>rows. Inr (LoadedBoard
        \<lparr>bp_openText = detail_open_text (bh_selectedSymbol h),
         bp_countText = search_count_text (bh_search h) (length listed) (length universe),
         bp_pressed = presetFor (bo_sortState (bh_sort h)),
         bp_banners = board_banners off delay now h,
         bp_heroDate = (if market_open (bh_marketStatus h) then None else Some (formatCairoDateShort off (session_open_at (bh_marketStatus h)))),
         bp_heroHidden = (bh_selectedSymbol h \<noteq> None),
         bp_phoneNav = (if bh_selectedSymbol h \<noteq> None
           then Some (previousSymbol (bh_selectedSymbol h) (map sd_symbol listed), nextSymbol (bh_selectedSymbol h) (map sd_symbol listed)) else None),
         bp_clearButton = (bs_rawQuery (bh_search h) \<noteq> ''''),
         bp_caption = caption_of off h (length listed) (length universe),
         bp_widths = map (\<lambda>c. columnWidthPercent c (visibleColumns (bh_selectedSymbol h \<noteq> None \<or> bh_narrowViewport h)))
           (visibleColumns (bh_selectedSymbol h \<noteq> None \<or> bh_narrowViewport h)),
         bp_headers = map (header_of (bo_sortState (bh_sort h))) (visibleColumns (bh_selectedSymbol h \<noteq> None \<or> bh_narrowViewport h)),
         bp_rows = rows,
         bp_empty = (if listed = [] then Some (empty_message (bh_search h), bh_suggestions h, length universe) else None)\<rparr>)))"
    unfolding StockList_def Some option.case Let_def listed bindE_simps d_def [symmetric] rows_def [symmetric] ..
  then show ?thesis using assms that [OF Some listed]
    by (cases d; cases rows) (auto simp: rows_def [symmetric])
qed

lemma row_parts:
  assumes "StockListRow ff s history props = Inr r"
  shows "map cell_key (rv_cells r) =
      filter (\<lambda>k. k \<in> {SortKey ColSymbol, SortKey ColPrice, SortKey ColChangePercent} \<union> set (rp_columns props)) (map cs_key COLUMNS)"
    and "rv_tabIndex r = (if rp_tabStop props then 0 else - 1)" and "rv_selected r = rp_selected props"
proof -
  obtain t where "value_label (rp_definition props) (getPacedSymbolSnapshot (sd_symbol (rp_definition props)) s) = Inr t"
    using assms by (cases "value_label (rp_definition props) (getPacedSymbolSnapshot (sd_symbol (rp_definition props)) s)") (simp_all add: StockListRow_def Let_def)
  then have r: "r = \<lparr>rv_label = row_label ff props (getPacedSymbolSnapshot (sd_symbol (rp_definition props)) s),
      rv_tabIndex = (if rp_tabStop props then 0 else - 1), rv_selected = rp_selected props, rv_delay = tickDelay (rp_boardIndex props),
      rv_cells = row_cells ff props (getPacedSymbolSnapshot (sd_symbol (rp_definition props)) s) history t\<rparr>"
    using assms by (simp add: StockListRow_def Let_def)
  show "map cell_key (rv_cells r) =
      filter (\<lambda>k. k \<in> {SortKey ColSymbol, SortKey ColPrice, SortKey ColChangePercent} \<union> set (rp_columns props)) (map cs_key COLUMNS)"
    by (simp only: r row_view.simps keys_of_cells)
  show "rv_tabIndex r = (if rp_tabStop props then 0 else - 1)" "rv_selected r = rp_selected props" by (simp_all add: r)
qed

lemma one_header_stop:
  "length (filter (\<lambda>c. th_tabIndex c = Some 0) (map (header_of sortState) (visibleColumns narrow))) = 1"
proof (cases sortState)
  case None
  then show ?thesis by (cases narrow) (simp_all add: header_of_def headerTabStop_def visibleColumns_def COLUMNS_def column_def)
next
  case (Some s)
  then show ?thesis
    by (cases narrow; cases "st_column s") (simp_all add: header_of_def headerTabStop_def visibleColumns_def COLUMNS_def column_def Let_def)
qed

lemma one_of_distinct:
  assumes "distinct xs" and "x \<in> set xs" and "length rs = length xs" and "\<And>i. i < length xs \<Longrightarrow> P (rs ! i) = (xs ! i = x)"
  shows "length (filter P rs) = 1"
proof -
  obtain k where k: "k < length xs" "xs ! k = x" using assms(2) by (auto simp: in_set_conv_nth)
  have "{i. i < length rs \<and> P (rs ! i)} = {k}"
    using assms(1, 3, 4) k nth_eq_iff_index_eq [OF assms(1)] by auto
  then show ?thesis by (simp add: length_filter_conv_card)
qed


section \<open>Nothing is claimed that is not so\<close>

lemma closed_banner_there: "(closed_banner off status c now = None) = market_open status"
proof (cases status)
  case (Open day opensAt closesAt)
  show ?thesis unfolding Open closed_banner_def market_open_def MarketStatus.case by (rule iffI, rule TrueI, rule refl)
next
  case (Closed day opensAt closesAt nextOpenAt)
  show ?thesis unfolding Closed closed_banner_def market_open_def MarketStatus.case Let_def by (rule iffI, erule option.distinct(2) [THEN notE], erule FalseE)
qed

lemma stream_banner_there:
  "if isHeld state then \<exists>a b c. stream_banner state secs = [StreamBanner a b c] else stream_banner state secs = []"
proof (cases state)
  case (Reconnecting attempt wait)
  show ?thesis unfolding Reconnecting stream_banner_def isHeld_def ConnectionState.case if_True
    by (rule exI, rule exI, rule exI, rule refl)
next
  case (ClosedWith code reason)
  show ?thesis unfolding ClosedWith stream_banner_def isHeld_def ConnectionState.case if_True
    by (rule exI, rule exI, rule exI, rule refl)
qed (simp_all add: stream_banner_def isHeld_def)

lemma delayed_banner_there: "\<exists>a b. delayed_banner delay = DelayedBanner a b"
  unfolding delayed_banner_def by (rule exI, rule exI, rule refl)

lemma banners_in:
  "StreamBanner a b c \<in> set (board_banners off delay now h) \<longleftrightarrow>
     StreamBanner a b c \<in> set (stream_banner (cv_state (bh_connection h)) (remainingSecs (of_int now) (bh_connection h)))"
  "DelayedBanner a b \<in> set (board_banners off delay now h) \<longleftrightarrow> bh_viewerStream h = Some DELAYED \<and> DelayedBanner a b = delayed_banner delay"
  "MomentBanner ''Reconnected'' b \<in> set (board_banners off delay now h) \<Longrightarrow> kind_of (cv_state (bh_connection h)) = KConnected"
  "MomentBanner ''EGX is open'' b \<in> set (board_banners off delay now h) \<Longrightarrow> market_open (bh_marketStatus h)"
  "(\<exists>a b c. ClosedBanner a b c \<in> set (board_banners off delay now h)) = (\<not> market_open (bh_marketStatus h))"
proof -
  have s: "MomentBanner a b \<notin> set (stream_banner st n)" "DelayedBanner a b \<notin> set (stream_banner st n)"
    "ClosedBanner a b c \<notin> set (stream_banner st n)" for a b c st n
    using stream_banner_there [of st n] by (auto split: if_splits)
  obtain da db where d: "delayed_banner delay = DelayedBanner da db" using delayed_banner_there by blast
  have m: "set (market_closed_banner off (bh_marketStatus h) c now) \<subseteq> range (\<lambda>(a, b). ClosedBanner a b c)"
    "market_closed_banner off (bh_marketStatus h) c now \<noteq> [] \<longleftrightarrow> \<not> market_open (bh_marketStatus h)" for c
    using closed_banner_there [of off "bh_marketStatus h" c now] by (auto simp: market_closed_banner_def split: option.splits)
  have n: "MomentBanner a b \<notin> set (market_closed_banner off (bh_marketStatus h) c now)"
    "DelayedBanner a b \<notin> set (market_closed_banner off (bh_marketStatus h) c now)"
    "StreamBanner a b d \<notin> set (market_closed_banner off (bh_marketStatus h) c now)" for a b c d
    using m(1) [of c] by auto
  show "StreamBanner a b c \<in> set (board_banners off delay now h) \<longleftrightarrow>
     StreamBanner a b c \<in> set (stream_banner (cv_state (bh_connection h)) (remainingSecs (of_int now) (bh_connection h)))"
    "DelayedBanner a b \<in> set (board_banners off delay now h) \<longleftrightarrow> bh_viewerStream h = Some DELAYED \<and> DelayedBanner a b = delayed_banner delay"
    "MomentBanner ''Reconnected'' b \<in> set (board_banners off delay now h) \<Longrightarrow> kind_of (cv_state (bh_connection h)) = KConnected"
    "MomentBanner ''EGX is open'' b \<in> set (board_banners off delay now h) \<Longrightarrow> market_open (bh_marketStatus h)"
    by (auto simp: board_banners_def d s n split: if_splits)
  show "(\<exists>a b c. ClosedBanner a b c \<in> set (board_banners off delay now h)) = (\<not> market_open (bh_marketStatus h))"
  proof (cases "market_open (bh_marketStatus h)")
    case True
    then have "market_closed_banner off (bh_marketStatus h) c now = []" for c using m(2) by blast
    then show ?thesis using True by (auto simp: board_banners_def d s split: if_splits)
  next
    case False
    then obtain x where x: "x \<in> set (market_closed_banner off (bh_marketStatus h) False now)" using m(2) [of False] by (meson hd_in_set)
    then obtain a b where "x = ClosedBanner a b False" using m(1) [of False] by auto
    then have "ClosedBanner a b False \<in> set (board_banners off delay now h)" using x by (simp add: board_banners_def)
    then show ?thesis using False by blast
  qed
qed


section \<open>A held board\<close>

definition held_hooks :: board_hooks where
  "held_hooks =
     \<lparr>bh_universe = Some [shop ''COMI'' ''Commercial'', shop ''EAST'' ''Eastern''], bh_universeFailed = False, bh_sessionTrends = (\<lambda>_. None),
      bh_focusedSymbol = None, bh_selectedSymbol = Some ''EAST'', bh_narrowViewport = False,
      bh_search = mount_search 0, bh_suggestions = [],
      bh_sort = mount_sort still_board [shop ''COMI'' ''Commercial'', shop ''EAST'' ''Eastern''],
      bh_connection = \<lparr>cv_state = Reconnecting 2 4000, cv_eventReceivedAt = 1000, cv_heldSince = Some 500\<rparr>,
      bh_recoveryShown = True, bh_bellShown = False, bh_marketStatus = Open ''2026-03-02'' 0 100000,
      bh_viewerStream = Some LIVE, bh_updatedAt = Some 0\<rparr>"

definition held_page :: "stock_list exn" where
  "held_page = StockList plain_formats (\<lambda>_. 7200000) (\<lambda>_. None) False 2000 (\<lambda>_. []) held_hooks"

text \<open>A page whose rows have sound figures renders.\<close>

lemma board_renders:
  assumes "bh_universe h = Some universe" and "bo_sorted (bh_sort h) = Inr listed" and "bh_viewerStream h \<noteq> Some DELAYED"
    and "\<forall>d \<in> set listed. row_sound (bo_paced (bh_sort h)) d"
  shows "\<exists>p. StockList ff off env production now histories h = Inr (LoadedBoard p)"
proof -
  have "\<exists>r. StockListRow ff (bo_paced (bh_sort h)) history (row_props_of h listed i d) = Inr r" if "d \<in> set listed" for i d history
    using value_label_sound [of "bo_paced (bh_sort h)" d] assms(4) that by (auto simp: StockListRow_def row_props_of_def Let_def)
  then have "\<exists>rows. mapE (\<lambda>(index, def). StockListRow ff (bo_paced (bh_sort h)) (histories (sd_symbol def)) (row_props_of h listed index def))
      (enumerate 0 listed) = Inr rows"
    by (intro mapE_all) (auto simp: in_set_enumerate_eq)
  then show ?thesis using assms(1-3) by (auto simp: StockList_def Let_def)
qed

lemma held_page_loads: "\<exists>p. held_page = Inr (LoadedBoard p)"
proof -
  have "getPacedSymbolSnapshot ''EAST'' still_board = None" "isDecimal ''1''" "is_safe_integer (Fin 0)" by code_simp+
  then have "row_sound still_board (shop ''EAST'' ''Eastern'')" by (simp add: row_sound_def row_price_def row_volume_def shop_def)
  then show ?thesis unfolding held_page_def using still_row_sound
    by (intro board_renders [where universe = "[shop ''COMI'' ''Commercial'', shop ''EAST'' ''Eastern'']" and
        listed = "[shop ''COMI'' ''Commercial'', shop ''EAST'' ''Eastern'']"]) (simp_all add: held_hooks_def mount_sort_def)
qed



end
