(* ===== verification/Greeting.thy ===== *)
theory Greeting
  imports Connection_View
begin

text \<open>
  The daily greeting (src/client/Tckr.MarketWatch/src/motion): what it says (greetingCopy.ts), how
  large (greetingLayout.ts), on which loads it plays (greetingSchedule.ts), and the life of its
  overlay (Greeting.tsx): the failsafe, the hand-off, the skip and the one report that it is done.
  What the animations look like is left out; that one of GSAP's timelines has completed is an event.
  Storage is a map, or absent when the browser refuses it; the viewer's time zone is an argument.

  The lemmas: it plays on the first load of each Cairo day and on no other, and its overlay reports
  that it is done once at most, and within five seconds if the animation library never comes.
\<close>

section \<open>What it says\<close>

datatype GreetingTone = ToneTrading | ToneWaiting | ToneClosed

record GreetingCopy =
  gc_salutation :: string
  gc_market :: string
  gc_tone :: GreetingTone

definition salutationFor :: "int \<Rightarrow> string" where
  "salutationFor hour =
     (if hour \<ge> 5 \<and> hour < 12 then ''Hello, early bird''
      else if hour \<ge> 12 \<and> hour < 17 then ''Hello, sunshine''
      else if hour \<ge> 17 \<and> hour < 21 then ''Hello, stargazer''
      else ''Hello, night owl'')"

definition local_hour :: "(int \<Rightarrow> int) \<Rightarrow> int \<Rightarrow> int" where
  "local_hour viewer nowMs = (nowMs + viewer nowMs) mod MS_DAY div 3600000"

definition greeting_dot :: string where
  "greeting_dot = '' '' @ [CHR 0xC2, CHR 0xB7] @ '' ''"

definition greetingCopy :: "(int \<Rightarrow> int) \<Rightarrow> (int \<Rightarrow> int) \<Rightarrow> MarketStatus \<Rightarrow> int \<Rightarrow> GreetingCopy" where
  "greetingCopy off viewer status nowMs =
     (let salutation = salutationFor (local_hour viewer nowMs)
      in case status of
           Open _ _ sessionCloseAt \<Rightarrow>
             \<lparr>gc_salutation = salutation,
              gc_market = ''EGX is trading'' @ greeting_dot @ ''closes '' @ formatCairoTimeShort off sessionCloseAt @ '' Cairo'',
              gc_tone = ToneTrading\<rparr>
         | Closed _ _ _ nextOpenAt \<Rightarrow>
             if isPreOpenAuction status nowMs then
               \<lparr>gc_salutation = salutation,
                gc_market = ''Pre-open auction'' @ greeting_dot @ ''trading starts '' @ formatCairoTimeShort off nextOpenAt @ '' Cairo'',
                gc_tone = ToneWaiting\<rparr>
             else if cairoDateKey off nextOpenAt = cairoDateKey off nowMs then
               \<lparr>gc_salutation = salutation, gc_market = ''EGX opens '' @ formatUntil (nextOpenAt - nowMs), gc_tone = ToneClosed\<rparr>
             else
               \<lparr>gc_salutation = salutation,
                gc_market = ''EGX reopens '' @ formatNextOpen off nextOpenAt (Some nowMs) @ '' Cairo'', gc_tone = ToneClosed\<rparr>)"

section \<open>How large\<close>

definition HERO_MIN :: rat where
  "HERO_MIN = 64"

definition HERO_MAX :: rat where
  "HERO_MAX = 176"

definition round_px :: "rat \<Rightarrow> int" where
  "round_px x = \<lfloor>x + 1 / 2\<rfloor>"

definition heroSizeFor :: "rat \<Rightarrow> rat \<Rightarrow> int" where
  "heroSizeFor viewportWidth viewportHeight =
     (let fitted = min (fl (viewportWidth * fl (9 / 100))) (fl (viewportHeight * fl (13 / 100)))
      in round_px (min HERO_MAX (max HERO_MIN fitted)))"

record GreetingScale =
  gs_salutationPx :: int
  gs_marketPx :: int
  gs_dotPx :: int
  gs_gapPx :: int
  gs_lineGapPx :: int
  gs_glowPx :: int

definition greetingScale :: "rat \<Rightarrow> GreetingScale" where
  "greetingScale heroPx =
     \<lparr>gs_salutationPx = round_px (max 28 (fl (heroPx * fl (36 / 100)))),
      gs_marketPx = round_px (max 12 (fl (heroPx * fl (13 / 100)))),
      gs_dotPx = round_px (max 6 (fl (heroPx * fl (6 / 100)))),
      gs_gapPx = round_px (max 20 (fl (heroPx * fl (3 / 10)))),
      gs_lineGapPx = round_px (max 10 (fl (heroPx * fl (12 / 100)))),
      gs_glowPx = round_px (fl (heroPx * fl (667 / 100)))\<rparr>"

lemma hero_bounds: "64 \<le> heroSizeFor w h \<and> heroSizeFor w h \<le> 176"
proof -
  define fitted where "fitted = min (fl (w * fl (9 / 100))) (fl (h * fl (13 / 100)))"
  define x where "x = min HERO_MAX (max HERO_MIN fitted)"
  have "64 \<le> x" "x \<le> 176" by (simp_all add: x_def HERO_MAX_def HERO_MIN_def)
  then have "64 \<le> \<lfloor>x + 1 / 2\<rfloor>" "\<lfloor>x + 1 / 2\<rfloor> \<le> 176" by linarith+
  then show ?thesis by (simp add: heroSizeFor_def Let_def round_px_def fitted_def [symmetric] x_def [symmetric])
qed

section \<open>On which loads\<close>

type_synonym local_storage = "(string \<Rightarrow> string option) option"

definition GREETING_STORAGE_KEY :: string where
  "GREETING_STORAGE_KEY = ''tckr.greeting.day''"

text \<open>\<open>replay\<close>: the URL asks for the greeting.\<close>

definition shouldGreetToday :: "(int \<Rightarrow> int) \<Rightarrow> local_storage \<Rightarrow> int \<Rightarrow> bool \<Rightarrow> bool \<Rightarrow> bool" where
  "shouldGreetToday off localStorage nowMs replay dev =
     (if dev \<and> replay then True
      else case localStorage of
        None \<Rightarrow> False
      | Some items \<Rightarrow> items GREETING_STORAGE_KEY \<noteq> Some (cairoDateKey off nowMs))"

definition markGreeted :: "(int \<Rightarrow> int) \<Rightarrow> int \<Rightarrow> local_storage \<Rightarrow> local_storage" where
  "markGreeted off nowMs localStorage =
     map_option (\<lambda>items. items(GREETING_STORAGE_KEY := Some (cairoDateKey off nowMs))) localStorage"

text \<open>A page load: when it asks and, if it greets, when the greeting starts.\<close>

fun page_loads :: "(int \<Rightarrow> int) \<Rightarrow> local_storage \<Rightarrow> (int \<times> int) list \<Rightarrow> int list" where
  "page_loads off localStorage [] = []"
| "page_loads off localStorage ((asked, started) # loads) =
     (if shouldGreetToday off localStorage asked False False
      then asked # page_loads off (markGreeted off started localStorage) loads
      else page_loads off localStorage loads)"

lemma loads_after:
  assumes "list_all (\<lambda>(asked, started). cairoDateKey off asked = cairoDateKey off started) loads"
    and "items GREETING_STORAGE_KEY = Some day"
  shows "day # map (cairoDateKey off) (page_loads off (Some items) loads) = remdups_adj (day # map (\<lambda>l. cairoDateKey off (fst l)) loads)"
  using assms
proof (induction loads arbitrary: items day)
  case (Cons l loads)
  obtain asked started where l: "l = (asked, started)" by (cases l)
  have same: "cairoDateKey off asked = cairoDateKey off started" using Cons.prems(1) l by simp
  show ?case
  proof (cases "cairoDateKey off asked = day")
    case True
    then show ?thesis using Cons.IH [where items = items and day = day] Cons.prems by (simp add: l shouldGreetToday_def)
  next
    case False
    define items' where "items' = items(GREETING_STORAGE_KEY := Some (cairoDateKey off started))"
    have "items' GREETING_STORAGE_KEY = Some (cairoDateKey off asked)" by (simp add: items'_def same)
    then show ?thesis using Cons.IH [where items = items' and day = "cairoDateKey off asked"] False Cons.prems same
      by (simp add: l shouldGreetToday_def markGreeted_def items'_def [symmetric])
  qed
qed simp

text \<open>The greeting plays on the first load of each Cairo day and on no other: over any
  sequence of page loads, in a browser that has never greeted and whose greetings start on the day
  they are decided, the days of the loads that greet are the days of the loads, each run of a day
  once. Without storage no load greets.\<close>

theorem greeted_once_a_day:
  assumes "list_all (\<lambda>(asked, started). cairoDateKey off asked = cairoDateKey off started) loads"
    and "items GREETING_STORAGE_KEY = None"
  shows "map (cairoDateKey off) (page_loads off (Some items) loads) = remdups_adj (map (\<lambda>l. cairoDateKey off (fst l)) loads) \<and>
    page_loads off None loads = []"
proof -
  have none: "page_loads off None ls = []" for ls by (induction ls) (auto simp: shouldGreetToday_def)
  show ?thesis
  proof (cases loads)
    case Nil
    then show ?thesis by simp
  next
    case (Cons l rest)
    obtain asked started where l: "l = (asked, started)" by (cases l)
    define items' where "items' = items(GREETING_STORAGE_KEY := Some (cairoDateKey off started))"
    have same: "cairoDateKey off asked = cairoDateKey off started" using assms(1) by (simp add: Cons l)
    then have "items' GREETING_STORAGE_KEY = Some (cairoDateKey off asked)" by (simp add: items'_def)
    moreover note same
    ultimately show ?thesis using loads_after [of off rest items' "cairoDateKey off asked"] assms none
      by (simp add: Cons l shouldGreetToday_def markGreeted_def items'_def [symmetric])
  qed
qed

lemma demo_days:
  "cairoDateKey (\<lambda>_. 7200000) 1772445600000 = ''2026-03-02''" "cairoDateKey (\<lambda>_. 7200000) 1772445600100 = ''2026-03-02''"
  "cairoDateKey (\<lambda>_. 7200000) 1772449200000 = ''2026-03-02''" "cairoDateKey (\<lambda>_. 7200000) 1772449200100 = ''2026-03-02''"
  "cairoDateKey (\<lambda>_. 7200000) 1772532000000 = ''2026-03-03''" "cairoDateKey (\<lambda>_. 7200000) 1772532000100 = ''2026-03-03''"
  by code_simp+

theorem greeted_once_a_day_witness:
  "map (cairoDateKey (\<lambda>_. 7200000)) (page_loads (\<lambda>_. 7200000) (Some (\<lambda>_. None))
     [(1772445600000, 1772445600100), (1772449200000, 1772449200100), (1772532000000, 1772532000100)]) = [''2026-03-02'', ''2026-03-03'']"
  using greeted_once_a_day [where off = "\<lambda>_. 7200000" and items = "\<lambda>_. None" and
      loads = "[(1772445600000, 1772445600100), (1772449200000, 1772449200100), (1772532000000, 1772532000100)]"]
  by (simp add: demo_days)

section \<open>The overlay\<close>

definition FAILSAFE_MS :: rat where
  "FAILSAFE_MS = 4500"

datatype overlay_callback = CbFailsafe | CbFinish

record overlay =
  go_reduced :: bool
  go_logoHidden :: bool
  go_cancelled :: bool
  go_finished :: bool
  go_done :: nat
  go_playing :: bool
  go_handedOff :: bool
  go_skipping :: bool
  go_faded :: bool
  go_failsafe :: nat
  go_timers :: "overlay_callback timers"

definition mount_greeting :: "bool \<Rightarrow> bool \<Rightarrow> rat \<Rightarrow> overlay" where
  "mount_greeting reduced headerLogo now =
     (let (h, tm) = setTimeout (start_timers now) CbFailsafe FAILSAFE_MS
      in \<lparr>go_reduced = reduced, go_logoHidden = (headerLogo \<and> \<not> reduced), go_cancelled = False, go_finished = False,
          go_done = 0, go_playing = False, go_handedOff = False, go_skipping = False, go_faded = False, go_failsafe = h,
          go_timers = tm\<rparr>)"

definition finish_greeting :: "overlay \<Rightarrow> overlay" where
  "finish_greeting g =
     (if go_finished g then g else g\<lparr>go_finished := True, go_logoHidden := False, go_done := go_done g + 1\<rparr>)"

definition failsafe_timer :: "nat \<Rightarrow> overlay \<Rightarrow> overlay" where
  "failsafe_timer h g =
     (case due_timer (go_timers g) h of
        None \<Rightarrow> g
      | Some (CbFailsafe, tm) \<Rightarrow> g\<lparr>go_faded := True, go_timers := snd (setTimeout tm CbFinish 500)\<rparr>
      | Some (CbFinish, tm) \<Rightarrow> finish_greeting (g\<lparr>go_timers := tm\<rparr>))"

definition motion_loaded :: "overlay \<Rightarrow> overlay" where
  "motion_loaded g =
     (if go_cancelled g then g else g\<lparr>go_timers := clearTimeout (go_timers g) (go_failsafe g), go_playing := True\<rparr>)"

definition handOff :: "overlay \<Rightarrow> overlay" where
  "handOff g = (if go_handedOff g \<or> go_cancelled g then g else g\<lparr>go_handedOff := True\<rparr>)"

text \<open>A key, a click, a tap or a scroll; its listeners are there once the introduction plays.\<close>

definition skip_greeting :: "overlay \<Rightarrow> overlay" where
  "skip_greeting g =
     (if \<not> go_playing g \<or> go_reduced g \<or> go_cancelled g \<or> go_skipping g \<or> go_handedOff g then g else g\<lparr>go_skipping := True\<rparr>)"

definition unmount_greeting :: "overlay \<Rightarrow> overlay" where
  "unmount_greeting g =
     g\<lparr>go_cancelled := True, go_timers := clearTimeout (go_timers g) (go_failsafe g), go_playing := False, go_logoHidden := False\<rparr>"

text \<open>What a timeline's completion does while its context lives: the still greeting and the hand-off end
  in \<open>finish\<close>, the introduction and its skip in the hand-off.\<close>

datatype overlay_event =
    MotionLoaded
  | IntroCompletes
  | StillCompletes
  | OutCompletes
  | ViewerActs
  | OverlayTime rat
  | OverlayTimer nat
  | OverlayLeaves

fun overlay_do :: "overlay \<Rightarrow> overlay_event \<Rightarrow> overlay" where
  "overlay_do g MotionLoaded = motion_loaded g"
| "overlay_do g IntroCompletes = (if go_playing g \<and> \<not> go_reduced g then handOff g else g)"
| "overlay_do g StillCompletes = (if go_playing g \<and> go_reduced g then finish_greeting g else g)"
| "overlay_do g OutCompletes = (if go_playing g \<and> go_handedOff g then finish_greeting g else g)"
| "overlay_do g ViewerActs = skip_greeting g"
| "overlay_do g (OverlayTime d) = g\<lparr>go_timers := advance (go_timers g) d\<rparr>"
| "overlay_do g (OverlayTimer h) = failsafe_timer h g"
| "overlay_do g OverlayLeaves = unmount_greeting g"

definition overlay_run :: "bool \<Rightarrow> bool \<Rightarrow> rat \<Rightarrow> overlay_event list \<Rightarrow> overlay" where
  "overlay_run reduced headerLogo now es = foldl overlay_do (mount_greeting reduced headerLogo now) es"

lemma reported_once: "go_done (overlay_run reduced headerLogo now es) = (if go_finished (overlay_run reduced headerLogo now es) then 1 else 0)"
proof (induction es rule: rev_induct)
  case Nil
  then show ?case by (simp add: overlay_run_def mount_greeting_def Let_def case_prod_unfold)
next
  case (snoc e es)
  define g where "g = overlay_run reduced headerLogo now es"
  have fin: "go_done (finish_greeting x) = (if go_finished (finish_greeting x) then 1 else 0)"
    if "go_done x = (if go_finished x then 1 else 0)" for x using that by (simp add: finish_greeting_def)
  have g: "go_done g = (if go_finished g then 1 else 0)" using snoc by (simp add: g_def)
  have "go_done (overlay_do g e) = (if go_finished (overlay_do g e) then 1 else 0)"
    using g by (cases e) (auto simp: motion_loaded_def handOff_def skip_greeting_def unmount_greeting_def failsafe_timer_def fin
        split: option.split overlay_callback.split)
  then show ?case by (simp add: overlay_run_def g_def)
qed

lemma failsafe_delay [simp]: "timer_delay 4500 = 4500" "timer_delay 500 = 500"
  by (simp_all add: timer_delay_small)

text \<open>Until the library comes, a timer stands between the overlay and its end: the failsafe, due when it was
  set to be, or the end of the fade, half a second after it.\<close>

definition timer_at :: "overlay_callback \<Rightarrow> rat \<Rightarrow> overlay \<Rightarrow> bool" where
  "timer_at cb limit g = (\<exists>h t. jget (tm_armed (go_timers g)) h = Some t \<and> ti_callback t = cb \<and> ti_due t \<le> limit)"

definition waits :: "rat \<Rightarrow> overlay \<Rightarrow> bool" where
  "waits start g =
     (\<not> go_playing g \<and> \<not> go_handedOff g \<and> go_done g = (if go_finished g then 1 else 0) \<and>
      (go_finished g \<or> timer_at CbFinish (tm_now (go_timers g) + 500) g \<or>
       \<not> go_faded g \<and> timer_at CbFailsafe (start + 4500) g))"

lemma waits_mount: "waits now (mount_greeting reduced headerLogo now)"
proof -
  have "timer_at CbFailsafe (now + 4500) (mount_greeting reduced headerLogo now)" unfolding timer_at_def
    by (rule exI [of _ 0]) (simp add: mount_greeting_def setTimeout_def set_timer_def start_timers_def FAILSAFE_MS_def Let_def jget_def)
  then show ?thesis by (simp add: waits_def) (simp add: mount_greeting_def Let_def case_prod_unfold)
qed

lemma waits_timer:
  assumes "waits start g"
  shows "waits start (failsafe_timer h g)"
proof (cases "due_timer (go_timers g) h")
  case (Some d)
  obtain cb tm where d: "d = (cb, tm)" by (cases d)
  have now: "tm_now tm = tm_now (go_timers g)" using Some by (auto simp: d due_timer_def split: option.splits if_splits)
  show ?thesis
  proof (cases cb)
    case CbFailsafe
    have "timer_at CbFinish (tm_now (go_timers (failsafe_timer h g)) + 500) (failsafe_timer h g)"
      by (auto simp: failsafe_timer_def Some d CbFailsafe timer_at_def setTimeout_def set_timer_def)
    then show ?thesis using assms by (simp add: waits_def failsafe_timer_def Some d CbFailsafe)
  next
    case CbFinish
    then show ?thesis using assms by (simp add: waits_def failsafe_timer_def Some d finish_greeting_def)
  qed
qed (use assms in \<open>simp add: failsafe_timer_def\<close>)

lemma waits_time: "waits start g \<Longrightarrow> 0 \<le> d \<Longrightarrow> waits start (g\<lparr>go_timers := advance (go_timers g) d\<rparr>)"
  by (fastforce simp: waits_def timer_at_def advance_def)

text \<open>Whether or not the animation library comes, the overlay reports that it is done once at most; and
  if it never comes, then whatever the viewer does and however time passes, until it has reported
  there is a timer that ends it: the failsafe, due 4.5 seconds after the mount, or the fade's end,
  due within half a second.\<close>

theorem greeting_steps_aside:
  assumes "\<forall>d. OverlayTime d \<in> set es \<longrightarrow> 0 \<le> d" and "g = overlay_run reduced headerLogo now es"
  shows "go_done g = (if go_finished g then 1 else 0) \<and>
    (MotionLoaded \<notin> set es \<and> OverlayLeaves \<notin> set es \<longrightarrow>
       go_finished g \<or> timer_at CbFinish (tm_now (go_timers g) + 500) g \<or> timer_at CbFailsafe (now + 4500) g)"
proof -
  have "waits now (overlay_run reduced headerLogo now es)" if "MotionLoaded \<notin> set es" "OverlayLeaves \<notin> set es"
    using assms(1) that
  proof (induction es rule: rev_induct)
    case (snoc e es)
    then have w: "waits now (overlay_run reduced headerLogo now es)" by simp
    have "waits now (overlay_do (overlay_run reduced headerLogo now es) e)"
      using w snoc.prems by (cases e) (simp_all add: waits_timer waits_time, simp_all add: waits_def skip_greeting_def)
    then show ?case by (simp add: overlay_run_def)
  qed (simp add: overlay_run_def waits_mount)
  then show ?thesis using reported_once [of reduced headerLogo now es] unfolding assms(2) waits_def by blast
qed

end
