(* ===== verification/App_Boot.thy ===== *)
theory App_Boot
  imports Greeting Config Board_Row
begin

text \<open>
  How the application starts: src/client/Tckr.MarketWatch/src/main.tsx, and the frame it mounts, App.tsx,
  with its fetching of the detail pane's code ahead of time. The start is synchronous, so it happens at
  one instant; \<open>viewer\<close>-side facts (the build's environment, storage, the URL's wish to see the greeting)
  are arguments.

  The lemmas: a build either starts with a configuration its guards accept, or shows why not and
  fails loudly, never anything in between; and once the pane's code is here, opening a symbol never
  shows the skeleton again.
\<close>

section \<open>Starting\<close>

fun error_text :: "js_error \<Rightarrow> string" where
  "error_text (RangeError m) = m"
| "error_text (TypeError m) = m"
| "error_text (SyntaxError m) = m"
| "error_text (PlainError m) = m"

text \<open>What is rendered, with the clock it runs on, the line on the console and whether this load greets.\<close>

record app_start =
  as_config :: ClientConfig
  as_clock :: page_clock
  as_console :: "string option"
  as_greet :: bool

text \<open>The page has no root element, the application is rendered, or the error is shown and thrown on.\<close>

datatype app_boot = NoRoot | Rendered app_start | ConfigurationError string js_error

definition clock_line :: "int \<Rightarrow> string \<Rightarrow> string" where
  "clock_line target spec =
     ''[tckr] Simulated market clock: starting at '' @ toISOString target @ '' ('' @ spec @ ''). '' @
     ''Every time on screen follows this clock, not the real one.''"

definition start_app :: "(int \<Rightarrow> int) \<Rightarrow> env \<Rightarrow> bool \<Rightarrow> local_storage \<Rightarrow> bool \<Rightarrow> int \<Rightarrow> app_start exn" where
  "start_app off env production localStorage replay now =
     bindE (resolveClientConfig off env production no_overrides now) (\<lambda>config.
     bindE (case sc_clock (cc_simulated config) of
              None \<Rightarrow> Inr (None, None)
            | Some spec \<Rightarrow> bindE (resolveSimulatedClockTarget off spec now) (\<lambda>target.
                Inr (installSimulatedClock target now, Some (clock_line target spec)))) (\<lambda>(clock, console).
       Inr \<lparr>as_config = config, as_clock = clock, as_console = console,
         as_greet = shouldGreetToday off localStorage (date_now clock now) replay (\<not> production)\<rparr>))"

definition main_boot :: "bool \<Rightarrow> (int \<Rightarrow> int) \<Rightarrow> env \<Rightarrow> bool \<Rightarrow> local_storage \<Rightarrow> bool \<Rightarrow> int \<Rightarrow> app_boot" where
  "main_boot rootElement off env production localStorage replay now =
     (if \<not> rootElement then NoRoot
      else case start_app off env production localStorage replay now of
        Inr a \<Rightarrow> Rendered a
      | Inl err \<Rightarrow> ConfigurationError (error_text err) err)"

section \<open>The start is guarded\<close>

lemma config_accepted:
  assumes "resolveClientConfig off env production no_overrides now = Inr config"
  shows "production \<Longrightarrow> cc_source config = GatewayKind \<or> env ''VITE_TCKR_ALLOW_SIMULATED_IN_PROD'' \<in> {Some ''true'', Some ''1''}"
    and "sc_clock (cc_simulated config) = Some spec \<Longrightarrow>
      cc_source config = SimulatedKind \<and> \<not> production \<and> (\<exists>t. resolveSimulatedClockTarget off spec now = Inr t)"
proof -
  define r where "r = apply_overrides (base_config env) no_overrides"
  have k: "cc_source r = SimulatedKind \<or> cc_source r = GatewayKind" by (cases "cc_source r") simp_all
  have r: "config = r \<and> \<not> (production \<and> cc_source r = SimulatedKind \<and> \<not> readEnvFlag env ''VITE_TCKR_ALLOW_SIMULATED_IN_PROD'') \<and>
      (\<forall>spec. sc_clock (cc_simulated r) = Some spec \<longrightarrow>
        cc_source r = SimulatedKind \<and> \<not> production \<and> (\<exists>t. resolveSimulatedClockTarget off spec now = Inr t))"
    using assms by (auto simp: resolveClientConfig_def r_def [symmetric] Let_def exn_simps split: if_splits option.splits)
  have flag: "readEnvFlag env ''VITE_TCKR_ALLOW_SIMULATED_IN_PROD'' \<Longrightarrow>
      env ''VITE_TCKR_ALLOW_SIMULATED_IN_PROD'' \<in> {Some ''true'', Some ''1''}"
    by (auto simp: readEnvFlag_def readEnvString_def split: option.splits if_splits)
  show "production \<Longrightarrow> cc_source config = GatewayKind \<or> env ''VITE_TCKR_ALLOW_SIMULATED_IN_PROD'' \<in> {Some ''true'', Some ''1''}"
    using r k flag by auto
  show "sc_clock (cc_simulated config) = Some spec \<Longrightarrow>
      cc_source config = SimulatedKind \<and> \<not> production \<and> (\<exists>t. resolveSimulatedClockTarget off spec now = Inr t)"
    using r by auto
qed

text \<open>Claim C25: the application either starts as configured or says why not. With a root element the
  start fails exactly when the configuration is refused, and then that refusal is what the page shows and
  what is thrown on; nothing is rendered. If it starts: in production its source is the gateway or the
  opt-in flag was exactly true or 1, and the page's clock is the real one; a development clock reads
  its target now, over the simulator only; and the greeting is decided on the day of that clock.\<close>

theorem boot_is_guarded:
  assumes "b = main_boot True off env production localStorage replay now"
  shows "(\<forall>m e. b = ConfigurationError m e \<longleftrightarrow>
      resolveClientConfig off env production no_overrides now = Inl e \<and> m = error_text e) \<and>
    (\<forall>a. b = Rendered a \<longrightarrow>
      resolveClientConfig off env production no_overrides now = Inr (as_config a) \<and>
      (production \<longrightarrow> (cc_source (as_config a) = GatewayKind \<or> env ''VITE_TCKR_ALLOW_SIMULATED_IN_PROD'' \<in> {Some ''true'', Some ''1''}) \<and>
         as_clock a = None) \<and>
      (case sc_clock (cc_simulated (as_config a)) of
         None \<Rightarrow> as_clock a = None
       | Some spec \<Rightarrow> cc_source (as_config a) = SimulatedKind \<and>
           resolveSimulatedClockTarget off spec now = Inr (date_now (as_clock a) now)) \<and>
      as_greet a = shouldGreetToday off localStorage (date_now (as_clock a) now) replay (\<not> production)) \<and>
    b \<noteq> NoRoot"
proof (cases "resolveClientConfig off env production no_overrides now")
  case (Inl e)
  then show ?thesis by (auto simp: assms main_boot_def start_app_def)
next
  case (Inr config)
  note accepted = config_accepted [OF Inr]
  show ?thesis
  proof (cases "sc_clock (cc_simulated config)")
    case None
    then have "start_app off env production localStorage replay now =
        Inr \<lparr>as_config = config, as_clock = None, as_console = None,
          as_greet = shouldGreetToday off localStorage now replay (\<not> production)\<rparr>"
      by (simp add: start_app_def Inr date_now_def)
    then show ?thesis using accepted(1) by (simp add: assms main_boot_def Inr None date_now_def)
  next
    case (Some spec)
    then obtain target where t: "resolveSimulatedClockTarget off spec now = Inr target" using accepted(2) by blast
    have "start_app off env production localStorage replay now =
        Inr \<lparr>as_config = config, as_clock = Some (target - now), as_console = Some (clock_line target spec),
          as_greet = shouldGreetToday off localStorage target replay (\<not> production)\<rparr>"
      by (simp add: start_app_def Inr Some t installSimulatedClock_def date_now_def)
    then show ?thesis using accepted(2) [OF Some] Inr
      by (simp add: assms main_boot_def Some t date_now_def)
  qed
qed

theorem boot_is_guarded_witness:
  "\<exists>a. main_boot True egypt_2026 staging_env True None False 0 = Rendered a \<and> as_clock a = None \<and>
     staging_env ''VITE_TCKR_ALLOW_SIMULATED_IN_PROD'' = Some ''1'' \<and>
     (\<exists>m e. main_boot True egypt_2026 (\<lambda>_. None) True None False 0 = ConfigurationError m e)"
proof -
  have "case resolveClientConfig egypt_2026 staging_env True no_overrides 0 of Inr _ \<Rightarrow> True | Inl _ \<Rightarrow> False"
    "case resolveClientConfig egypt_2026 (\<lambda>_. None) True no_overrides 0 of Inr _ \<Rightarrow> False | Inl _ \<Rightarrow> True" by code_simp+
  then obtain cfg e where r: "resolveClientConfig egypt_2026 staging_env True no_overrides 0 = Inr cfg"
      "resolveClientConfig egypt_2026 (\<lambda>_. None) True no_overrides 0 = Inl e" by (auto split: sum.splits)
  note staged = boot_is_guarded [OF refl, of egypt_2026 staging_env True None False 0]
  obtain a where a: "main_boot True egypt_2026 staging_env True None False 0 = Rendered a"
    using staged r(1) by (cases "main_boot True egypt_2026 staging_env True None False 0") auto
  have "main_boot True egypt_2026 (\<lambda>_. None) True None False 0 = ConfigurationError (error_text e) e"
    using boot_is_guarded [OF refl, of egypt_2026 "\<lambda>_. None" True None False 0] r(2) by simp
  then show ?thesis using staged a by (auto simp: staging_env_def)
qed

section \<open>The detail pane's code\<close>

text \<open>The chunk is fetched when the page is idle (after two seconds where the browser cannot say), or when
  a symbol is opened first; \<open>import\<close> fetches it once. A pane opened before it is here is its skeleton.\<close>

datatype prefetch_callback = CbPrefetch

record detail_chunk =
  dk_loaded :: bool
  dk_requested :: bool
  dk_idle :: bool
  dk_handle :: "nat option"
  dk_timers :: "prefetch_callback timers"

definition usePrefetchStockDetail :: "bool \<Rightarrow> rat \<Rightarrow> detail_chunk" where
  "usePrefetchStockDetail requestIdleCallback now =
     (if requestIdleCallback then
        \<lparr>dk_loaded = False, dk_requested = False, dk_idle = True, dk_handle = None, dk_timers = start_timers now\<rparr>
      else let (h, tm) = setTimeout (start_timers now) CbPrefetch 2000
           in \<lparr>dk_loaded = False, dk_requested = False, dk_idle = False, dk_handle = Some h, dk_timers = tm\<rparr>)"

definition loadStockDetail :: "detail_chunk \<Rightarrow> detail_chunk" where
  "loadStockDetail d = d\<lparr>dk_requested := True\<rparr>"

definition stop_prefetch :: "detail_chunk \<Rightarrow> detail_chunk" where
  "stop_prefetch d = d\<lparr>dk_idle := False, dk_handle := None, dk_timers := clear_handle (dk_timers d) (dk_handle d)\<rparr>"

text \<open>Whether a route that opens a symbol shows the pane at once, and what rendering it asks for.\<close>

definition StockDetailRoute :: "detail_chunk \<Rightarrow> bool \<times> detail_chunk" where
  "StockDetailRoute d = (dk_loaded d, if dk_loaded d then d else loadStockDetail d)"

datatype chunk_event = IdleRuns | PrefetchTime rat | PrefetchTimer nat | ChunkArrives | SymbolOpened | FrameLeaves

fun chunk_do :: "detail_chunk \<Rightarrow> chunk_event \<Rightarrow> detail_chunk" where
  "chunk_do d IdleRuns = (if dk_idle d then loadStockDetail (d\<lparr>dk_idle := False\<rparr>) else d)"
| "chunk_do d (PrefetchTime t) = d\<lparr>dk_timers := advance (dk_timers d) t\<rparr>"
| "chunk_do d (PrefetchTimer h) =
     (case due_timer (dk_timers d) h of None \<Rightarrow> d | Some (_, tm) \<Rightarrow> loadStockDetail (d\<lparr>dk_timers := tm\<rparr>))"
| "chunk_do d ChunkArrives = (if dk_requested d then d\<lparr>dk_loaded := True\<rparr> else d)"
| "chunk_do d SymbolOpened = snd (StockDetailRoute d)"
| "chunk_do d FrameLeaves = stop_prefetch d"

text \<open>Once the chunk is here no later opening shows the skeleton, and it is here only because it was asked for.\<close>

lemma chunk_stays:
  assumes "dk_loaded d"
  shows "fst (StockDetailRoute (foldl chunk_do d es))"
proof -
  have "dk_loaded (chunk_do d e)" if "dk_loaded d" for d e
    using that by (cases e) (auto simp: loadStockDetail_def stop_prefetch_def StockDetailRoute_def split: option.split)
  then have "dk_loaded (foldl chunk_do d es)" using assms by (induction es arbitrary: d) simp_all
  then show ?thesis by (simp add: StockDetailRoute_def)
qed

lemma chunk_asked_for:
  "dk_loaded (foldl chunk_do (usePrefetchStockDetail idle now) es) \<longrightarrow> dk_requested (foldl chunk_do (usePrefetchStockDetail idle now) es)"
proof (induction es rule: rev_induct)
  case (snoc e es)
  have "(dk_loaded d \<longrightarrow> dk_requested d) \<Longrightarrow> (dk_loaded (chunk_do d e) \<longrightarrow> dk_requested (chunk_do d e))" for d
    by (cases e) (auto simp: loadStockDetail_def stop_prefetch_def StockDetailRoute_def split: option.split)
  then show ?case using snoc.IH by simp
qed (simp add: usePrefetchStockDetail_def Let_def case_prod_unfold)

section \<open>The frame\<close>

text \<open>Only a plain left click on the logo is intercepted; an old link is sent to its new path.\<close>

definition handleLogoClick :: "int \<Rightarrow> bool \<Rightarrow> bool \<Rightarrow> bool \<Rightarrow> bool \<Rightarrow> string option" where
  "handleLogoClick button metaKey ctrlKey shiftKey altKey =
     (if button \<noteq> 0 \<or> metaKey \<or> ctrlKey \<or> shiftKey \<or> altKey then None else Some ''/'')"

definition LegacySymbolRedirect :: "string option \<Rightarrow> string" where
  "LegacySymbolRedirect symbol = (case symbol of Some s \<Rightarrow> if s \<noteq> [] then symbolPath s else ''/'' | None \<Rightarrow> ''/'')"

text \<open>The greeting is over the page from the start until it reports that it is done.\<close>

definition app_greeting :: "bool \<Rightarrow> nat \<Rightarrow> bool" where
  "app_greeting greet dones = (greet \<and> dones = 0)"

end
