(* ===== verification/View_Transition.thy ===== *)
theory View_Transition
  imports Js_Timers "HOL-Library.Multiset"
begin

text \<open>
  How the page navigates: src/client/Tckr.MarketWatch/src/components/viewTransition.ts, transitionScope.ts and
  useViewTransitionNavigate.ts. Where the browser can animate the change it is given an update to run
  when it is ready, and holds the page still until the update's promise resolves; the promise resolves when
  the new location is committed, or after a timeout. Every promise has a number.

  The state is that of one component that uses the hook, with the browser.

  The lemmas: every navigation that is asked for is made once or still waits, and no promise stays
  unresolved for longer than the timeout, so the page never hangs in a transition.
\<close>

section \<open>State\<close>

definition COMMIT_TIMEOUT_MS :: rat where
  "COMMIT_TIMEOUT_MS = 400"

datatype transition_callback = CbResolve nat

text \<open>The updates the browser has not run yet, the ref \<open>resolveCommitted\<close>, the promises made and resolved, and
  the calls of the router's \<open>navigate\<close>.\<close>

record transitions =
  vt_queue :: "(string \<times> bool) list"
  vt_resolveCommitted :: "nat option"
  vt_promises :: nat
  vt_resolved :: "nat list"
  vt_navigated :: "(string \<times> bool) list"
  vt_timers :: "transition_callback timers"

definition no_transitions :: "rat \<Rightarrow> transitions" where
  "no_transitions now = \<lparr>vt_queue = [], vt_resolveCommitted = None, vt_promises = 0, vt_resolved = [], vt_navigated = [],
     vt_timers = start_timers now\<rparr>"

text \<open>What the document or the scope element offers, and the user's preference at that moment.\<close>

datatype transition_root = ScopeElement bool | WholeDocument bool

definition resolveScope :: "bool option \<Rightarrow> bool \<Rightarrow> transition_root" where
  "resolveScope scope document_can = (case scope of Some element_can \<Rightarrow> ScopeElement element_can | None \<Rightarrow> WholeDocument document_can)"

fun can_start :: "transition_root \<Rightarrow> bool" where
  "can_start (ScopeElement can) = can"
| "can_start (WholeDocument can) = can"

section \<open>Navigating\<close>

text \<open>The update: a new promise, its timeout, and the router's navigation.\<close>

definition run_update :: "string \<times> bool \<Rightarrow> transitions \<Rightarrow> transitions" where
  "run_update target v =
     (let n = vt_promises v; (h, tm) = setTimeout (vt_timers v) (CbResolve n) COMMIT_TIMEOUT_MS
      in v\<lparr>vt_promises := n + 1, vt_resolveCommitted := Some n, vt_timers := tm, vt_navigated := vt_navigated v @ [target]\<rparr>)"

definition runViewTransition :: "transition_root \<Rightarrow> bool \<Rightarrow> string \<times> bool \<Rightarrow> transitions \<Rightarrow> transitions" where
  "runViewTransition place reducedMotion target v =
     (if \<not> can_start place \<or> reducedMotion then run_update target v else v\<lparr>vt_queue := vt_queue v @ [target]\<rparr>)"

definition resolve_promise :: "nat \<Rightarrow> transitions \<Rightarrow> transitions" where
  "resolve_promise n v = (if n \<in> set (vt_resolved v) then v else v\<lparr>vt_resolved := vt_resolved v @ [n]\<rparr>)"

text \<open>The layout effect of the first render that sees another location.\<close>

definition location_committed :: "transitions \<Rightarrow> transitions" where
  "location_committed v =
     (case vt_resolveCommitted v of None \<Rightarrow> v | Some n \<Rightarrow> (resolve_promise n v)\<lparr>vt_resolveCommitted := None\<rparr>)"

datatype transition_event =
    Navigate transition_root bool "string \<times> bool" | BrowserReady | LocationCommitted | TransitionTime rat | TransitionTimer nat

fun transition_do :: "transitions \<Rightarrow> transition_event \<Rightarrow> transitions" where
  "transition_do v (Navigate place reduced target) = runViewTransition place reduced target v"
| "transition_do v BrowserReady =
     (case vt_queue v of [] \<Rightarrow> v | target # rest \<Rightarrow> run_update target (v\<lparr>vt_queue := rest\<rparr>))"
| "transition_do v LocationCommitted = location_committed v"
| "transition_do v (TransitionTime d) = v\<lparr>vt_timers := advance (vt_timers v) d\<rparr>"
| "transition_do v (TransitionTimer h) =
     (case due_timer (vt_timers v) h of None \<Rightarrow> v | Some (CbResolve n, tm) \<Rightarrow> resolve_promise n (v\<lparr>vt_timers := tm\<rparr>))"

definition transition_run :: "rat \<Rightarrow> transition_event list \<Rightarrow> transitions" where
  "transition_run now es = foldl transition_do (no_transitions now) es"

section \<open>The page never hangs\<close>

text \<open>A promise that is not resolved has its timer armed, due within the timeout.\<close>

definition held_bounded :: "transitions \<Rightarrow> bool" where
  "held_bounded v =
     (timers_ok (vt_timers v) \<and>
      (\<forall>n < vt_promises v. n \<notin> set (vt_resolved v) \<longrightarrow>
        (\<exists>h t. jget (tm_armed (vt_timers v)) h = Some t \<and> ti_callback t = CbResolve n \<and> ti_every t = None \<and>
          ti_due t \<le> tm_now (vt_timers v) + COMMIT_TIMEOUT_MS)))"

lemma delay_400 [simp]: "timer_delay COMMIT_TIMEOUT_MS = COMMIT_TIMEOUT_MS"
  by (simp add: COMMIT_TIMEOUT_MS_def timer_delay_small)

lemma bounded_update: "held_bounded v \<Longrightarrow> held_bounded (run_update target v)"
proof -
  assume v: "held_bounded v"
  define k where "k = tm_next (vt_timers v)"
  have fresh: "jget (tm_armed (vt_timers v)) k = None" using v timers_ok_fresh [of "vt_timers v"] by (simp add: held_bounded_def k_def)
  have "\<exists>h t. jget (tm_armed (vt_timers (run_update target v))) h = Some t \<and> ti_callback t = CbResolve n \<and> ti_every t = None \<and>
      ti_due t \<le> tm_now (vt_timers (run_update target v)) + COMMIT_TIMEOUT_MS"
    if n: "n < vt_promises (run_update target v)" "n \<notin> set (vt_resolved (run_update target v))" for n
  proof (cases "n = vt_promises v")
    case True
    then show ?thesis by (intro exI [of _ k]) (simp add: run_update_def Let_def case_prod_unfold k_def)
  next
    case False
    then have "n < vt_promises v" "n \<notin> set (vt_resolved v)" using n by (simp_all add: run_update_def Let_def case_prod_unfold)
    then obtain h t where h: "jget (tm_armed (vt_timers v)) h = Some t" "ti_callback t = CbResolve n" "ti_every t = None"
        "ti_due t \<le> tm_now (vt_timers v) + COMMIT_TIMEOUT_MS" using v unfolding held_bounded_def by blast
    then have "h \<noteq> k" using fresh by auto
    then show ?thesis using h by (intro exI [of _ h] exI [of _ t]) (simp add: run_update_def Let_def case_prod_unfold k_def)
  qed
  moreover have "timers_ok (vt_timers (run_update target v))"
    using v by (simp add: held_bounded_def run_update_def Let_def case_prod_unfold setTimeout_def)
  ultimately show ?thesis unfolding held_bounded_def by blast
qed

lemma resolve_fields [simp]:
  "vt_timers (resolve_promise n v) = vt_timers v" "vt_promises (resolve_promise n v) = vt_promises v"
  "set (vt_resolved (resolve_promise n v)) = insert n (set (vt_resolved v))" "vt_queue (resolve_promise n v) = vt_queue v"
  "vt_navigated (resolve_promise n v) = vt_navigated v"
  by (auto simp: resolve_promise_def)

lemma bounded_step:
  assumes "held_bounded v"
  shows "held_bounded (transition_do v e)"
proof (cases e)
  case (Navigate place reduced target)
  then show ?thesis using assms by (auto simp: runViewTransition_def bounded_update) (simp add: held_bounded_def)
next
  case BrowserReady
  have "held_bounded (v\<lparr>vt_queue := q\<rparr>)" for q using assms by (simp add: held_bounded_def)
  then show ?thesis using assms bounded_update by (simp add: BrowserReady split: list.split)
next
  case LocationCommitted
  then show ?thesis using assms by (auto simp: location_committed_def held_bounded_def split: option.split)
next
  case (TransitionTime d)
  then show ?thesis using assms by (fastforce simp: TransitionTime held_bounded_def advance_def timers_ok_def)
next
  case (TransitionTimer h)
  show ?thesis
  proof (cases "due_timer (vt_timers v) h")
    case None
    then show ?thesis using assms by (simp add: TransitionTimer)
  next
    case (Some r)
    obtain t where t: "jget (tm_armed (vt_timers v)) h = Some t" "fst r = ti_callback t"
        "snd r = (case ti_every t of None \<Rightarrow> clearTimeout (vt_timers v) h
           | Some p \<Rightarrow> vt_timers v\<lparr>tm_armed := jset h (t\<lparr>ti_due := tm_now (vt_timers v) + timer_delay p\<rparr>) (tm_armed (vt_timers v))\<rparr>)"
      using Some by (auto simp: due_timer_def split: option.splits if_splits)
    obtain n where n: "ti_callback t = CbResolve n" by (cases "ti_callback t")
    have ok: "timers_ok (snd r)" using assms t by (auto simp: held_bounded_def timers_ok_def split: option.splits)
    have "\<exists>k t'. jget (tm_armed (snd r)) k = Some t' \<and> ti_callback t' = CbResolve m \<and> ti_every t' = None \<and>
        ti_due t' \<le> tm_now (snd r) + COMMIT_TIMEOUT_MS"
      if m: "m < vt_promises v" "m \<notin> set (vt_resolved v)" "m \<noteq> n" for m
    proof -
      obtain k t' where k: "jget (tm_armed (vt_timers v)) k = Some t'" "ti_callback t' = CbResolve m" "ti_every t' = None"
          "ti_due t' \<le> tm_now (vt_timers v) + COMMIT_TIMEOUT_MS" using assms m unfolding held_bounded_def by blast
      then have "k \<noteq> h" using t(1) n m(3) by auto
      then show ?thesis using k t(3) by (intro exI [of _ k] exI [of _ t']) (simp split: option.split)
    qed
    then show ?thesis using ok by (cases r) (auto simp: TransitionTimer Some t(2) [symmetric] n held_bounded_def, (use t n in auto)?)
  qed
qed

definition asked_for :: "transition_event list \<Rightarrow> (string \<times> bool) list" where
  "asked_for es = concat (map (\<lambda>e. case e of Navigate _ _ target \<Rightarrow> [target] | _ \<Rightarrow> []) es)"

lemma asked_for_simps [simp]:
  "asked_for [] = []" "asked_for (Navigate p r t # es) = t # asked_for es" "asked_for (BrowserReady # es) = asked_for es"
  "asked_for (LocationCommitted # es) = asked_for es" "asked_for (TransitionTime d # es) = asked_for es"
  "asked_for (TransitionTimer h # es) = asked_for es"
  by (simp_all add: asked_for_def)

lemma update_navigates [simp]:
  "vt_navigated (run_update target v) = vt_navigated v @ [target]" "vt_queue (run_update target v) = vt_queue v"
  by (simp_all add: run_update_def Let_def case_prod_unfold)

lemma bounded_run: "held_bounded v \<Longrightarrow> held_bounded (foldl transition_do v es)"
  by (induction es arbitrary: v) (simp_all add: bounded_step)

lemma bounded_start [simp]: "held_bounded (no_transitions now)"
  by (simp add: held_bounded_def no_transitions_def)

lemma navigates_step:
  "mset (vt_navigated (transition_do v e)) + mset (vt_queue (transition_do v e)) =
    mset (vt_navigated v) + mset (vt_queue v) + mset (asked_for [e])"
proof (cases e)
  case (TransitionTimer h)
  then show ?thesis by (auto split: option.split transition_callback.split)
qed (auto simp: runViewTransition_def location_committed_def split: option.split list.split)

lemma asked_for_Cons: "asked_for (e # es) = asked_for [e] @ asked_for es"
  by (simp add: asked_for_def)

lemma navigates_run:
  "mset (vt_navigated (foldl transition_do v es)) + mset (vt_queue (foldl transition_do v es)) =
    mset (vt_navigated v) + mset (vt_queue v) + mset (asked_for es)"
  by (induction es arbitrary: v) (simp, metis (no_types, lifting) asked_for_Cons foldl_Cons mset_append navigates_step union_assoc)

text \<open>Claim C37: Every navigation that was asked for has reached the router or waits for the browser to be ready, and
  none is lost or made twice. No promise the browser holds the page for outlives the timeout: 400 ms after any
  moment every promise of that moment is resolved, or its own timer is due and resolves it when it runs, even when
  the navigation never commits another location.\<close>

theorem navigation_never_hangs:
  "mset (vt_navigated (transition_run now es)) + mset (vt_queue (transition_run now es)) = mset (asked_for es) \<and>
   (\<forall>n < vt_promises (transition_run now es). \<exists>h.
      n \<in> set (vt_resolved (transition_do (transition_do (transition_run now es) (TransitionTime COMMIT_TIMEOUT_MS)) (TransitionTimer h))))"
proof
  define v where "v = transition_run now es"
  show "mset (vt_navigated (transition_run now es)) + mset (vt_queue (transition_run now es)) = mset (asked_for es)"
    using navigates_run [of "no_transitions now" es] by (simp add: transition_run_def no_transitions_def)
  have v: "held_bounded v" by (simp add: v_def transition_run_def bounded_run)
  have "\<exists>h. n \<in> set (vt_resolved (transition_do (transition_do v (TransitionTime COMMIT_TIMEOUT_MS)) (TransitionTimer h)))"
    if n: "n < vt_promises v" for n
  proof (cases "n \<in> set (vt_resolved v)")
    case True
    then show ?thesis by (intro exI [of _ 0]) (simp split: option.split transition_callback.split)
  next
    case False
    then obtain h t where t: "jget (tm_armed (vt_timers v)) h = Some t" "ti_callback t = CbResolve n" "ti_every t = None"
        "ti_due t \<le> tm_now (vt_timers v) + COMMIT_TIMEOUT_MS" using v n unfolding held_bounded_def by blast
    have "0 \<le> COMMIT_TIMEOUT_MS" by (simp add: COMMIT_TIMEOUT_MS_def)
    then show ?thesis using t by (intro exI [of _ h]) (simp add: due_timer_def advance_def)
  qed
  then show "\<forall>n < vt_promises (transition_run now es). \<exists>h.
      n \<in> set (vt_resolved (transition_do (transition_do (transition_run now es) (TransitionTime COMMIT_TIMEOUT_MS)) (TransitionTimer h)))"
    by (simp add: v_def)
qed

text \<open>A navigation to the current location commits nothing, and its promise is resolved by the timer alone.\<close>

theorem navigation_never_hangs_witness:
  "vt_resolved (transition_run 0 [Navigate (WholeDocument True) False (''/'', False), BrowserReady, LocationCommitted]) = [0] \<and>
   (\<exists>h. 0 \<in> set (vt_resolved (transition_do (transition_do (transition_run 0
      [Navigate (WholeDocument True) False (''/'', False), BrowserReady]) (TransitionTime COMMIT_TIMEOUT_MS)) (TransitionTimer h))))"
proof
  show "vt_resolved (transition_run 0 [Navigate (WholeDocument True) False (''/'', False), BrowserReady, LocationCommitted]) = [0]"
    by (simp add: transition_run_def no_transitions_def runViewTransition_def run_update_def location_committed_def resolve_promise_def
      case_prod_unfold Let_def)
  have "(0::nat) < vt_promises (transition_run 0 [Navigate (WholeDocument True) False (''/'', False), BrowserReady])"
    by (simp add: transition_run_def no_transitions_def runViewTransition_def run_update_def case_prod_unfold Let_def)
  then show "\<exists>h. 0 \<in> set (vt_resolved (transition_do (transition_do (transition_run 0
      [Navigate (WholeDocument True) False (''/'', False), BrowserReady]) (TransitionTime COMMIT_TIMEOUT_MS)) (TransitionTimer h)))"
    using navigation_never_hangs [of 0 "[Navigate (WholeDocument True) False (''/'', False), BrowserReady]"] by blast
qed

end
