(* ===== verification/Spec2Isabelle.thy ===== *)
theory Spec2Isabelle
  imports Shared_Source Gateway_Faults Board_Page Market_Hours Detail_Page Header_Status Theme Hero_Panel Board_View App_Boot View_Transition
begin

text \<open>
  Verification library of the Tckr market-watch client: the TypeScript under
  src/client/Tckr.MarketWatch/src, a single-page React application that shows the Egyptian
  exchange's (EGX) prices live. File names below are relative to that directory.

  \<^bold>\<open>The program.\<close> A market data source delivers a list of instruments, snapshots, histories and a
  stream of trades. There are two: the gateway source speaks to a server over a WebSocket and REST,
  the simulated source invents a market inside the browser and keeps EGX's hours. The application
  has one of them at a time (data/config.ts). Trades go through a dispatcher, which keeps the newest
  of each symbol until the next animation frame, into the store; the board does not read the store
  directly but views of it that are painted on a ten-second beat of the wall clock. A user is
  entitled to the LIVE or the DELAYED stream, and may be moved from one to the other at any time,
  when everything of the old stream has to go. The board lists all instruments (sorted, searched,
  with highlight cards over it); a route opens one instrument in a pane beside it, with a quote of
  its own and a chart. Prices are decimal texts and are never computed in binary floating point.

  \<^bold>\<open>How it is modelled.\<close> Every module, class or hook is a record of its variables, and every function,
  handler, timer callback or effect that changes them is a definition from record to record; an
  exception is a value of the sum type \<open>exn\<close>, or a branch of the caller that catches it. What the
  program cannot see coming (a message, an answer, a timer that is due, a frame, a click, the
  passing of time) is an event, and a run is any list of events, so the theorems about runs cover
  every interleaving of them. What it does to the outside (sockets, requests, handlers called) is a
  list in the state. The handlers of one event run to their end, as they do in the browser.

  \<^bold>\<open>Language and run time.\<close>
  \<^item> Prelude: insertion-ordered maps and sets, the exception type, shared lemmas and hints.
  \<^item> Js_Number, Json, Number_Text: doubles as rationals rounded to 53 bits with the two infinities and
    NaN (comparison, sum, difference, integers), the text of a number, and JSON's parser and printer.
  \<^item> Js_Text, Js_Date, Js_Sort: texts, the calendar of days, and the stable sort over a comparison
    (locale \<open>comparator\<close>).
  \<^item> Js_Timers: the timers of the event loop, with the 32-bit wrap of their delay, and what it means
    for a client to hold the handle of each of its timers.

  \<^bold>\<open>Contracts and data.\<close>
  \<^item> Decimal (contracts/decimal.ts): decimal texts scaled by 10000; exactness, rounding, compact
    figures; locale \<open>price_arithmetic\<close>.
  \<^item> Messages (contracts/messages.ts, rest.ts, closeCodes.ts): the wire's records, their validation and
    the serializer of outbound messages.
  \<^item> Calendar (data/marketCalendar.ts) and Simulated_Clock (data/simulatedClock.ts): the trading
    calendar and Cairo's clock over any time zone data that meet \<open>cairo_zone\<close>, and the development clock.
  \<^item> Reconnect (data/reconnect.ts): the backoff and the heartbeat watchdog, as a step relation too.
  \<^item> Store (data/store.ts) and Dispatcher (data/TickDispatcher.ts): the store as a refinement of a
    sheet of quotes, and the proof that coalescing is invisible, for any sink that meets the locale
    \<open>tick_sink\<close>.
  \<^item> Config, Shared_Source (data/config.ts): the configuration with its production guards; the one
    source of the application, over the locale \<open>retrying_source\<close> that both sources meet.
  \<^item> Market_Source (data/MarketDataSource.ts): what a source has in common.
  \<^item> Gateway_Rest, Gateway (data/TckrGatewaySource.ts): the connection, its authentication, the
    outbound queue and its throttle, retries, pings, REST; Gateway_Traffic (what is sent, when, and
    that no request is lost), Gateway_Timers (no timer is lost track of, and disconnecting is final)
    and Gateway_Faults (three runs that end where the code does not mean to).
  \<^item> Simulated_Engine, Simulated_Walk, Simulated, Simulated_Session (data/SimulatedSource.ts): the
    generator on 32-bit words, the walk of a price, the class and its sessions; figures stay ordered
    and on the tick grid, and the tape runs exactly in the exchange's hours.

  \<^bold>\<open>Display.\<close>
  \<^item> Paced_Views (display/pacedViews.ts, throttle.ts): the painted views and their beat; Beat_Memo: what
    a component computes from them and keeps until the next beat. Its locale \<open>painted_reader\<close> is
    interpreted on the board's order and on the highlight cards' picks.
  \<^item> Ring_Buffer (chart/ringBuffer.ts, chartSeed.ts), Chart_Axes (chart/axes.ts, chartScale.ts),
    Chart_Ranges (pages/chartRanges.ts), Price_Chart (chart/PriceChart.tsx, chartOverlays.ts): the
    chart's buffer as a bounded log, its labels, its windows, and the chart with its sampling; every
    number it prints was given to it.
  \<^item> Price_Landing (components/RollingText.tsx, PriceCell.tsx): how a changed figure lands.
  \<^item> Connection_View (components/useConnectionState.ts, pages/BoardBanners.tsx, display/formatUntil.ts,
    components/streamDelay.ts), Header_Status (components/ConnectionStatus.tsx, StreamBadge.tsx) and
    Market_Hours (components/useMarketStatus.ts): what the pages say of the connection, the stream
    and the exchange's hours.
  \<^item> Greeting (motion/greeting*.ts, Greeting.tsx), Theme (theme/theme.ts, useTheme.ts) and
    View_Transition (components/viewTransition.ts, transitionScope.ts, useViewTransitionNavigate.ts).

  \<^bold>\<open>Pages.\<close>
  \<^item> Board_Search (pages/closestInstruments.ts, useBoardSearch.ts), Board_Table (pages/boardColumns.tsx,
    useBoundedSparkline.ts, components/deltaTone.ts) with Board_Sort (pages/useBoardSort.ts), Hero_Cards
    with Hero_Panel (pages/HeroCards.tsx), Board_Keys (pages/StockList.tsx, useBoardKeyboard.ts): search,
    order, highlights and keys of the board.
  \<^item> Board_Row (pages/StockListRow.tsx, display/percent.ts, pages/routes.ts) and Board_View
    (pages/StockList.tsx, BoardBanners.tsx): what a row and the page render, over what the hooks give.
  \<^item> Detail_Quote (pages/detailQuote.ts, useDetailQuote.ts): the pane's quote; Detail_Page
    (pages/StockDetail.tsx): the pane with its chart.
  \<^item> Board_Page (pages/useBoardUniverse.ts): the board and the pane on one shared source, whose way of
    following symbols is the locale \<open>followed_symbols\<close>, interpreted on both sources.
  \<^item> App_Boot (main.tsx, App.tsx): the guarded start, and the code of the pane fetched ahead of time.

  \<^bold>\<open>What the lemmas show.\<close> Each theory names its own; the claims, C1 and on, are spread over them. The
  main lines: arithmetic is exact or refused; a message is accepted only if it is well formed; the
  store, the dispatcher, the buffer and the tape refine what they promise; timers and requests are
  never lost; figures on show were really received, in order, for the symbol and stream on show; and
  the places where the code falls short of that are theorems as well (the pane that silences a row,
  the retry that orphans a connection, the tick and the history that outlive their stream, the opened
  symbol whose card and rank contradict its figure).

  \<^bold>\<open>Bounds.\<close> Nothing runs on fuel. Loops are structural or come with their termination proof; the one
  loop of the source that may run on (the time axis, for an increment that is not whole) is a
  partial function, \<open>None\<close> if it does not end, and is proved to end where it is used.
  Word-sized values are those of the generator (32 bits) and of timer delays. Capacities, periods and
  thresholds are the source's constants, under their names.

  \<^bold>\<open>Parameters.\<close> What is not code of the repository is an argument: the engine's time zone data, the
  browser's collation and number formats, its storage and media queries, random numbers, \<open>Math.pow\<close>,
  the data file of instruments, the build's environment; what is relied on of them is a named
  hypothesis with an instance (\<open>cairo_zone\<close>, \<open>comparator\<close>).

  \<^bold>\<open>Not modelled.\<close> The class names, icons and layout of the components (pages/boardChrome.tsx,
  detailChrome.tsx, components/icons.tsx, the skeletons); the charting canvas (its options, colours and
  geometry: chart/chartOptions.ts, chartColors.ts, chartGeometry.ts); GSAP's loading and timelines and what
  depends on measured positions of elements (motion/motion.ts, useLogoHover.ts, FormingCandle.tsx,
  ScrambleWord.tsx, pages/useRowReorderGlide.ts). They hold no state that the modelled parts read,
  and their correctness is a matter of pixels. A fetch of the pane's code that fails (App.tsx) is left
  out as well: what follows is the framework's. Tests, fixtures, scripts and the servers in C# are
  outside the client.
\<close>

end
